(* ===== verification/Prelude.thy ===== *)
theory Prelude
  imports Main "HOL-Library.Char_ord" "HOL-Library.List_Lexorder"
begin

text \<open>
  What every component shares.

  \<^item> \<open>err\<close>: Go's error values. The program distinguishes errors only through
    \<open>errors.As\<close> and \<open>errors.Is\<close> on the types of \<open>cmgr/errors.go\<close>, so an error keeps its
    wrapping structure (\<open>fmt.Errorf\<close> with a \<open>w\<close> verb, \<open>errors.Join\<close>, the typed wrappers) and a
    short tag in place of the formatted text.
  \<^item> Fallible results are \<open>err + 'a\<close>; stateful code is a function from a state to a result and
    the state it leaves behind, composed by \<open>bnd\<close> (stop at the first error, keep the state
    reached, as an early \<open>return err\<close> does).
  \<^item> Lemma collections: \<open>result_simps\<close> evaluates the combinators, \<open>frame\<close> collects the facts
    that an operation leaves some part of its state alone.
  \<^item> List lemmas that several components use.
\<close>

named_theorems result_simps "evaluation of the result combinators"
named_theorems frame "what an operation does not touch"

section \<open>Errors\<close>

datatype err =
    Plain string
  | UnknownIdentifierError string string
  | InvalidInputError err
  | ConflictError err
  | Wrap string err
  | Join "err list"

text \<open>
  \<open>errors.As\<close> walks the tree of wrapped errors in depth-first order; whether it succeeds for
  one of the three types only depends on whether such a node occurs. An unknown identifier
  has no \<open>Unwrap\<close>, so the walk ends there.
\<close>

fun as_unknown :: "err \<Rightarrow> bool" where
  "as_unknown (Plain _) = False"
| "as_unknown (UnknownIdentifierError _ _) = True"
| "as_unknown (InvalidInputError e) = as_unknown e"
| "as_unknown (ConflictError e) = as_unknown e"
| "as_unknown (Wrap _ e) = as_unknown e"
| "as_unknown (Join es) = list_ex as_unknown es"

fun as_invalid :: "err \<Rightarrow> bool" where
  "as_invalid (Plain _) = False"
| "as_invalid (UnknownIdentifierError _ _) = False"
| "as_invalid (InvalidInputError e) = True"
| "as_invalid (ConflictError e) = as_invalid e"
| "as_invalid (Wrap _ e) = as_invalid e"
| "as_invalid (Join es) = list_ex as_invalid es"

fun as_conflict :: "err \<Rightarrow> bool" where
  "as_conflict (Plain _) = False"
| "as_conflict (UnknownIdentifierError _ _) = False"
| "as_conflict (InvalidInputError e) = as_conflict e"
| "as_conflict (ConflictError e) = True"
| "as_conflict (Wrap _ e) = as_conflict e"
| "as_conflict (Join es) = list_ex as_conflict es"

text \<open>\<open>invalidInput\<close> marks an error as the caller's fault, once.\<close>

definition invalidInput :: "err \<Rightarrow> err" where
  "invalidInput e = (if as_invalid e then e else InvalidInputError e)"

text \<open>\<open>errors.Join\<close> drops nil errors and is nil when nothing is left.\<close>

definition join_errors :: "err list \<Rightarrow> err option" where
  "join_errors es = (if es = [] then None else Some (Join es))"

lemma as_invalid_invalidInput [simp]: "as_invalid (invalidInput e)"
  by (simp add: invalidInput_def)

lemma as_unknown_invalidInput [simp]: "as_unknown (invalidInput e) = as_unknown e"
  by (simp add: invalidInput_def)

lemma invalidInput_idem: "invalidInput (invalidInput e) = invalidInput e"
  by (simp add: invalidInput_def)

section \<open>Results and state\<close>

type_synonym ('s, 'a) act = "'s \<Rightarrow> (err + 'a) \<times> 's"

definition ret :: "'a \<Rightarrow> ('s, 'a) act" where
  "ret x s = (Inr x, s)"

definition raise :: "err \<Rightarrow> ('s, 'a) act" where
  "raise e s = (Inl e, s)"

definition bnd :: "('s, 'a) act \<Rightarrow> ('a \<Rightarrow> ('s, 'b) act) \<Rightarrow> ('s, 'b) act" where
  "bnd m f s = (case m s of (Inl e, s') \<Rightarrow> (Inl e, s') | (Inr x, s') \<Rightarrow> f x s')"

text \<open>\<open>map_err\<close> is \<open>return fmt.Errorf(..., err)\<close> on the error branch.\<close>

definition map_err :: "(err \<Rightarrow> err) \<Rightarrow> ('s, 'a) act \<Rightarrow> ('s, 'a) act" where
  "map_err g m s = (case m s of (Inl e, s') \<Rightarrow> (Inl (g e), s') | (Inr x, s') \<Rightarrow> (Inr x, s'))"

text \<open>A loop that returns at the first error.\<close>

fun each :: "('a \<Rightarrow> ('s, unit) act) \<Rightarrow> 'a list \<Rightarrow> ('s, unit) act" where
  "each f [] = ret ()"
| "each f (x # xs) = bnd (f x) (\<lambda>_. each f xs)"

text \<open>A loop that appends errors to a list and goes on.\<close>

fun each_collect :: "('a \<Rightarrow> ('s, unit) act) \<Rightarrow> 'a list \<Rightarrow> 's \<Rightarrow> err list \<times> 's" where
  "each_collect f [] s = ([], s)"
| "each_collect f (x # xs) s =
     (case f x s of
        (Inl e, s') \<Rightarrow> (case each_collect f xs s' of (es, s'') \<Rightarrow> (e # es, s''))
      | (Inr _, s') \<Rightarrow> each_collect f xs s')"

lemma ret_apply [simp, result_simps]: "ret x s = (Inr x, s)"
  by (simp add: ret_def)

lemma raise_apply [simp, result_simps]: "raise e s = (Inl e, s)"
  by (simp add: raise_def)

lemma bnd_Inr [result_simps]: "m s = (Inr x, s') \<Longrightarrow> bnd m f s = f x s'"
  by (simp add: bnd_def)

lemma bnd_Inl [result_simps]: "m s = (Inl e, s') \<Longrightarrow> bnd m f s = (Inl e, s')"
  by (simp add: bnd_def)

lemma bnd_ret [simp, result_simps]: "bnd (ret x) f = f x"
  by (rule ext) (simp add: bnd_def)

lemma bnd_raise [simp, result_simps]: "bnd (raise e) f = raise e"
  by (rule ext) (simp add: bnd_def)

lemma bnd_InrE:
  assumes "bnd m f s = (Inr y, s')"
  obtains x s1 where "m s = (Inr x, s1)" "f x s1 = (Inr y, s')"
  using assms by (auto simp: bnd_def split: prod.splits sum.splits)

lemma bnd_InlE:
  assumes "bnd m f s = (Inl e, s')"
  obtains (first) "m s = (Inl e, s')"
    | (second) x s1 where "m s = (Inr x, s1)" "f x s1 = (Inl e, s')"
  using assms by (auto simp: bnd_def split: prod.splits sum.splits)

lemma map_err_Inr_iff [simp]: "map_err g m s = (Inr x, s') \<longleftrightarrow> m s = (Inr x, s')"
  by (auto simp: map_err_def split: prod.splits sum.splits)

lemma map_err_InlE:
  assumes "map_err g m s = (Inl e, s')"
  obtains e0 where "m s = (Inl e0, s')" "e = g e0"
  using assms by (auto simp: map_err_def split: prod.splits sum.splits)

lemma snd_map_err [simp]: "snd (map_err g m s) = snd (m s)"
  by (auto simp: map_err_def split: prod.splits sum.splits)

text \<open>
  What every step of a loop keeps, the loop keeps: the induction behind most of the
  invariant proofs of the components.
\<close>

lemma bnd_preserves:
  assumes "P s" "\<And>s. P s \<Longrightarrow> P (snd (m s))" "\<And>x s. P s \<Longrightarrow> P (snd (f x s))"
  shows "P (snd (bnd m f s))"
proof (cases "m s")
  case (Pair r s1)
  have "P s1" using assms(1) assms(2) [of s] Pair by simp
  then show ?thesis using assms(3) Pair by (cases r) (simp_all add: bnd_def)
qed

lemma each_preserves:
  assumes "P s" "\<And>x s. x \<in> set xs \<Longrightarrow> P s \<Longrightarrow> P (snd (f x s))"
  shows "P (snd (each f xs s))"
  using assms
proof (induction xs arbitrary: s)
  case Nil
  then show ?case by simp
next
  case (Cons x xs)
  have "P (snd (f x s))" using Cons.prems by simp
  then show ?case
    by (cases "f x s"; cases "fst (f x s)") (auto simp: bnd_def Cons.IH Cons.prems(2))
qed

lemma each_Inr_preserves:
  assumes "each f xs s = (Inr u, s')" "P s"
    "\<And>x s u s'. x \<in> set xs \<Longrightarrow> f x s = (Inr u, s') \<Longrightarrow> P s \<Longrightarrow> P s'"
  shows "P s'"
  using assms
proof (induction xs arbitrary: s)
  case (Cons x xs)
  obtain s1 where s1: "f x s = (Inr (), s1)" "each f xs s1 = (Inr u, s')"
    using Cons.prems(1) by (auto elim: bnd_InrE)
  have "P s1" using Cons.prems(2,3) s1(1) by (meson list.set_intros(1))
  then show ?case using Cons.IH [OF s1(2)] Cons.prems(3) by (meson list.set_intros(2))
qed simp

lemma each_collect_preserves:
  assumes "P s" "\<And>x s. x \<in> set xs \<Longrightarrow> P s \<Longrightarrow> P (snd (f x s))"
  shows "P (snd (each_collect f xs s))"
  using assms
proof (induction xs arbitrary: s)
  case Nil
  then show ?case by simp
next
  case (Cons x xs)
  have "P (snd (f x s))" using Cons.prems by simp
  then have "P (snd (each_collect f xs (snd (f x s))))"
    using Cons.IH Cons.prems(2) by simp
  then show ?case
    by (cases "f x s") (auto split: sum.splits prod.splits)
qed

section \<open>Lists\<close>

lemma filter_eq_Nil_iff: "filter P xs = [] \<longleftrightarrow> (\<forall>x \<in> set xs. \<not> P x)"
  by (simp add: filter_empty_conv)

lemma distinct_map_filter [intro]: "distinct (map f xs) \<Longrightarrow> distinct (map f (filter P xs))"
  by (induction xs) auto

lemma map_update_distinct:
  "(\<And>x. k (g x) = k x) \<Longrightarrow> map k (map (\<lambda>x. if P x then g x else x) xs) = map k xs"
  by (induction xs) auto

end
