(* ===== verification/GoText.thy ===== *)
theory GoText
  imports Prelude
begin

text \<open>
  The string operations of Go's standard library that the program uses (packages \<open>strings\<close>,
  \<open>strconv\<close>, \<open>path\<close> and \<open>path/filepath\<close> on a slash-separated system). A Go string is a byte
  sequence; here it is a \<open>string\<close>, one \<open>char\<close> per byte.
\<close>

section \<open>Prefixes, suffixes, substrings\<close>

fun HasPrefix :: "string \<Rightarrow> string \<Rightarrow> bool" where
  "HasPrefix s [] = True"
| "HasPrefix [] (p # ps) = False"
| "HasPrefix (c # s) (p # ps) = (c = p \<and> HasPrefix s ps)"

definition CutPrefix :: "string \<Rightarrow> string \<Rightarrow> string option" where
  "CutPrefix s p = (if HasPrefix s p then Some (drop (length p) s) else None)"

definition TrimPrefix :: "string \<Rightarrow> string \<Rightarrow> string" where
  "TrimPrefix s p = (if HasPrefix s p then drop (length p) s else s)"

definition HasSuffix :: "string \<Rightarrow> string \<Rightarrow> bool" where
  "HasSuffix s p = HasPrefix (rev s) (rev p)"

definition TrimSuffix :: "string \<Rightarrow> string \<Rightarrow> string" where
  "TrimSuffix s p = (if HasSuffix s p then take (length s - length p) s else s)"

text \<open>Non-overlapping occurrences, as \<open>strings.Count\<close>; the program only counts non-empty patterns.\<close>

fun Count :: "string \<Rightarrow> string \<Rightarrow> nat" where
  "Count [] p = 0"
| "Count (c # s) p =
     (if HasPrefix (c # s) p then Suc (Count (drop (length p - 1) s) p) else Count s p)"

fun Contains :: "string \<Rightarrow> string \<Rightarrow> bool" where
  "Contains [] p = (p = [])"
| "Contains (c # s) p = (HasPrefix (c # s) p \<or> Contains s p)"

lemma HasPrefix_append [simp]: "HasPrefix (p @ s) p"
  by (induction p) auto

lemma HasPrefix_iff: "HasPrefix s p \<longleftrightarrow> (\<exists>t. s = p @ t)"
  by (induction s p rule: HasPrefix.induct) auto

lemma HasPrefix_same_append [simp]: "HasPrefix (p @ s) (p @ q) = HasPrefix s q"
  by (induction p) auto

lemma CutPrefix_append [simp]: "CutPrefix (p @ s) p = Some s"
  by (simp add: CutPrefix_def)

lemma CutPrefix_Some_iff: "CutPrefix s p = Some t \<longleftrightarrow> s = p @ t"
  by (auto simp: CutPrefix_def HasPrefix_iff)

lemma TrimPrefix_append [simp]: "TrimPrefix (p @ s) p = s"
  by (simp add: TrimPrefix_def)

lemma HasSuffix_iff: "HasSuffix s p \<longleftrightarrow> (\<exists>t. s = t @ p)"
proof -
  have "HasSuffix s p \<longleftrightarrow> (\<exists>t. rev s = rev p @ t)"
    by (simp add: HasSuffix_def HasPrefix_iff)
  also have "\<dots> \<longleftrightarrow> (\<exists>t. s = t @ p)"
    by (metis rev_append rev_rev_ident)
  finally show ?thesis .
qed

lemma HasSuffix_append [simp]: "HasSuffix (s @ p) p"
  by (auto simp: HasSuffix_iff)

lemma TrimSuffix_append [simp]: "TrimSuffix (s @ p) p = s"
  by (simp add: TrimSuffix_def)

section \<open>Splitting and joining\<close>

fun Split :: "char \<Rightarrow> string \<Rightarrow> string list" where
  "Split d [] = [[]]"
| "Split d (c # s) =
     (if c = d then [] # Split d s
      else (case Split d s of [] \<Rightarrow> [[c]] | w # ws \<Rightarrow> (c # w) # ws))"

fun Join_with :: "string \<Rightarrow> string list \<Rightarrow> string" where
  "Join_with d [] = []"
| "Join_with d [w] = w"
| "Join_with d (w # v # ws) = w @ d @ Join_with d (v # ws)"

lemma Split_not_Nil [simp]: "Split d s \<noteq> []"
  by (induction s) (auto split: list.splits)

lemma Join_with_Cons: "ws \<noteq> [] \<Longrightarrow> Join_with d (w # ws) = w @ d @ Join_with d ws"
  by (cases ws) auto

lemma Join_Split [simp]: "Join_with [d] (Split d s) = s"
proof (induction s)
  case Nil
  then show ?case by simp
next
  case (Cons c s)
  show ?case
  proof (cases "Split d s")
    case Nil
    then show ?thesis by simp
  next
    case (Cons w ws)
    then show ?thesis using \<open>Join_with [d] (Split d s) = s\<close> by (cases ws) auto
  qed
qed

lemma Split_no_sep [simp]: "d \<notin> set s \<Longrightarrow> Split d s = [s]"
  by (induction s) auto

lemma Split_append_sep: "d \<notin> set s \<Longrightarrow> Split d (s @ d # t) = s # Split d t"
  by (induction s) auto

lemma Split_pieces: "w \<in> set (Split d s) \<Longrightarrow> d \<notin> set w"
  by (induction s arbitrary: w) (auto split: if_splits list.splits)

lemma Split_Join:
  assumes "ws \<noteq> []" "\<And>w. w \<in> set ws \<Longrightarrow> d \<notin> set w"
  shows "Split d (Join_with [d] ws) = ws"
  using assms
proof (induction ws rule: induct_list012)
  case (3 w v ws)
  then have "Split d (Join_with [d] (v # ws)) = v # ws" by simp
  with 3(4) show ?case by (simp add: Split_append_sep)
qed auto

text \<open>\<open>strings.IndexByte\<close> and \<open>strings.LastIndexByte\<close>; \<open>None\<close> is -1.\<close>

fun IndexByte :: "string \<Rightarrow> char \<Rightarrow> nat option" where
  "IndexByte [] d = None"
| "IndexByte (c # s) d = (if c = d then Some 0 else map_option Suc (IndexByte s d))"

definition LastIndexByte :: "string \<Rightarrow> char \<Rightarrow> nat option" where
  "LastIndexByte s d = map_option (\<lambda>i. length s - 1 - i) (IndexByte (rev s) d)"

lemma IndexByte_None_iff: "IndexByte s d = None \<longleftrightarrow> d \<notin> set s"
  by (induction s) auto

lemma IndexByte_append: "d \<notin> set s \<Longrightarrow> IndexByte (s @ d # t) d = Some (length s)"
  by (induction s) auto

lemma IndexByte_Some: "IndexByte s d = Some i \<Longrightarrow> i < length s \<and> s ! i = d \<and> d \<notin> set (take i s)"
proof (induction s arbitrary: i)
  case Nil
  then show ?case by simp
next
  case (Cons c s)
  then show ?case by (cases i) (auto split: if_splits)
qed

lemma LastIndexByte_None_iff: "LastIndexByte s d = None \<longleftrightarrow> d \<notin> set s"
  by (simp add: LastIndexByte_def IndexByte_None_iff)

lemma LastIndexByte_append: "d \<notin> set t \<Longrightarrow> LastIndexByte (s @ d # t) d = Some (length s)"
  by (simp add: LastIndexByte_def IndexByte_append)

lemma LastIndexByte_less: "LastIndexByte s d = Some i \<Longrightarrow> i < length s"
  by (auto simp: LastIndexByte_def dest!: IndexByte_Some)

text \<open>\<open>strings.TrimSpace\<close> on ASCII white space.\<close>

definition is_space :: "char \<Rightarrow> bool" where
  "is_space c = (let n = of_char c :: nat in n = 32 \<or> (9 \<le> n \<and> n \<le> 13))"

definition TrimSpace :: "string \<Rightarrow> string" where
  "TrimSpace s = rev (dropWhile is_space (rev (dropWhile is_space s)))"

definition is_lower :: "char \<Rightarrow> bool" where
  "is_lower c = (let n = of_char c :: nat in 97 \<le> n \<and> n \<le> 122)"

definition is_upper :: "char \<Rightarrow> bool" where
  "is_upper c = (let n = of_char c :: nat in 65 \<le> n \<and> n \<le> 90)"

definition is_digit :: "char \<Rightarrow> bool" where
  "is_digit c = (let n = of_char c :: nat in 48 \<le> n \<and> n \<le> 57)"

text \<open>\<open>strings.ToLower\<close> on ASCII.\<close>

definition lower_char :: "char \<Rightarrow> char" where
  "lower_char c = (if is_upper c then char_of ((of_char c :: nat) + 32) else c)"

definition ToLower :: "string \<Rightarrow> string" where
  "ToLower s = map lower_char s"

section \<open>Decimal numbers\<close>

definition digit_char :: "nat \<Rightarrow> char" where
  "digit_char n = char_of (48 + n)"

definition digit_val :: "char \<Rightarrow> nat" where
  "digit_val c = (of_char c :: nat) - 48"

fun nat_dec :: "nat \<Rightarrow> string" where
  "nat_dec n = (if n < 10 then [digit_char n] else nat_dec (n div 10) @ [digit_char (n mod 10)])"

declare nat_dec.simps [simp del]

text \<open>\<open>strconv.Itoa\<close>, \<open>strconv.FormatInt\<close> and \<open>%d\<close>.\<close>

definition Itoa :: "int \<Rightarrow> string" where
  "Itoa i = (if i < 0 then CHR ''-'' # nat_dec (nat (- i)) else nat_dec (nat i))"

definition dec_val :: "string \<Rightarrow> nat" where
  "dec_val s = foldl (\<lambda>v c. 10 * v + digit_val c) 0 s"

definition in_int64 :: "int \<Rightarrow> bool" where
  "in_int64 i \<longleftrightarrow> - (2 ^ 63) \<le> i \<and> i < 2 ^ 63"

text \<open>
  \<open>strconv.Atoi\<close> and \<open>strconv.ParseInt(s, 10, 64)\<close>: an optional sign, at least one digit,
  nothing else, and a value that fits in 64 bits.
\<close>

definition Atoi :: "string \<Rightarrow> err + int" where
  "Atoi s =
     (let (neg, ds) =
        (case s of
           [] \<Rightarrow> (False, [])
         | c # cs \<Rightarrow>
             if c = CHR ''-'' then (True, cs) else if c = CHR ''+'' then (False, cs) else (False, s))
      in if ds = [] \<or> \<not> list_all is_digit ds then Inl (Plain ''invalid syntax'')
         else let v = (if neg then - int (dec_val ds) else int (dec_val ds))
              in if in_int64 v then Inr v else Inl (Plain ''value out of range''))"

lemma of_char_digit_char: "n < 10 \<Longrightarrow> of_char (digit_char n) = 48 + n"
  by (simp add: digit_char_def)

lemma is_digit_digit_char [simp]: "n < 10 \<Longrightarrow> is_digit (digit_char n)"
  by (simp add: is_digit_def of_char_digit_char)

lemma digit_val_digit_char [simp]: "n < 10 \<Longrightarrow> digit_val (digit_char n) = n"
  by (simp add: digit_val_def of_char_digit_char)

lemma nat_dec_digits: "list_all is_digit (nat_dec n)"
  by (induction n rule: nat_dec.induct) (subst nat_dec.simps, auto)

lemma nat_dec_not_Nil [simp]: "nat_dec n \<noteq> []"
  by (subst nat_dec.simps) simp

lemma dec_val_snoc: "dec_val (s @ [c]) = 10 * dec_val s + digit_val c"
  by (simp add: dec_val_def)

lemma dec_val_nat_dec [simp]: "dec_val (nat_dec n) = n"
proof (induction n rule: nat_dec.induct)
  case (1 n)
  show ?case
  proof (cases "n < 10")
    case True
    then show ?thesis by (subst nat_dec.simps) (simp add: dec_val_def)
  next
    case False
    then show ?thesis using 1 by (subst nat_dec.simps) (simp add: dec_val_snoc)
  qed
qed

lemma not_digit_dash [simp]: "\<not> is_digit CHR ''-''" "\<not> is_digit CHR ''+''"
  "\<not> is_digit CHR ''.''" "\<not> is_digit CHR ''/''"
  by (simp_all add: is_digit_def)

lemma digits_no_char: "list_all is_digit s \<Longrightarrow> \<not> is_digit c \<Longrightarrow> c \<notin> set s"
  by (induction s) auto

lemma nat_dec_no_char: "\<not> is_digit c \<Longrightarrow> c \<notin> set (nat_dec n)"
  by (rule digits_no_char [OF nat_dec_digits])

lemma Itoa_nonneg: "0 \<le> i \<Longrightarrow> Itoa i = nat_dec (nat i)"
  by (simp add: Itoa_def)

lemma hd_nat_dec: "nat_dec n = c # cs \<Longrightarrow> c \<noteq> CHR ''-'' \<and> c \<noteq> CHR ''+''"
  using nat_dec_digits [of n] by auto

text \<open>Printing a 64-bit integer and reading it back is the identity.\<close>

lemma Atoi_Itoa [simp]:
  assumes "in_int64 i"
  shows "Atoi (Itoa i) = Inr i"
proof (cases "i < 0")
  case True
  then show ?thesis using assms nat_dec_digits [of "nat (- i)"]
    by (simp add: Itoa_def Atoi_def)
next
  case False
  then obtain c cs where c: "nat_dec (nat i) = c # cs"
    by (cases "nat_dec (nat i)") auto
  have "list_all is_digit (c # cs)" using nat_dec_digits [of "nat i"] c by simp
  moreover have "dec_val (c # cs) = nat i" using c by (metis dec_val_nat_dec)
  moreover have "c \<noteq> CHR ''-''" "c \<noteq> CHR ''+''" using hd_nat_dec [OF c] by auto
  ultimately show ?thesis using False assms c
    by (simp add: Itoa_def Atoi_def)
qed

lemma Atoi_bounds: "Atoi s = Inr i \<Longrightarrow> in_int64 i"
  by (auto simp: Atoi_def Let_def split: if_splits list.splits prod.splits)

lemma nat_dec_inject: "nat_dec m = nat_dec n \<longleftrightarrow> m = n"
  by (metis dec_val_nat_dec)

lemma Itoa_inject: "Itoa i = Itoa j \<Longrightarrow> i = j"
  by (auto simp: Itoa_def nat_dec_inject split: if_splits dest: hd_nat_dec hd_nat_dec [OF sym])

section \<open>Paths\<close>

text \<open>
  \<open>path.Clean\<close> and \<open>filepath.Clean\<close>: drop empty and \<open>.\<close> components, resolve \<open>..\<close> against the
  component before it, drop \<open>..\<close> at the root. The stack holds the components kept so far, the
  last one first.
\<close>

definition dot :: string where "dot = ''.''"

definition dotdot :: string where "dotdot = ''..''"

fun clean_components :: "bool \<Rightarrow> string list \<Rightarrow> string list \<Rightarrow> string list" where
  "clean_components rooted [] st = rev st"
| "clean_components rooted (c # cs) st =
     (if c = [] \<or> c = dot then clean_components rooted cs st
      else if c = dotdot then
        (case st of
           [] \<Rightarrow> clean_components rooted cs (if rooted then [] else [dotdot])
         | t # ts \<Rightarrow> clean_components rooted cs (if t = dotdot then dotdot # st else ts))
      else clean_components rooted cs (c # st))"

definition IsAbs :: "string \<Rightarrow> bool" where
  "IsAbs p = HasPrefix p ''/''"

definition path_components :: "string \<Rightarrow> string list" where
  "path_components p = clean_components (IsAbs p) (Split CHR ''/'' p) []"

definition Clean :: "string \<Rightarrow> string" where
  "Clean p =
     (let body = Join_with ''/'' (path_components p)
      in if IsAbs p then CHR ''/'' # body else if body = [] then dot else body)"

text \<open>\<open>filepath.Base\<close>: the last component, \<open>.\<close> for an empty path, \<open>/\<close> for slashes only.\<close>

definition Base :: "string \<Rightarrow> string" where
  "Base p =
     (if p = [] then dot
      else let q = rev (dropWhile (\<lambda>c. c = CHR ''/'') (rev p))
           in if q = [] then ''/'' else last (Split CHR ''/'' q))"

text \<open>\<open>filepath.Ext\<close>: from the last dot of the last component, with the dot.\<close>

definition Ext :: "string \<Rightarrow> string" where
  "Ext p =
     (let l = last (Split CHR ''/'' p)
      in case LastIndexByte l (CHR ''.'') of None \<Rightarrow> [] | Some i \<Rightarrow> drop i l)"

text \<open>
  What \<open>Clean\<close> guarantees: the \<open>..\<close> components it keeps come before all others (at the bottom of
  the stack). So a clean relative path that does not start with \<open>..\<close> has no \<open>..\<close> anywhere.
\<close>

fun stack_ok :: "string list \<Rightarrow> bool" where
  "stack_ok [] = True"
| "stack_ok (t # ts) = (if t = dotdot then set ts \<subseteq> {dotdot} else stack_ok ts)"

lemma stack_ok_no_dots: "stack_ok st \<Longrightarrow> st \<noteq> [] \<Longrightarrow> last st \<noteq> dotdot \<Longrightarrow> dotdot \<notin> set st"
proof (induction st)
  case (Cons t ts)
  then show ?case by (cases "ts = []") (auto split: if_splits dest: last_in_set)
qed simp

lemma stack_ok_dots: "set ts \<subseteq> {dotdot} \<Longrightarrow> stack_ok ts"
  by (cases ts) auto

lemma clean_components_ok:
  assumes "stack_ok st"
  shows "\<exists>st'. clean_components r cs st = rev st' \<and> stack_ok st'"
  using assms
proof (induction r cs st rule: clean_components.induct)
  case (2 r c cs st)
  show ?case
  proof (cases "c = [] \<or> c = dot \<or> c \<noteq> dotdot")
    case True
    then show ?thesis using 2 by auto
  next
    case False
    then show ?thesis using 2 by (cases st) (auto simp: stack_ok_dots split: if_splits)
  qed
qed auto

text \<open>Every component kept is one of the input, not empty and not \<open>.\<close>.\<close>

lemma clean_components_set:
  "c \<in> set (clean_components r cs st) \<Longrightarrow> c \<in> set cs \<union> set st \<and> (c \<in> set st \<or> (c \<noteq> [] \<and> c \<noteq> dot)) \<or> c = dotdot"
  by (induction r cs st rule: clean_components.induct) (auto split: if_splits list.splits)

lemma path_components_set:
  "c \<in> set (path_components p) \<Longrightarrow> c \<noteq> [] \<and> c \<noteq> dot \<and> CHR ''/'' \<notin> set c"
  using clean_components_set [of c "IsAbs p" "Split CHR ''/'' p" "[]"] Split_pieces
  by (auto simp: path_components_def dotdot_def dot_def)

lemma path_components_no_dots:
  assumes "path_components p \<noteq> []" "hd (path_components p) \<noteq> dotdot"
  shows "dotdot \<notin> set (path_components p)"
proof -
  obtain st where st: "path_components p = rev st" "stack_ok st"
    using clean_components_ok [of "[]"] by (auto simp: path_components_def)
  then show ?thesis using stack_ok_no_dots [of st] assms by (simp add: hd_rev)
qed

end
