(* ===== verification/OperationLock.thy ===== *)
theory OperationLock
  imports Prelude
begin

text \<open>
  The operation barrier of \<open>cmgr/operation_lock.go\<close>: \<open>acquireOperationLockMode\<close> and what it is
  built from.

  A thread (a goroutine of some \<open>cmgr\<close> or \<open>cmgrd\<close> process) passes three locks in a fixed order:
  its manager's \<open>operationMu\<close> (a Go \<open>sync.RWMutex\<close>), the gate file (always exclusively) and the
  main lock file (shared or exclusive). Once it has the main file it gives the gate back. The two
  files are \<open>flock\<close> locks: they are held by an open file, so they also separate threads of one
  process. Every line of the function that takes, tests or gives back a lock is one transition of
  \<open>lock_step\<close>; threads interleave at that grain.
\<close>

section \<open>Taking one lock file\<close>

text \<open>
  \<open>acquireFileLock\<close> looks at the path, opens it and calls \<open>flock\<close> until the call is not
  interrupted. The results of these system calls are arguments: what \<open>Lstat\<close> saw, whether the
  file opened, whether \<open>Stat\<close> of the open file worked and saw a regular file, and the results of
  successive \<open>flock\<close> calls. \<open>None\<close> is a call that has not returned yet.
\<close>

datatype lstat_result = LRegular | LOther | LNotExist | LError

datatype errno = OK | EINTR | EWOULDBLOCK | EOther

fun flock_loop :: "errno list \<Rightarrow> errno option" where
  "flock_loop [] = None"
| "flock_loop (r # rs) = (if r = EINTR then flock_loop rs else Some r)"

definition acquireFileLock ::
  "lstat_result \<Rightarrow> bool \<Rightarrow> bool option \<Rightarrow> errno list \<Rightarrow> bool \<Rightarrow> (err + bool) option" where
  "acquireFileLock ls opened statted calls nonblocking =
     (case ls of
        LOther \<Rightarrow> Some (Inl (Plain ''not a regular file''))
      | LError \<Rightarrow> Some (Inl (Plain ''could not inspect''))
      | _ \<Rightarrow>
          if \<not> opened then Some (Inl (Plain ''could not open''))
          else case statted of
            None \<Rightarrow> Some (Inl (Plain ''could not inspect''))
          | Some False \<Rightarrow> Some (Inl (Plain ''not a regular file''))
          | Some True \<Rightarrow>
              map_option (\<lambda>r.
                if r = OK then Inr True
                else if nonblocking \<and> r = EWOULDBLOCK then Inr False
                else Inl (Plain ''could not acquire'')) (flock_loop calls))"

lemma flock_loop_not_EINTR: "flock_loop rs = Some r \<Longrightarrow> r \<noteq> EINTR"
  by (induction rs) (auto split: if_splits)

lemma flock_loop_None: "flock_loop rs = None \<longleftrightarrow> set rs \<subseteq> {EINTR}"
  by (induction rs) auto

section \<open>Shared-exclusive locks\<close>

text \<open>
  What the barrier relies on from a shared-exclusive lock: who holds it, when an attempt succeeds
  and what success and release change. Laws of the interface, not of one implementation.
\<close>

locale shared_exclusive =
  fixes attempt :: "bool \<Rightarrow> nat \<Rightarrow> 'l \<Rightarrow> 'l option"
    and unlock :: "nat \<Rightarrow> 'l \<Rightarrow> 'l"
    and wr :: "'l \<Rightarrow> nat option"
    and rd :: "'l \<Rightarrow> nat set"
    and sound :: "'l \<Rightarrow> bool"
  assumes attempt_None: "attempt e t l = None \<longleftrightarrow> wr l \<noteq> None \<or> (e \<and> rd l \<noteq> {})"
    and attempt_wr: "attempt e t l = Some l' \<Longrightarrow> wr l' = (if e then Some t else None)"
    and attempt_rd: "attempt e t l = Some l' \<Longrightarrow> rd l' = (if e then {} else insert t (rd l))"
    and unlock_wr: "wr (unlock t l) = (if wr l = Some t then None else wr l)"
    and unlock_rd: "rd (unlock t l) = rd l - {t}"
    and sound_iff: "sound l \<longleftrightarrow> (wr l \<noteq> None \<longrightarrow> rd l = {})"
begin

definition holds :: "nat \<Rightarrow> 'l \<Rightarrow> bool" where
  "holds t l \<longleftrightarrow> wr l = Some t \<or> t \<in> rd l"

lemma attempt_sound: "sound l \<Longrightarrow> attempt e t l = Some l' \<Longrightarrow> sound l'"
  using attempt_wr [of e t l l'] attempt_rd [of e t l l'] by (auto simp: sound_iff)

lemma unlock_sound: "sound l \<Longrightarrow> sound (unlock t l)"
  by (auto simp: sound_iff unlock_wr unlock_rd)

lemma attempt_holds: "attempt e t l = Some l' \<Longrightarrow> holds t l'"
  using attempt_wr [of e t l l'] attempt_rd [of e t l l'] by (auto simp: holds_def)

lemma attempt_others: "attempt e t l = Some l' \<Longrightarrow> u \<noteq> t \<Longrightarrow> holds u l' \<longleftrightarrow> holds u l"
  using attempt_wr [of e t l l'] attempt_rd [of e t l l'] attempt_None [of e t l]
  by (auto simp: holds_def)

lemma unlock_not_holds: "\<not> holds t (unlock t l)"
  by (auto simp: holds_def unlock_wr unlock_rd)

lemma unlock_others: "u \<noteq> t \<Longrightarrow> holds u (unlock t l) \<longleftrightarrow> holds u l"
  by (auto simp: holds_def unlock_wr unlock_rd)

lemma exclusive_alone: "sound l \<Longrightarrow> wr l = Some t \<Longrightarrow> holds u l \<Longrightarrow> u = t"
  by (auto simp: holds_def sound_iff)

lemma free_attempt: "wr l = None \<Longrightarrow> rd l = {} \<Longrightarrow> attempt e t l \<noteq> None"
  using attempt_None [of e t l] by auto

end

text \<open>\<open>flock\<close>: at most one exclusive holder, or any number of shared ones.\<close>

record flock =
  fl_ex :: "nat option"
  fl_sh :: "nat set"

definition flock_try :: "bool \<Rightarrow> nat \<Rightarrow> flock \<Rightarrow> flock option" where
  "flock_try e t l =
     (if fl_ex l \<noteq> None \<or> (e \<and> fl_sh l \<noteq> {}) then None
      else Some (if e then l\<lparr>fl_ex := Some t\<rparr> else l\<lparr>fl_sh := insert t (fl_sh l)\<rparr>))"

text \<open>\<open>releaseFileLock\<close>: unlock and close the holder's file.\<close>

definition releaseFileLock :: "nat \<Rightarrow> flock \<Rightarrow> flock" where
  "releaseFileLock t l =
     l\<lparr>fl_ex := (if fl_ex l = Some t then None else fl_ex l), fl_sh := fl_sh l - {t}\<rparr>"

definition flock_sound :: "flock \<Rightarrow> bool" where
  "flock_sound l \<longleftrightarrow> (fl_ex l \<noteq> None \<longrightarrow> fl_sh l = {})"

interpretation fl: shared_exclusive flock_try releaseFileLock fl_ex fl_sh flock_sound
  by unfold_locales
    (auto simp: flock_try_def releaseFileLock_def flock_sound_def split: if_splits)

text \<open>
  Go's \<open>sync.RWMutex\<close>: as \<open>flock\<close>, but a writer that waits for readers to drain keeps new
  readers (and other writers) out; \<open>mu_pending\<close> is that writer.
\<close>

record rwmutex =
  mu_w :: "nat option"
  mu_r :: "nat set"
  mu_pending :: "nat option"

text \<open>\<open>TryLock\<close>, \<open>TryRLock\<close>, and the moment \<open>Lock\<close> or \<open>RLock\<close> succeed at once.\<close>

definition mu_try :: "bool \<Rightarrow> nat \<Rightarrow> rwmutex \<Rightarrow> rwmutex option" where
  "mu_try e t l =
     (if mu_w l \<noteq> None \<or> mu_pending l \<noteq> None \<or> (e \<and> mu_r l \<noteq> {}) then None
      else Some (if e then l\<lparr>mu_w := Some t\<rparr> else l\<lparr>mu_r := insert t (mu_r l)\<rparr>))"

definition mu_unlock :: "nat \<Rightarrow> rwmutex \<Rightarrow> rwmutex" where
  "mu_unlock t l =
     l\<lparr>mu_w := (if mu_w l = Some t then None else mu_w l), mu_r := mu_r l - {t}\<rparr>"

section \<open>The barrier\<close>

text \<open>
  Where a thread is in \<open>acquireOperationLockMode(exclusive, nonblocking)\<close> or in the release
  function it returned.
\<close>

datatype pc =
    Idle
  | AtLocal bool bool
  | Draining
  | AtGate bool bool
  | AtMain bool bool
  | AtGateRelease bool
  | Held bool
  | AtUnlock bool

record barrier =
  pcs :: "nat \<Rightarrow> pc"
  mus :: "nat \<Rightarrow> rwmutex"
  gate :: flock
  main :: flock

datatype event =
    Request bool bool
  | Advance
  | FileError
  | Release

definition init_barrier :: barrier where
  "init_barrier =
     \<lparr>pcs = (\<lambda>_. Idle),
      mus = (\<lambda>_. \<lparr>mu_w = None, mu_r = {}, mu_pending = None\<rparr>),
      gate = \<lparr>fl_ex = None, fl_sh = {}\<rparr>, main = \<lparr>fl_ex = None, fl_sh = {}\<rparr>\<rparr>"

definition goto :: "nat \<Rightarrow> pc \<Rightarrow> barrier \<Rightarrow> barrier" where
  "goto t p s = s\<lparr>pcs := (pcs s)(t := p)\<rparr>"

definition set_mu :: "nat \<Rightarrow> rwmutex \<Rightarrow> barrier \<Rightarrow> barrier" where
  "set_mu q l s = s\<lparr>mus := (mus s)(q := l)\<rparr>"

text \<open>
  One transition of thread \<open>t\<close>. \<open>proc t\<close> is its process (its \<open>Manager\<close>); \<open>files\<close> says whether the
  database has a path, so that there are lock files at all (\<open>operationLockPath\<close> is not empty).
  \<open>None\<close>: the thread cannot make this transition now; for \<open>Advance\<close>, that is a blocking call
  that waits.
\<close>

fun lock_step :: "(nat \<Rightarrow> nat) \<Rightarrow> bool \<Rightarrow> nat \<Rightarrow> event \<Rightarrow> barrier \<Rightarrow> barrier option" where
  "lock_step proc files t (Request e nb) s =
     (if pcs s t = Idle then Some (goto t (AtLocal e nb) s) else None)"
| "lock_step proc files t Release s =
     (case pcs s t of
        Held e \<Rightarrow>
          Some (goto t (AtUnlock e) (if files then s\<lparr>main := releaseFileLock t (main s)\<rparr> else s))
      | _ \<Rightarrow> None)"
| "lock_step proc files t FileError s =
     (case pcs s t of
        AtGate e nb \<Rightarrow> Some (goto t (AtUnlock e) s)
      | AtMain e nb \<Rightarrow> Some (goto t (AtUnlock e) (s\<lparr>gate := releaseFileLock t (gate s)\<rparr>))
      | _ \<Rightarrow> None)"
| "lock_step proc files t Advance s =
     (let q = proc t; mu = mus s q in
      case pcs s t of
        Idle \<Rightarrow> None
      | Held e \<Rightarrow> None
      | AtLocal e nb \<Rightarrow>
          (case mu_try e t mu of
             Some mu' \<Rightarrow> Some (goto t (if files then AtGate e nb else Held e) (set_mu q mu' s))
           | None \<Rightarrow>
               if nb then Some (goto t Idle s)
               else if e \<and> mu_w mu = None \<and> mu_pending mu = None
                 then Some (goto t Draining (set_mu q (mu\<lparr>mu_pending := Some t\<rparr>) s))
               else None)
      | Draining \<Rightarrow>
          if mu_r mu = {}
            then Some (goto t (if files then AtGate True False else Held True)
                   (set_mu q (mu\<lparr>mu_w := Some t, mu_pending := None\<rparr>) s))
            else None
      | AtGate e nb \<Rightarrow>
          (case flock_try True t (gate s) of
             Some g \<Rightarrow> Some (goto t (AtMain e nb) (s\<lparr>gate := g\<rparr>))
           | None \<Rightarrow> if nb then Some (goto t (AtUnlock e) s) else None)
      | AtMain e nb \<Rightarrow>
          (case flock_try e t (main s) of
             Some m \<Rightarrow> Some (goto t (AtGateRelease e) (s\<lparr>main := m\<rparr>))
           | None \<Rightarrow>
               if nb then Some (goto t (AtUnlock e) (s\<lparr>gate := releaseFileLock t (gate s)\<rparr>))
               else None)
      | AtGateRelease e \<Rightarrow> Some (goto t (Held e) (s\<lparr>gate := releaseFileLock t (gate s)\<rparr>))
      | AtUnlock e \<Rightarrow> Some (goto t Idle (set_mu q (mu_unlock t mu) s)))"

inductive reachable :: "(nat \<Rightarrow> nat) \<Rightarrow> bool \<Rightarrow> barrier \<Rightarrow> bool" for proc files where
  start: "reachable proc files init_barrier"
| step: "reachable proc files s \<Longrightarrow> lock_step proc files t ev s = Some s' \<Longrightarrow> reachable proc files s'"

text \<open>
  \<open>acquireStartupOperationLock\<close> on the results of its two attempts: exclusive without waiting,
  else shared. The first component of a result is the error, if any; the second says whether the
  lock was obtained.
\<close>

definition acquireStartupOperationLock :: "(err + bool) \<Rightarrow> (err + bool) \<Rightarrow> err + bool" where
  "acquireStartupOperationLock try_exclusive shared =
     (case try_exclusive of
        Inl e \<Rightarrow> Inl e
      | Inr True \<Rightarrow> Inr True
      | Inr False \<Rightarrow> (case shared of Inl e \<Rightarrow> Inl e | Inr _ \<Rightarrow> Inr False))"

section \<open>What the locks say about the threads\<close>

fun local_mode :: "pc \<Rightarrow> bool option" where
  "local_mode (AtGate e nb) = Some e"
| "local_mode (AtMain e nb) = Some e"
| "local_mode (AtGateRelease e) = Some e"
| "local_mode (Held e) = Some e"
| "local_mode (AtUnlock e) = Some e"
| "local_mode _ = None"

fun has_gate :: "pc \<Rightarrow> bool" where
  "has_gate (AtMain e nb) = True"
| "has_gate (AtGateRelease e) = True"
| "has_gate _ = False"

fun main_mode :: "pc \<Rightarrow> bool option" where
  "main_mode (AtGateRelease e) = Some e"
| "main_mode (Held e) = Some e"
| "main_mode _ = None"

fun uses_files :: "pc \<Rightarrow> bool" where
  "uses_files (AtGate e nb) = True"
| "uses_files (AtMain e nb) = True"
| "uses_files (AtGateRelease e) = True"
| "uses_files _ = False"

text \<open>The threads whose position has a property, and how a move changes that set.\<close>

definition at :: "(pc \<Rightarrow> bool) \<Rightarrow> (nat \<Rightarrow> pc) \<Rightarrow> nat set" where
  "at R P = {t. R (P t)}"

lemma at_upd [simp]: "at R (P(t := p)) = (if R p then insert t (at R P) else at R P - {t})"
  by (auto simp: at_def)

lemma in_at [simp]: "t \<in> at R P \<longleftrightarrow> R (P t)"
  by (simp add: at_def)

abbreviation local_in :: "bool \<Rightarrow> pc \<Rightarrow> bool" where
  "local_in e p \<equiv> local_mode p = Some e"

abbreviation main_in :: "bool \<Rightarrow> pc \<Rightarrow> bool" where
  "main_in e p \<equiv> main_mode p = Some e"

definition mu_agrees :: "(nat \<Rightarrow> nat) \<Rightarrow> (nat \<Rightarrow> pc) \<Rightarrow> nat \<Rightarrow> rwmutex \<Rightarrow> bool" where
  "mu_agrees proc P q l \<longleftrightarrow>
     set_option (mu_w l) = at (local_in True) P \<inter> proc -` {q} \<and>
     mu_r l = at (local_in False) P \<inter> proc -` {q} \<and>
     set_option (mu_pending l) = at (\<lambda>p. p = Draining) P \<inter> proc -` {q} \<and>
     (mu_w l \<noteq> None \<longrightarrow> mu_r l = {} \<and> mu_pending l = None)"

definition mus_agree :: "(nat \<Rightarrow> nat) \<Rightarrow> barrier \<Rightarrow> bool" where
  "mus_agree proc s \<longleftrightarrow> (\<forall>q. mu_agrees proc (pcs s) q (mus s q))"

definition gate_agrees :: "barrier \<Rightarrow> bool" where
  "gate_agrees s \<longleftrightarrow> fl_sh (gate s) = {} \<and> set_option (fl_ex (gate s)) = at has_gate (pcs s)"

definition main_agrees :: "bool \<Rightarrow> barrier \<Rightarrow> bool" where
  "main_agrees files s \<longleftrightarrow>
     set_option (fl_ex (main s)) = (if files then at (main_in True) (pcs s) else {}) \<and>
     fl_sh (main s) = (if files then at (main_in False) (pcs s) else {}) \<and>
     flock_sound (main s) \<and>
     (\<not> files \<longrightarrow> at uses_files (pcs s) = {})"

lemmas agree_defs = mus_agree_def mu_agrees_def gate_agrees_def main_agrees_def

text \<open>The shape of a transition, one case for each line that takes, tests or gives back a lock.\<close>

lemma goto_simps [simp]:
  "pcs (goto t p s) = (pcs s)(t := p)" "mus (goto t p s) = mus s"
  "gate (goto t p s) = gate s" "main (goto t p s) = main s"
  by (simp_all add: goto_def)

lemma set_mu_simps [simp]:
  "pcs (set_mu q l s) = pcs s" "mus (set_mu q l s) = (mus s)(q := l)"
  "gate (set_mu q l s) = gate s" "main (set_mu q l s) = main s"
  by (simp_all add: set_mu_def)

lemma lock_stepE:
  assumes "lock_step proc files t ev s = Some s'"
  obtains
    (request) e nb where "pcs s t = Idle" "s' = goto t (AtLocal e nb) s"
  | (take_mu) e nb mu' where "pcs s t = AtLocal e nb" "mu_try e t (mus s (proc t)) = Some mu'"
      "s' = goto t (if files then AtGate e nb else Held e) (set_mu (proc t) mu' s)"
  | (contend_mu) e where "pcs s t = AtLocal e True" "s' = goto t Idle s"
  | (drain) nb where "pcs s t = AtLocal True nb" "mu_w (mus s (proc t)) = None"
      "mu_pending (mus s (proc t)) = None"
      "s' = goto t Draining (set_mu (proc t) ((mus s (proc t))\<lparr>mu_pending := Some t\<rparr>) s)"
  | (drained) "pcs s t = Draining" "mu_r (mus s (proc t)) = {}"
      "s' = goto t (if files then AtGate True False else Held True)
         (set_mu (proc t) ((mus s (proc t))\<lparr>mu_w := Some t, mu_pending := None\<rparr>) s)"
  | (take_gate) e nb g where "pcs s t = AtGate e nb" "flock_try True t (gate s) = Some g"
      "s' = goto t (AtMain e nb) (s\<lparr>gate := g\<rparr>)"
  | (no_gate) e nb where "pcs s t = AtGate e nb" "s' = goto t (AtUnlock e) s"
  | (take_main) e nb m where "pcs s t = AtMain e nb" "flock_try e t (main s) = Some m"
      "s' = goto t (AtGateRelease e) (s\<lparr>main := m\<rparr>)"
  | (no_main) e nb where "pcs s t = AtMain e nb"
      "s' = goto t (AtUnlock e) (s\<lparr>gate := releaseFileLock t (gate s)\<rparr>)"
  | (pass_gate) e where "pcs s t = AtGateRelease e"
      "s' = goto t (Held e) (s\<lparr>gate := releaseFileLock t (gate s)\<rparr>)"
  | (release) e where "pcs s t = Held e"
      "s' = goto t (AtUnlock e) (if files then s\<lparr>main := releaseFileLock t (main s)\<rparr> else s)"
  | (unlock) e where "pcs s t = AtUnlock e"
      "s' = goto t Idle (set_mu (proc t) (mu_unlock t (mus s (proc t))) s)"
proof (cases ev)
  case (Request e nb)
  with assms request show thesis by (auto split: if_splits)
next
  case Advance
  show thesis
  proof (cases "pcs s t")
    case (AtLocal e nb)
    with assms Advance take_mu contend_mu drain show thesis
      by (auto simp: Let_def split: option.splits if_splits)
  next
    case Draining
    with assms Advance drained show thesis by (auto simp: Let_def split: if_splits)
  next
    case (AtGate e nb)
    with assms Advance take_gate no_gate show thesis
      by (auto simp: Let_def split: option.splits if_splits)
  next
    case (AtMain e nb)
    with assms Advance take_main no_main show thesis
      by (auto simp: Let_def split: option.splits if_splits)
  qed (use assms Advance pass_gate unlock in \<open>auto simp: Let_def\<close>)
next
  case FileError
  with assms no_gate no_main show thesis by (auto split: pc.splits)
next
  case Release
  with assms release show thesis by (auto split: pc.splits)
qed

text \<open>
  A move of thread \<open>t\<close> only concerns the mutex of its own process, and that only if the move
  takes it, gives it back, or changes whether \<open>t\<close> drains.
\<close>

lemma set_option_eq_singleton: "t \<in> set_option x \<Longrightarrow> x = Some t"
  by (cases x) auto

lemma set_option_eq_empty: "set_option x = {} \<longleftrightarrow> x = None"
  by (cases x) auto

lemma mu_agrees_other: "mu_agrees proc P q l \<Longrightarrow> proc t \<noteq> q \<Longrightarrow> mu_agrees proc (P(t := p)) q l"
  by (auto simp: mu_agrees_def)

lemma mu_agrees_same:
  assumes "mu_agrees proc P q l" "local_mode p = local_mode (P t)" "p \<noteq> Draining" "P t \<noteq> Draining"
  shows "mu_agrees proc (P(t := p)) q l"
proof -
  have "at (local_in e) (P(t := p)) = at (local_in e) P" for e using assms(2) by auto
  moreover have "at (\<lambda>p. p = Draining) (P(t := p)) = at (\<lambda>p. p = Draining) P"
    using assms(3,4) by auto
  ultimately show ?thesis using assms(1) unfolding mu_agrees_def by metis
qed

lemma local_mode_not_Draining: "local_mode p = Some e \<Longrightarrow> p \<noteq> Draining"
  by auto

lemma mu_agrees_take:
  assumes "mu_agrees proc P (proc t) l" "mu_try e t l = Some l'" "local_mode (P t) = None"
    "P t \<noteq> Draining" "local_mode p = Some e"
  shows "mu_agrees proc (P(t := p)) (proc t) l'"
  using assms local_mode_not_Draining [OF assms(5)]
  by (cases e) (auto simp: mu_agrees_def mu_try_def split: if_splits)

lemma mu_agrees_drain:
  assumes "mu_agrees proc P (proc t) l" "mu_w l = None" "mu_pending l = None" "local_mode (P t) = None"
  shows "mu_agrees proc (P(t := Draining)) (proc t) (l\<lparr>mu_pending := Some t\<rparr>)"
  using assms by (auto simp: mu_agrees_def)

lemma mu_agrees_drained:
  assumes "mu_agrees proc P (proc t) l" "P t = Draining" "mu_r l = {}" "local_mode p = Some True"
  shows "mu_agrees proc (P(t := p)) (proc t) (l\<lparr>mu_w := Some t, mu_pending := None\<rparr>)"
proof -
  have pend: "mu_pending l = Some t"
    using assms(1,2) by (intro set_option_eq_singleton) (simp add: mu_agrees_def)
  then have "mu_w l = None" using assms(1) by (auto simp: mu_agrees_def)
  then show ?thesis
    using assms pend local_mode_not_Draining [OF assms(4)] by (auto simp: mu_agrees_def)
qed

lemma mu_agrees_unlock:
  assumes "mu_agrees proc P (proc t) l" "P t = AtUnlock e"
  shows "mu_agrees proc (P(t := Idle)) (proc t) (mu_unlock t l)"
proof (cases e)
  case True
  have "mu_w l = Some t"
    using assms True by (intro set_option_eq_singleton) (simp add: mu_agrees_def)
  then show ?thesis using assms True by (auto simp: mu_agrees_def mu_unlock_def)
next
  case False
  then have "t \<in> mu_r l" using assms by (simp add: mu_agrees_def)
  then have "mu_w l = None" using assms(1) by (auto simp: mu_agrees_def)
  then show ?thesis using assms False by (auto simp: mu_agrees_def mu_unlock_def)
qed

lemma mus_agree_goto:
  assumes "mus_agree proc s" "mu_agrees proc ((pcs s)(t := p)) (proc t) l"
  shows "mus_agree proc (goto t p (set_mu (proc t) l s))"
  using assms by (auto simp: mus_agree_def mu_agrees_other)

lemma mus_agree_goto_same:
  assumes "mus_agree proc s" "local_mode p = local_mode (pcs s t)" "p \<noteq> Draining" "pcs s t \<noteq> Draining"
    "mus s' = mus s" "pcs s' = (pcs s)(t := p)"
  shows "mus_agree proc s'"
  using assms by (auto simp: mus_agree_def intro: mu_agrees_same)

lemma mus_agree_step:
  assumes "lock_step proc files t ev s = Some s'" "mus_agree proc s"
  shows "mus_agree proc s'"
proof -
  have mu: "mu_agrees proc (pcs s) (proc t) (mus s (proc t))"
    using assms(2) by (simp add: mus_agree_def)
  note same = mus_agree_goto_same [OF assms(2)]
  show ?thesis
    using assms(1)
  proof (cases rule: lock_stepE)
    case (request e nb)
    then show ?thesis by (intro same [of "AtLocal e nb" t]) auto
  next
    case (take_mu e nb mu')
    then show ?thesis by (auto intro!: mus_agree_goto mu_agrees_take mu assms(2))
  next
    case (contend_mu e)
    then show ?thesis by (intro same [of Idle t]) auto
  next
    case drain
    then show ?thesis by (auto intro!: mus_agree_goto mu_agrees_drain mu assms(2))
  next
    case drained
    then show ?thesis by (auto intro!: mus_agree_goto mu_agrees_drained mu assms(2))
  next
    case (take_gate e nb g)
    then show ?thesis by (intro same [of "AtMain e nb" t]) auto
  next
    case (no_gate e nb)
    then show ?thesis by (intro same [of "AtUnlock e" t]) auto
  next
    case (take_main e nb m)
    then show ?thesis by (intro same [of "AtGateRelease e" t]) auto
  next
    case (no_main e nb)
    then show ?thesis by (intro same [of "AtUnlock e" t]) auto
  next
    case (pass_gate e)
    then show ?thesis by (intro same [of "Held e" t]) auto
  next
    case (release e)
    then show ?thesis by (intro same [of "AtUnlock e" t]) auto
  next
    case (unlock e)
    then show ?thesis by (auto intro!: mus_agree_goto mu_agrees_unlock mu assms(2))
  qed
qed

lemma gate_agrees_holder: "gate_agrees s \<Longrightarrow> has_gate (pcs s t) \<Longrightarrow> fl_ex (gate s) = Some t"
  by (intro set_option_eq_singleton) (simp add: gate_agrees_def)

lemma gate_agrees_leave:
  assumes "gate_agrees s" "has_gate (pcs s t)" "\<not> has_gate p"
  shows "gate_agrees (goto t p (s\<lparr>gate := releaseFileLock t (gate s)\<rparr>))"
  using assms gate_agrees_holder [OF assms(1,2)]
  by (auto simp: gate_agrees_def releaseFileLock_def)

lemma gate_agrees_same:
  assumes "gate_agrees s" "has_gate p = has_gate (pcs s t)" "gate s' = gate s" "pcs s' = (pcs s)(t := p)"
  shows "gate_agrees s'"
  using assms by (auto simp: gate_agrees_def)

lemma gate_agrees_step:
  assumes "lock_step proc files t ev s = Some s'" "gate_agrees s"
  shows "gate_agrees s'"
proof -
  note same = gate_agrees_same [OF assms(2)]
  show ?thesis
    using assms(1)
  proof (cases rule: lock_stepE)
    case (take_gate e nb g)
    then show ?thesis using assms(2)
      by (auto simp: gate_agrees_def flock_try_def split: if_splits)
  next
    case (no_main e nb)
    then show ?thesis by (auto intro: gate_agrees_leave assms(2))
  next
    case (pass_gate e)
    then show ?thesis by (auto intro: gate_agrees_leave assms(2))
  qed (rule same [where t = t and p = "pcs s' t"]; simp split: if_splits)+
qed

lemma main_agrees_files: "main_agrees files s \<Longrightarrow> uses_files (pcs s t) \<Longrightarrow> files"
  by (cases files) (auto simp: main_agrees_def at_def)

lemma main_agrees_same:
  assumes "main_agrees files s" "files \<Longrightarrow> main_mode p = main_mode (pcs s t)" "uses_files p \<Longrightarrow> files"
    "main s' = main s" "pcs s' = (pcs s)(t := p)"
  shows "main_agrees files s'"
  using assms by (auto simp: main_agrees_def)

lemma main_agrees_take:
  assumes "main_agrees files s" "flock_try e t (main s) = Some m" "pcs s t = AtMain e nb" "files"
  shows "main_agrees files (goto t (AtGateRelease e) (s\<lparr>main := m\<rparr>))"
  using assms
  by (cases e) (auto simp: main_agrees_def flock_try_def flock_sound_def split: if_splits)

lemma main_agrees_release:
  assumes "main_agrees files s" "pcs s t = Held e"
  shows "main_agrees files
    (goto t (AtUnlock e) (if files then s\<lparr>main := releaseFileLock t (main s)\<rparr> else s))"
proof (cases e)
  case True
  have "files \<Longrightarrow> fl_ex (main s) = Some t"
    using assms True by (intro set_option_eq_singleton) (simp add: main_agrees_def)
  then show ?thesis using assms True
    by (auto simp: main_agrees_def releaseFileLock_def flock_sound_def)
next
  case False
  have "files \<Longrightarrow> t \<in> fl_sh (main s)" using assms False by (simp add: main_agrees_def)
  then have "files \<Longrightarrow> fl_ex (main s) = None"
    using assms(1) by (auto simp: main_agrees_def flock_sound_def)
  then show ?thesis using assms False
    by (auto simp: main_agrees_def releaseFileLock_def flock_sound_def)
qed

lemma main_agrees_step:
  assumes "lock_step proc files t ev s = Some s'" "main_agrees files s"
  shows "main_agrees files s'"
proof -
  note same = main_agrees_same [OF assms(2)] and files = main_agrees_files [OF assms(2), of t]
  show ?thesis
    using assms(1)
  proof (cases rule: lock_stepE)
    case (take_main e nb m)
    have f: files by (rule files) (simp add: take_main)
    show ?thesis unfolding take_main(3) by (rule main_agrees_take [OF assms(2) take_main(2,1) f])
  next
    case release
    then show ?thesis using main_agrees_release [OF assms(2)] by simp
  qed (rule same [where t = t and p = "pcs s' t"]; use files in \<open>simp split: if_splits\<close>)+
qed

definition barrier_inv :: "(nat \<Rightarrow> nat) \<Rightarrow> bool \<Rightarrow> barrier \<Rightarrow> bool" where
  "barrier_inv proc files s \<longleftrightarrow> mus_agree proc s \<and> gate_agrees s \<and> main_agrees files s"

lemma reachable_inv: "reachable proc files s \<Longrightarrow> barrier_inv proc files s"
proof (induction rule: reachable.induct)
  case start
  show ?case by (simp add: barrier_inv_def agree_defs init_barrier_def flock_sound_def at_def)
next
  case (step s t ev s')
  then show ?case
    by (auto simp: barrier_inv_def intro: mus_agree_step gate_agrees_step main_agrees_step)
qed


lemma reachable_parts:
  assumes "reachable proc files s"
  shows "mus_agree proc s" "gate_agrees s" "main_agrees files s"
  using reachable_inv [OF assms] by (simp_all add: barrier_inv_def)

section \<open>Who holds the barrier\<close>

lemma local_holder_excl:
  assumes "mus_agree proc s" "local_mode (pcs s t) = Some True" "local_mode (pcs s u) = Some e"
    "proc u = proc t"
  shows "u = t"
proof -
  have a: "mu_agrees proc (pcs s) (proc t) (mus s (proc t))" using assms(1) by (simp add: mus_agree_def)
  have w: "mu_w (mus s (proc t)) = Some t"
    using a assms(2) by (intro set_option_eq_singleton) (simp add: mu_agrees_def)
  then have "mu_r (mus s (proc t)) = {}" using a unfolding mu_agrees_def by blast
  then have e: e using a assms(3,4) by (cases e) (auto simp: mu_agrees_def)
  have "u \<in> set_option (mu_w (mus s (proc t)))" using a assms(3,4) e by (simp add: mu_agrees_def)
  then show ?thesis using w by simp
qed

lemma main_holder_excl:
  assumes "main_agrees True s" "main_mode (pcs s t) = Some True" "main_mode (pcs s u) = Some e"
  shows "u = t"
proof -
  have w: "fl_ex (main s) = Some t"
    using assms by (intro set_option_eq_singleton) (simp add: main_agrees_def)
  have "fl.holds u (main s)"
    using assms by (cases e) (auto simp: fl.holds_def main_agrees_def intro: set_option_eq_singleton)
  then show ?thesis
    using fl.exclusive_alone [of "main s" t u] w assms(1) by (simp add: main_agrees_def)
qed

text \<open>Runs: who makes which transition, in order.\<close>

fun run :: "(nat \<Rightarrow> nat) \<Rightarrow> bool \<Rightarrow> (nat \<times> event) list \<Rightarrow> barrier \<Rightarrow> barrier option" where
  "run proc files [] s = Some s"
| "run proc files (x # es) s =
     (case lock_step proc files (fst x) (snd x) s of None \<Rightarrow> None | Some s' \<Rightarrow> run proc files es s')"

lemma run_reachable:
  "run proc files es s = Some s' \<Longrightarrow> reachable proc files s \<Longrightarrow> reachable proc files s'"
proof (induction es arbitrary: s)
  case (Cons x es)
  then show ?case
    by (cases "lock_step proc files (fst x) (snd x) s") (auto intro: reachable.step)
qed simp

lemma run_init_reachable: "run proc files es init_barrier = Some s \<Longrightarrow> reachable proc files s"
  by (rule run_reachable) (auto intro: reachable.start)

lemmas run_simps =
  Let_def goto_def set_mu_def mu_try_def mu_unlock_def flock_try_def releaseFileLock_def init_barrier_def

abbreviation acquire_ev :: "nat \<Rightarrow> bool \<Rightarrow> bool \<Rightarrow> (nat \<times> event) list" where
  "acquire_ev t e nb \<equiv> (t, Request e nb) # replicate 4 (t, Advance)"

definition example :: "(nat \<times> event) list \<Rightarrow> barrier" where
  "example es = the (run id True es init_barrier)"

text \<open>
  C1. The barrier excludes: while a thread holds it exclusively no other thread holds it in either
  mode. With lock files this is across all processes; without them (an in-memory database) it is
  within a process, the only place such a database can be shared.
\<close>

theorem operation_lock_excludes:
  assumes "reachable proc files s" "pcs s t = Held True" "pcs s u = Held e" "files \<or> proc u = proc t"
  shows "u = t"
proof (cases files)
  case True
  then show ?thesis
    using main_holder_excl [of s t u e] reachable_parts(3) [OF assms(1)] assms(2,3) by simp
next
  case False
  then show ?thesis
    using local_holder_excl [of proc s t u e] reachable_parts(1) [OF assms(1)] assms by simp
qed

theorem operation_lock_excludes_witness:
  "pcs (example (acquire_ev 0 True False @ [(1, Request False False), (1, Advance)])) 0 = Held True \<and>
   pcs (example (acquire_ev 0 True False @ [(1, Request False False), (1, Advance)])) 1 \<noteq> Held False"
proof -
  let ?s = "example (acquire_ev 0 True False @ [(1, Request False False), (1, Advance)])"
  have r: "reachable id True ?s"
    by (rule run_init_reachable [of _ _ "acquire_ev 0 True False @ [(1, Request False False), (1, Advance)]"])
      (simp add: example_def run_simps numeral_eq_Suc)
  have h: "pcs ?s 0 = Held True" by (simp add: example_def run_simps numeral_eq_Suc)
  show ?thesis using operation_lock_excludes [OF r h, of 1 False] h by auto
qed

section \<open>The turnstile\<close>

lemma lock_step_others: "lock_step proc files t ev s = Some s' \<Longrightarrow> u \<noteq> t \<Longrightarrow> pcs s' u = pcs s u"
  by (erule lock_stepE) auto

lemma enters_main:
  assumes "lock_step proc files t ev s = Some s'" "files" "main_mode (pcs s t) = None"
    "main_mode (pcs s' t) \<noteq> None"
  shows "has_gate (pcs s t)"
  using assms by (elim lock_stepE) (auto split: if_splits)

lemma gate_holder_unique:
  "gate_agrees s \<Longrightarrow> has_gate (pcs s t) \<Longrightarrow> has_gate (pcs s u) \<Longrightarrow> u = t"
  using gate_agrees_holder [of s t] gate_agrees_holder [of s u] by simp

text \<open>
  C2. No operation overtakes a waiting one: while a thread sits at the main lock file with the gate
  in its hands, whatever the other threads do, none of them enters; the set of holders of the main
  lock only shrinks. So readers that arrive after an exclusive request cannot keep it waiting.
\<close>

theorem operation_lock_no_bypass:
  assumes "reachable proc True s" "pcs s t = AtMain e nb" "run proc True es s = Some s'"
    "t \<notin> fst ` set es"
  shows "pcs s' t = AtMain e nb \<and> {u. main_mode (pcs s' u) \<noteq> None} \<subseteq> {u. main_mode (pcs s u) \<noteq> None}"
  using assms
proof (induction es arbitrary: s)
  case (Cons x es)
  obtain s1 where s1: "lock_step proc True (fst x) (snd x) s = Some s1" "run proc True es s1 = Some s'"
    using Cons.prems(3) by (auto split: option.splits)
  have ne: "t \<noteq> fst x" using Cons.prems(4) by auto
  have "main_mode (pcs s1 u) \<noteq> None \<Longrightarrow> main_mode (pcs s u) \<noteq> None" for u
  proof (cases "u = fst x")
    case True
    then show "main_mode (pcs s1 u) \<noteq> None \<Longrightarrow> main_mode (pcs s u) \<noteq> None"
      using enters_main [OF s1(1)] ne gate_holder_unique [of s "fst x" t]
        reachable_parts(2) [OF Cons.prems(1)] Cons.prems(2) by auto
  qed (use lock_step_others [OF s1(1)] in simp)
  moreover have "pcs s1 t = AtMain e nb" using lock_step_others [OF s1(1) ne] Cons.prems(2) by simp
  moreover have "reachable proc True s1" using Cons.prems(1) s1(1) by (rule reachable.step)
  ultimately show ?case using Cons.IH [of s1] s1(2) Cons.prems(4) by auto
qed simp

theorem operation_lock_no_bypass_witness:
  "let s = example (acquire_ev 0 False False @ [(1, Request True False), (1, Advance), (1, Advance)]);
       s' = the (run id True [(2, Request False False), (2, Advance), (0, Release), (0, Advance)] s)
   in pcs s' 1 = AtMain True False \<and>
      {u. main_mode (pcs s' u) \<noteq> None} \<subseteq> {u. main_mode (pcs s u) \<noteq> None}"
proof -
  let ?es = "acquire_ev 0 False False @ [(1, Request True False), (1, Advance), (1, Advance)]"
  let ?fs = "[(2, Request False False), (2, Advance), (0, Release), (0, Advance)]"
  have r: "reachable id True (example ?es)"
    by (rule run_init_reachable [of _ _ ?es]) (simp add: example_def run_simps numeral_eq_Suc)
  have h: "pcs (example ?es) 1 = AtMain True False"
    by (simp add: example_def run_simps numeral_eq_Suc)
  have f: "run id True ?fs (example ?es) = Some (the (run id True ?fs (example ?es)))"
    by (simp add: example_def run_simps numeral_eq_Suc)
  show ?thesis using operation_lock_no_bypass [OF r h f] by (simp add: Let_def)
qed

section \<open>Progress\<close>

definition waiting :: "pc \<Rightarrow> bool" where
  "waiting p \<longleftrightarrow> (case p of Idle \<Rightarrow> False | Held e \<Rightarrow> False | _ \<Rightarrow> True)"

abbreviation can_advance :: "(nat \<Rightarrow> nat) \<Rightarrow> bool \<Rightarrow> nat \<Rightarrow> barrier \<Rightarrow> bool" where
  "can_advance proc files t s \<equiv> lock_step proc files t Advance s \<noteq> None"

lemma no_locals_free:
  assumes "mu_agrees proc P q l" "\<And>u. local_mode (P u) = None"
  shows "mu_w l = None" "mu_r l = {}"
  using assms by (auto simp: mu_agrees_def at_def)

lemma gate_free:
  assumes "gate_agrees s" "\<And>u. \<not> has_gate (pcs s u)"
  shows "flock_try True t (gate s) \<noteq> None"
  using assms by (intro fl.free_attempt) (auto simp: gate_agrees_def at_def)

lemma main_free:
  assumes "main_agrees files s" "\<And>u. main_mode (pcs s u) = None"
  shows "flock_try e t (main s) \<noteq> None"
  using assms by (intro fl.free_attempt) (auto simp: main_agrees_def at_def split: if_splits)

lemma first_stage:
  assumes "A t \<or> B t \<or> C t \<or> D t \<or> E t"
  obtains u where "A u" | u where "B u" "\<forall>v. \<not> A v" | u where "C u" "\<forall>v. \<not> A v \<and> \<not> B v"
    | u where "D u" "\<forall>v. \<not> A v \<and> \<not> B v \<and> \<not> C v"
    | u where "E u" "\<forall>v. \<not> A v \<and> \<not> B v \<and> \<not> C v \<and> \<not> D v"
  using assms by metis

text \<open>
  C3. The barrier cannot deadlock: in every reachable state in which some thread is inside
  \<open>acquireOperationLockMode\<close> or its release function and no thread holds the barrier, some thread
  inside can move. (If a thread holds it, that thread can release it.)
\<close>

theorem operation_lock_deadlock_free:
  assumes "reachable proc files s" "waiting (pcs s t)" "\<And>u e. pcs s u \<noteq> Held e"
  shows "\<exists>u. waiting (pcs s u) \<and> can_advance proc files u s"
proof -
  note inv = reachable_parts [OF assms(1)]
  have mu: "mu_agrees proc (pcs s) q (mus s q)" for q using inv(1) by (simp add: mus_agree_def)
  have moves: "can_advance proc files u s \<Longrightarrow> waiting (pcs s u) \<Longrightarrow> ?thesis" for u by blast
  let ?exit = "\<lambda>p. \<exists>e. p = AtGateRelease e \<or> p = AtUnlock e" and ?main = "\<lambda>p. \<exists>e nb. p = AtMain e nb"
    and ?gate = "\<lambda>p. \<exists>e nb. p = AtGate e nb"
  have "?exit (pcs s t) \<or> ?main (pcs s t) \<or> ?gate (pcs s t) \<or> pcs s t = Draining \<or>
      (\<exists>e nb. pcs s t = AtLocal e nb)"
    using assms(2) by (cases "pcs s t") (auto simp: waiting_def)
  then show ?thesis
  proof (cases rule: first_stage [of "\<lambda>v. ?exit (pcs s v)" t "\<lambda>v. ?main (pcs s v)"
      "\<lambda>v. ?gate (pcs s v)" "\<lambda>v. pcs s v = Draining" "\<lambda>v. \<exists>e nb. pcs s v = AtLocal e nb"])
    case (1 u)
    then show ?thesis by (intro moves [of u]) (auto simp: waiting_def Let_def)
  next
    case (2 u)
    have "main_mode (pcs s v) = None" for v
      using 2(2) [rule_format, of v] assms(3) [of v] by (cases "pcs s v") auto
    moreover obtain e nb where "pcs s u = AtMain e nb" using 2(1) by blast
    ultimately show ?thesis using main_free [OF inv(3), of e u]
      by (intro moves [of u]) (auto simp: waiting_def Let_def)
  next
    case (3 u)
    have "\<not> has_gate (pcs s v)" for v using 3(2) [rule_format, of v] by (cases "pcs s v") auto
    then show ?thesis using 3(1) gate_free [OF inv(2), of u]
      by (intro moves [of u]) (auto simp: waiting_def Let_def)
  next
    case (4 u)
    have "local_mode (pcs s v) = None" for v
      using 4(2) [rule_format, of v] assms(3) [of v] by (cases "pcs s v") auto
    then show ?thesis using 4(1) no_locals_free [OF mu, of "proc u"]
      by (intro moves [of u]) (auto simp: waiting_def Let_def)
  next
    case (5 u)
    have "local_mode (pcs s v) = None" for v
      using 5(2) [rule_format, of v] assms(3) [of v] by (cases "pcs s v") auto
    moreover have "mu_pending (mus s (proc u)) = None"
      using mu [of "proc u"] 5(2) by (auto simp: mu_agrees_def at_def)
    ultimately show ?thesis using 5(1) no_locals_free [OF mu, of "proc u"]
      by (intro moves [of u]) (auto simp: waiting_def Let_def mu_try_def)
  qed
qed

theorem operation_lock_deadlock_free_witness:
  "\<exists>u. waiting (pcs (example [(0, Request True False)]) u) \<and>
     can_advance id True u (example [(0, Request True False)])"
proof -
  have r: "reachable id True (example [(0, Request True False)])"
    by (rule run_init_reachable [of _ _ "[(0, Request True False)]"]) (simp add: example_def init_barrier_def)
  show ?thesis
    by (rule operation_lock_deadlock_free [OF r, of 0])
      (simp_all add: example_def run_simps waiting_def)
qed

text \<open>What a failed attempt undoes: the gate was free and the mutex did not list the thread.\<close>

lemma flock_undo:
  "flock_try True t g = Some g' \<Longrightarrow> releaseFileLock t g' = g"
  by (auto simp: flock_try_def releaseFileLock_def split: if_splits)

lemma mu_undo:
  "mu_try e t l = Some l' \<Longrightarrow> t \<notin> mu_r l \<Longrightarrow> mu_unlock t l' = l"
  by (auto simp: mu_try_def mu_unlock_def split: if_splits)

lemma not_local_not_reader:
  "mu_agrees proc P q l \<Longrightarrow> P t = Idle \<Longrightarrow> t \<notin> mu_r l"
  by (auto simp: mu_agrees_def)

text \<open>
  C4. An attempt that must not wait (\<open>tryAcquireOperationLock\<close>) never does, and contention leaves
  no trace: from any reachable state, the thread's own next four transitions at most bring it to
  the barrier in the mode it asked for, or back to where it started with every lock, and the
  position of every thread, as they were.
\<close>

theorem operation_lock_try_returns:
  assumes "reachable proc files s" "pcs s t = Idle"
  shows "\<exists>n s'. n \<le> 4 \<and> run proc files ((t, Request e True) # replicate n (t, Advance)) s = Some s' \<and>
    (pcs s' t = Held e \<or> s' = s)"
proof -
  have notin: "t \<notin> mu_r (mus s (proc t))"
    using reachable_parts(1) [OF assms(1)] assms(2) not_local_not_reader
    by (fastforce simp: mus_agree_def)
  let ?run = "\<lambda>n. run proc files ((t, Request e True) # replicate n (t, Advance)) s"
  have idle: "(pcs s)(t := Idle) = pcs s" using assms(2) by auto
  show ?thesis
  proof (cases "mu_try e t (mus s (proc t))")
    case None
    then have "?run 1 = Some s" using assms(2) idle by (simp add: Let_def goto_def)
    then show ?thesis by (intro exI [of _ 1] exI [of _ s]) simp
  next
    case mu: (Some mu)
    have undo: "mu_unlock t mu = mus s (proc t)" by (rule mu_undo [OF mu notin])
    show ?thesis
    proof (cases "\<not> files")
      case True
      then have "pcs (the (?run 1)) t = Held e \<and> ?run 1 \<noteq> None" using assms(2) mu by (simp add: Let_def)
      then show ?thesis by (intro exI [of _ 1] exI [of _ "the (?run 1)"]) auto
    next
      case f: False
      show ?thesis
      proof (cases "flock_try True t (gate s)")
        case None
        then have "?run 3 = Some s"
          using assms(2) mu f idle undo by (simp add: Let_def goto_def set_mu_def numeral_eq_Suc)
        then show ?thesis by (intro exI [of _ 3] exI [of _ s]) simp
      next
        case gate: (Some g)
        have g: "releaseFileLock t g = gate s" by (rule flock_undo [OF gate])
        show ?thesis
        proof (cases "flock_try e t (main s)")
          case None
          then have "?run 4 = Some s" using assms(2) mu f idle undo gate g
            by (simp add: Let_def goto_def set_mu_def numeral_eq_Suc)
          then show ?thesis by (intro exI [of _ 4] exI [of _ s]) simp
        next
          case (Some m)
          then have "pcs (the (?run 4)) t = Held e \<and> ?run 4 \<noteq> None" using assms(2) mu f gate
            by (simp add: Let_def numeral_eq_Suc)
          then show ?thesis by (intro exI [of _ 4] exI [of _ "the (?run 4)"]) auto
        qed
      qed
    qed
  qed
qed

theorem operation_lock_try_returns_witness:
  "\<exists>n s'. n \<le> 4 \<and>
     run id True ((1, Request True True) # replicate n (1, Advance)) (example (acquire_ev 0 False False)) =
       Some s' \<and> (pcs s' 1 = Held True \<or> s' = example (acquire_ev 0 False False))"
proof -
  let ?es = "acquire_ev 0 False False"
  have r: "reachable id True (example ?es)"
    by (rule run_init_reachable [of _ _ ?es]) (simp add: example_def run_simps numeral_eq_Suc)
  have "pcs (example ?es) 1 = Idle" by (simp add: example_def run_simps numeral_eq_Suc)
  then show ?thesis by (rule operation_lock_try_returns [OF r])
qed

end
