(* ===== verification/Types.thy ===== *)
theory Types
  imports Prelude GoText "HOL-Library.Word"
begin

text \<open>
  The data of \<open>cmgr/types.go\<close>, the identifiers' errors of \<open>cmgr/errors.go\<close> and the log levels of
  \<open>cmgr/logging.go\<close>. A struct is a record with the struct's fields; a Go map is a list of pairs
  with distinct keys where its order can be observed through a query, and a map otherwise.
  Identifiers and counters are \<open>int\<close>; the checksums keep their 32 bits.
\<close>

type_synonym ChallengeId = string
type_synonym BuildId = int
type_synonym ImageId = int
type_synonym InstanceId = int

definition DYNAMIC_INSTANCES :: int where "DYNAMIC_INSTANCES = -1"
definition LOCKED :: int where "LOCKED = -2"

lemmas instance_modes = DYNAMIC_INSTANCES_def LOCKED_def

record PortInfo =
  pi_Host :: string
  pi_Port :: int

record HostInfo =
  hi_Name :: string
  hi_Target :: string

record NetworkOptions =
  AllowEgress :: bool

record SeccompOptions =
  Legacy :: bool
  Tweaks :: "string list"
  Profile :: string
  ProfileHash :: string
  effectiveProfile :: string

record ContainerOptions =
  Init :: bool
  Cpus :: string
  Memory :: string
  Ulimits :: "string list"
  PidsLimit :: int
  ReadonlyRootfs :: bool
  DroppedCaps :: "string list"
  NoNewPrivileges :: bool
  DiskQuota :: string
  CgroupParent :: string
  Seccomp :: "SeccompOptions option"

definition no_options :: ContainerOptions where
  "no_options = \<lparr>Init = False, Cpus = [], Memory = [], Ulimits = [], PidsLimit = 0,
     ReadonlyRootfs = False, DroppedCaps = [], NoNewPrivileges = False, DiskQuota = [],
     CgroupParent = [], Seccomp = None\<rparr>"

record ChallengeOptions =
  co_Network :: NetworkOptions
  co_Container :: ContainerOptions
  Overrides :: "(string \<times> ContainerOptions) list"

record Image =
  im_Id :: ImageId
  im_Host :: string
  im_Ports :: "string list"
  im_Build :: BuildId

record InstanceMetadata =
  in_Id :: InstanceId
  in_Ports :: "(string \<times> int) list"
  in_Containers :: "string list"
  in_LastSolved :: int
  in_Build :: BuildId

record BuildMetadata =
  bd_Id :: BuildId
  Flag :: string
  LookupData :: "(string \<times> string) list"
  RequiredSeccompTweaks :: "string list"
  Seed :: int
  Format :: string
  Images :: "Image list"
  HasArtifacts :: bool
  bd_LastSolved :: int
  bd_Challenge :: ChallengeId
  Instances :: "InstanceMetadata list"
  bd_Schema :: string
  InstanceCount :: int

record ChallengeMetadata =
  ch_Id :: ChallengeId
  ch_Name :: string
  Namespace :: string
  ChallengeType :: string
  Description :: string
  Details :: string
  Hints :: "string list"
  SourceChecksum :: "32 word"
  MetadataChecksum :: "32 word"
  SourceDigest :: string
  MetadataDigest :: string
  Path :: string
  Templatable :: bool
  PortMap :: "(string \<times> PortInfo) list"
  Hosts :: "HostInfo list"
  MaxUsers :: int
  Category :: string
  Points :: int
  Tags :: "string list"
  Attributes :: "(string \<times> string) list"
  ch_Options :: ChallengeOptions
  SolveScript :: bool
  ch_Builds :: "BuildMetadata list"

record ChallengeUpdates =
  Added :: "ChallengeMetadata list"
  Refreshed :: "ChallengeMetadata list"
  Updated :: "ChallengeMetadata list"
  Removed :: "ChallengeMetadata list"
  Unmodified :: "ChallengeMetadata list"
  cu_Errors :: "err list"

record BuildSpecification =
  Seeds :: "int list"
  bs_InstanceCount :: int

record Schema =
  sm_Name :: string
  FlagFormat :: string
  Challenges :: "(ChallengeId \<times> BuildSpecification) list"

section \<open>Errors about identifiers\<close>

definition int_dec :: "int \<Rightarrow> string" where
  "int_dec i = Itoa i"

definition unknownChallengeIdError :: "ChallengeId \<Rightarrow> err" where
  "unknownChallengeIdError i = UnknownIdentifierError ''challenge'' i"

definition unknownBuildIdError :: "BuildId \<Rightarrow> err" where
  "unknownBuildIdError i = UnknownIdentifierError ''build'' (int_dec i)"

definition unknownInstanceIdError :: "InstanceId \<Rightarrow> err" where
  "unknownInstanceIdError i = UnknownIdentifierError ''instance'' (int_dec i)"

definition unknownSchemaIdError :: "string \<Rightarrow> err" where
  "unknownSchemaIdError n = UnknownIdentifierError ''schema'' n"

lemmas unknown_defs = unknownChallengeIdError_def unknownBuildIdError_def
  unknownInstanceIdError_def unknownSchemaIdError_def

lemma unknown_build_inject [simp]: "unknownBuildIdError a = unknownBuildIdError b \<longleftrightarrow> a = b"
  by (auto simp: unknown_defs int_dec_def dest: Itoa_inject)

section \<open>Log levels\<close>

datatype LogLevel = DISABLED | ERROR | WARN | INFO | DEBUG

text \<open>Go numbers the levels in this order (\<open>iota\<close>) and compares the numbers.\<close>

fun level_nat :: "LogLevel \<Rightarrow> nat" where
  "level_nat DISABLED = 0"
| "level_nat ERROR = 1"
| "level_nat WARN = 2"
| "level_nat INFO = 3"
| "level_nat DEBUG = 4"

lemma level_nat_inject [simp]: "level_nat a = level_nat b \<longleftrightarrow> a = b"
  by (cases a; cases b) auto

instantiation LogLevel :: linorder
begin

definition less_eq_LogLevel :: "LogLevel \<Rightarrow> LogLevel \<Rightarrow> bool" where
  "less_eq_LogLevel a b \<longleftrightarrow> level_nat a \<le> level_nat b"

definition less_LogLevel :: "LogLevel \<Rightarrow> LogLevel \<Rightarrow> bool" where
  "less_LogLevel a b \<longleftrightarrow> level_nat a < level_nat b"

instance
  by standard (auto simp: less_eq_LogLevel_def less_LogLevel_def)

end

text \<open>
  \<open>debug\<close>, \<open>info\<close>, \<open>warn\<close> and \<open>error\<close> append a line with their prefix when the logger's level
  reaches theirs. Nothing is logged at level \<open>DISABLED\<close>.
\<close>

fun prefix_of :: "LogLevel \<Rightarrow> string" where
  "prefix_of DISABLED = []"
| "prefix_of ERROR = ''ERROR: ''"
| "prefix_of WARN = ''WARN: ''"
| "prefix_of INFO = ''INFO: ''"
| "prefix_of DEBUG = ''DEBUG: ''"

definition log_at :: "LogLevel \<Rightarrow> LogLevel \<Rightarrow> string \<Rightarrow> string list \<Rightarrow> string list" where
  "log_at logger_level l msg out = (if logger_level \<ge> l then out @ [prefix_of l @ msg] else out)"

lemma log_at_monotone:
  "a \<le> b \<Longrightarrow> set (log_at a l msg out) \<subseteq> set (log_at b l msg out)"
  by (auto simp: log_at_def)

end
