(* ===== verification/KeyedMutex.thy ===== *)
theory KeyedMutex
  imports Types
begin

text \<open>
  The two tables of named mutexes: \<open>acquireBuildLock\<close> of \<open>cmgr/docker.go\<close> (one lock for every
  schema, format, challenge and seed) and \<open>acquireLocalPortLock\<close> of \<open>cmgr/operation_lock.go\<close> (one
  for every lock path). Both keep a map from names to lock objects with a reference count and delete
  an entry when its last user leaves. A lock object is an address; threads keep the address they
  looked up, so deleting an entry while a thread still uses the object would split the lock in two.
\<close>

record mutex_obj =
  mo_owner :: "nat option"
  mo_refs :: nat

datatype 'k kpc =
    KIdle
  | KWait 'k nat
  | KHeld 'k nat
  | KDrop 'k nat

record 'k keyed =
  k_table :: "'k \<Rightarrow> nat option"
  k_objs :: "nat \<Rightarrow> mutex_obj"
  k_next :: nat
  k_pcs :: "nat \<Rightarrow> 'k kpc"

datatype 'k kevent = KAcquire 'k | KLock | KUnlock | KRelease

definition init_keyed :: "'k keyed" where
  "init_keyed = \<lparr>k_table = (\<lambda>_. None), k_objs = (\<lambda>_. \<lparr>mo_owner = None, mo_refs = 0\<rparr>), k_next = 0,
     k_pcs = (\<lambda>_. KIdle)\<rparr>"

text \<open>
  Looking the object up and counting the reference is one transition, because it runs under the
  table's own mutex; so are giving the reference back and deleting the entry.
\<close>

fun keyed_step :: "nat \<Rightarrow> 'k kevent \<Rightarrow> 'k keyed \<Rightarrow> 'k keyed option" where
  "keyed_step t (KAcquire k) s =
     (if k_pcs s t \<noteq> KIdle then None
      else case k_table s k of
        Some a \<Rightarrow>
          Some (s\<lparr>k_objs := (k_objs s)(a := (k_objs s a)\<lparr>mo_refs := mo_refs (k_objs s a) + 1\<rparr>),
                  k_pcs := (k_pcs s)(t := KWait k a)\<rparr>)
      | None \<Rightarrow>
          Some (s\<lparr>k_table := (k_table s)(k := Some (k_next s)),
                  k_objs := (k_objs s)(k_next s := \<lparr>mo_owner = None, mo_refs = 1\<rparr>),
                  k_next := k_next s + 1,
                  k_pcs := (k_pcs s)(t := KWait k (k_next s))\<rparr>))"
| "keyed_step t KLock s =
     (case k_pcs s t of
        KWait k a \<Rightarrow>
          if mo_owner (k_objs s a) = None
          then Some (s\<lparr>k_objs := (k_objs s)(a := (k_objs s a)\<lparr>mo_owner := Some t\<rparr>),
                       k_pcs := (k_pcs s)(t := KHeld k a)\<rparr>)
          else None
      | _ \<Rightarrow> None)"
| "keyed_step t KUnlock s =
     (case k_pcs s t of
        KHeld k a \<Rightarrow> Some (s\<lparr>k_objs := (k_objs s)(a := (k_objs s a)\<lparr>mo_owner := None\<rparr>),
                            k_pcs := (k_pcs s)(t := KDrop k a)\<rparr>)
      | _ \<Rightarrow> None)"
| "keyed_step t KRelease s =
     (case k_pcs s t of
        KDrop k a \<Rightarrow>
          Some (s\<lparr>k_objs := (k_objs s)(a := (k_objs s a)\<lparr>mo_refs := mo_refs (k_objs s a) - 1\<rparr>),
                  k_table := (if mo_refs (k_objs s a) - 1 = 0 then (k_table s)(k := None) else k_table s),
                  k_pcs := (k_pcs s)(t := KIdle)\<rparr>)
      | _ \<Rightarrow> None)"

inductive keyed_reachable :: "'k keyed \<Rightarrow> bool" where
  init: "keyed_reachable init_keyed"
| move: "keyed_reachable s \<Longrightarrow> keyed_step t ev s = Some s' \<Longrightarrow> keyed_reachable s'"

text \<open>
  The names. A build lock's name joins the build's schema, format, challenge and seed with NUL
  bytes; a port lock's name is the lock path, or \<open>:memory:\<close> when there is none.
\<close>

definition buildLockKey :: "BuildMetadata \<Rightarrow> string" where
  "buildLockKey b = bd_Schema b @ CHR 0x00 # Format b @ CHR 0x00 # bd_Challenge b @ CHR 0x00 # Itoa (Seed b)"

definition localPortKey :: "string \<Rightarrow> string" where
  "localPortKey path = (if path = [] then '':memory:'' else path)"

definition acquireLocalPortLock :: "nat \<Rightarrow> string \<Rightarrow> string keyed \<Rightarrow> string keyed option" where
  "acquireLocalPortLock t path s = keyed_step t (KAcquire (localPortKey path)) s"

definition acquireBuildLock :: "nat \<Rightarrow> BuildMetadata \<Rightarrow> string keyed \<Rightarrow> string keyed option" where
  "acquireBuildLock t b s = keyed_step t (KAcquire (buildLockKey b)) s"

section \<open>Invariant\<close>

fun uses :: "'k kpc \<Rightarrow> ('k \<times> nat) option" where
  "uses KIdle = None"
| "uses (KWait k a) = Some (k, a)"
| "uses (KHeld k a) = Some (k, a)"
| "uses (KDrop k a) = Some (k, a)"

definition users :: "'k keyed \<Rightarrow> 'k \<Rightarrow> nat set" where
  "users s k = {t. \<exists>a. uses (k_pcs s t) = Some (k, a)}"

definition keyed_inv :: "'k keyed \<Rightarrow> bool" where
  "keyed_inv s \<longleftrightarrow>
     (\<forall>t k a. uses (k_pcs s t) = Some (k, a) \<longrightarrow> k_table s k = Some a) \<and>
     (\<forall>k a. k_table s k = Some a \<longrightarrow>
        a < k_next s \<and> finite (users s k) \<and> users s k \<noteq> {} \<and> mo_refs (k_objs s a) = card (users s k)) \<and>
     (\<forall>k l a. k_table s k = Some a \<longrightarrow> k_table s l = Some a \<longrightarrow> k = l) \<and>
     (\<forall>t k a. k_pcs s t = KHeld k a \<longrightarrow> mo_owner (k_objs s a) = Some t)"

lemma keyed_invD:
  assumes "keyed_inv s"
  shows "uses (k_pcs s t) = Some (k, a) \<Longrightarrow> k_table s k = Some a"
    "k_table s k = Some a \<Longrightarrow>
       a < k_next s \<and> finite (users s k) \<and> users s k \<noteq> {} \<and> mo_refs (k_objs s a) = card (users s k)"
    "k_table s k = Some a \<Longrightarrow> k_table s l = Some a \<Longrightarrow> k = l"
    "k_pcs s t = KHeld k a \<Longrightarrow> mo_owner (k_objs s a) = Some t"
  using assms by (auto simp: keyed_inv_def)

lemma keyed_invI:
  assumes "\<And>t k a. uses (k_pcs s t) = Some (k, a) \<Longrightarrow> k_table s k = Some a"
    "\<And>k a. k_table s k = Some a \<Longrightarrow>
       a < k_next s \<and> finite (users s k) \<and> users s k \<noteq> {} \<and> mo_refs (k_objs s a) = card (users s k)"
    "\<And>k l a. k_table s k = Some a \<Longrightarrow> k_table s l = Some a \<Longrightarrow> k = l"
    "\<And>t k a. k_pcs s t = KHeld k a \<Longrightarrow> mo_owner (k_objs s a) = Some t"
  shows "keyed_inv s"
  using assms by (simp add: keyed_inv_def)

lemma uses_HeldI: "p = KHeld k a \<Longrightarrow> uses p = Some (k, a)"
  by simp

lemma users_move:
  assumes "k_pcs s' = (k_pcs s)(t := p)"
  shows "users s' k = (if \<exists>a. uses p = Some (k, a) then insert t (users s k) else users s k - {t})"
  using assms by (auto simp: users_def)

lemma keyed_acquire_inv:
  assumes inv: "keyed_inv s" and idle: "k_pcs s t = KIdle" and st: "keyed_step t (KAcquire k) s = Some s'"
  shows "keyed_inv s'"
proof -
  have notin: "t \<notin> users s l" for l using idle by (simp add: users_def)
  have empty: "k_table s l = None \<Longrightarrow> users s l = {}" for l
    using keyed_invD(1) [OF inv] by (fastforce simp: users_def)
  note D = keyed_invD [OF inv]
  note H = D(1) [OF uses_HeldI]
  show ?thesis
  proof (cases "k_table s k")
    case None
    then have s': "s' = s\<lparr>k_table := (k_table s)(k := Some (k_next s)),
          k_objs := (k_objs s)(k_next s := \<lparr>mo_owner = None, mo_refs = 1\<rparr>),
          k_next := k_next s + 1, k_pcs := (k_pcs s)(t := KWait k (k_next s))\<rparr>"
      using idle st by simp
    have fresh: "k_table s l \<noteq> Some (k_next s)" for l using D(2) [of l] by auto
    have us: "users s' l = (if l = k then {t} else users s l)" for l
      using empty [OF None] notin [of l] users_move [of s' s t "KWait k (k_next s)" l] by (auto simp: s')
    show ?thesis
    proof (rule keyed_invI)
      show "uses (k_pcs s' u) = Some (l, a) \<Longrightarrow> k_table s' l = Some a" for u l a
        using D(1) [of u l a] None by (auto simp: s' split: if_splits)
      show "k_table s' l = Some a \<Longrightarrow> a < k_next s' \<and> finite (users s' l) \<and> users s' l \<noteq> {} \<and>
          mo_refs (k_objs s' a) = card (users s' l)" for l a
        unfolding us using D(2) [of l a] by (auto simp: s' split: if_splits)
      show "k_table s' l = Some a \<Longrightarrow> k_table s' m = Some a \<Longrightarrow> l = m" for l m a
        using D(3) [of l a m] fresh by (auto simp: s' split: if_splits)
      show "k_pcs s' u = KHeld l a \<Longrightarrow> mo_owner (k_objs s' a) = Some u" for u l a
        using D(4) [of u l a] H [of u l a] fresh [of l] by (auto simp: s' split: if_splits)
    qed
  next
    case (Some b)
    then have s': "s' = s\<lparr>k_objs := (k_objs s)(b := (k_objs s b)\<lparr>mo_refs := mo_refs (k_objs s b) + 1\<rparr>),
          k_pcs := (k_pcs s)(t := KWait k b)\<rparr>"
      using idle st by simp
    have us: "users s' l = (if l = k then insert t (users s k) else users s l)" for l
      using notin [of l] users_move [of s' s t "KWait k b" l] by (auto simp: s')
    show ?thesis
    proof (rule keyed_invI)
      show "uses (k_pcs s' u) = Some (l, a) \<Longrightarrow> k_table s' l = Some a" for u l a
        using D(1) [of u l a] Some by (auto simp: s' split: if_splits)
      show "k_table s' l = Some a \<Longrightarrow> a < k_next s' \<and> finite (users s' l) \<and> users s' l \<noteq> {} \<and>
          mo_refs (k_objs s' a) = card (users s' l)" for l a
        unfolding us using D(2) [of l a] D(3) [of l b k] Some notin by (auto simp: s' split: if_splits)
      show "k_table s' l = Some a \<Longrightarrow> k_table s' m = Some a \<Longrightarrow> l = m" for l m a
        using D(3) [of l a m] by (auto simp: s' split: if_splits)
      show "k_pcs s' u = KHeld l a \<Longrightarrow> mo_owner (k_objs s' a) = Some u" for u l a
        using D(4) [of u l a] by (auto simp: s' split: if_splits)
    qed
  qed
qed

lemma keyed_stay_inv:
  assumes inv: "keyed_inv s" and st: "s' = s\<lparr>k_objs := (k_objs s)(b := (k_objs s b)\<lparr>mo_owner := w\<rparr>),
      k_pcs := (k_pcs s)(t := p)\<rparr>" and u: "uses (k_pcs s t) = Some (k, b)" "uses p = Some (k, b)"
    and w: "(\<exists>l a. p = KHeld l a) \<Longrightarrow> w = Some t" and own: "mo_owner (k_objs s b) \<in> {None, Some t}"
  shows "keyed_inv s'"
proof -
  note D = keyed_invD [OF inv]
  have us: "users s' l = users s l" for l
    using u users_move [of s' s t p l] by (auto simp: st users_def)
  show ?thesis
  proof (rule keyed_invI)
    show "uses (k_pcs s' v) = Some (l, a) \<Longrightarrow> k_table s' l = Some a" for v l a
      using D(1) [of v l a] D(1) [OF u(1)] u(2) by (auto simp: st split: if_splits)
    show "k_table s' l = Some a \<Longrightarrow> a < k_next s' \<and> finite (users s' l) \<and> users s' l \<noteq> {} \<and>
        mo_refs (k_objs s' a) = card (users s' l)" for l a
      unfolding us using D(2) [of l a] by (auto simp: st)
    show "k_table s' l = Some a \<Longrightarrow> k_table s' m = Some a \<Longrightarrow> l = m" for l m a
      using D(3) [of l a m] by (simp add: st)
    show "k_pcs s' v = KHeld l a \<Longrightarrow> mo_owner (k_objs s' a) = Some v" for v l a
      using D(4) [of v l a] own w u(2) by (auto simp: st split: if_splits)
  qed
qed

lemma keyed_release_inv:
  assumes inv: "keyed_inv s" and st: "keyed_step t KRelease s = Some s'"
  shows "keyed_inv s'"
proof -
  note D = keyed_invD [OF inv]
  obtain k b where u: "k_pcs s t = KDrop k b" using st by (auto split: kpc.splits)
  have s': "s' = s\<lparr>k_objs := (k_objs s)(b := (k_objs s b)\<lparr>mo_refs := mo_refs (k_objs s b) - 1\<rparr>),
      k_table := (if mo_refs (k_objs s b) - 1 = 0 then (k_table s)(k := None) else k_table s),
      k_pcs := (k_pcs s)(t := KIdle)\<rparr>"
    using st u by simp
  have t: "t \<in> users s k" "k_table s k = Some b" using u D(1) [of t k b] by (auto simp: users_def)
  have f: "finite (users s k)" "mo_refs (k_objs s b) = card (users s k)" using D(2) [OF t(2)] by auto
  have c: "mo_refs (k_objs s b) - 1 = card (users s k - {t})" using t f by simp
  have z: "card (users s k - {t}) = 0 \<longleftrightarrow> users s k - {t} = {}" using f by simp
  have us: "users s' l = (if l = k then users s k - {t} else users s l)" for l
    using u users_move [of s' s t KIdle l] by (auto simp: s' users_def)
  have tab: "k_table s' l = (if l = k \<and> users s k - {t} = {} then None else k_table s l)" for l
    unfolding s' c z by simp
  have rest: "k_pcs s' = (k_pcs s)(t := KIdle)" "k_next s' = k_next s"
    "mo_refs (k_objs s' a) = (if a = b then card (users s k - {t}) else mo_refs (k_objs s a))"
    "mo_owner (k_objs s' a) = mo_owner (k_objs s a)" for a
    using c by (simp_all add: s')
  show ?thesis
  proof (rule keyed_invI)
    show "uses (k_pcs s' v) = Some (l, a) \<Longrightarrow> k_table s' l = Some a" for v l a
      using D(1) [of v l a] unfolding tab rest by (auto simp: users_def split: if_splits)
    show "k_table s' l = Some a \<Longrightarrow> a < k_next s' \<and> finite (users s' l) \<and> users s' l \<noteq> {} \<and>
        mo_refs (k_objs s' a) = card (users s' l)" for l a
    proof -
      assume "k_table s' l = Some a"
      then have a: "k_table s l = Some a" "l = k \<Longrightarrow> users s k - {t} \<noteq> {}"
        unfolding tab by (simp_all split: if_splits)
      then have "l = k \<longleftrightarrow> a = b" using D(3) [of l b k] t(2) by auto
      then show ?thesis using a f(1) D(2) [OF a(1)] by (simp add: us rest)
    qed
    show "k_table s' l = Some a \<Longrightarrow> k_table s' m = Some a \<Longrightarrow> l = m" for l m a
      unfolding tab using D(3) [of l a m] by (auto split: if_splits)
    show "k_pcs s' v = KHeld l a \<Longrightarrow> mo_owner (k_objs s' a) = Some v" for v l a
      unfolding rest using D(4) [of v l a] by (auto split: if_splits)
  qed
qed

lemma keyed_step_inv:
  assumes "keyed_inv s" "keyed_step t ev s = Some s'"
  shows "keyed_inv s'"
proof (cases ev)
  case (KAcquire k)
  then show ?thesis using assms keyed_acquire_inv [OF assms(1), of t k s'] by (auto split: if_splits)
next
  case KLock
  then obtain k a where "k_pcs s t = KWait k a" "mo_owner (k_objs s a) = None"
    "s' = s\<lparr>k_objs := (k_objs s)(a := (k_objs s a)\<lparr>mo_owner := Some t\<rparr>),
       k_pcs := (k_pcs s)(t := KHeld k a)\<rparr>"
    using assms(2) by (auto split: kpc.splits if_splits)
  then show ?thesis using keyed_stay_inv [OF assms(1), of s' t "KHeld k a" a "Some t" k] by simp
next
  case KUnlock
  then obtain k a where "k_pcs s t = KHeld k a"
    "s' = s\<lparr>k_objs := (k_objs s)(a := (k_objs s a)\<lparr>mo_owner := None\<rparr>),
       k_pcs := (k_pcs s)(t := KDrop k a)\<rparr>"
    using assms(2) by (auto split: kpc.splits)
  then show ?thesis
    using keyed_stay_inv [OF assms(1), of s' t "KDrop k a" a None k] keyed_invD(4) [OF assms(1), of t k a]
    by simp
next
  case KRelease
  then show ?thesis using keyed_release_inv [OF assms(1)] assms(2) by simp
qed

lemma keyed_reachable_inv: "keyed_reachable s \<Longrightarrow> keyed_inv s"
proof (induction rule: keyed_reachable.induct)
  case init
  show ?case by (simp add: keyed_inv_def init_keyed_def)
qed (rule keyed_step_inv)

section \<open>Properties\<close>

text \<open>
  C6. A named mutex is one mutex: although entries are deleted and made again while threads come
  and go, two threads that hold the lock of the same name are the same thread. (So two operations on
  the same build of a schema never run at once in a process, and neither do two port allocations.)
\<close>

theorem keyed_mutex_excludes:
  assumes "keyed_reachable s" "k_pcs s t = KHeld k a" "k_pcs s u = KHeld k b"
  shows "t = u"
proof -
  note D = keyed_invD [OF keyed_reachable_inv [OF assms(1)]]
  have "a = b" using D(1) [of t k a] D(1) [of u k b] assms(2,3) by simp
  then show ?thesis using D(4) [OF assms(2)] D(4) [OF assms(3)] by simp
qed

text \<open>Runs, for the witnesses.\<close>

fun keyed_run :: "(nat \<times> 'k kevent) list \<Rightarrow> 'k keyed \<Rightarrow> 'k keyed option" where
  "keyed_run [] s = Some s"
| "keyed_run (x # es) s =
     (case keyed_step (fst x) (snd x) s of None \<Rightarrow> None | Some s' \<Rightarrow> keyed_run es s')"

lemma keyed_run_reachable: "keyed_run es s = Some s' \<Longrightarrow> keyed_reachable s \<Longrightarrow> keyed_reachable s'"
proof (induction es arbitrary: s)
  case (Cons x es)
  then show ?case by (cases "keyed_step (fst x) (snd x) s") (auto intro: keyed_reachable.move)
qed simp

text \<open>Thread 0 leaves, its entry is deleted, thread 1 enters and thread 2 waits.\<close>

definition keyed_example :: "string keyed" where
  "keyed_example = the (keyed_run
     [(0, KAcquire ''b''), (0, KLock), (0, KUnlock), (0, KRelease), (1, KAcquire ''b''), (1, KLock),
      (2, KAcquire ''b'')] init_keyed)"

lemma keyed_example_reachable: "keyed_reachable keyed_example"
proof -
  have "keyed_run
     [(0, KAcquire ''b''), (0, KLock), (0, KUnlock), (0, KRelease), (1, KAcquire ''b''), (1, KLock),
      (2, KAcquire ''b'')] init_keyed = Some keyed_example"
    by (simp add: keyed_example_def init_keyed_def)
  then show ?thesis by (rule keyed_run_reachable) (rule keyed_reachable.init)
qed

theorem keyed_mutex_excludes_witness:
  "k_pcs keyed_example 1 = KHeld ''b'' 1 \<and> k_pcs keyed_example 2 \<noteq> KHeld ''b'' 1"
proof -
  have h: "k_pcs keyed_example 1 = KHeld ''b'' 1"
    by (simp add: keyed_example_def init_keyed_def)
  then show ?thesis using keyed_mutex_excludes [OF keyed_example_reachable h, of 2 1] by auto
qed

text \<open>The table does not grow: a name is in it exactly while some thread uses it.\<close>

lemma keyed_table_users: "keyed_reachable s \<Longrightarrow> k_table s k \<noteq> None \<longleftrightarrow> users s k \<noteq> {}"
  using keyed_invD(1,2) [OF keyed_reachable_inv] by (fastforce simp: users_def)

text \<open>Different builds have different locks, as long as no name contains a NUL byte.\<close>

lemma split_at_nul:
  "CHR 0x00 \<notin> set a \<Longrightarrow> CHR 0x00 \<notin> set b \<Longrightarrow> a @ CHR 0x00 # x = b @ CHR 0x00 # y \<Longrightarrow> a = b \<and> x = y"
  by (auto simp: append_eq_append_conv2 append_eq_Cons_conv Cons_eq_append_conv)

lemma buildLockKey_inject:
  assumes "buildLockKey b = buildLockKey c"
    "CHR 0x00 \<notin> set (bd_Schema b) \<union> set (bd_Schema c) \<union> set (Format b) \<union> set (Format c) \<union>
       set (bd_Challenge b) \<union> set (bd_Challenge c)"
  shows "(bd_Schema b, Format b, bd_Challenge b, Seed b) = (bd_Schema c, Format c, bd_Challenge c, Seed c)"
proof -
  have 1: "bd_Schema b = bd_Schema c \<and> Format b @ CHR 0x00 # bd_Challenge b @ CHR 0x00 # Itoa (Seed b) =
      Format c @ CHR 0x00 # bd_Challenge c @ CHR 0x00 # Itoa (Seed c)"
    using assms unfolding buildLockKey_def by (intro split_at_nul) auto
  have 2: "Format b = Format c \<and> bd_Challenge b @ CHR 0x00 # Itoa (Seed b) =
      bd_Challenge c @ CHR 0x00 # Itoa (Seed c)"
    using assms(2) conjunct2 [OF 1] by (intro split_at_nul) auto
  have 3: "bd_Challenge b = bd_Challenge c \<and> Itoa (Seed b) = Itoa (Seed c)"
    using assms(2) conjunct2 [OF 2] by (intro split_at_nul) auto
  show ?thesis using 1 2 3 Itoa_inject by auto
qed

end
