(* ===== verification/Policy.thy ===== *)
theory Policy
  imports Types Complex_Main
begin

text \<open>
  The limits of \<open>cmgr/policy.go\<close> and the CPU quantities of \<open>cmgr/cpu.go\<close>. The environment is a map
  from names to values (\<open>os.LookupEnv\<close>). Three parsers are arguments: \<open>ram\<close> is \<open>units.RAMInBytes\<close>
  of \<open>docker/go-units\<close>, \<open>rat\<close> is \<open>big.Rat.SetString\<close> and \<open>dur\<close> is \<open>time.ParseDuration\<close>
  (nanoseconds); \<open>None\<close> is an error.
\<close>

definition nanoCPUsPerCPU :: int where "nanoCPUsPerCPU = 1000000000"

definition parseNanoCPUs :: "(string \<Rightarrow> rat option) \<Rightarrow> string \<Rightarrow> err + int" where
  "parseNanoCPUs rat value =
     (case rat value of
        None \<Rightarrow> Inl (Plain ''failed to parse as a rational number'')
      | Some cpus \<Rightarrow>
          let (num, den) = quotient_of (cpus * of_int nanoCPUsPerCPU) in
          if den \<noteq> 1 then Inl (Plain ''more precise than one NanoCPU'')
          else if \<not> in_int64 num then Inl (Plain ''exceeds the supported range'')
          else Inr num)"

lemma parseNanoCPUs_exact:
  assumes "parseNanoCPUs rat v = Inr n"
  obtains r where "rat v = Some r" "r * 1000000000 = of_int n" "in_int64 n"
proof -
  obtain r where r: "rat v = Some r" using assms by (auto simp: parseNanoCPUs_def split: option.splits)
  obtain a b where q: "quotient_of (r * 1000000000) = (a, b)" by (cases "quotient_of (r * 1000000000)")
  have "b = 1" "a = n" "in_int64 n"
    using assms r q by (auto simp: parseNanoCPUs_def nanoCPUsPerCPU_def split: if_splits)
  then show thesis using that [OF r] quotient_of_div [OF q] by simp
qed

record managerPolicy =
  MaxSeedsPerRequest :: int
  MaxConcurrentBuilds :: int
  MaxBuildContextFiles :: int
  MaxBuildContextBytes :: int
  MaxArtifactFiles :: int
  MaxArtifactBytes :: int
  MaxArtifactFileBytes :: int
  MaxRequestBytes :: int
  SolverTimeout :: int
  MaxSolverLogBytes :: int
  MaxSolverFlagBytes :: int

type_synonym env = "string \<Rightarrow> string option"

definition envString :: "env \<Rightarrow> string \<Rightarrow> string \<Rightarrow> string" where
  "envString env name fallback = (case env name of Some v \<Rightarrow> v | None \<Rightarrow> fallback)"

definition positiveEnvInt :: "env \<Rightarrow> string \<Rightarrow> int \<Rightarrow> err + int" where
  "positiveEnvInt env name fallback =
     (case Atoi (envString env name (Itoa fallback)) of
        Inl _ \<Rightarrow> Inl (Plain (name @ '' must be a positive integer''))
      | Inr n \<Rightarrow> if n \<le> 0 then Inl (Plain (name @ '' must be a positive integer'')) else Inr n)"

definition positiveEnvBytes :: "(string \<Rightarrow> int option) \<Rightarrow> env \<Rightarrow> string \<Rightarrow> string \<Rightarrow> err + int" where
  "positiveEnvBytes ram env name fallback =
     (case ram (envString env name fallback) of
        None \<Rightarrow> Inl (Plain (name @ '' must be a positive byte size''))
      | Some n \<Rightarrow> if n \<le> 0 then Inl (Plain (name @ '' must be a positive byte size'')) else Inr n)"

text \<open>Chaining results that do not touch a state.\<close>

definition sbind :: "err + 'a \<Rightarrow> ('a \<Rightarrow> err + 'b) \<Rightarrow> err + 'b" where
  "sbind r f = (case r of Inl e \<Rightarrow> Inl e | Inr x \<Rightarrow> f x)"

lemma sbind_Inr_iff: "sbind r f = Inr y \<longleftrightarrow> (\<exists>x. r = Inr x \<and> f x = Inr y)"
  by (cases r) (auto simp: sbind_def)

definition initPolicy ::
  "(string \<Rightarrow> rat option) \<Rightarrow> (string \<Rightarrow> int option) \<Rightarrow> (string \<Rightarrow> int option) \<Rightarrow> env \<Rightarrow>
    err + ContainerOptions \<times> managerPolicy" where
  "initPolicy rat ram dur env =
     (let cpus = envString env ''CMGR_DEFAULT_CPUS'' ''1'';
          memory = envString env ''CMGR_DEFAULT_MEMORY'' ''512m'';
          timeout = envString env ''CMGR_SOLVER_TIMEOUT'' ''5m'';
          num = positiveEnvInt env; bytes = positiveEnvBytes ram env in
      case parseNanoCPUs rat cpus of
        Inl e \<Rightarrow> Inl (Wrap ''invalid CMGR_DEFAULT_CPUS'' e)
      | Inr nano \<Rightarrow>
        if nano \<le> 0 then Inl (Plain ''CMGR_DEFAULT_CPUS must be greater than zero'')
        else if (case ram memory of None \<Rightarrow> True | Some n \<Rightarrow> n \<le> 0)
          then Inl (Plain ''CMGR_DEFAULT_MEMORY must be a positive byte size'')
        else
          sbind (num ''CMGR_DEFAULT_PIDS_LIMIT'' 256) (\<lambda>pids.
          sbind (num ''CMGR_DEFAULT_NOFILE'' 4096) (\<lambda>nofile.
          sbind (num ''CMGR_MAX_SEEDS_PER_REQUEST'' 10000) (\<lambda>seeds.
          sbind (num ''CMGR_MAX_CONCURRENT_BUILDS'' 4) (\<lambda>builds.
          sbind (num ''CMGR_MAX_BUILD_CONTEXT_FILES'' 10000) (\<lambda>cfiles.
          sbind (bytes ''CMGR_MAX_BUILD_CONTEXT_BYTES'' ''2g'') (\<lambda>cbytes.
          sbind (num ''CMGR_MAX_ARTIFACT_FILES'' 10000) (\<lambda>afiles.
          sbind (bytes ''CMGR_MAX_ARTIFACT_BYTES'' ''5g'') (\<lambda>abytes.
          sbind (bytes ''CMGR_MAX_ARTIFACT_FILE_BYTES'' ''1g'') (\<lambda>fbytes.
          sbind (bytes ''CMGR_MAX_REQUEST_BYTES'' ''1m'') (\<lambda>rbytes.
          sbind (case dur timeout of
              None \<Rightarrow> Inl (Plain ''CMGR_SOLVER_TIMEOUT must be a positive duration'')
            | Some d \<Rightarrow> if d \<le> 0 then Inl (Plain ''CMGR_SOLVER_TIMEOUT must be a positive duration'')
                        else Inr d) (\<lambda>solver.
          sbind (bytes ''CMGR_MAX_SOLVER_LOG_BYTES'' ''1m'') (\<lambda>lbytes.
          sbind (bytes ''CMGR_MAX_SOLVER_FLAG_BYTES'' ''4k'') (\<lambda>gbytes.
            Inr (no_options\<lparr>Cpus := cpus, Memory := memory, PidsLimit := pids,
                   Ulimits := [''nofile='' @ Itoa nofile @ '':'' @ Itoa nofile]\<rparr>,
                 \<lparr>MaxSeedsPerRequest = seeds, MaxConcurrentBuilds = builds,
                  MaxBuildContextFiles = cfiles, MaxBuildContextBytes = cbytes,
                  MaxArtifactFiles = afiles, MaxArtifactBytes = abytes,
                  MaxArtifactFileBytes = fbytes, MaxRequestBytes = rbytes,
                  SolverTimeout = solver, MaxSolverLogBytes = lbytes,
                  MaxSolverFlagBytes = gbytes\<rparr>)))))))))))))))"

section \<open>Defaults\<close>

text \<open>The name of a limit is what stands before its first equals sign.\<close>

definition limit_name :: "string \<Rightarrow> string" where
  "limit_name l = (case IndexByte l (CHR ''='') of Some i \<Rightarrow> take i l | None \<Rightarrow> l)"

definition mergeRuntimeDefaults :: "ContainerOptions \<Rightarrow> ContainerOptions \<Rightarrow> ContainerOptions" where
  "mergeRuntimeDefaults defaults c =
     c\<lparr>Cpus := (if Cpus c = [] then Cpus defaults else Cpus c),
       Memory := (if Memory c = [] then Memory defaults else Memory c),
       PidsLimit := (if PidsLimit c = 0 then PidsLimit defaults else PidsLimit c),
       Ulimits := Ulimits c @
         filter (\<lambda>l. limit_name l \<notin> set (map limit_name (Ulimits c))) (Ulimits defaults)\<rparr>"

definition validateSeedLimit :: "managerPolicy \<Rightarrow> nat \<Rightarrow> err + unit" where
  "validateSeedLimit p n =
     (if MaxSeedsPerRequest p > 0 \<and> int n > MaxSeedsPerRequest p
      then Inl (Plain ''too many seeds'') else Inr ())"

lemma merge_limits:
  "limit_name ` set (Ulimits (mergeRuntimeDefaults d c)) =
    limit_name ` set (Ulimits c) \<union> limit_name ` set (Ulimits d)"
  by (auto simp: mergeRuntimeDefaults_def)

lemma filter_added_none:
  "filter (\<lambda>l. f l \<notin> f ` set xs \<and> f l \<notin> f ` {x \<in> set ys. f x \<notin> f ` set xs}) ys = []"
  by (auto simp: filter_empty_conv)

lemma merge_idem: "mergeRuntimeDefaults d (mergeRuntimeDefaults d c) = mergeRuntimeDefaults d c"
  using filter_added_none [of limit_name "Ulimits c" "Ulimits d"]
  by (simp add: mergeRuntimeDefaults_def image_Un)

lemma positiveEnvInt_pos: "positiveEnvInt env n f = Inr k \<Longrightarrow> 0 < k"
  by (auto simp: positiveEnvInt_def split: sum.splits if_splits)

lemma positiveEnvBytes_pos: "positiveEnvBytes ram env n f = Inr k \<Longrightarrow> 0 < k"
  by (auto simp: positiveEnvBytes_def split: option.splits if_splits)

lemma parseNanoCPUs_Some: "parseNanoCPUs rat v = Inr n \<Longrightarrow> \<exists>r. rat v = Some r"
  by (auto simp: parseNanoCPUs_def split: option.splits)

lemma parseNanoCPUs_int:
  "rat v = Some r \<Longrightarrow> r * 1000000000 = of_int n \<Longrightarrow> in_int64 n \<Longrightarrow> parseNanoCPUs rat v = Inr n"
  by (simp add: parseNanoCPUs_def nanoCPUsPerCPU_def)

lemma positiveEnvInt_default: "env n = None \<Longrightarrow> 0 < k \<Longrightarrow> in_int64 k \<Longrightarrow> positiveEnvInt env n k = Inr k"
  by (simp add: positiveEnvInt_def envString_def Atoi_Itoa)

lemma initPolicy_Inr:
  assumes "initPolicy rat ram dur env = Inr (d, p)"
  shows "rat (Cpus d) \<noteq> None \<and> ram (Memory d) \<noteq> None \<and> 0 < PidsLimit d \<and>
    (\<exists>k. Ulimits d = [''nofile='' @ Itoa k @ '':'' @ Itoa k])"
    "0 < MaxSeedsPerRequest p \<and> 0 < MaxConcurrentBuilds p \<and> 0 < MaxBuildContextFiles p \<and>
     0 < MaxBuildContextBytes p \<and> 0 < MaxArtifactFiles p \<and> 0 < MaxArtifactBytes p \<and>
     0 < MaxArtifactFileBytes p \<and> 0 < MaxRequestBytes p \<and> 0 < SolverTimeout p \<and>
     0 < MaxSolverLogBytes p \<and> 0 < MaxSolverFlagBytes p"
  using assms
  by (auto simp: initPolicy_def Let_def sbind_Inr_iff no_options_def
      split: sum.splits option.splits if_splits
      dest!: positiveEnvInt_pos positiveEnvBytes_pos parseNanoCPUs_Some)

lemma limit_name_nofile: "limit_name (''nofile='' @ x) = ''nofile''"
  by (simp add: limit_name_def)


text \<open>Parsers for the witness: they know the defaults.\<close>

definition ex_rat :: "string \<Rightarrow> rat option" where
  "ex_rat s = (if s = ''1'' then Some 1 else if s = ''1/2'' then Some (1/2) else None)"

definition ex_ram :: "string \<Rightarrow> int option" where
  "ex_ram s = (if s = [] then None else Some (int (length s) * 1024))"

definition ex_dur :: "string \<Rightarrow> int option" where
  "ex_dur s = (if s = ''5m'' then Some 300000000000 else None)"

definition ex_env :: env where
  "ex_env n = (if n = ''CMGR_DEFAULT_CPUS'' then Some ''1/2'' else None)"


end
