(* ===== verification/Json.thy ===== *)
theory Json
  imports Prelude
begin

text \<open>
  JSON values as \<open>encoding/json\<close> gives them to the program. Text is not modelled: a document is the
  value it denotes, with the keys of an object in the order of the text and possibly repeated, and a
  number as its literal. Decoding an object into a Go map keeps the last of repeated keys and turns
  \<open>null\<close> into the nil map; encoding a map sorts its keys.
\<close>

datatype json =
    JNull
  | JBool bool
  | JNum string
  | JStr string
  | JArr "json list"
  | JObj "(string \<times> json) list"

type_synonym jmap = "(string \<times> json) list"

fun put :: "'k \<Rightarrow> 'v \<Rightarrow> ('k \<times> 'v) list \<Rightarrow> ('k \<times> 'v) list" where
  "put k v [] = [(k, v)]"
| "put k v (x # m) = (if fst x = k then (k, v) # m else x # put k v m)"

definition go_map :: "(string \<times> json) list \<Rightarrow> jmap" where
  "go_map kvs = fold (\<lambda>x. put (fst x) (snd x)) kvs []"

text \<open>\<open>json.Unmarshal\<close> into a map: \<open>None\<close> is an error, \<open>Some None\<close> the nil map.\<close>

fun decode_obj :: "json \<Rightarrow> jmap option option" where
  "decode_obj (JObj kvs) = Some (Some (go_map kvs))"
| "decode_obj JNull = Some None"
| "decode_obj _ = None"

definition encode_obj :: "jmap \<Rightarrow> json" where
  "encode_obj m = JObj (sort_key fst m)"

text \<open>\<open>json.Unmarshal\<close> into a list of strings: \<open>null\<close> leaves an element empty.\<close>

fun decode_string :: "json \<Rightarrow> string option" where
  "decode_string (JStr s) = Some s"
| "decode_string JNull = Some []"
| "decode_string _ = None"

fun decode_strings :: "json \<Rightarrow> string list option" where
  "decode_strings (JArr js) = those (map decode_string js)"
| "decode_strings JNull = Some []"
| "decode_strings _ = None"

definition encode_strings :: "string list \<Rightarrow> json" where
  "encode_strings ss = JArr (map JStr ss)"

text \<open>Reading a field, for statements about documents.\<close>

definition jfield :: "string \<Rightarrow> json \<Rightarrow> json option" where
  "jfield k j = (case decode_obj j of Some (Some m) \<Rightarrow> map_of m k | _ \<Rightarrow> None)"

text \<open>The value Go compares after decoding into \<open>interface{}\<close>: keys unique and unordered.\<close>

fun canon :: "json \<Rightarrow> json" where
  "canon (JArr js) = JArr (map canon js)"
| "canon (JObj kvs) = JObj (sort_key fst (go_map (map (\<lambda>x. (fst x, canon (snd x))) kvs)))"
| "canon j = j"

section \<open>Facts\<close>

lemma map_of_put [simp]: "map_of (put k v m) = (map_of m)(k := Some v)"
  by (induction m) auto

lemma keys_put: "set (map fst (put k v m)) = insert k (set (map fst m))"
  by (induction m) auto

lemma distinct_put [simp]: "distinct (map fst m) \<Longrightarrow> distinct (map fst (put k v m))"
  by (induction m) (use keys_put in \<open>fastforce simp: image_iff\<close>)+

lemma distinct_go_map [simp]: "distinct (map fst (go_map kvs))"
proof -
  have "distinct (map fst m) \<Longrightarrow> distinct (map fst (fold (\<lambda>x. put (fst x) (snd x)) kvs m))" for m
    by (induction kvs arbitrary: m) auto
  then show ?thesis by (simp add: go_map_def)
qed

lemma decode_obj_distinct: "decode_obj j = Some (Some m) \<Longrightarrow> distinct (map fst m)"
  by (cases j) auto

lemma map_of_go_map: "map_of (go_map kvs) = map_of (rev kvs)"
proof -
  have "map_of (fold (\<lambda>x. put (fst x) (snd x)) kvs m) = map_of m ++ map_of (rev kvs)" for m
    by (induction kvs arbitrary: m) (auto simp: map_add_def fun_eq_iff split: option.splits)
  then show ?thesis by (simp add: go_map_def)
qed

lemma map_of_sort_key:
  assumes "distinct (map fst (m :: jmap))"
  shows "map_of (sort_key fst m) = map_of m"
  by (rule map_of_eqI)
    (use assms in \<open>auto simp: distinct_map map_of_eq_Some_iff inj_on_def\<close>)

lemma go_map_distinct: "distinct (map fst m) \<Longrightarrow> map_of (go_map m) = map_of m"
proof -
  assume "distinct (map fst m)"
  then have "map_of (rev m) = map_of m"
    by (intro map_of_eqI) (auto simp: map_of_eq_Some_iff rev_map [symmetric])
  then show ?thesis by (simp add: map_of_go_map)
qed

lemma jfield_encode [simp]:
  assumes "distinct (map fst m)"
  shows "jfield k (encode_obj m) = map_of m k"
proof -
  have "distinct (map fst (sort_key fst m))"
    using assms by (simp add: distinct_map)
  then show ?thesis
    using go_map_distinct map_of_sort_key [OF assms] by (simp add: jfield_def encode_obj_def)
qed

lemma jfield_decode: "decode_obj j = Some (Some m) \<Longrightarrow> jfield k j = map_of m k"
  by (simp add: jfield_def)

lemma decode_encode_strings [simp]: "decode_strings (encode_strings ss) = Some ss"
  by (induction ss) (simp_all add: encode_strings_def)

end
