(* ===== verification/Interceptor.thy ===== *)
theory Interceptor
  imports Json GoText OperationLock "HOL-Library.Word" "HOL-Library.Multiset"
begin

unbundle bit_operations_syntax

text \<open>
  The OCI runtime wrapper of \<open>internal/ociinterceptor\<close>: \<open>interceptor.go\<close> rewrites a bundle's
  configuration on request, \<open>runtime.go\<close> parses the wrapper's own arguments and forwards the rest to
  the real runtime. Bundles are a map from configuration paths to files; a file says what \<open>Lstat\<close>
  sees, its size, what reading and parsing it gives and whether it can be replaced.
\<close>

definition TweakEnvironmentVariable :: string where
  "TweakEnvironmentVariable = ''CMGR_OCI_INTERCEPTOR_SECCOMP_TWEAKS''"

definition TweakAllowDisableASLR :: string where
  "TweakAllowDisableASLR = ''allow-disable-aslr''"

definition RuntimeProtocolArgument :: string where
  "RuntimeProtocolArgument = ''--cmgr-interceptor-protocol=seccomp-v1''"

definition runtimePathOption :: string where "runtimePathOption = ''--cmgr-runtime-path''"

definition runtimeProtocolOption :: string where
  "runtimeProtocolOption = ''--cmgr-interceptor-protocol''"

definition RuntimeName :: string where "RuntimeName = ''cmgr-oci-interceptor''"

definition maxOCIConfigSize :: int where "maxOCIConfigSize = 16 * 1024 * 1024"

section \<open>Tweaks\<close>

text \<open>The loop of \<open>NormalizeTweaks\<close> over the sorted list; \<open>prev\<close> is the element before.\<close>

fun check_tweaks :: "string option \<Rightarrow> string list \<Rightarrow> err option" where
  "check_tweaks prev [] = None"
| "check_tweaks prev (t # ts) =
     (if prev = Some t then Some (Plain ''seccomp tweak is specified more than once'')
      else if t \<noteq> TweakAllowDisableASLR then Some (Plain ''unsupported seccomp tweak'')
      else check_tweaks (Some t) ts)"

definition NormalizeTweaks :: "string list \<Rightarrow> err + string list" where
  "NormalizeTweaks tweaks =
     (case check_tweaks None (sort tweaks) of Some e \<Rightarrow> Inl e | None \<Rightarrow> Inr (sort tweaks))"

definition control_prefix :: string where
  "control_prefix = TweakEnvironmentVariable @ ''=''"

text \<open>\<open>consumeTweakRequest\<close>: the tweaks, the environment left, and whether there was a request.\<close>

definition consumeTweakRequest :: "json option \<Rightarrow> err + string list \<times> string list \<times> bool" where
  "consumeTweakRequest raw =
     (case raw of
        None \<Rightarrow> Inr ([], [], False)
      | Some JNull \<Rightarrow> Inr ([], [], False)
      | Some j \<Rightarrow>
        (case decode_strings j of
           None \<Rightarrow> Inl (Plain ''could not parse OCI process environment'')
         | Some env \<Rightarrow>
           let requests = map (\<lambda>v. TrimPrefix v control_prefix) (filter (\<lambda>v. HasPrefix v control_prefix) env);
               filtered = filter (\<lambda>v. \<not> HasPrefix v control_prefix) env in
           if requests = [] then Inr ([], env, False)
           else if last requests = [] then Inl (Plain ''seccomp tweak request is empty'')
           else if length requests \<noteq> 1 then Inl (Plain ''expected exactly one seccomp tweak request'')
           else case NormalizeTweaks (Split (CHR '','') (last requests)) of
             Inl e \<Rightarrow> Inl e
           | Inr tweaks \<Rightarrow> Inr (tweaks, filtered, True)))"

text \<open>The value is \<open>^uint64(0x60008)\<close>.\<close>

definition aslr_mask :: "64 word" where "aslr_mask = NOT 0x60008"

definition aslr_rule :: json where
  "aslr_rule = encode_obj
     [(''names'', JArr [JStr ''personality'']),
      (''action'', JStr ''SCMP_ACT_ALLOW''),
      (''args'', JArr [encode_obj
         [(''index'', JNum (nat_dec 0)), (''value'', JNum (nat_dec (unat aslr_mask))),
          (''op'', JStr ''SCMP_CMP_MASKED_EQ'')]])]"

definition applyTweaks :: "json \<Rightarrow> string list \<Rightarrow> err + json" where
  "applyTweaks raw tweaks =
     (case decode_obj raw of
        None \<Rightarrow> Inl (Plain ''could not parse OCI seccomp configuration'')
      | Some None \<Rightarrow> Inl (Plain ''assignment to entry in nil map'')
      | Some (Some seccomp) \<Rightarrow>
        (case (case map_of seccomp ''syscalls'' of
                 None \<Rightarrow> Some None
               | Some JNull \<Rightarrow> Some None
               | Some (JArr js) \<Rightarrow> Some (Some js)
               | Some _ \<Rightarrow> None) of
           None \<Rightarrow> Inl (Plain ''could not parse OCI seccomp syscall rules'')
         | Some syscalls \<Rightarrow>
           let added = map (\<lambda>_. aslr_rule) (filter (\<lambda>t. t = TweakAllowDisableASLR) tweaks);
               encoded = (case syscalls of
                   None \<Rightarrow> if added = [] then JNull else JArr added
                 | Some js \<Rightarrow> JArr (js @ added))
           in Inr (encode_obj (put ''syscalls'' encoded seccomp))))"

text \<open>\<open>RewriteConfig\<close> on a parsed document (\<open>None\<close>: it did not parse).\<close>

definition RewriteConfig :: "json option \<Rightarrow> err + json \<times> bool" where
  "RewriteConfig original =
     (case Option.bind original decode_obj of
        None \<Rightarrow> Inl (Plain ''could not parse OCI configuration'')
      | Some doc \<Rightarrow>
      let document = (case doc of None \<Rightarrow> [] | Some m \<Rightarrow> m) in
      case map_of document ''process'' of
        None \<Rightarrow> Inl (Plain ''OCI configuration does not contain a process'')
      | Some processRaw \<Rightarrow>
      case decode_obj processRaw of
        None \<Rightarrow> Inl (Plain ''could not parse OCI process configuration'')
      | Some proc \<Rightarrow>
      let process = (case proc of None \<Rightarrow> [] | Some m \<Rightarrow> m) in
      case consumeTweakRequest (map_of process ''env'') of
        Inl e \<Rightarrow> Inl e
      | Inr (tweaks, environment, requested) \<Rightarrow>
      if \<not> requested then Inr (the original, False)
      else
      let document' = put ''process'' (encode_obj (put ''env'' (encode_strings environment) process)) document in
      case map_of document' ''linux'' of
        None \<Rightarrow> Inl (Plain ''OCI configuration does not contain Linux settings'')
      | Some linuxRaw \<Rightarrow>
      case decode_obj linuxRaw of
        None \<Rightarrow> Inl (Plain ''could not parse OCI Linux configuration'')
      | Some lin \<Rightarrow>
      let linux = (case lin of None \<Rightarrow> [] | Some m \<Rightarrow> m) in
      case map_of linux ''seccomp'' of
        None \<Rightarrow> Inl (Plain ''no active seccomp profile'')
      | Some seccompRaw \<Rightarrow>
      if seccompRaw = JNull then Inl (Plain ''no active seccomp profile'')
      else case applyTweaks seccompRaw tweaks of
        Inl e \<Rightarrow> Inl e
      | Inr updated \<Rightarrow>
        Inr (encode_obj (put ''linux'' (encode_obj (put ''seccomp'' updated linux)) document'), True))"

section \<open>Bundles\<close>

record bundle_file =
  bf_lstat :: lstat_result
  bf_size :: int
  bf_content :: "(int \<times> json option) option"
  bf_replaceable :: bool

type_synonym bundles = "string \<Rightarrow> bundle_file"

definition config_path :: "string \<Rightarrow> string" where
  "config_path bundle = Clean (bundle @ ''/config.json'')"

definition RewriteBundle :: "string \<Rightarrow> bundles \<Rightarrow> (err + bool) \<times> bundles" where
  "RewriteBundle bundle fs =
     (let p = config_path bundle; f = fs p in
      if bf_lstat f = LNotExist \<or> bf_lstat f = LError then (Inl (Plain ''could not inspect OCI configuration''), fs)
      else if bf_lstat f \<noteq> LRegular then (Inl (Plain ''OCI configuration is not a regular file''), fs)
      else if bf_size f > maxOCIConfigSize then (Inl (Plain ''OCI configuration exceeds the size limit''), fs)
      else case bf_content f of
        None \<Rightarrow> (Inl (Plain ''could not read OCI configuration''), fs)
      | Some (len, doc) \<Rightarrow>
        if len > maxOCIConfigSize then (Inl (Plain ''OCI configuration exceeds the size limit''), fs)
        else case RewriteConfig doc of
          Inl e \<Rightarrow> (Inl e, fs)
        | Inr (doc', changed) \<Rightarrow>
          if \<not> changed then (Inr False, fs)
          else if \<not> bf_replaceable f then (Inl (Plain ''could not write OCI configuration''), fs)
          else (Inr True, fs(p := f\<lparr>bf_content := Some (len, Some doc')\<rparr>)))"

section \<open>Arguments\<close>

fun FindBundlePath :: "string list \<Rightarrow> string option" where
  "FindBundlePath [] = None"
| "FindBundlePath (a # as) =
     (if a = ''-b'' \<or> a = ''--bundle'' then (case as of [] \<Rightarrow> None | b # _ \<Rightarrow> Some b)
      else if HasPrefix a ''-b='' then Some (TrimPrefix a ''-b='')
      else if HasPrefix a ''--bundle='' then Some (TrimPrefix a ''--bundle='')
      else FindBundlePath as)"

definition safe_char :: "char \<Rightarrow> bool" where
  "safe_char c \<longleftrightarrow> is_lower c \<or> is_upper c \<or> is_digit c \<or>
     c = CHR ''/'' \<or> c = CHR ''.'' \<or> c = CHR ''_'' \<or> c = CHR ''-''"

definition shellSafePath :: "string \<Rightarrow> bool" where
  "shellSafePath p \<longleftrightarrow> p \<noteq> [] \<and> list_all safe_char p"

text \<open>The loop of \<open>parseRuntimeArguments\<close>: runtime path, forwarded arguments and the two counts.\<close>

fun scan_arguments ::
  "string list \<Rightarrow> string \<times> string list \<times> nat \<times> nat \<Rightarrow> err + string \<times> string list \<times> nat \<times> nat" where
  "scan_arguments [] s = Inr s"
| "scan_arguments (a # as) (path, fwd, protocols, paths) =
     (if a = RuntimeProtocolArgument then scan_arguments as (path, fwd, protocols + 1, paths)
      else if a = runtimeProtocolOption then Inl (Plain ''option requires a value'')
      else if HasPrefix a (runtimeProtocolOption @ ''='') then Inl (Plain ''unsupported interceptor protocol argument'')
      else if a = runtimePathOption then
        (case as of
           [] \<Rightarrow> Inl (Plain ''option requires a path'')
         | p # as' \<Rightarrow> scan_arguments as' (p, fwd, protocols, paths + 1))
      else if HasPrefix a (runtimePathOption @ ''='') then
        scan_arguments as (TrimPrefix a (runtimePathOption @ ''=''), fwd, protocols, paths + 1)
      else scan_arguments as (path, fwd @ [a], protocols, paths))"

definition parseRuntimeArguments :: "string list \<Rightarrow> err + string \<times> string list" where
  "parseRuntimeArguments arguments =
     (case scan_arguments arguments ([], [], 0, 0) of
        Inl e \<Rightarrow> Inl e
      | Inr (path, fwd, protocols, paths) \<Rightarrow>
        if protocols \<noteq> 1 then Inl (Plain ''expected exactly one protocol argument'')
        else if paths \<noteq> 1 then Inl (Plain ''expected exactly one runtime path argument'')
        else if path = [] then Inl (Plain ''runtime path cannot be empty'')
        else if \<not> IsAbs path \<or> \<not> shellSafePath path then Inl (Plain ''must name a safe absolute path'')
        else Inr (path, fwd))"

definition RuntimeRegistrationCompatible :: "string \<Rightarrow> string list \<Rightarrow> bool" where
  "RuntimeRegistrationCompatible interceptorPath arguments =
     (if \<not> IsAbs interceptorPath \<or> \<not> shellSafePath interceptorPath then False
      else case parseRuntimeArguments arguments of Inl _ \<Rightarrow> False | Inr (_, fwd) \<Rightarrow> fwd = [])"

definition invocationRequiresRewrite :: "string list \<Rightarrow> bool" where
  "invocationRequiresRewrite arguments = list_ex (\<lambda>a. a = ''create'' \<or> a = ''run'') arguments"

fun scan_bundles :: "string list \<Rightarrow> string \<times> nat \<Rightarrow> err + string \<times> nat" where
  "scan_bundles [] s = Inr s"
| "scan_bundles (a # as) (bundle, n) =
     (let candidate =
        (if a = ''-b'' \<or> a = ''--bundle'' then
           (case as of [] \<Rightarrow> Inl (Plain ''option requires a bundle path'')
            | b # _ \<Rightarrow> if b = [] then Inl (Plain ''option requires a bundle path'') else Inr (Some b))
         else if HasPrefix a ''-b='' then Inr (Some (TrimPrefix a ''-b=''))
         else if HasPrefix a ''--bundle='' then Inr (Some (TrimPrefix a ''--bundle=''))
         else Inr None) in
      case candidate of
        Inl e \<Rightarrow> Inl e
      | Inr None \<Rightarrow> scan_bundles as (bundle, n)
      | Inr (Some c) \<Rightarrow>
        if c = [] then Inl (Plain ''bundle path cannot be empty'') else scan_bundles as (c, n + 1))"

definition findBundlePathStrict :: "string list \<Rightarrow> err + string" where
  "findBundlePathStrict arguments =
     (case scan_bundles arguments ([], 0) of
        Inl e \<Rightarrow> Inl e
      | Inr (bundle, n) \<Rightarrow>
        if n \<noteq> 1 then Inl (Plain ''expected exactly one bundle path'') else Inr bundle)"

text \<open>
  \<open>RunRuntime\<close>: the exit code, the real runtime's invocation if there was one, and the bundles
  afterwards. \<open>runc\<close> gives the real runtime's exit code, \<open>None\<close> when it cannot be started.
\<close>

definition RunRuntime ::
  "(string \<Rightarrow> string list \<Rightarrow> bundles \<Rightarrow> int option) \<Rightarrow> string list \<Rightarrow> bundles \<Rightarrow>
    int \<times> (string \<times> string list) option \<times> bundles" where
  "RunRuntime runc arguments fs =
     (case parseRuntimeArguments arguments of
        Inl _ \<Rightarrow> (1, None, fs)
      | Inr (runtimePath, fwd) \<Rightarrow>
        let forward = (\<lambda>fs. (case runc runtimePath fwd fs of Some c \<Rightarrow> c | None \<Rightarrow> 1, Some (runtimePath, fwd), fs)) in
        if invocationRequiresRewrite fwd then
          (case findBundlePathStrict fwd of
             Inl _ \<Rightarrow> (1, None, fs)
           | Inr bundle \<Rightarrow>
             (case RewriteBundle bundle fs of
                (Inl _, fs') \<Rightarrow> (1, None, fs')
              | (Inr changed, fs') \<Rightarrow> if \<not> changed then (1, None, fs') else forward fs'))
        else forward fs)"

section \<open>Tweak lists\<close>

text \<open>Normalizing does not depend on the order of the request.\<close>

lemma NormalizeTweaks_order: "mset a = mset b \<Longrightarrow> NormalizeTweaks a = NormalizeTweaks b"
proof -
  assume "mset a = mset b"
  then have e: "sort a = sort b" using properties_for_sort [of "sort a" b] by simp
  show ?thesis unfolding NormalizeTweaks_def e ..
qed

lemma check_tweaks_None:
  "check_tweaks prev ts = None \<Longrightarrow>
    ts = [] \<or> (ts = [TweakAllowDisableASLR] \<and> prev \<noteq> Some TweakAllowDisableASLR)"
proof (induction prev ts rule: check_tweaks.induct)
  case (2 prev t ts)
  then show ?case by (auto split: if_splits)
qed simp

lemma NormalizeTweaks_Inr:
  assumes "NormalizeTweaks ts = Inr ns"
  shows "ns = sort ts \<and> (ts = [] \<or> ts = [TweakAllowDisableASLR])"
proof -
  have "ns = sort ts" "check_tweaks None (sort ts) = None"
    using assms by (auto simp: NormalizeTweaks_def split: option.splits)
  moreover from this have "sort ts = [] \<or> sort ts = [TweakAllowDisableASLR]"
    using check_tweaks_None by blast
  then have "mset ts = {#} \<or> mset ts = {#TweakAllowDisableASLR#}"
    using mset_sort [of "\<lambda>x. x" ts] by (auto simp del: mset_sort)
  then have "ts = [] \<or> ts = [TweakAllowDisableASLR]" by simp
  ultimately show ?thesis by simp
qed

section \<open>What a rewrite does\<close>

definition control_free :: "string list \<Rightarrow> string list" where
  "control_free = filter (\<lambda>v. \<not> HasPrefix v control_prefix)"

definition requests_in :: "string list \<Rightarrow> string list" where
  "requests_in env = map (\<lambda>v. TrimPrefix v control_prefix) (filter (\<lambda>v. HasPrefix v control_prefix) env)"

lemma consume_requested:
  assumes "consumeTweakRequest raw = Inr (tweaks, environment, True)"
  obtains e env where "raw = Some e" "decode_strings e = Some env" "environment = control_free env"
    "tweaks = [TweakAllowDisableASLR]" "requests_in env = [TweakAllowDisableASLR]"
proof -
  obtain e where e: "raw = Some e" "e \<noteq> JNull"
    using assms by (auto simp: consumeTweakRequest_def split: option.splits json.splits)
  obtain env where env: "decode_strings e = Some env"
    using assms e by (auto simp: consumeTweakRequest_def split: option.splits json.splits)
  have c: "consumeTweakRequest raw =
      (if requests_in env = [] then Inr ([], env, False)
       else if last (requests_in env) = [] then Inl (Plain ''seccomp tweak request is empty'')
       else if length (requests_in env) \<noteq> 1 then Inl (Plain ''expected exactly one seccomp tweak request'')
       else case NormalizeTweaks (Split (CHR '','') (last (requests_in env))) of
             Inl e \<Rightarrow> Inl e
           | Inr tweaks \<Rightarrow> Inr (tweaks, control_free env, True))"
    using e env
    by (cases e) (simp_all add: consumeTweakRequest_def requests_in_def control_free_def Let_def split: sum.splits)
  then have r: "length (requests_in env) = 1" "requests_in env \<noteq> []"
      "NormalizeTweaks (Split (CHR '','') (last (requests_in env))) = Inr tweaks" "environment = control_free env"
    using assms by (auto split: if_splits sum.splits)
  obtain q where q: "requests_in env = [q]" using r(1) by (auto simp: length_Suc_conv)
  have n: "tweaks = sort (Split (CHR '','') q)" "Split (CHR '','') q = [TweakAllowDisableASLR]"
    using NormalizeTweaks_Inr [OF r(3)] q by auto
  have "q = TweakAllowDisableASLR" using Join_Split [of "CHR '',''" q] n(2) by simp
  then show thesis using that [OF e(1) env r(4)] n q by simp
qed

lemma control_free_no_request: "requests_in (control_free env) = []"
  by (induction env) (simp_all add: requests_in_def control_free_def)

text \<open>The rules of a seccomp section: absent and \<open>null\<close> are the empty list.\<close>

definition syscall_rules :: "json \<Rightarrow> json list" where
  "syscall_rules s = (case jfield ''syscalls'' s of Some (JArr js) \<Rightarrow> js | _ \<Rightarrow> [])"

lemma applyTweaks_effect:
  assumes "applyTweaks raw [TweakAllowDisableASLR] = Inr updated"
  shows "syscall_rules updated = syscall_rules raw @ [aslr_rule]"
    "k \<noteq> ''syscalls'' \<Longrightarrow> jfield k updated = jfield k raw"
proof -
  obtain m where m: "decode_obj raw = Some (Some m)"
    using assms by (auto simp: applyTweaks_def split: option.splits)
  note d = decode_obj_distinct [OF m] and f = jfield_decode [OF m]
  obtain js where js: "updated = encode_obj (put ''syscalls'' (JArr (js @ [aslr_rule])) m)" "syscall_rules raw = js"
    using assms
    by (auto simp: applyTweaks_def m f syscall_rules_def Let_def split: option.splits json.splits)
  show "syscall_rules updated = syscall_rules raw @ [aslr_rule]"
  proof -
    have "syscall_rules updated = js @ [aslr_rule]" using d by (simp add: js(1) syscall_rules_def)
    then show ?thesis using js(2) by simp
  qed
  show "k \<noteq> ''syscalls'' \<Longrightarrow> jfield k updated = jfield k raw"
    using d f by (simp add: js(1))
qed

definition env_of :: "json \<Rightarrow> string list" where
  "env_of doc = (case Option.bind (Option.bind (jfield ''process'' doc) (jfield ''env'')) decode_strings of
     Some env \<Rightarrow> env | None \<Rightarrow> [])"

definition seccomp_of :: "json \<Rightarrow> json" where
  "seccomp_of doc = (case Option.bind (jfield ''linux'' doc) (jfield ''seccomp'') of Some s \<Rightarrow> s | None \<Rightarrow> JNull)"

lemma rewrite_parts:
  assumes "RewriteConfig (Some doc) = Inr (doc', True)"
  obtains document process linux env seccompRaw updated where
    "decode_obj doc = Some (Some document)"
    "\<exists>p. map_of document ''process'' = Some p \<and> decode_obj p = Some (Some process)"
    "\<exists>l. map_of document ''linux'' = Some l \<and> decode_obj l = Some (Some linux)"
    "\<exists>e. map_of process ''env'' = Some e \<and> decode_strings e = Some env"
    "requests_in env = [TweakAllowDisableASLR]"
    "map_of linux ''seccomp'' = Some seccompRaw" "seccompRaw \<noteq> JNull"
    "applyTweaks seccompRaw [TweakAllowDisableASLR] = Inr updated"
    "doc' = encode_obj (put ''linux'' (encode_obj (put ''seccomp'' updated linux))
       (put ''process'' (encode_obj (put ''env'' (encode_strings (control_free env)) process)) document))"
proof -
  obtain dm where dm: "decode_obj doc = Some dm"
    using assms by (auto simp: RewriteConfig_def split: option.splits)
  define document where "document = (case dm of None \<Rightarrow> [] | Some m \<Rightarrow> m)"
  obtain p pm where p: "map_of document ''process'' = Some p" "decode_obj p = Some pm"
    using assms dm by (auto simp: RewriteConfig_def document_def Let_def split: option.splits)
  define process where "process = (case pm of None \<Rightarrow> [] | Some m \<Rightarrow> m)"
  obtain tweaks environment where c: "consumeTweakRequest (map_of process ''env'') = Inr (tweaks, environment, True)"
    using assms dm p
    by (auto simp: RewriteConfig_def document_def process_def Let_def split: option.splits sum.splits prod.splits if_splits)
  obtain e env where e: "map_of process ''env'' = Some e" "decode_strings e = Some env"
      "environment = control_free env" "tweaks = [TweakAllowDisableASLR]" "requests_in env = [TweakAllowDisableASLR]"
    by (rule consume_requested [OF c])
  obtain l lm where l: "map_of document ''linux'' = Some l" "decode_obj l = Some lm"
    using assms dm p c
    by (auto simp: RewriteConfig_def document_def [symmetric] process_def [symmetric] Let_def split: option.splits)
  define linux where "linux = (case lm of None \<Rightarrow> [] | Some m \<Rightarrow> m)"
  obtain s where s: "map_of linux ''seccomp'' = Some s" "s \<noteq> JNull"
    using assms dm p c l
    by (auto simp: RewriteConfig_def document_def [symmetric] process_def [symmetric] linux_def [symmetric] Let_def
        split: option.splits if_splits)
  obtain updated where u: "applyTweaks s tweaks = Inr updated"
      "doc' = encode_obj (put ''linux'' (encode_obj (put ''seccomp'' updated linux))
       (put ''process'' (encode_obj (put ''env'' (encode_strings environment) process)) document))"
    using assms dm p c l s
    by (auto simp: RewriteConfig_def document_def [symmetric] process_def [symmetric] linux_def [symmetric] Let_def
        split: option.splits if_splits sum.splits)
  have some: "dm = Some document" "pm = Some process" "lm = Some linux"
    using p(1) e(1) s(1) by (auto simp: document_def process_def linux_def split: option.splits)
  show thesis
    using that [of document process linux env s updated] dm p l e s u by (simp add: some)
qed

lemma rewrite_effect:
  assumes "RewriteConfig (Some doc) = Inr (doc', True)"
  shows "env_of doc' = control_free (env_of doc)" "requests_in (env_of doc) = [TweakAllowDisableASLR]"
    "syscall_rules (seccomp_of doc') = syscall_rules (seccomp_of doc) @ [aslr_rule]"
    "seccomp_of doc \<noteq> JNull"
    "k \<noteq> ''syscalls'' \<Longrightarrow> jfield k (seccomp_of doc') = jfield k (seccomp_of doc)"
    "k \<notin> {''process'', ''linux''} \<Longrightarrow> jfield k doc' = jfield k doc"
    "k \<noteq> ''env'' \<Longrightarrow> Option.bind (jfield ''process'' doc') (jfield k) = Option.bind (jfield ''process'' doc) (jfield k)"
    "k \<noteq> ''seccomp'' \<Longrightarrow> Option.bind (jfield ''linux'' doc') (jfield k) = Option.bind (jfield ''linux'' doc) (jfield k)"
proof -
  obtain document process linux env seccompRaw updated p l e where r:
    "decode_obj doc = Some (Some document)"
    "map_of document ''process'' = Some p" "decode_obj p = Some (Some process)"
    "map_of document ''linux'' = Some l" "decode_obj l = Some (Some linux)"
    "map_of process ''env'' = Some e" "decode_strings e = Some env"
    "requests_in env = [TweakAllowDisableASLR]"
    "map_of linux ''seccomp'' = Some seccompRaw" "seccompRaw \<noteq> JNull"
    "applyTweaks seccompRaw [TweakAllowDisableASLR] = Inr updated"
    "doc' = encode_obj (put ''linux'' (encode_obj (put ''seccomp'' updated linux))
       (put ''process'' (encode_obj (put ''env'' (encode_strings (control_free env)) process)) document))"
    by (rule rewrite_parts [OF assms]) blast
  note d = decode_obj_distinct [OF r(1)] decode_obj_distinct [OF r(3)] decode_obj_distinct [OF r(5)]
  note f = jfield_decode [OF r(1)] jfield_decode [OF r(3)] jfield_decode [OF r(5)]
  have old: "env_of doc = env" "seccomp_of doc = seccompRaw"
    by (simp_all add: env_of_def seccomp_of_def f r)
  have new: "env_of doc' = control_free env" "seccomp_of doc' = updated"
    by (simp_all add: env_of_def seccomp_of_def r(12) d)
  note a = applyTweaks_effect [OF r(11)]
  show "env_of doc' = control_free (env_of doc)" "requests_in (env_of doc) = [TweakAllowDisableASLR]"
    "syscall_rules (seccomp_of doc') = syscall_rules (seccomp_of doc) @ [aslr_rule]"
    "seccomp_of doc \<noteq> JNull"
    using a(1) r(8,10) by (simp_all add: old new)
  show "k \<noteq> ''syscalls'' \<Longrightarrow> jfield k (seccomp_of doc') = jfield k (seccomp_of doc)"
    using a(2) by (simp add: old new)
  show "k \<notin> {''process'', ''linux''} \<Longrightarrow> jfield k doc' = jfield k doc"
    by (simp add: r(12) d f)
  show "k \<noteq> ''env'' \<Longrightarrow> Option.bind (jfield ''process'' doc') (jfield k) = Option.bind (jfield ''process'' doc) (jfield k)"
    by (simp add: r(12) d f r(2))
  show "k \<noteq> ''seccomp'' \<Longrightarrow> Option.bind (jfield ''linux'' doc') (jfield k) = Option.bind (jfield ''linux'' doc) (jfield k)"
    by (simp add: r(12) d f r(4))
qed

section \<open>Fail closed\<close>

lemma RewriteBundle_True:
  assumes "RewriteBundle b fs = (Inr True, fs')"
  obtains len doc doc' where "bf_content (fs (config_path b)) = Some (len, Some doc)"
    "RewriteConfig (Some doc) = Inr (doc', True)"
    "fs' = fs(config_path b := (fs (config_path b))\<lparr>bf_content := Some (len, Some doc')\<rparr>)"
proof -
  obtain len doc where c: "bf_content (fs (config_path b)) = Some (len, doc)"
    using assms by (auto simp: RewriteBundle_def Let_def split: if_splits option.splits)
  obtain doc' ch where r: "RewriteConfig doc = Inr (doc', ch)"
    using assms c by (auto simp: RewriteBundle_def Let_def split: if_splits sum.splits)
  then have ch: "ch" "fs' = fs(config_path b := (fs (config_path b))\<lparr>bf_content := Some (len, Some doc')\<rparr>)"
    using assms c by (auto simp: RewriteBundle_def Let_def split: if_splits)
  obtain d where "doc = Some d" using r by (cases doc) (auto simp: RewriteConfig_def)
  then show thesis using that [of len d doc'] c r ch by simp
qed


text \<open>A bundle that asks for the tweak, for the witness.\<close>

definition ex_document :: json where
  "ex_document = JObj [(''process'', JObj [(''env'', JArr [JStr ''PATH=/bin'',
       JStr ''CMGR_OCI_INTERCEPTOR_SECCOMP_TWEAKS=allow-disable-aslr''])]),
     (''linux'', JObj [(''seccomp'', JObj [(''defaultAction'', JStr ''SCMP_ACT_ERRNO'')])])]"

definition ex_bundles :: bundles where
  "ex_bundles = (\<lambda>_. \<lparr>bf_lstat = LNotExist, bf_size = 0, bf_content = None, bf_replaceable = False\<rparr>)
     (''/b/config.json'' := \<lparr>bf_lstat = LRegular, bf_size = 200, bf_content = Some (200, Some ex_document),
        bf_replaceable = True\<rparr>)"

definition ex_arguments :: "string list" where
  "ex_arguments = [RuntimeProtocolArgument, ''--cmgr-runtime-path=/usr/bin/runc'', ''create'', ''--bundle'', ''/b'', ''id'']"


end
