(* ===== verification/Seccomp.thy ===== *)
theory Seccomp
  imports Types Interceptor
begin

text \<open>
  \<open>cmgr/seccomp.go\<close>: choosing a seccomp policy for a challenge, reading and checking custom profiles,
  storing the choice and reading it back, and overlaying the tweaks a build asks for. Arguments of
  the model: \<open>hash\<close> is the hexadecimal SHA-256 of a text, \<open>parse\<close> decodes a profile's text into the
  struct \<open>seccompProfile\<close> (\<open>None\<close>: invalid JSON), \<open>embedded\<close> is the legacy policy \<open>seccomp.json\<close>.
\<close>

definition maxSeccompProfileSize :: int where "maxSeccompProfileSize = 1024 * 1024"

definition buildMetadataSeccompTweaksKey :: string where
  "buildMetadataSeccompTweaksKey = ''__cmgr_seccomp_tweaks''"

record seccompArgument =
  sa_Op :: string

record seccompSyscall =
  ss_Name :: string
  ss_Names :: "string list"
  ss_Action :: string
  ss_Args :: "seccompArgument list"

record seccompProfile =
  sp_DefaultAction :: string
  sp_Syscalls :: "seccompSyscall list"

section \<open>Profiles\<close>

definition profile_char :: "char \<Rightarrow> bool" where
  "profile_char c \<longleftrightarrow> is_lower c \<or> is_upper c \<or> is_digit c \<or> c = CHR ''_'' \<or> c = CHR ''-'' \<or> c = CHR ''.''"

definition validateSeccompProfileFilename :: "string \<Rightarrow> err + unit" where
  "validateSeccompProfileFilename p =
     (if p = [] then Inl (Plain ''filename cannot be empty'')
      else if IsAbs p \<or> Base p \<noteq> p then Inl (Plain ''must be a JSON file in the challenge directory'')
      else if hd p = CHR ''.'' then Inl (Plain ''must not start with a dot'')
      else if Ext p \<noteq> ''.json'' then Inl (Plain ''must end with .json'')
      else if p = ''problem.json'' then Inl (Plain ''problem.json cannot be a profile'')
      else if \<not> list_all profile_char p then Inl (Plain ''contains unsupported characters'')
      else Inr ())"

definition syscall_error :: "seccompSyscall \<Rightarrow> err option" where
  "syscall_error s =
     (if ss_Name s \<noteq> [] \<and> ss_Names s \<noteq> [] then Some (Plain ''both name and names'')
      else if ss_Name s = [] \<and> ss_Names s = [] then Some (Plain ''no names'')
      else if ss_Action s = [] then Some (Plain ''no action'')
      else if list_ex (\<lambda>a. sa_Op a = []) (ss_Args s) then Some (Plain ''no operator'')
      else None)"

fun first_error :: "('a \<Rightarrow> err option) \<Rightarrow> 'a list \<Rightarrow> err option" where
  "first_error f [] = None"
| "first_error f (x # xs) = (case f x of Some e \<Rightarrow> Some e | None \<Rightarrow> first_error f xs)"

definition validateSeccompProfile :: "(string \<Rightarrow> seccompProfile option) \<Rightarrow> string \<Rightarrow> err + unit" where
  "validateSeccompProfile parse profile =
     (case parse profile of
        None \<Rightarrow> Inl (Plain ''invalid seccomp profile JSON'')
      | Some d \<Rightarrow>
        if sp_DefaultAction d = [] then Inl (Plain ''defaultAction must be a non-empty string'')
        else case first_error syscall_error (sp_Syscalls d) of Some e \<Rightarrow> Inl e | None \<Rightarrow> Inr ())"

text \<open>What the file system says about a candidate profile file.\<close>

datatype profile_lstat = PMissing | PSymlink | POther | PRegular int

record profile_file =
  pf_lstat :: profile_lstat
  pf_opens :: bool
  pf_stat_ok :: bool
  pf_same :: bool
  pf_data :: "string option"

definition readSeccompProfile :: "(string \<Rightarrow> profile_file) \<Rightarrow> string \<Rightarrow> string \<Rightarrow> err + string" where
  "readSeccompProfile fs root p =
     (case validateSeccompProfileFilename p of
        Inl e \<Rightarrow> Inl e
      | Inr _ \<Rightarrow>
        let f = fs (Clean (root @ ''/'' @ p)) in
        case pf_lstat f of
          PMissing \<Rightarrow> Inl (Plain ''could not inspect'')
        | PSymlink \<Rightarrow> Inl (Plain ''must not be a symbolic link'')
        | POther \<Rightarrow> Inl (Plain ''is not a regular file'')
        | PRegular sz \<Rightarrow>
          if sz > maxSeccompProfileSize then Inl (Plain ''exceeds the size limit'')
          else if \<not> pf_opens f then Inl (Plain ''could not open'')
          else if \<not> pf_stat_ok f then Inl (Plain ''could not inspect open file'')
          else if \<not> pf_same f then Inl (Plain ''changed while it was being opened'')
          else case pf_data f of
            None \<Rightarrow> Inl (Plain ''could not read'')
          | Some d \<Rightarrow> if int (length d) > maxSeccompProfileSize then Inl (Plain ''exceeds the size limit'')
                      else Inr d)"

section \<open>Choosing a policy\<close>

definition selected_modes :: "SeccompOptions \<Rightarrow> nat" where
  "selected_modes opts = (if Legacy opts then 1 else 0) + (if Tweaks opts \<noteq> [] then 1 else 0) +
     (if Profile opts \<noteq> [] then 1 else 0)"

definition resolve ::
  "(string \<Rightarrow> string) \<Rightarrow> (string \<Rightarrow> seccompProfile option) \<Rightarrow> string \<Rightarrow> (string \<Rightarrow> profile_file) \<Rightarrow>
    string \<Rightarrow> SeccompOptions \<Rightarrow> err + SeccompOptions" where
  "resolve hash parse embedded fs dir opts0 =
     (let opts = opts0\<lparr>ProfileHash := [], effectiveProfile := []\<rparr> in
      if selected_modes opts > 1 then Inl (Plain ''mutually exclusive'')
      else
      let snapshot = (\<lambda>profile.
        case validateSeccompProfile parse profile of
          Inl e \<Rightarrow> Inl e
        | Inr _ \<Rightarrow> Inr (opts\<lparr>ProfileHash := hash profile, effectiveProfile := profile\<rparr>)) in
      if Legacy opts then snapshot embedded
      else if Tweaks opts \<noteq> [] then
        (case NormalizeTweaks (Tweaks opts) of Inl e \<Rightarrow> Inl e | Inr ts \<Rightarrow> Inr (opts\<lparr>Tweaks := ts\<rparr>))
      else if Profile opts \<noteq> [] then
        (case readSeccompProfile fs dir (Profile opts) of Inl e \<Rightarrow> Inl e | Inr profile \<Rightarrow> snapshot profile)
      else Inr opts)"

definition validatePersistedSeccompOptions ::
  "(string \<Rightarrow> string) \<Rightarrow> (string \<Rightarrow> seccompProfile option) \<Rightarrow> SeccompOptions \<Rightarrow> err + SeccompOptions" where
  "validatePersistedSeccompOptions hash parse opts =
     (if selected_modes opts > 1 then Inl (Plain ''more than one mode'')
      else if Tweaks opts \<noteq> [] then
        (case NormalizeTweaks (Tweaks opts) of
           Inl e \<Rightarrow> Inl (Plain ''invalid persisted seccomp tweaks'')
         | Inr ts \<Rightarrow>
           if effectiveProfile opts \<noteq> [] \<or> ProfileHash opts \<noteq> []
           then Inl (Plain ''unexpectedly contain a profile snapshot'') else Inr (opts\<lparr>Tweaks := ts\<rparr>))
      else if Legacy opts \<or> Profile opts \<noteq> [] then
        (if Profile opts \<noteq> [] \<and> isl (validateSeccompProfileFilename (Profile opts))
           then Inl (Plain ''invalid persisted seccomp profile filename'')
         else if effectiveProfile opts = [] then Inl (Plain ''snapshot is missing'')
         else if isl (validateSeccompProfile parse (effectiveProfile opts))
           then Inl (Plain ''invalid persisted seccomp profile snapshot'')
         else if ProfileHash opts \<noteq> hash (effectiveProfile opts)
           then Inl (Plain ''hash does not match its snapshot'')
         else Inr opts)
      else if effectiveProfile opts \<noteq> [] \<or> ProfileHash opts \<noteq> []
        then Inl (Plain ''unexpectedly contain a profile snapshot'')
      else Inr opts)"

text \<open>
  The stored form: absent, or the options without their unexported field beside the effective
  profile. (Its JSON text is not modelled.)
\<close>

record persistedSeccompOptions =
  po_Options :: "SeccompOptions option"
  po_EffectiveProfile :: string

definition marshalSeccompOptions :: "SeccompOptions option \<Rightarrow> persistedSeccompOptions option" where
  "marshalSeccompOptions so =
     map_option (\<lambda>opts. \<lparr>po_Options = Some (opts\<lparr>effectiveProfile := []\<rparr>),
       po_EffectiveProfile = effectiveProfile opts\<rparr>) so"

definition unmarshalSeccompOptions ::
  "(string \<Rightarrow> string) \<Rightarrow> (string \<Rightarrow> seccompProfile option) \<Rightarrow> persistedSeccompOptions option \<Rightarrow>
    err + SeccompOptions option" where
  "unmarshalSeccompOptions hash parse data =
     (case data of
        None \<Rightarrow> Inr None
      | Some p \<Rightarrow>
        (case po_Options p of
           None \<Rightarrow> if po_EffectiveProfile p \<noteq> [] then Inl (Plain ''profile has no options'') else Inr None
         | Some opts \<Rightarrow>
           (case validatePersistedSeccompOptions hash parse (opts\<lparr>effectiveProfile := po_EffectiveProfile p\<rparr>) of
              Inl e \<Rightarrow> Inl e | Inr opts' \<Rightarrow> Inr (Some opts'))))"

section \<open>Tweaks that builds ask for\<close>

definition no_seccomp :: SeccompOptions where
  "no_seccomp = \<lparr>Legacy = False, Tweaks = [], Profile = [], ProfileHash = [], effectiveProfile = []\<rparr>"

text \<open>The set of names comes out of a Go map in any order; normalizing sorts it.\<close>

definition withRequiredSeccompTweaks ::
  "SeccompOptions option \<Rightarrow> string list \<Rightarrow> err + SeccompOptions option" where
  "withRequiredSeccompTweaks configured required =
     (if configured = None \<and> required = [] then Inr None
      else
      let combined = (case configured of None \<Rightarrow> no_seccomp | Some c \<Rightarrow> c) in
      case NormalizeTweaks (remdups (Tweaks combined @ required)) of
        Inl e \<Rightarrow> Inl e
      | Inr ts \<Rightarrow> Inr (Some (combined\<lparr>Tweaks := ts\<rparr>)))"

text \<open>The build's metadata is a list of pairs with distinct keys; the control key is taken out of it.\<close>

definition consumeBuildSeccompTweaks ::
  "(string \<times> string) list \<Rightarrow> err + string list \<times> (string \<times> string) list" where
  "consumeBuildSeccompTweaks metadata =
     (case map_of metadata buildMetadataSeccompTweaksKey of
        None \<Rightarrow> Inr ([], metadata)
      | Some encoded \<Rightarrow>
        let rest = filter (\<lambda>kv. fst kv \<noteq> buildMetadataSeccompTweaksKey) metadata in
        if TrimSpace encoded = [] then Inr ([], rest)
        else case NormalizeTweaks (map TrimSpace (Split (CHR '','') encoded)) of
          Inl e \<Rightarrow> Inl (Plain ''invalid build-required seccomp tweaks'')
        | Inr ts \<Rightarrow> Inr (ts, rest))"

type_synonym seccompPolicyFingerprint = "bool \<times> string list \<times> string \<times> string"

definition challengeSeccompPolicies :: "ChallengeOptions \<Rightarrow> string \<Rightarrow> seccompPolicyFingerprint option" where
  "challengeSeccompPolicies options host =
     (case map_of (Overrides options) host of
        None \<Rightarrow> None
      | Some c \<Rightarrow> map_option (\<lambda>s. (Legacy s, Tweaks s, Profile s, ProfileHash s)) (Seccomp c))"

definition seccompPoliciesEqual :: "ChallengeOptions \<Rightarrow> ChallengeOptions \<Rightarrow> bool" where
  "seccompPoliciesEqual a b \<longleftrightarrow>
     list_all (\<lambda>h. challengeSeccompPolicies a h = challengeSeccompPolicies b h)
       (map fst (Overrides a) @ map fst (Overrides b))"

section \<open>Facts\<close>

lemma seccompPoliciesEqual_iff:
  "seccompPoliciesEqual a b \<longleftrightarrow> challengeSeccompPolicies a = challengeSeccompPolicies b"
proof -
  have "challengeSeccompPolicies x h = None" if "h \<notin> set (map fst (Overrides x))" for x h
    using that by (simp add: challengeSeccompPolicies_def map_of_eq_None_iff [THEN iffD2])
  then have "challengeSeccompPolicies a h = challengeSeccompPolicies b h" if "seccompPoliciesEqual a b" for h
    using that
    by (cases "h \<in> set (map fst (Overrides a @ Overrides b))") (auto simp: seccompPoliciesEqual_def list_all_iff)
  then show ?thesis by (auto simp: seccompPoliciesEqual_def list_all_iff)
qed

lemma normalize_again: "NormalizeTweaks ts = Inr ns \<Longrightarrow> NormalizeTweaks ns = Inr ns"
  by (auto simp: NormalizeTweaks_def sort_key_id_if_sorted split: option.splits)

lemma validate_empty: "parse [] = None \<Longrightarrow> isl (validateSeccompProfile parse [])"
  by (simp add: validateSeccompProfile_def)

lemma readSeccompProfile_name: "readSeccompProfile fs root p = Inr d \<Longrightarrow> validateSeccompProfileFilename p = Inr ()"
  by (auto simp: readSeccompProfile_def split: sum.splits)

text \<open>A profile that is read is a file of the challenge directory itself.\<close>

lemma profile_name_no_slash: "validateSeccompProfileFilename p = Inr () \<Longrightarrow> CHR ''/'' \<notin> set p"
  by (auto simp: validateSeccompProfileFilename_def list_all_iff profile_char_def is_lower_def
      is_upper_def is_digit_def split: if_splits)

lemma normalize_Nil_iff: "NormalizeTweaks ts = Inr ns \<Longrightarrow> ns = [] \<longleftrightarrow> ts = []"
  using NormalizeTweaks_Inr [of ts ns] by auto

lemma resolve_valid:
  assumes "resolve hash parse embedded fs dir opts0 = Inr opts" "parse [] = None"
  shows "validatePersistedSeccompOptions hash parse opts = Inr opts"
proof -
  let ?o = "opts0\<lparr>ProfileHash := [], effectiveProfile := []\<rparr>"
  have one: "\<not> selected_modes ?o > 1" using assms(1) by (auto simp: resolve_def Let_def split: if_splits)
  have snap: "validatePersistedSeccompOptions hash parse opts = Inr opts"
    if "validateSeccompProfile parse profile = Inr ()" "opts = ?o\<lparr>ProfileHash := hash profile, effectiveProfile := profile\<rparr>"
      "Tweaks ?o = []" "Legacy ?o \<or> Profile ?o \<noteq> []"
      "Profile ?o \<noteq> [] \<Longrightarrow> validateSeccompProfileFilename (Profile ?o) = Inr ()" for profile
  proof -
    have "profile \<noteq> []" using that(1) validate_empty [of parse] assms(2) by auto
    then show ?thesis
      using that one by (auto simp: validatePersistedSeccompOptions_def selected_modes_def split: if_splits)
  qed
  consider (legacy) "Legacy ?o" | (tweaks) "\<not> Legacy ?o" "Tweaks ?o \<noteq> []"
    | (profile) "\<not> Legacy ?o" "Tweaks ?o = []" "Profile ?o \<noteq> []" | (none) "\<not> Legacy ?o" "Tweaks ?o = []" "Profile ?o = []"
    by blast
  then show ?thesis
  proof cases
    case legacy
    then have "Tweaks ?o = []" "Profile ?o = []" using one by (auto simp: selected_modes_def split: if_splits)
    then show ?thesis using legacy assms(1) one
      by (intro snap [of embedded]) (auto simp: resolve_def Let_def split: sum.splits)
  next
    case tweaks
    then obtain ts where "NormalizeTweaks (Tweaks ?o) = Inr ts" "opts = ?o\<lparr>Tweaks := ts\<rparr>"
      using assms(1) one by (auto simp: resolve_def Let_def split: sum.splits)
    then show ?thesis using tweaks one normalize_again [of "Tweaks ?o" ts] normalize_Nil_iff [of "Tweaks ?o" ts]
      by (simp add: validatePersistedSeccompOptions_def selected_modes_def split: if_splits)
  next
    case profile
    then obtain d where "readSeccompProfile fs dir (Profile ?o) = Inr d" "validateSeccompProfile parse d = Inr ()"
        "opts = ?o\<lparr>ProfileHash := hash d, effectiveProfile := d\<rparr>"
      using assms(1) one by (auto simp: resolve_def Let_def split: sum.splits)
    then show ?thesis using profile readSeccompProfile_name by (intro snap [of d]) auto
  next
    case none
    then show ?thesis using assms(1) one
      by (auto simp: resolve_def Let_def validatePersistedSeccompOptions_def selected_modes_def)
  qed
qed


definition ex_parse :: "string \<Rightarrow> seccompProfile option" where
  "ex_parse s = (if s = [] then None else Some \<lparr>sp_DefaultAction = s, sp_Syscalls = []\<rparr>)"

definition ex_profiles :: "string \<Rightarrow> profile_file" where
  "ex_profiles p = \<lparr>pf_lstat = (if p = ''/c/p.json'' then PRegular 7 else PMissing), pf_opens = True,
     pf_stat_ok = True, pf_same = True, pf_data = Some ''profile''\<rparr>"


text \<open>
  A build's requirements are never dropped: when the overlay succeeds its tweaks are exactly
  those of the configured policy and of the build together, and the base policy (legacy or custom
  profile, with its snapshot) is kept.
\<close>

theorem required_tweaks_overlaid:
  assumes "withRequiredSeccompTweaks configured required = Inr (Some combined)"
  shows "set (Tweaks combined) = set (case configured of None \<Rightarrow> [] | Some c \<Rightarrow> Tweaks c) \<union> set required \<and>
    sorted (Tweaks combined) \<and> distinct (Tweaks combined) \<and>
    (\<forall>c. configured = Some c \<longrightarrow> combined\<lparr>Tweaks := []\<rparr> = c\<lparr>Tweaks := []\<rparr>)"
proof -
  let ?base = "case configured of None \<Rightarrow> no_seccomp | Some c \<Rightarrow> c"
  obtain ts where ts: "NormalizeTweaks (remdups (Tweaks ?base @ required)) = Inr ts"
      "combined = ?base\<lparr>Tweaks := ts\<rparr>"
    using assms by (auto simp: withRequiredSeccompTweaks_def Let_def split: if_splits sum.splits)
  have "ts = sort (remdups (Tweaks ?base @ required))" using NormalizeTweaks_Inr [OF ts(1)] by simp
  then show ?thesis using ts(2) by (cases configured) (simp_all add: no_seccomp_def)
qed

theorem required_tweaks_overlaid_witness:
  "\<exists>combined. withRequiredSeccompTweaks (Some (no_seccomp\<lparr>Legacy := True\<rparr>)) [TweakAllowDisableASLR] =
     Inr (Some combined) \<and> set (Tweaks combined) = {TweakAllowDisableASLR}"
proof -
  let ?w = "withRequiredSeccompTweaks (Some (no_seccomp\<lparr>Legacy := True\<rparr>)) [TweakAllowDisableASLR]"
  have "map_sum (\<lambda>_. ()) (\<lambda>c. c \<noteq> None) ?w = Inr True" by code_simp
  then obtain c where c: "?w = Inr (Some c)" by (cases ?w) auto
  show ?thesis using required_tweaks_overlaid [OF c] c by (simp add: no_seccomp_def)
qed

end
