(* ===== verification/Database.thy ===== *)
theory Database
  imports Types Seccomp
begin

text \<open>
  The SQLite database of \<open>cmgr/database.go\<close>: the tables and constraints of \<open>schemaQuery\<close>, statements
  that may fail, and \<open>withTransaction\<close>.

  \<^item> A table is the list of its rows in rowid order. A query without \<open>ORDER BY\<close> returns them in that
    order; no property below depends on it. The JSON text columns (required tweaks, limits,
    capabilities, seccomp) are represented by the value they encode.
  \<^item> Foreign keys are on, so a statement that would leave a constraint of the schema violated fails
    and changes nothing. Any call on the database may also fail for reasons of its own (I/O, a lock
    held by another process); \<open>faults\<close> decides for each call in turn.
  \<^item> A transaction whose body, commit or rollback fails leaves the tables as they were.
\<close>

section \<open>Tables\<close>

record challenge_row =
  cr_id :: ChallengeId
  cr_name :: string
  cr_namespace :: string
  cr_challengetype :: string
  cr_description :: string
  cr_details :: string
  cr_sourcechecksum :: "32 word"
  cr_metadatachecksum :: "32 word"
  cr_sourcedigest :: string
  cr_metadatadigest :: string
  cr_path :: string
  cr_solvescript :: bool
  cr_templatable :: bool
  cr_maxusers :: int
  cr_category :: string
  cr_points :: int

record build_row =
  br_id :: BuildId
  br_flag :: string
  br_format :: string
  br_seed :: int
  br_hasartifacts :: bool
  br_lastsolved :: int
  br_challenge :: ChallengeId
  br_schema :: string
  br_instancecount :: int
  br_tweaks :: "string list"

record image_row =
  ir_id :: ImageId
  ir_build :: BuildId
  ir_host :: string

record instance_row =
  nr_id :: InstanceId
  nr_lastsolved :: int
  nr_build :: BuildId

text \<open>
  \<open>dbContainerOptions\<close>, the stored form of \<open>ContainerOptions\<close>. The list columns hold JSON text; they
  are represented by the lists.
\<close>

record dbContainerOptions =
  do_Init :: bool
  do_Cpus :: string
  do_Memory :: string
  do_Ulimits :: "string list"
  do_PidsLimit :: int
  do_ReadonlyRootfs :: bool
  do_DroppedCaps :: "string list"
  do_NoNewPrivileges :: bool
  do_DiskQuota :: string
  do_CgroupParent :: string
  do_Seccomp :: "persistedSeccompOptions option"

record tables =
  challenges :: "challenge_row list"
  hints :: "(ChallengeId \<times> nat \<times> string) list"
  tags :: "(ChallengeId \<times> string) list"
  attributes :: "(ChallengeId \<times> string \<times> string) list"
  hosts :: "(ChallengeId \<times> string \<times> nat \<times> string) list"
  portNames :: "(ChallengeId \<times> string \<times> string \<times> int) list"
  schemas :: "(string \<times> bool) list"
  builds :: "build_row list"
  images :: "image_row list"
  imagePorts :: "(ImageId \<times> string) list"
  lookupData :: "(BuildId \<times> string \<times> string) list"
  instances :: "instance_row list"
  portAssignments :: "(InstanceId \<times> string \<times> int) list"
  containers :: "(InstanceId \<times> string) list"
  retiredContainers :: "string list"
  retiredNetworks :: "string list"
  networkOptions :: "(ChallengeId \<times> bool) list"
  containerOptions :: "(ChallengeId \<times> string \<times> dbContainerOptions) list"

definition empty_tables :: tables where
  "empty_tables = \<lparr>challenges = [], hints = [], tags = [], attributes = [], hosts = [],
     portNames = [], schemas = [], builds = [], images = [], imagePorts = [], lookupData = [],
     instances = [], portAssignments = [], containers = [], retiredContainers = [],
     retiredNetworks = [], networkOptions = [], containerOptions = []\<rparr>"

definition port_range :: "int \<Rightarrow> bool" where
  "port_range p \<longleftrightarrow> 0 < p \<and> p < 65536"

definition build_key :: "build_row \<Rightarrow> string \<times> string \<times> ChallengeId \<times> int" where
  "build_key b = (br_schema b, br_format b, br_challenge b, br_seed b)"

text \<open>The \<open>CHECK\<close>, \<open>PRIMARY KEY\<close>, \<open>UNIQUE\<close> and \<open>FOREIGN KEY\<close> clauses and the unique indexes.\<close>

definition challenge_constraints :: "tables \<Rightarrow> bool" where
  "challenge_constraints t \<longleftrightarrow>
     (let known = set (map cr_id (challenges t)) in
      distinct (map cr_id (challenges t)) \<and>
      list_all (\<lambda>c. cr_maxusers c \<ge> 0 \<and> cr_points c \<ge> 0) (challenges t) \<and>
      distinct (map (\<lambda>(c, i, h). (c, i)) (hints t)) \<and> list_all (\<lambda>(c, _). c \<in> known) (hints t) \<and>
      distinct (tags t) \<and> list_all (\<lambda>(c, _). c \<in> known) (tags t) \<and>
      distinct (map (\<lambda>(c, k, v). (c, k)) (attributes t)) \<and> list_all (\<lambda>(c, _). c \<in> known) (attributes t) \<and>
      distinct (map (\<lambda>(c, n, i, g). (c, n)) (hosts t)) \<and>
      distinct (map (\<lambda>(c, n, i, g). (c, i)) (hosts t)) \<and> list_all (\<lambda>(c, _). c \<in> known) (hosts t) \<and>
      distinct (map (\<lambda>(c, n, h, p). (c, n)) (portNames t)) \<and>
      distinct (map (\<lambda>(c, n, h, p). (c, h, p)) (portNames t)) \<and>
      list_all (\<lambda>(c, n, h, p). c \<in> known \<and> (c, h) \<in> set (map (\<lambda>(c, n, i, g). (c, n)) (hosts t)) \<and>
        port_range p) (portNames t) \<and>
      distinct (map fst (networkOptions t)) \<and> list_all (\<lambda>(c, _). c \<in> known) (networkOptions t) \<and>
      distinct (map (\<lambda>(c, h, opt). (c, h)) (containerOptions t)) \<and>
      list_all (\<lambda>(c, _). c \<in> known) (containerOptions t))"

definition build_constraints :: "tables \<Rightarrow> bool" where
  "build_constraints t \<longleftrightarrow>
     distinct (map fst (schemas t)) \<and>
     distinct (map br_id (builds t)) \<and> distinct (map build_key (builds t)) \<and>
     list_all (\<lambda>b. br_challenge b \<in> set (map cr_id (challenges t))) (builds t) \<and>
     distinct (map ir_id (images t)) \<and> distinct (map (\<lambda>i. (ir_build i, ir_host i)) (images t)) \<and>
     list_all (\<lambda>i. ir_build i \<in> set (map br_id (builds t))) (images t) \<and>
     distinct (imagePorts t) \<and> list_all (\<lambda>(i, _). i \<in> set (map ir_id (images t))) (imagePorts t) \<and>
     distinct (map (\<lambda>(b, k, v). (b, k)) (lookupData t)) \<and>
     list_all (\<lambda>(b, _). b \<in> set (map br_id (builds t))) (lookupData t)"

definition instance_constraints :: "tables \<Rightarrow> bool" where
  "instance_constraints t \<longleftrightarrow>
     distinct (map nr_id (instances t)) \<and>
     list_all (\<lambda>i. nr_build i \<in> set (map br_id (builds t))) (instances t) \<and>
     distinct (map (\<lambda>(i, n, p). (i, n)) (portAssignments t)) \<and>
     distinct (map (\<lambda>(i, n, p). p) (portAssignments t)) \<and>
     list_all (\<lambda>(i, n, p). i \<in> set (map nr_id (instances t)) \<and> port_range p) (portAssignments t) \<and>
     distinct (map snd (containers t)) \<and>
     list_all (\<lambda>(i, _). i \<in> set (map nr_id (instances t))) (containers t) \<and>
     distinct (retiredContainers t) \<and> distinct (retiredNetworks t)"

definition constraints :: "tables \<Rightarrow> bool" where
  "constraints t \<longleftrightarrow> challenge_constraints t \<and> build_constraints t \<and> instance_constraints t"

lemmas constraint_defs = constraints_def challenge_constraints_def build_constraints_def
  instance_constraints_def

lemma constraints_empty [simp]: "constraints empty_tables"
  by (simp add: constraint_defs empty_tables_def)

section \<open>Statements and transactions\<close>

record db =
  tab :: tables
  faults :: "bool list"

definition fail_next :: "db \<Rightarrow> bool" where
  "fail_next d = (case faults d of [] \<Rightarrow> False | b # _ \<Rightarrow> b)"

definition tick :: "db \<Rightarrow> db" where
  "tick d = d\<lparr>faults := tl (faults d)\<rparr>"

definition db_error :: err where "db_error = Plain ''database''"

definition no_rows :: err where "no_rows = Plain ''sql: no rows in result set''"

definition exec :: "(tables \<Rightarrow> tables \<times> 'a) \<Rightarrow> (db, 'a) act" where
  "exec f d =
     (let (t, x) = f (tab d) in
      if fail_next d \<or> \<not> constraints t then (Inl db_error, tick d) else (Inr x, (tick d)\<lparr>tab := t\<rparr>))"

text \<open>A query, and a call that only reports (\<open>RowsAffected\<close>, \<open>LastInsertId\<close>, \<open>Begin\<close>).\<close>

definition query :: "(tables \<Rightarrow> 'a) \<Rightarrow> (db, 'a) act" where
  "query f d = (if fail_next d then (Inl db_error, tick d) else (Inr (f (tab d)), tick d))"

definition update :: "(tables \<Rightarrow> tables) \<Rightarrow> (db, unit) act" where
  "update f = exec (\<lambda>t. (f t, ()))"

definition report :: "'a \<Rightarrow> (db, 'a) act" where
  "report x = query (\<lambda>_. x)"

definition withTransaction :: "(db, 'a) act \<Rightarrow> (db, 'a) act" where
  "withTransaction body d =
     (case report () d of
        (Inl e, d1) \<Rightarrow> (Inl (Wrap ''could not begin transaction'' e), d1)
      | (Inr _, d1) \<Rightarrow>
        (case body d1 of
           (Inl e, d2) \<Rightarrow>
             (case report () d2 of
                (Inl r, d3) \<Rightarrow>
                  (Inl (Join [e, Wrap ''could not roll back transaction'' r]), d3\<lparr>tab := tab d\<rparr>)
              | (Inr _, d3) \<Rightarrow> (Inl e, d3\<lparr>tab := tab d\<rparr>))
         | (Inr x, d2) \<Rightarrow>
             (case report () d2 of
                (Inl c, d3) \<Rightarrow> (Inl (Wrap ''could not commit transaction'' c), d3\<lparr>tab := tab d\<rparr>)
              | (Inr _, d3) \<Rightarrow> (Inr x, d3))))"

text \<open>
  Reading in a transaction (\<open>lookupBuildMetadata\<close> and its like): the tables never change; a failed
  commit is an error; a failed rollback is joined to the error.
\<close>

definition readTransaction :: "(db, 'a) act \<Rightarrow> (db, 'a) act" where
  "readTransaction body d =
     (case report () d of
        (Inl e, d1) \<Rightarrow> (Inl (Wrap ''could not begin lookup'' e), d1)
      | (Inr _, d1) \<Rightarrow>
        (case body d1 of
           (Inl e, d2) \<Rightarrow>
             (case report () d2 of
                (Inl r, d3) \<Rightarrow> (Inl (Join [e, r]), d3)
              | (Inr _, d3) \<Rightarrow> (Inl e, d3))
         | (Inr x, d2) \<Rightarrow>
             (case report () d2 of
                (Inl c, d3) \<Rightarrow> (Inl c, d3)
              | (Inr _, d3) \<Rightarrow> (Inr x, d3))))"

text \<open>Statements that several components issue.\<close>

definition next_id :: "int list \<Rightarrow> int" where
  "next_id ids = fold max ids 0 + 1"

definition delete_instance :: "InstanceId \<Rightarrow> tables \<Rightarrow> tables" where
  "delete_instance i t =
     t\<lparr>instances := filter (\<lambda>r. nr_id r \<noteq> i) (instances t),
       portAssignments := filter (\<lambda>r. fst r \<noteq> i) (portAssignments t),
       containers := filter (\<lambda>r. fst r \<noteq> i) (containers t)\<rparr>"

definition delete_images :: "(image_row \<Rightarrow> bool) \<Rightarrow> tables \<Rightarrow> tables" where
  "delete_images P t =
     (let gone = map ir_id (filter P (images t)) in
      t\<lparr>images := filter (\<lambda>r. \<not> P r) (images t),
        imagePorts := filter (\<lambda>r. fst r \<notin> set gone) (imagePorts t)\<rparr>)"

definition delete_build :: "BuildId \<Rightarrow> tables \<Rightarrow> tables" where
  "delete_build b t =
     (let t1 = delete_images (\<lambda>r. ir_build r = b) t in
      t1\<lparr>builds := filter (\<lambda>r. br_id r \<noteq> b) (builds t1),
         lookupData := filter (\<lambda>r. fst r \<noteq> b) (lookupData t1)\<rparr>)"

definition update_rows :: "('a \<Rightarrow> bool) \<Rightarrow> ('a \<Rightarrow> 'a) \<Rightarrow> 'a list \<Rightarrow> 'a list" where
  "update_rows P f rows = map (\<lambda>r. if P r then f r else r) rows"

section \<open>Facts about statements\<close>

lemma tick_tab [simp, frame]: "tab (tick d) = tab d"
  by (simp add: tick_def)

lemma next_id_fresh: "i \<in> set ids \<Longrightarrow> i < next_id ids"
proof -
  have "k \<le> fold max ids k \<and> (\<forall>i \<in> set ids. i \<le> fold max ids k)" for k :: int
  proof (induction ids arbitrary: k)
    case (Cons a ids)
    show ?case using Cons.IH [of "max a k"] by auto
  qed simp
  from this [of 0] show "i \<in> set ids \<Longrightarrow> i < next_id ids" by (auto simp: next_id_def)
qed

lemma query_tab [simp, frame]: "tab (snd (query f d)) = tab d"
  by (simp add: query_def)

lemma query_Inr: "query f d = (Inr x, d') \<Longrightarrow> x = f (tab d) \<and> tab d' = tab d"
  by (auto simp: query_def split: if_splits)

lemma query_Inl: "query f d = (Inl e, d') \<Longrightarrow> tab d' = tab d"
  by (auto simp: query_def split: if_splits)

lemma exec_Inr:
  "exec f d = (Inr x, d') \<Longrightarrow> tab d' = fst (f (tab d)) \<and> x = snd (f (tab d)) \<and> constraints (tab d')"
  by (auto simp: exec_def split: if_splits prod.splits)

lemma exec_Inl: "exec f d = (Inl e, d') \<Longrightarrow> tab d' = tab d"
  by (auto simp: exec_def split: if_splits prod.splits)

lemma update_Inr: "update f d = (Inr x, d') \<Longrightarrow> tab d' = f (tab d) \<and> constraints (tab d')"
  using exec_Inr [of _ d x d'] by (fastforce simp: update_def)

lemma update_Inl: "update f d = (Inl e, d') \<Longrightarrow> tab d' = tab d"
  using exec_Inl by (fastforce simp: update_def)

text \<open>With no faults pending, statements fail only on a constraint.\<close>

lemma exec_calm [result_simps]:
  "faults d = [] \<Longrightarrow> constraints (fst (f (tab d))) \<Longrightarrow> exec f d = (Inr (snd (f (tab d))), d\<lparr>tab := fst (f (tab d))\<rparr>)"
  by (cases d; cases "f (tab d)") (simp add: exec_def fail_next_def tick_def)

lemma query_calm [result_simps]: "faults d = [] \<Longrightarrow> query f d = (Inr (f (tab d)), d)"
  by (cases d) (simp add: query_def fail_next_def tick_def)

lemma update_calm [result_simps]:
  "faults d = [] \<Longrightarrow> constraints (f (tab d)) \<Longrightarrow> update f d = (Inr (), d\<lparr>tab := f (tab d)\<rparr>)"
  by (simp add: update_def exec_calm)

lemma report_calm [result_simps]: "faults d = [] \<Longrightarrow> report x d = (Inr x, d)"
  by (simp add: report_def query_calm)

lemma report_Inr: "report x d = (Inr y, d') \<Longrightarrow> y = x \<and> tab d' = tab d"
  by (auto simp: report_def dest: query_Inr)

lemma report_Inl: "report x d = (Inl e, d') \<Longrightarrow> tab d' = tab d"
  by (auto simp: report_def dest: query_Inl)

text \<open>A loop of statements, each of which has a known effect when it succeeds, folds the effects.\<close>

lemma each_effect:
  assumes "each f xs d = (Inr u, d')"
    "\<And>x d u d'. x \<in> set xs \<Longrightarrow> f x d = (Inr u, d') \<Longrightarrow> tab d' = g x (tab d)"
  shows "tab d' = fold g xs (tab d)"
  using assms
proof (induction xs arbitrary: d)
  case (Cons x xs)
  obtain d1 where d1: "f x d = (Inr (), d1)" "each f xs d1 = (Inr u, d')"
    using Cons.prems(1) by (auto elim: bnd_InrE)
  have "tab d' = fold g xs (tab d1)" using Cons.IH [OF d1(2)] Cons.prems(2) by simp
  then show ?case using Cons.prems(2) [OF _ d1(1)] by simp
qed simp

section \<open>Operations that other components may rely on\<close>

text \<open>
  The invariant: the schema's constraints, and a container is not tracked as active and as retired
  at once. The second half is the program's own doing, no constraint states it.
\<close>

definition db_inv :: "tables \<Rightarrow> bool" where
  "db_inv t \<longleftrightarrow> constraints t \<and> snd ` set (containers t) \<inter> set (retiredContainers t) = {}"

text \<open>
  The contract of an atomic operation of the database: it happens or it fails and leaves the tables
  alone, and it keeps the invariant. The laws are stated once; what clients need follows from them.
\<close>

locale db_operation =
  fixes op :: "db \<Rightarrow> (err + 'a) \<times> db"
  assumes atomic: "op d = (Inl e, d') \<Longrightarrow> tab d' = tab d"
    and keeps: "op d = (Inr x, d') \<Longrightarrow> db_inv (tab d) \<Longrightarrow> db_inv (tab d')"
begin

lemma kept:
  assumes "db_inv (tab d)"
  shows "db_inv (tab (snd (op d)))"
proof -
  obtain r d' where r: "op d = (r, d')" by fastforce
  show ?thesis
  proof (cases r)
    case (Inl e)
    then show ?thesis using atomic [of d e d'] r assms by simp
  next
    case (Inr x)
    then show ?thesis using keeps [of d x d'] r assms by simp
  qed
qed

lemma failed_unchanged: "isl (fst (op d)) \<Longrightarrow> tab (snd (op d)) = tab d"
  using atomic [of d "projl (fst (op d))" "snd (op d)"] by (simp add: prod_eq_iff)

lemma map_err_kept: "db_inv (tab d) \<Longrightarrow> db_inv (tab (snd (map_err g op d)))"
  using kept by simp

end

lemma withTransaction_Inl:
  assumes "withTransaction body d = (Inl e, d')"
  shows "tab d' = tab d"
proof -
  obtain r1 d1 where 1: "report () d = (r1, d1)" by fastforce
  obtain r2 d2 where 2: "body d1 = (r2, d2)" by fastforce
  obtain r3 d3 where 3: "report () d2 = (r3, d3)" by fastforce
  show ?thesis using assms report_Inl [of "()" d _ d1] 1
    by (cases r1; cases r2; cases r3) (auto simp: withTransaction_def 1 2 3)
qed

lemma withTransaction_Inr:
  assumes "withTransaction body d = (Inr u, d')"
  obtains d1 d2 where "body d1 = (Inr u, d2)" "tab d1 = tab d" "tab d' = tab d2"
proof -
  obtain r1 d1 where 1: "report () d = (r1, d1)" by fastforce
  obtain r2 d2 where 2: "body d1 = (r2, d2)" by fastforce
  obtain r3 d3 where 3: "report () d2 = (r3, d3)" by fastforce
  show thesis
  proof (rule that)
    show "body d1 = (Inr u, d2)"
      using assms 2 by (cases r1; cases r2; cases r3) (auto simp: withTransaction_def 1 2 3)
    show "tab d1 = tab d"
      using assms 1 report_Inr [of "()" d _ d1] by (cases r1) (auto simp: withTransaction_def)
    show "tab d' = tab d2"
      using assms 3 report_Inr [of "()" d2 _ d3]
      by (cases r1; cases r2; cases r3) (auto simp: withTransaction_def 1 2)
  qed
qed

lemma withTransaction_calm:
  assumes "faults d = []" "body d = (Inr u, d')" "faults d' = []"
  shows "withTransaction body d = (Inr u, d')"
  unfolding withTransaction_def report_calm [OF assms(1)] prod.case sum.case assms(2)
    report_calm [OF assms(3)] ..

lemma withTransaction_calm_Inl:
  assumes "faults d = []" "body d = (Inl e, d')" "faults d' = []"
  shows "withTransaction body d = (Inl e, d'\<lparr>tab := tab d\<rparr>)"
  unfolding withTransaction_def report_calm [OF assms(1)] prod.case sum.case assms(2)
    report_calm [OF assms(3)] ..

lemma readTransaction_Inr:
  assumes "readTransaction body d = (Inr x, d')"
  obtains d1 d2 where "body d1 = (Inr x, d2)" "tab d1 = tab d" "tab d' = tab d2"
proof -
  obtain r1 d1 where 1: "report () d = (r1, d1)" by fastforce
  obtain r2 d2 where 2: "body d1 = (r2, d2)" by fastforce
  obtain r3 d3 where 3: "report () d2 = (r3, d3)" by fastforce
  show thesis
  proof (rule that)
    show "body d1 = (Inr x, d2)"
      using assms 2 by (cases r1; cases r2; cases r3) (auto simp: readTransaction_def 1 2 3)
    show "tab d1 = tab d"
      using assms 1 report_Inr [of "()" d _ d1] by (cases r1) (auto simp: readTransaction_def)
    show "tab d' = tab d2"
      using assms 3 report_Inr [of "()" d2 _ d3]
      by (cases r1; cases r2; cases r3) (auto simp: readTransaction_def 1 2)
  qed
qed

text \<open>Keeping the invariant whatever the outcome, with a rule for each way of building an operation.\<close>

definition keeps_inv :: "(db, 'a) act \<Rightarrow> bool" where
  "keeps_inv m \<longleftrightarrow> (\<forall>d. db_inv (tab d) \<longrightarrow> db_inv (tab (snd (m d))))"

named_theorems keeps_intros "rules for keeping the invariant of the database"

lemma keeps_invD: "keeps_inv m \<Longrightarrow> m d = (r, d') \<Longrightarrow> db_inv (tab d) \<Longrightarrow> db_inv (tab d')"
  by (metis keeps_inv_def snd_conv)

lemma keeps_ret [keeps_intros]: "keeps_inv (ret x)" and keeps_raise [keeps_intros]: "keeps_inv (raise e)"
  by (simp_all add: keeps_inv_def)

lemma keeps_query [keeps_intros]: "keeps_inv (query f)"
  by (simp add: keeps_inv_def)

lemma keeps_report [keeps_intros]: "keeps_inv (report x)"
  by (simp add: report_def keeps_query)

lemma keeps_exec:
  "(\<And>t. db_inv t \<Longrightarrow> constraints (fst (f t)) \<Longrightarrow> db_inv (fst (f t))) \<Longrightarrow> keeps_inv (exec f)"
  by (auto simp: keeps_inv_def exec_def split: prod.splits) (metis fst_conv)

lemma keeps_update:
  "(\<And>t. db_inv t \<Longrightarrow> constraints (f t) \<Longrightarrow> db_inv (f t)) \<Longrightarrow> keeps_inv (update f)"
  unfolding update_def by (rule keeps_exec) simp

text \<open>Most statements leave the container tables alone.\<close>

lemma keeps_exec_frame [keeps_intros]:
  "(\<And>t. containers (fst (f t)) = containers t) \<Longrightarrow>
   (\<And>t. retiredContainers (fst (f t)) = retiredContainers t) \<Longrightarrow> keeps_inv (exec f)"
  by (rule keeps_exec) (simp add: db_inv_def)

lemma keeps_update_frame [keeps_intros]:
  "(\<And>t. containers (f t) = containers t) \<Longrightarrow>
   (\<And>t. retiredContainers (f t) = retiredContainers t) \<Longrightarrow> keeps_inv (update f)"
  by (rule keeps_update) (simp add: db_inv_def)

lemma keeps_map_err [keeps_intros]: "keeps_inv m \<Longrightarrow> keeps_inv (map_err g m)"
  by (simp add: keeps_inv_def)

lemma keeps_bnd [keeps_intros]: "keeps_inv m \<Longrightarrow> (\<And>x. keeps_inv (f x)) \<Longrightarrow> keeps_inv (bnd m f)"
  unfolding keeps_inv_def by (intro allI impI, rule bnd_preserves) simp_all

lemma keeps_each [keeps_intros]: "(\<And>x. x \<in> set xs \<Longrightarrow> keeps_inv (f x)) \<Longrightarrow> keeps_inv (each f xs)"
proof (induction xs)
  case Nil
  show ?case unfolding each.simps by (rule keeps_ret)
next
  case (Cons x xs)
  then show ?case unfolding each.simps by (intro keeps_bnd) simp_all
qed

lemma keeps_if [keeps_intros]: "(P \<Longrightarrow> keeps_inv m) \<Longrightarrow> (\<not> P \<Longrightarrow> keeps_inv n) \<Longrightarrow> keeps_inv (if P then m else n)"
  by simp

lemma keeps_affecting [keeps_intros]: "keeps_inv (exec f) \<Longrightarrow> keeps_inv (bnd (exec f) report)"
  by (intro keeps_bnd keeps_report)

lemma keeps_transaction [keeps_intros]:
  assumes "keeps_inv body"
  shows "keeps_inv (withTransaction body)"
  unfolding keeps_inv_def
proof (intro allI impI)
  fix d :: db
  assume d: "db_inv (tab d)"
  obtain r d' where r: "withTransaction body d = (r, d')" by fastforce
  show "db_inv (tab (snd (withTransaction body d)))"
  proof (cases r)
    case (Inl e)
    then show ?thesis using withTransaction_Inl [of body d e d'] r d by simp
  next
    case (Inr x)
    then obtain d1 d2 where "body d1 = (Inr x, d2)" "tab d1 = tab d" "tab d' = tab d2"
      using withTransaction_Inr [of body d x d'] r by blast
    then show ?thesis using keeps_invD [OF assms, of d1 "Inr x" d2] d r by simp
  qed
qed

lemma read_tab:
  assumes "\<And>d. tab (snd (body d)) = tab d"
  shows "tab (snd (readTransaction body d)) = tab d"
proof -
  obtain r1 d1 where 1: "report () d = (r1, d1)" by fastforce
  obtain r2 d2 where 2: "body d1 = (r2, d2)" by fastforce
  obtain r3 d3 where 3: "report () d2 = (r3, d3)" by fastforce
  have "tab d1 = tab d" using 1 query_tab by (metis report_def snd_conv)
  moreover have "tab d2 = tab d1" using assms [of d1] 2 by simp
  moreover have "tab d3 = tab d2" using 3 query_tab by (metis report_def snd_conv)
  ultimately show ?thesis by (cases r1; cases r2; cases r3) (simp_all add: readTransaction_def 1 2 3)
qed

text \<open>Operations that only read.\<close>

definition reads_only :: "(db, 'a) act \<Rightarrow> bool" where
  "reads_only m \<longleftrightarrow> (\<forall>d. tab (snd (m d)) = tab d)"

named_theorems reads_intros "rules for operations that only read"

lemma reads_onlyD: "reads_only m \<Longrightarrow> tab (snd (m d)) = tab d"
  by (simp add: reads_only_def)

lemma reads_basic [reads_intros]:
  "reads_only (ret x)" "reads_only (raise e)" "reads_only (query f)" "reads_only (report y)"
  by (simp_all add: reads_only_def report_def)

lemma reads_map_err [reads_intros]: "reads_only m \<Longrightarrow> reads_only (map_err g m)"
  by (simp add: reads_only_def)

lemma snd_bnd_reads:
  assumes "\<And>x. reads_only (f x)"
  shows "tab (snd (bnd m f d)) = tab (snd (m d))"
proof -
  obtain r d1 where "m d = (r, d1)" by fastforce
  then show ?thesis using reads_onlyD [OF assms] by (cases r) (simp_all add: bnd_def)
qed

lemma reads_bnd [reads_intros]: "reads_only m \<Longrightarrow> (\<And>x. reads_only (f x)) \<Longrightarrow> reads_only (bnd m f)"
  by (subst reads_only_def) (simp add: snd_bnd_reads reads_onlyD)

lemma reads_if [reads_intros]: "reads_only m \<Longrightarrow> reads_only n \<Longrightarrow> reads_only (if P then m else n)"
  by simp

lemma reads_case_list [reads_intros]:
  "reads_only m \<Longrightarrow> (\<And>x xs. reads_only (f x xs)) \<Longrightarrow> reads_only (case l of [] \<Rightarrow> m | x # xs \<Rightarrow> f x xs)"
  by (cases l) simp_all

lemma reads_case_option [reads_intros]:
  "reads_only m \<Longrightarrow> (\<And>x. reads_only (f x)) \<Longrightarrow> reads_only (case l of None \<Rightarrow> m | Some x \<Rightarrow> f x)"
  by (cases l) simp_all

lemma reads_transaction [reads_intros]: "reads_only body \<Longrightarrow> reads_only (readTransaction body)"
  by (simp add: reads_only_def read_tab)

lemma reads_keeps: "reads_only m \<Longrightarrow> keeps_inv m"
  by (simp add: reads_only_def keeps_inv_def)

lemma keeps_same: "(\<And>d. tab (snd (m d)) = tab d) \<Longrightarrow> keeps_inv m"
  by (simp add: keeps_inv_def)

lemma db_operation_transaction:
  assumes "keeps_inv body"
  shows "db_operation (withTransaction body)"
proof
  show "withTransaction body d = (Inl e, d') \<Longrightarrow> tab d' = tab d" for d e d'
    by (rule withTransaction_Inl)
  show "withTransaction body d = (Inr x, d') \<Longrightarrow> db_inv (tab d) \<Longrightarrow> db_inv (tab d')" for d x d'
    using keeps_invD [OF keeps_transaction [OF assms]] .
qed

lemma db_operation_update:
  assumes "keeps_inv (update f)"
  shows "db_operation (update f)"
proof
  show "update f d = (Inl e, d') \<Longrightarrow> tab d' = tab d" for d e d' by (rule update_Inl)
  show "update f d = (Inr x, d') \<Longrightarrow> db_inv (tab d) \<Longrightarrow> db_inv (tab d')" for d x d'
    using keeps_invD [OF assms] .
qed

lemma db_operation_query: "db_operation (query f)"
proof
  show "query f d = (Inl e, d') \<Longrightarrow> tab d' = tab d" for d e d' by (rule query_Inl)
  show "query f d = (Inr x, d') \<Longrightarrow> db_inv (tab d) \<Longrightarrow> db_inv (tab d')" for d x d'
    using keeps_invD [OF keeps_query] .
qed

end
