(* ===== verification/BuildStore.thy ===== *)
theory BuildStore
  imports Database
begin

text \<open>
  The build and schema statements of \<open>cmgr/database_builds.go\<close>. A Go map that a loop ranges over is
  the list of its pairs in the order the loop happens to take.
\<close>

section \<open>Queries\<close>

definition row_of :: "BuildMetadata \<Rightarrow> BuildId \<Rightarrow> int \<Rightarrow> build_row" where
  "row_of b i cnt = \<lparr>br_id = i, br_flag = Flag b, br_format = Format b, br_seed = Seed b,
     br_hasartifacts = HasArtifacts b, br_lastsolved = bd_LastSolved b, br_challenge = bd_Challenge b,
     br_schema = bd_Schema b, br_instancecount = cnt, br_tweaks = []\<rparr>"

definition meta_key :: "BuildMetadata \<Rightarrow> string \<times> string \<times> ChallengeId \<times> int" where
  "meta_key b = (bd_Schema b, Format b, bd_Challenge b, Seed b)"

text \<open>\<open>INSERT ... ON CONFLICT ... DO UPDATE\<close> of \<open>openBuildQuery\<close>, and \<open>... DO NOTHING\<close> of \<open>stageBuildQuery\<close>.\<close>

definition openBuildQuery :: "BuildMetadata \<Rightarrow> tables \<Rightarrow> tables" where
  "openBuildQuery b t =
     (if meta_key b \<in> set (map build_key (builds t))
      then t\<lparr>builds := update_rows (\<lambda>r. build_key r = meta_key b)
               (\<lambda>r. r\<lparr>br_instancecount := InstanceCount b\<rparr>) (builds t)\<rparr>
      else t\<lparr>builds := builds t @ [row_of b (next_id (map br_id (builds t))) (InstanceCount b)]\<rparr>)"

definition stageBuildQuery :: "BuildMetadata \<Rightarrow> tables \<Rightarrow> tables" where
  "stageBuildQuery b t =
     (if meta_key b \<in> set (map build_key (builds t)) then t
      else t\<lparr>builds := builds t @ [row_of b (next_id (map br_id (builds t))) (InstanceCount b)]\<rparr>)"

text \<open>
  \<open>lookupBuildMetadata\<close>. The loop that reads each image's ports assigns \<open>err\<close> on every turn, so
  only the error of the last image survives it.
\<close>

fun load_ports :: "image_row list \<Rightarrow> db \<Rightarrow> (err option \<times> Image list) \<times> db" where
  "load_ports [] d = ((None, []), d)"
| "load_ports (i # is) d =
     (let (r, d1) = query (\<lambda>t. map snd (filter (\<lambda>p. fst p = ir_id i) (imagePorts t))) d;
          ports = (case r of Inl _ \<Rightarrow> [] | Inr ps \<Rightarrow> ps);
          ((e, ims), d2) = load_ports is d1
      in ((if is = [] then (case r of Inl x \<Rightarrow> Some x | Inr _ \<Rightarrow> None) else e,
           \<lparr>im_Id = ir_id i, im_Host = ir_host i, im_Ports = ports, im_Build = 0\<rparr> # ims), d2))"

definition build_images :: "BuildId \<Rightarrow> tables \<Rightarrow> image_row list" where
  "build_images b t = filter (\<lambda>i. ir_build i = b) (images t)"

definition build_lookups :: "BuildId \<Rightarrow> tables \<Rightarrow> (string \<times> string) list" where
  "build_lookups b t = map snd (filter (\<lambda>r. fst r = b) (lookupData t))"

definition meta_of :: "build_row \<Rightarrow> (string \<times> string) list \<Rightarrow> Image list \<Rightarrow> BuildMetadata" where
  "meta_of r lookups ims = \<lparr>bd_Id = br_id r, Flag = br_flag r, LookupData = lookups,
     RequiredSeccompTweaks = br_tweaks r, Seed = br_seed r, Format = br_format r, Images = ims,
     HasArtifacts = br_hasartifacts r, bd_LastSolved = br_lastsolved r, bd_Challenge = br_challenge r,
     Instances = [], bd_Schema = br_schema r, InstanceCount = br_instancecount r\<rparr>"

definition lookupBuildMetadata :: "BuildId \<Rightarrow> (db, BuildMetadata) act" where
  "lookupBuildMetadata b = readTransaction
     (bnd (query (\<lambda>t. filter (\<lambda>r. br_id r = b) (builds t))) (\<lambda>rows.
      case rows of
        [] \<Rightarrow> raise (unknownBuildIdError b)
      | r # _ \<Rightarrow>
        bnd (query (build_lookups b)) (\<lambda>lookups.
        bnd (query (build_images b)) (\<lambda>is d.
          case load_ports is d of
            ((Some e, _), d') \<Rightarrow> (Inl e, d')
          | ((None, ims), d') \<Rightarrow> (Inr (meta_of r lookups ims), d')))))"

section \<open>Opening and staging builds\<close>

definition openBuild :: "BuildMetadata \<Rightarrow> (db, BuildMetadata) act" where
  "openBuild b =
     bnd (update (openBuildQuery b)) (\<lambda>_.
     bnd (query (\<lambda>t. filter (\<lambda>r. build_key r = meta_key b) (builds t))) (\<lambda>rows.
     case rows of
       [] \<Rightarrow> raise (Plain ''found no builds when exactly one was expected'')
     | [r] \<Rightarrow>
         bnd (report ()) (\<lambda>_.
         let b' = b\<lparr>bd_Id := br_id r, Flag := br_flag r, HasArtifacts := br_hasartifacts r,
                    bd_LastSolved := br_lastsolved r\<rparr> in
         if br_flag r \<noteq> [] then lookupBuildMetadata (br_id r) else ret b')
     | _ \<Rightarrow> raise (Plain ''found more than one build when exactly one was expected'')))"

definition stageBuild :: "BuildMetadata \<Rightarrow> (db, BuildMetadata) act" where
  "stageBuild b =
     bnd (map_err (Wrap ''failed to stage build'') (update (stageBuildQuery (b\<lparr>InstanceCount := LOCKED\<rparr>)))) (\<lambda>_.
     bnd (map_err (Wrap ''could not reload staged build'')
       (bnd (query (\<lambda>t. filter (\<lambda>r. build_key r = meta_key b) (builds t)))
         (\<lambda>rows. case rows of [] \<Rightarrow> raise no_rows | r # _ \<Rightarrow> ret r))) (\<lambda>r.
     let b' = b\<lparr>bd_Id := br_id r, Flag := br_flag r, HasArtifacts := br_hasartifacts r,
                bd_LastSolved := br_lastsolved r\<rparr> in
     if br_flag r \<noteq> []
     then bnd (lookupBuildMetadata (br_id r)) (\<lambda>p. ret (p\<lparr>InstanceCount := InstanceCount b\<rparr>))
     else ret b'))"

text \<open>An \<open>UPDATE\<close> whose number of affected rows is then asked for.\<close>

definition affecting :: "(tables \<Rightarrow> tables \<times> nat) \<Rightarrow> (db, nat) act" where
  "affecting f = bnd (exec f) report"

definition set_counts :: "(build_row \<Rightarrow> bool) \<Rightarrow> int \<Rightarrow> tables \<Rightarrow> tables" where
  "set_counts P n t = t\<lparr>builds := update_rows P (\<lambda>r. r\<lparr>br_instancecount := n\<rparr>) (builds t)\<rparr>"

definition activate_one :: "string \<Rightarrow> BuildId \<times> int \<Rightarrow> (db, unit) act" where
  "activate_one schema x =
     bnd (map_err (Wrap ''could not activate build'')
       (affecting (\<lambda>t. let P = (\<lambda>r. br_id r = fst x \<and> br_schema r = schema) in
          (set_counts P (snd x) t, length (filter P (builds t)))))) (\<lambda>n.
     if n \<noteq> 1 then raise (Plain ''could not activate missing build'') else ret ())"

definition activateSchemaBuilds :: "string \<Rightarrow> (BuildId \<times> int) list \<Rightarrow> (db, unit) act" where
  "activateSchemaBuilds schema targets = withTransaction
     (bnd (map_err (Wrap ''could not lock obsolete schema builds'')
        (update (set_counts (\<lambda>r. br_schema r = schema) LOCKED)))
      (\<lambda>_. each (activate_one schema) targets))"

section \<open>Finalizing and removing builds\<close>

definition finalizeBuildQuery :: "BuildMetadata \<Rightarrow> tables \<Rightarrow> tables \<times> nat" where
  "finalizeBuildQuery b t =
     (t\<lparr>builds := update_rows (\<lambda>r. br_id r = bd_Id b)
          (\<lambda>r. r\<lparr>br_flag := Flag b, br_hasartifacts := HasArtifacts b,
                br_tweaks := RequiredSeccompTweaks b, br_lastsolved := 0\<rparr>) (builds t)\<rparr>,
      length (filter (\<lambda>r. br_id r = bd_Id b) (builds t)))"

definition insert_image :: "BuildId \<Rightarrow> string \<Rightarrow> tables \<Rightarrow> tables \<times> ImageId" where
  "insert_image b host t =
     (let i = next_id (map ir_id (images t)) in
      (t\<lparr>images := images t @ [\<lparr>ir_id = i, ir_build = b, ir_host = host\<rparr>]\<rparr>, i))"

definition insert_image_port :: "ImageId \<Rightarrow> string \<Rightarrow> tables \<Rightarrow> tables" where
  "insert_image_port i p t = t\<lparr>imagePorts := imagePorts t @ [(i, p)]\<rparr>"

definition insert_lookup :: "BuildId \<Rightarrow> string \<times> string \<Rightarrow> tables \<Rightarrow> tables" where
  "insert_lookup b kv t = t\<lparr>lookupData := lookupData t @ [(b, fst kv, snd kv)]\<rparr>"

definition insert_image_with_ports :: "BuildId \<Rightarrow> Image \<Rightarrow> (db, Image) act" where
  "insert_image_with_ports b im =
     bnd (map_err (Wrap ''could not insert image'') (exec (insert_image b (im_Host im)))) (\<lambda>i.
     bnd (map_err (Wrap ''could not get image ID'') (report i)) (\<lambda>i.
     bnd (each (\<lambda>p. map_err (Wrap ''could not insert port'') (update (insert_image_port i p))) (im_Ports im))
       (\<lambda>_. ret (im\<lparr>im_Id := i\<rparr>))))"

fun insert_images :: "BuildId \<Rightarrow> Image list \<Rightarrow> (db, Image list) act" where
  "insert_images b [] = ret []"
| "insert_images b (im # ims) =
     bnd (insert_image_with_ports b im) (\<lambda>im'. bnd (insert_images b ims) (\<lambda>ims'. ret (im' # ims')))"

definition clear_lookups :: "BuildId \<Rightarrow> tables \<Rightarrow> tables" where
  "clear_lookups b t = t\<lparr>lookupData := filter (\<lambda>r. fst r \<noteq> b) (lookupData t)\<rparr>"

definition finalizeBuild :: "BuildMetadata \<Rightarrow> (db, BuildMetadata) act" where
  "finalizeBuild b = withTransaction
     (bnd (map_err (Wrap ''could not update build'') (affecting (finalizeBuildQuery b))) (\<lambda>n.
      if n \<noteq> 1 then raise (Plain ''finalized builds; expected one'')
      else
      bnd (map_err (Wrap ''could not clear build lookups'') (update (clear_lookups (bd_Id b)))) (\<lambda>_.
      bnd (each (\<lambda>kv. map_err (Wrap ''could not insert lookup'') (update (insert_lookup (bd_Id b) kv)))
        (LookupData b)) (\<lambda>_.
      bnd (map_err (Wrap ''could not clear build images'')
        (update (delete_images (\<lambda>r. ir_build r = bd_Id b)))) (\<lambda>_.
      bnd (insert_images (bd_Id b) (Images b)) (\<lambda>ims. ret (b\<lparr>Images := ims\<rparr>)))))))"

definition removeBuildMetadata :: "BuildId \<Rightarrow> (db, unit) act" where
  "removeBuildMetadata b = withTransaction
     (bnd (map_err (Wrap ''could not delete build'')
        (affecting (\<lambda>t. (delete_build b t, length (filter (\<lambda>r. br_id r = b) (builds t)))))) (\<lambda>n.
      if n \<noteq> 1 then raise (unknownBuildIdError b) else ret ()))"

section \<open>Schemas\<close>

definition schemaExists :: "string \<Rightarrow> (db, bool) act" where
  "schemaExists n = query (\<lambda>t. length (filter (\<lambda>s. fst s = n) (schemas t)) = 1)"

definition createSchemaRecord :: "string \<Rightarrow> bool \<Rightarrow> (db, unit) act" where
  "createSchemaRecord n manual =
     map_err (Wrap ''could not create schema'') (update (\<lambda>t. t\<lparr>schemas := schemas t @ [(n, manual)]\<rparr>))"

definition schemaIsManual :: "string \<Rightarrow> (db, bool) act" where
  "schemaIsManual n =
     bnd (map_err (Wrap ''could not inspect schema'') (query (\<lambda>t. map_of (schemas t) n)))
       (\<lambda>r. case r of None \<Rightarrow> raise (unknownSchemaIdError n) | Some m \<Rightarrow> ret m)"

definition deleteSchemaRecordIfEmpty :: "string \<Rightarrow> (db, unit) act" where
  "deleteSchemaRecordIfEmpty n =
     bnd (map_err (Wrap ''could not delete empty schema'')
       (update (\<lambda>t. if \<exists>b \<in> set (builds t). br_schema b = n then t
                    else t\<lparr>schemas := filter (\<lambda>s. fst s \<noteq> n) (schemas t)\<rparr>)))
       (\<lambda>_. report ())"

definition deleteSchemaRecord :: "string \<Rightarrow> (db, unit) act" where
  "deleteSchemaRecord n =
     bnd (query (\<lambda>t. length (filter (\<lambda>b. br_schema b = n) (builds t)))) (\<lambda>k.
     if k \<noteq> 0 then raise (Plain ''cannot delete schema while builds remain'')
     else
     bnd (affecting (\<lambda>t. (t\<lparr>schemas := filter (\<lambda>s. s \<noteq> (n, False)) (schemas t)\<rparr>,
                          length (filter (\<lambda>s. s = (n, False)) (schemas t))))) (\<lambda>k.
     if k \<noteq> 1 then raise (Plain ''managed schema does not exist'') else ret ()))"

definition removedSchemaBuilds :: "string \<Rightarrow> (db, BuildId list) act" where
  "removedSchemaBuilds n = query (\<lambda>t. map br_id
     (filter (\<lambda>b. br_schema b = n \<and> br_instancecount b = LOCKED) (builds t)))"

definition lockSchema :: "string \<Rightarrow> (db, unit) act" where
  "lockSchema n = update (set_counts (\<lambda>r. br_schema r = n) LOCKED)"

definition getSchemaBuilds :: "string \<Rightarrow> (db, BuildId list) act" where
  "getSchemaBuilds n = query (\<lambda>t. map br_id (sort_key br_challenge (filter (\<lambda>b. br_schema b = n) (builds t))))"

definition queryForSchemas :: "(db, string list) act" where
  "queryForSchemas = query (\<lambda>t. sort (map fst (filter (\<lambda>s. \<not> snd s) (schemas t))))"

section \<open>Atomicity\<close>

lemma set_counts_frame [simp]:
  "containers (set_counts P n t) = containers t"
  "retiredContainers (set_counts P n t) = retiredContainers t"
  by (simp_all add: set_counts_def)

lemma delete_images_frame [simp]:
  "containers (delete_images P t) = containers t"
  "retiredContainers (delete_images P t) = retiredContainers t"
  "builds (delete_images P t) = builds t" "lookupData (delete_images P t) = lookupData t"
  "instances (delete_images P t) = instances t"
  by (simp_all add: delete_images_def Let_def)

lemma delete_build_frame [simp]:
  "containers (delete_build b t) = containers t"
  "retiredContainers (delete_build b t) = retiredContainers t"
  "instances (delete_build b t) = instances t"
  by (simp_all add: delete_build_def Let_def)

lemmas build_statement_defs = insert_image_def insert_image_port_def insert_lookup_def clear_lookups_def
  finalizeBuildQuery_def Let_def

lemma keeps_affect [keeps_intros]:
  "(\<And>t. containers (fst (f t)) = containers t) \<Longrightarrow>
   (\<And>t. retiredContainers (fst (f t)) = retiredContainers t) \<Longrightarrow> keeps_inv (affecting f)"
  unfolding affecting_def by (intro keeps_bnd keeps_exec_frame keeps_report)

lemma keeps_insert_images [keeps_intros]: "keeps_inv (insert_images b ims)"
proof (induction ims)
  case Nil
  show ?case unfolding insert_images.simps by (rule keeps_ret)
next
  case (Cons im ims)
  show ?case unfolding insert_images.simps insert_image_with_ports_def
    by (intro keeps_intros Cons.IH) (simp_all add: build_statement_defs)
qed

interpretation fb: db_operation "finalizeBuild b" for b
  unfolding finalizeBuild_def
  by (intro db_operation_transaction keeps_intros) (simp_all add: build_statement_defs)

interpretation ab: db_operation "activateSchemaBuilds schema targets" for schema targets
  unfolding activateSchemaBuilds_def activate_one_def
  by (intro db_operation_transaction keeps_intros) (simp_all add: Let_def)

interpretation rb: db_operation "removeBuildMetadata b" for b
  unfolding removeBuildMetadata_def
  by (intro db_operation_transaction keeps_intros) simp_all

interpretation ls: db_operation "lockSchema n" for n
  unfolding lockSchema_def by (intro db_operation_update keeps_intros) simp_all

lemma load_ports_tab [simp]: "tab (snd (load_ports is d)) = tab d"
proof (induction "is" arbitrary: d)
  case (Cons i "is")
  obtain r d1 where 1: "query (\<lambda>t. map snd (filter (\<lambda>p. fst p = ir_id i) (imagePorts t))) d = (r, d1)"
    by fastforce
  then have "tab d1 = tab d" by (metis query_tab snd_conv)
  moreover obtain e ims d2 where 2: "load_ports is d1 = ((e, ims), d2)" by (metis surj_pair)
  ultimately show ?case using Cons.IH [of d1] by (simp add: 1 2 Let_def)
qed simp

section \<open>What finalizing stores\<close>

text \<open>The images of a build as a reader sees them: identifier, host and ports.\<close>

definition image_view :: "BuildId \<Rightarrow> tables \<Rightarrow> (ImageId \<times> string \<times> string list) list" where
  "image_view b t =
     map (\<lambda>i. (ir_id i, ir_host i, map snd (filter (\<lambda>p. fst p = ir_id i) (imagePorts t)))) (build_images b t)"

definition image_triple :: "Image \<Rightarrow> ImageId \<times> string \<times> string list" where
  "image_triple i = (im_Id i, im_Host i, im_Ports i)"

lemma affecting_Inr:
  assumes "affecting f d = (Inr n, d')"
  shows "tab d' = fst (f (tab d)) \<and> n = snd (f (tab d)) \<and> constraints (tab d')"
proof -
  obtain m d1 where "exec f d = (Inr m, d1)" "report m d1 = (Inr n, d')"
    using assms unfolding affecting_def by (rule bnd_InrE)
  then show ?thesis using exec_Inr [of f d m d1] report_Inr [of m d1 n d'] by metis
qed

lemma fold_insert_ports:
  "fold (insert_image_port i) ps t = t\<lparr>imagePorts := imagePorts t @ map (Pair i) ps\<rparr>"
  by (induction ps arbitrary: t) (simp_all add: insert_image_port_def)

lemma filter_Pair: "filter (\<lambda>p. fst p = i) (map (Pair j) ps) = (if i = j then map (Pair j) ps else [])"
  by (induction ps) auto

lemma image_ids_below: "r \<in> set (images t) \<Longrightarrow> ir_id r \<noteq> next_id (map ir_id (images t))"
  using next_id_fresh [of "ir_id r" "map ir_id (images t)"] by auto

lemma fresh_ports_none:
  assumes "constraints t"
  shows "filter (\<lambda>p. fst p = next_id (map ir_id (images t))) (imagePorts t) = []"
  using assms image_ids_below
  by (fastforce simp: filter_empty_conv constraint_defs list_all_iff)

lemma insert_image_effect:
  assumes "insert_image_with_ports b im d = (Inr im', d')" "constraints (tab d)"
  shows "tab d' = (tab d)\<lparr>images := images (tab d) @ [\<lparr>ir_id = im_Id im', ir_build = b, ir_host = im_Host im\<rparr>],
      imagePorts := imagePorts (tab d) @ map (Pair (im_Id im')) (im_Ports im)\<rparr>"
    "im_Id im' = next_id (map ir_id (images (tab d)))" "im' = im\<lparr>im_Id := im_Id im'\<rparr>"
    "constraints (tab d')"
proof -
  obtain i d1 j d2 u d3 where st: "exec (insert_image b (im_Host im)) d = (Inr i, d1)"
      "report i d1 = (Inr j, d2)"
      "each (\<lambda>p. map_err (Wrap ''could not insert port'') (update (insert_image_port j p))) (im_Ports im) d2 =
         (Inr u, d3)" "ret (im\<lparr>im_Id := j\<rparr>) d3 = (Inr im', d')"
    using assms(1) unfolding insert_image_with_ports_def
    by (elim bnd_InrE) (simp only: map_err_Inr_iff)
  note e1 = exec_Inr [OF st(1)] and e2 = report_Inr [OF st(2)]
  have e3: "tab d3 = fold (insert_image_port j) (im_Ports im) (tab d2)"
    by (rule each_effect [OF st(3)]) (auto dest: update_Inr)
  have c: "constraints (tab d3)"
    by (rule each_Inr_preserves [OF st(3)]) (use e1 e2 in \<open>auto dest: update_Inr\<close>)
  have im': "im' = im\<lparr>im_Id := j\<rparr>" "d' = d3" using st(4) by simp_all
  have j: "j = next_id (map ir_id (images (tab d)))" using e1 e2 by (simp add: insert_image_def Let_def)
  show "im_Id im' = next_id (map ir_id (images (tab d)))" "im' = im\<lparr>im_Id := im_Id im'\<rparr>"
    "constraints (tab d')"
    using c by (simp_all add: im' j)
  show "tab d' = (tab d)\<lparr>images := images (tab d) @ [\<lparr>ir_id = im_Id im', ir_build = b, ir_host = im_Host im\<rparr>],
      imagePorts := imagePorts (tab d) @ map (Pair (im_Id im')) (im_Ports im)\<rparr>"
    using e1 e2 e3 by (simp add: im' j fold_insert_ports insert_image_def Let_def)
qed

lemma insert_image_view:
  assumes "insert_image_with_ports b im d = (Inr im', d')" "constraints (tab d)"
  shows "image_view b (tab d') = image_view b (tab d) @ [image_triple im']"
    "im_Host im' = im_Host im" "im_Ports im' = im_Ports im"
proof -
  note e = insert_image_effect [OF assms]
  have h: "im_Host im' = im_Host im \<and> im_Ports im' = im_Ports im"
    using e(3) by (metis Image.ext_inject Image.surjective Image.update_convs(1))
  show "im_Host im' = im_Host im" "im_Ports im' = im_Ports im" using h by simp_all
  have "image_view b (tab d) = map (\<lambda>i. (ir_id i, ir_host i,
      map snd (filter (\<lambda>p. fst p = ir_id i) (imagePorts (tab d'))))) (build_images b (tab d))"
    unfolding image_view_def using image_ids_below [of _ "tab d"] e(2)
    by (intro map_cong) (auto simp: e(1) filter_Pair build_images_def)
  moreover have "filter (\<lambda>p. fst p = im_Id im') (imagePorts (tab d)) = []"
    unfolding e(2) by (rule fresh_ports_none [OF assms(2)])
  ultimately show "image_view b (tab d') = image_view b (tab d) @ [image_triple im']"
    using h by (simp add: image_view_def e(1) build_images_def filter_Pair image_triple_def comp_def)
qed

lemma insert_images_view:
  assumes "insert_images b ims d = (Inr ims', d')" "constraints (tab d)"
  shows "image_view b (tab d') = image_view b (tab d) @ map image_triple ims' \<and>
    map im_Host ims' = map im_Host ims \<and> map im_Ports ims' = map im_Ports ims \<and>
    builds (tab d') = builds (tab d) \<and> lookupData (tab d') = lookupData (tab d) \<and> constraints (tab d')"
  using assms
proof (induction ims arbitrary: d ims')
  case (Cons im ims)
  obtain im1 d1 ims1 where st: "insert_image_with_ports b im d = (Inr im1, d1)"
      "insert_images b ims d1 = (Inr ims1, d')" "ims' = im1 # ims1"
    using Cons.prems(1) by (auto elim!: bnd_InrE)
  note e = insert_image_effect [OF st(1) Cons.prems(2)] and v = insert_image_view [OF st(1) Cons.prems(2)]
  show ?case using Cons.IH [OF st(2) e(4)] v st(3) by (simp add: e(1))
qed simp

lemma image_view_cleared: "image_view b (delete_images (\<lambda>r. ir_build r = b) t) = []"
  by (simp add: image_view_def build_images_def delete_images_def Let_def)

lemma fold_insert_lookups:
  "fold (insert_lookup b) kvs t = t\<lparr>lookupData := lookupData t @ map (\<lambda>kv. (b, fst kv, snd kv)) kvs\<rparr>"
  by (induction kvs arbitrary: t) (simp_all add: insert_lookup_def)

lemma load_ports_calm:
  "faults d = [] \<Longrightarrow> load_ports is d =
     ((None, map (\<lambda>i. \<lparr>im_Id = ir_id i, im_Host = ir_host i,
        im_Ports = map snd (filter (\<lambda>p. fst p = ir_id i) (imagePorts (tab d))), im_Build = 0\<rparr>) is), d)"
  by (induction "is") (simp_all add: query_calm Let_def)

lemma lookupBuildMetadata_calm:
  assumes "faults d = []" "filter (\<lambda>r. br_id r = b) (builds (tab d)) = r # rs"
  obtains ims where "lookupBuildMetadata b d = (Inr (meta_of r (build_lookups b (tab d)) ims), d)"
    "map image_triple ims = image_view b (tab d)"
  using assms
  by (auto simp: lookupBuildMetadata_def readTransaction_def report_calm bnd_def query_calm
      load_ports_calm image_view_def image_triple_def comp_def split: prod.splits)

lemma finalizeBuild_effect:
  assumes "finalizeBuild b d = (Inr b', d')"
  shows "builds (tab d') = builds (fst (finalizeBuildQuery b (tab d)))"
    "length (filter (\<lambda>r. br_id r = bd_Id b) (builds (tab d))) = 1"
    "build_lookups (bd_Id b) (tab d') = LookupData b"
    "image_view (bd_Id b) (tab d') = map image_triple (Images b')"
    "map im_Host (Images b') = map im_Host (Images b)" "map im_Ports (Images b') = map im_Ports (Images b)"
    "b' = b\<lparr>Images := Images b'\<rparr>"
proof -
  obtain n d0 d1 d2 u3 d3 d4 ims d5 where st:
      "tab d0 = tab d" "affecting (finalizeBuildQuery b) d0 = (Inr n, d1)" "n = 1"
      "update (clear_lookups (bd_Id b)) d1 = (Inr (), d2)"
      "each (\<lambda>kv. map_err (Wrap ''could not insert lookup'') (update (insert_lookup (bd_Id b) kv)))
        (LookupData b) d2 = (Inr u3, d3)"
      "update (delete_images (\<lambda>r. ir_build r = bd_Id b)) d3 = (Inr (), d4)"
      "insert_images (bd_Id b) (Images b) d4 = (Inr ims, d5)" "b' = b\<lparr>Images := ims\<rparr>" "tab d' = tab d5"
    using assms unfolding finalizeBuild_def
    by (elim withTransaction_Inr bnd_InrE) (auto split: if_splits elim!: bnd_InrE)
  have 1: "tab d1 = fst (finalizeBuildQuery b (tab d))" "n = snd (finalizeBuildQuery b (tab d))"
    using affecting_Inr [OF st(2)] st(1) by auto
  have 2: "tab d2 = clear_lookups (bd_Id b) (tab d1)" using update_Inr [OF st(4)] by simp
  have 3: "tab d3 = fold (insert_lookup (bd_Id b)) (LookupData b) (tab d2)"
    by (rule each_effect [OF st(5)]) (auto dest: update_Inr)
  have 4: "tab d4 = delete_images (\<lambda>r. ir_build r = bd_Id b) (tab d3)" "constraints (tab d4)"
    using update_Inr [OF st(6)] by auto
  have 5: "image_view (bd_Id b) (tab d') = map image_triple ims" "map im_Host ims = map im_Host (Images b)"
    "map im_Ports ims = map im_Ports (Images b)" "builds (tab d') = builds (tab d4)"
    "lookupData (tab d') = lookupData (tab d4)"
    using insert_images_view [OF st(7) 4(2)] st(9) by (auto simp: 4(1) image_view_cleared)
  show "builds (tab d') = builds (fst (finalizeBuildQuery b (tab d)))"
    using 1 2 3 4 5 by (simp add: fold_insert_lookups clear_lookups_def)
  show "length (filter (\<lambda>r. br_id r = bd_Id b) (builds (tab d))) = 1"
    using 1(2) st(3) by (simp add: finalizeBuildQuery_def)
  show "build_lookups (bd_Id b) (tab d') = LookupData b"
    using 2 3 4 5 by (simp add: build_lookups_def fold_insert_lookups clear_lookups_def comp_def
        filter_map filter_True)
  show "image_view (bd_Id b) (tab d') = map image_triple (Images b')"
    "map im_Host (Images b') = map im_Host (Images b)" "map im_Ports (Images b') = map im_Ports (Images b)"
    "b' = b\<lparr>Images := Images b'\<rparr>"
    using 5 st(8) by simp_all
qed


text \<open>A database with one challenge, one schema and one open build, for the witnesses.\<close>

definition ex_challenge :: challenge_row where
  "ex_challenge = \<lparr>cr_id = ''c'', cr_name = ''C'', cr_namespace = [], cr_challengetype = ''custom'',
     cr_description = [], cr_details = [], cr_sourcechecksum = 0, cr_metadatachecksum = 0,
     cr_sourcedigest = [], cr_metadatadigest = [], cr_path = [], cr_solvescript = False,
     cr_templatable = False, cr_maxusers = 0, cr_category = [], cr_points = 0\<rparr>"

definition ex_row :: "BuildId \<Rightarrow> string \<Rightarrow> int \<Rightarrow> int \<Rightarrow> build_row" where
  "ex_row i schema seed cnt = \<lparr>br_id = i, br_flag = [], br_format = ''f'', br_seed = seed,
     br_hasartifacts = False, br_lastsolved = 0, br_challenge = ''c'', br_schema = schema,
     br_instancecount = cnt, br_tweaks = []\<rparr>"

definition ex_tables :: tables where
  "ex_tables = empty_tables\<lparr>challenges := [ex_challenge], schemas := [(''s'', False)],
     builds := [ex_row 1 ''s'' 1 2, ex_row 2 ''s'' 2 2, ex_row 3 ''o'' 1 5]\<rparr>"

definition ex_db :: db where
  "ex_db = \<lparr>tab = ex_tables, faults = []\<rparr>"

definition ex_build :: BuildMetadata where
  "ex_build = \<lparr>bd_Id = 1, Flag = ''flag'', LookupData = [(''k'', ''v'')], RequiredSeccompTweaks = [''t''],
     Seed = 1, Format = ''f'', Images = [\<lparr>im_Id = 0, im_Host = ''h'', im_Ports = [''80'', ''81''], im_Build = 0\<rparr>],
     HasArtifacts = True, bd_LastSolved = 9, bd_Challenge = ''c'', Instances = [], bd_Schema = ''s'',
     InstanceCount = 2\<rparr>"

lemmas ex_defs = ex_challenge_def ex_row_def ex_tables_def ex_db_def ex_build_def empty_tables_def

lemmas run_defs = bnd_def map_err_def withTransaction_def readTransaction_def report_def query_def
  update_def exec_def affecting_def fail_next_def tick_def constraint_defs next_id_def build_key_def
  meta_key_def update_rows_def


section \<open>Activation\<close>

definition activated :: "string \<Rightarrow> (BuildId \<times> int) list \<Rightarrow> build_row \<Rightarrow> build_row" where
  "activated schema targets r =
     (if br_schema r = schema
      then r\<lparr>br_instancecount := (case map_of targets (br_id r) of Some n \<Rightarrow> n | None \<Rightarrow> LOCKED)\<rparr>
      else r)"

definition with_builds :: "(build_row \<Rightarrow> build_row) \<Rightarrow> tables \<Rightarrow> tables" where
  "with_builds f t = t\<lparr>builds := map f (builds t)\<rparr>"

lemma with_builds_comp: "with_builds f (with_builds g t) = with_builds (\<lambda>r. f (g r)) t"
  by (simp add: with_builds_def comp_def)

lemma set_counts_with: "set_counts P n = with_builds (\<lambda>r. if P r then r\<lparr>br_instancecount := n\<rparr> else r)"
  by (rule ext) (simp add: set_counts_def with_builds_def update_rows_def)

lemma fold_activation:
  assumes "distinct (map fst xs)"
  shows "fold (\<lambda>x. set_counts (\<lambda>r. br_id r = fst x \<and> br_schema r = s) (snd x)) xs t =
    with_builds (\<lambda>r. if br_schema r = s
       then (case map_of xs (br_id r) of Some n \<Rightarrow> r\<lparr>br_instancecount := n\<rparr> | None \<Rightarrow> r) else r) t"
  using assms
proof (induction xs arbitrary: t)
  case Nil
  show ?case by (cases t) (simp add: with_builds_def map_idI)
next
  case (Cons x xs)
  have "map_of xs (fst x) = None" using Cons.prems by (simp add: map_of_eq_None_iff)
  then show ?case using Cons
    by (cases x) (auto simp: set_counts_with with_builds_comp intro!: arg_cong [of _ _ "\<lambda>f. with_builds f t"])
qed

lemma activate_one_Inr:
  assumes "activate_one s x d = (Inr u, d')"
  shows "tab d' = set_counts (\<lambda>r. br_id r = fst x \<and> br_schema r = s) (snd x) (tab d)"
proof -
  obtain n d1 where "affecting (\<lambda>t. let P = (\<lambda>r. br_id r = fst x \<and> br_schema r = s) in
          (set_counts P (snd x) t, length (filter P (builds t)))) d = (Inr n, d1)"
      "(if n \<noteq> 1 then raise (Plain ''could not activate missing build'') else ret ()) d1 = (Inr u, d')"
    using assms unfolding activate_one_def by (elim bnd_InrE) (simp only: map_err_Inr_iff)
  then show ?thesis using affecting_Inr by (fastforce simp: Let_def split: if_splits)
qed

lemma activate_parts:
  assumes "withTransaction
     (bnd (map_err (Wrap ''could not lock obsolete schema builds'')
        (update (set_counts (\<lambda>r. br_schema r = schema) LOCKED)))
      (\<lambda>_. each (activate_one schema) targets)) d = (Inr u, d')"
  obtains d0 d1 where "tab d0 = tab d"
    "update (set_counts (\<lambda>r. br_schema r = schema) LOCKED) d0 = (Inr (), d1)"
    "tab d' = fold (\<lambda>x. set_counts (\<lambda>r. br_id r = fst x \<and> br_schema r = schema) (snd x)) targets (tab d1)"
proof -
  obtain d0 d2 where t: "bnd (map_err (Wrap ''could not lock obsolete schema builds'')
        (update (set_counts (\<lambda>r. br_schema r = schema) LOCKED)))
      (\<lambda>_. each (activate_one schema) targets) d0 = (Inr u, d2)" "tab d0 = tab d" "tab d' = tab d2"
    using assms by (rule withTransaction_Inr)
  obtain v d1 where s: "update (set_counts (\<lambda>r. br_schema r = schema) LOCKED) d0 = (Inr v, d1)"
      "each (activate_one schema) targets d1 = (Inr u, d2)"
    using t(1) by (rule bnd_InrE) (simp only: map_err_Inr_iff)
  show thesis
  proof (rule that [OF t(2)])
    show "update (set_counts (\<lambda>r. br_schema r = schema) LOCKED) d0 = (Inr (), d1)" using s(1) by simp
    show "tab d' = fold (\<lambda>x. set_counts (\<lambda>r. br_id r = fst x \<and> br_schema r = schema) (snd x)) targets (tab d1)"
      unfolding t(3) by (rule each_effect [OF s(2)]) (rule activate_one_Inr)
  qed
qed

text \<open>
  C8. Activating a schema is one step: on success every build of the schema has the target it was
  given, the schema's other builds are locked, and nothing else in the database differs; on failure
  nothing changed. (The keys of a Go map are distinct.)
\<close>

theorem activation_exact:
  assumes "distinct (map fst targets)"
  shows "case activateSchemaBuilds schema targets d of
      (Inr _, d') \<Rightarrow> tab d' = with_builds (activated schema targets) (tab d)
    | (Inl _, d') \<Rightarrow> tab d' = tab d"
proof -
  obtain r d' where r: "activateSchemaBuilds schema targets d = (r, d')" by fastforce
  show ?thesis
  proof (cases r)
    case (Inl e)
    then show ?thesis using ab.atomic [of schema targets d e d'] r by simp
  next
    case (Inr u)
    obtain d0 d1 where st: "tab d0 = tab d" "update (set_counts (\<lambda>r. br_schema r = schema) LOCKED) d0 = (Inr (), d1)"
        "tab d' = fold (\<lambda>x. set_counts (\<lambda>r. br_id r = fst x \<and> br_schema r = schema) (snd x)) targets (tab d1)"
      by (rule activate_parts [OF r [unfolded Inr activateSchemaBuilds_def]])
    have "tab d' = with_builds (activated schema targets) (tab d)"
      unfolding st(3) fold_activation [OF assms]
      using update_Inr [OF st(2)] st(1)
      by (auto simp: set_counts_with with_builds_comp activated_def
          intro!: arg_cong [of _ _ "\<lambda>f. with_builds f (tab d)"] split: option.splits)
    then show ?thesis using r Inr by simp
  qed
qed

theorem activation_exact_witness:
  "case activateSchemaBuilds ''s'' [(2, 7)] ex_db of
      (Inr _, d') \<Rightarrow> tab d' = with_builds (activated ''s'' [(2, 7)]) (tab ex_db)
    | (Inl _, d') \<Rightarrow> tab d' = tab ex_db"
  by (rule activation_exact) simp

section \<open>Staging\<close>

lemma lookupBuildMetadata_reads [reads_intros]: "reads_only (lookupBuildMetadata b)"
proof -
  have "reads_only (\<lambda>d. case load_ports is d of ((Some e, _), d') \<Rightarrow> (Inl e, d')
      | ((None, ims), d') \<Rightarrow> (Inr (meta_of r l ims), d'))" for "is" r l
  proof -
    have "tab (snd (case x of ((Some e, _), d') \<Rightarrow> (Inl e, d')
        | ((None, ims), d') \<Rightarrow> (Inr (meta_of r l ims), d'))) = tab (snd x)"
      for x :: "(err option \<times> Image list) \<times> db"
      by (cases x; cases "fst (fst x)") auto
    then show ?thesis using load_ports_tab by (simp add: reads_only_def)
  qed
  then show ?thesis unfolding lookupBuildMetadata_def by (intro reads_intros)
qed

text \<open>
  C9. Staging a build never moves a live target: whatever happens, every row that was in the builds
  table is still there unchanged, and the only row that can appear is a locked one with the build's
  key.
\<close>

theorem staging_keeps_targets:
  "let d' = snd (stageBuild b d); old = builds (tab d); new = builds (tab d') in
     take (length old) new = old \<and>
     (\<exists>extra. new = old @ extra \<and> length extra \<le> 1 \<and>
        list_all (\<lambda>r. br_instancecount r = LOCKED \<and> build_key r = meta_key b) extra)"
proof -
  let ?up = "map_err (Wrap ''failed to stage build'') (update (stageBuildQuery (b\<lparr>InstanceCount := LOCKED\<rparr>)))"
  obtain r d1 where up: "?up d = (r, d1)" by fastforce
  have d1: "tab d1 = tab d \<or> tab d1 = stageBuildQuery (b\<lparr>InstanceCount := LOCKED\<rparr>) (tab d)"
  proof (cases r)
    case (Inl e)
    then show ?thesis using up by (auto elim: map_err_InlE dest: update_Inl)
  next
    case (Inr u)
    then show ?thesis using up update_Inr [of "stageBuildQuery (b\<lparr>InstanceCount := LOCKED\<rparr>)" d u d1] by simp
  qed
  have rest: "tab (snd (stageBuild b d)) = tab d1"
    unfolding stageBuild_def Let_def
    by (subst snd_bnd_reads) (intro reads_intros, simp add: up)
  have "\<exists>extra. builds (tab d1) = builds (tab d) @ extra \<and> length extra \<le> 1 \<and>
        list_all (\<lambda>r. br_instancecount r = LOCKED \<and> build_key r = meta_key b) extra"
    using d1 by (auto simp: stageBuildQuery_def row_of_def build_key_def meta_key_def)
  then show ?thesis using rest by (auto simp: Let_def)
qed

section \<open>Removing\<close>

text \<open>
  A build whose instances still exist cannot be removed: \<open>removeBuildMetadata\<close> fails and the
  tables stay as they were.
\<close>

theorem remove_build_in_use:
  assumes "i \<in> set (instances (tab d))" "nr_build i = b"
  shows "isl (fst (removeBuildMetadata b d)) \<and> tab (snd (removeBuildMetadata b d)) = tab d"
proof -
  obtain r d' where r: "removeBuildMetadata b d = (r, d')" by fastforce
  have "isl r"
  proof (rule ccontr)
    assume "\<not> isl r"
    then obtain u where u: "r = Inr u" by (cases r) auto
    obtain d0 d1 n d2 where st: "tab d0 = tab d"
        "affecting (\<lambda>t. (delete_build b t, length (filter (\<lambda>r. br_id r = b) (builds t)))) d0 = (Inr n, d2)"
      using r [unfolded u removeBuildMetadata_def]
      by (elim withTransaction_Inr bnd_InrE) (auto simp only: map_err_Inr_iff)
    have "tab d2 = delete_build b (tab d)" using affecting_Inr [OF st(2)] st(1) by simp
    moreover have "constraints (tab d2)" using affecting_Inr [OF st(2)] by blast
    ultimately have "constraints (delete_build b (tab d))" by simp
    then show False using assms
      by (auto simp: constraints_def instance_constraints_def list_all_iff)
        (auto simp: delete_build_def Let_def)
  qed
  then show ?thesis using r rb.failed_unchanged [of b d] by simp
qed

theorem remove_build_in_use_witness:
  "isl (fst (removeBuildMetadata 1
     (ex_db\<lparr>tab := ex_tables\<lparr>instances := [\<lparr>nr_id = 1, nr_lastsolved = 0, nr_build = 1\<rparr>]\<rparr>\<rparr>)))"
  using remove_build_in_use [of "\<lparr>nr_id = 1, nr_lastsolved = 0, nr_build = 1\<rparr>"
    "ex_db\<lparr>tab := ex_tables\<lparr>instances := [\<lparr>nr_id = 1, nr_lastsolved = 0, nr_build = 1\<rparr>]\<rparr>\<rparr>" 1]
  by simp

section \<open>Errors while reading\<close>

text \<open>
  \<open>lookupBuildMetadata\<close> loses errors: with more than one image, a failure to read the ports of
  an image that is not the last is overwritten by the next read, and the lookup succeeds with that
  image's ports missing. (Here the fifth call on the database fails: the first image's ports.)
\<close>

theorem lookup_loses_port_error:
  assumes "filter (\<lambda>r. br_id r = b) (builds (tab d)) = [r]" "build_images b (tab d) = [i, j]"
    "faults d = [False, False, False, False, True]"
  shows "\<exists>m d'. lookupBuildMetadata b d = (Inr m, d') \<and> map im_Host (Images m) = [ir_host i, ir_host j] \<and>
    im_Ports (hd (Images m)) = []"
  using assms
  by (simp add: lookupBuildMetadata_def readTransaction_def report_def query_def fail_next_def tick_def
      bnd_def Let_def meta_of_def)

definition ex_two_images :: db where
  "ex_two_images = \<lparr>tab = ex_tables\<lparr>images := [\<lparr>ir_id = 1, ir_build = 1, ir_host = ''a''\<rparr>,
       \<lparr>ir_id = 2, ir_build = 1, ir_host = ''b''\<rparr>], imagePorts := [(1, ''80''), (2, ''81'')]\<rparr>,
     faults = [False, False, False, False, True]\<rparr>"

theorem lookup_loses_port_error_witness:
  "\<exists>m d'. lookupBuildMetadata 1 ex_two_images = (Inr m, d') \<and>
    map im_Host (Images m) = [''a'', ''b''] \<and> im_Ports (hd (Images m)) = []"
  using lookup_loses_port_error [of 1 ex_two_images "ex_row 1 ''s'' 1 2"
    "\<lparr>ir_id = 1, ir_build = 1, ir_host = ''a''\<rparr>" "\<lparr>ir_id = 2, ir_build = 1, ir_host = ''b''\<rparr>"]
  by (simp add: ex_two_images_def ex_tables_def empty_tables_def ex_row_def build_images_def)

end
