(* ===== verification/InstanceStore.thy ===== *)
theory InstanceStore
  imports BuildStore
begin

text \<open>
  The instance statements of \<open>cmgr/database_instances.go\<close>: instances, their port assignments, the
  containers that are tracked as active, and the containers and networks that are retired, i.e.
  still to be removed from Docker.
\<close>

section \<open>Statements\<close>

definition insert_port :: "InstanceId \<Rightarrow> string \<times> int \<Rightarrow> tables \<Rightarrow> tables" where
  "insert_port i np t = t\<lparr>portAssignments := portAssignments t @ [(i, fst np, snd np)]\<rparr>"

definition insert_container :: "InstanceId \<Rightarrow> string \<Rightarrow> tables \<Rightarrow> tables" where
  "insert_container i c t = t\<lparr>containers := containers t @ [(i, c)]\<rparr>"

definition unretire :: "string \<Rightarrow> tables \<Rightarrow> tables" where
  "unretire c t = t\<lparr>retiredContainers := filter (\<lambda>x. x \<noteq> c) (retiredContainers t)\<rparr>"

text \<open>\<open>INSERT OR IGNORE\<close>.\<close>

definition retire :: "string \<Rightarrow> tables \<Rightarrow> tables" where
  "retire c t = (if c \<in> set (retiredContainers t) then t
     else t\<lparr>retiredContainers := retiredContainers t @ [c]\<rparr>)"

definition clear_ports :: "InstanceId \<Rightarrow> tables \<Rightarrow> tables" where
  "clear_ports i t = t\<lparr>portAssignments := filter (\<lambda>r. fst r \<noteq> i) (portAssignments t)\<rparr>"

definition clear_containers :: "InstanceId \<Rightarrow> tables \<Rightarrow> tables" where
  "clear_containers i t = t\<lparr>containers := filter (\<lambda>r. fst r \<noteq> i) (containers t)\<rparr>"

definition instance_containers :: "InstanceId \<Rightarrow> tables \<Rightarrow> string list" where
  "instance_containers i t = map snd (filter (\<lambda>r. fst r = i) (containers t))"

definition instance_ports :: "InstanceId \<Rightarrow> tables \<Rightarrow> (string \<times> int) list" where
  "instance_ports i t = map snd (filter (\<lambda>r. fst r = i) (portAssignments t))"

lemmas instance_statement_defs = insert_port_def insert_container_def unretire_def retire_def
  clear_ports_def clear_containers_def

section \<open>Operations\<close>

definition openInstance :: "InstanceMetadata \<Rightarrow> (db, InstanceMetadata) act" where
  "openInstance m =
     bnd (exec (\<lambda>t. let i = next_id (map nr_id (instances t)) in
       (t\<lparr>instances := instances t @ [\<lparr>nr_id = i, nr_lastsolved = in_LastSolved m, nr_build = in_Build m\<rparr>]\<rparr>, i)))
     (\<lambda>i. bnd (report i) (\<lambda>i. ret (m\<lparr>in_Id := i\<rparr>)))"

definition track_container :: "InstanceId \<Rightarrow> string \<Rightarrow> (db, unit) act" where
  "track_container i c = bnd (update (unretire c)) (\<lambda>_. update (insert_container i c))"

definition finalizeInstance :: "InstanceMetadata \<Rightarrow> (db, unit) act" where
  "finalizeInstance m = withTransaction
     (bnd (each (\<lambda>np. map_err (Wrap ''could not record port'') (update (insert_port (in_Id m) np))) (in_Ports m))
      (\<lambda>_. each (\<lambda>c. map_err (Wrap ''could not record container'') (track_container (in_Id m) c)) (in_Containers m)))"

definition replaceInstanceRuntimeMetadata :: "InstanceMetadata \<Rightarrow> (db, unit) act" where
  "replaceInstanceRuntimeMetadata m = withTransaction
     (bnd (query (instance_containers (in_Id m))) (\<lambda>previous.
      bnd (update (clear_ports (in_Id m))) (\<lambda>_.
      bnd (update (clear_containers (in_Id m))) (\<lambda>_.
      bnd (each (\<lambda>np. update (insert_port (in_Id m) np)) (in_Ports m)) (\<lambda>_.
      bnd (each (track_container (in_Id m)) (in_Containers m)) (\<lambda>_.
      each (\<lambda>c. update (retire c)) (filter (\<lambda>c. c \<notin> set (in_Containers m)) previous)))))))"

definition lookupInstanceMetadata :: "InstanceId \<Rightarrow> (db, InstanceMetadata) act" where
  "lookupInstanceMetadata i = readTransaction
     (bnd (query (\<lambda>t. filter (\<lambda>r. nr_id r = i) (instances t))) (\<lambda>rows.
      case rows of
        [] \<Rightarrow> raise (unknownInstanceIdError i)
      | r # _ \<Rightarrow>
        bnd (query (instance_ports i)) (\<lambda>ports.
        bnd (query (instance_containers i)) (\<lambda>cs.
        ret \<lparr>in_Id = nr_id r, in_Ports = ports, in_Containers = cs, in_LastSolved = nr_lastsolved r,
             in_Build = nr_build r\<rparr>))))"

definition removeContainerMetadata :: "InstanceId \<Rightarrow> string \<Rightarrow> (db, unit) act" where
  "removeContainerMetadata i c =
     bnd (update (\<lambda>t. t\<lparr>containers := filter (\<lambda>r. r \<noteq> (i, c)) (containers t)\<rparr>)) (\<lambda>_. report ())"

definition removeInstancePorts :: "InstanceId \<Rightarrow> (db, unit) act" where
  "removeInstancePorts i = update (clear_ports i)"

definition retiredContainerIDs :: "(db, string list) act" where
  "retiredContainerIDs = query (\<lambda>t. sort (retiredContainers t))"

definition retireContainer :: "string \<Rightarrow> (db, unit) act" where
  "retireContainer c = update (retire c)"

definition forgetRetiredContainer :: "string \<Rightarrow> (db, unit) act" where
  "forgetRetiredContainer c = update (unretire c)"

definition retireNetwork :: "string \<Rightarrow> (db, unit) act" where
  "retireNetwork n = update (\<lambda>t. if n \<in> set (retiredNetworks t) then t
     else t\<lparr>retiredNetworks := retiredNetworks t @ [n]\<rparr>)"

definition retiredNetworkNames :: "(db, string list) act" where
  "retiredNetworkNames = query (\<lambda>t. sort (retiredNetworks t))"

definition forgetRetiredNetwork :: "string \<Rightarrow> (db, unit) act" where
  "forgetRetiredNetwork n = update (\<lambda>t. t\<lparr>retiredNetworks := filter (\<lambda>x. x \<noteq> n) (retiredNetworks t)\<rparr>)"

definition removeInstanceMetadata :: "InstanceId \<Rightarrow> (db, unit) act" where
  "removeInstanceMetadata i = update (delete_instance i)"

definition removedSchemaInstances :: "string \<Rightarrow> (db, InstanceId list) act" where
  "removedSchemaInstances s = query (\<lambda>t. map nr_id (filter (\<lambda>i.
     \<exists>b \<in> set (builds t). br_id b = nr_build i \<and> br_schema b = s \<and> br_instancecount b = LOCKED) (instances t)))"

definition getBuildInstances :: "BuildId \<Rightarrow> (db, InstanceId list) act" where
  "getBuildInstances b = query (\<lambda>t. map nr_id (filter (\<lambda>i. nr_build i = b) (instances t)))"

text \<open>The instances whose containers do not cover the images of their build other than the builder.\<close>

definition incompleteInstanceIDs :: "(db, InstanceId list) act" where
  "incompleteInstanceIDs = query (\<lambda>t. sort (map nr_id (filter (\<lambda>i.
     let have = length (instance_containers (nr_id i) t);
         want = length (filter (\<lambda>im. ir_host im \<noteq> ''builder'') (build_images (nr_build i) t))
     in have = 0 \<or> have \<noteq> want) (instances t))))"

definition trackedContainers :: "(db, (InstanceId \<times> string) list) act" where
  "trackedContainers = query (\<lambda>t. sort_key fst (sort_key snd (containers t)))"

definition recordSolve :: "InstanceMetadata \<Rightarrow> (db, unit) act" where
  "recordSolve m = withTransaction
     (bnd (map_err (Wrap ''could not record instance solve'')
        (update (\<lambda>t. t\<lparr>instances := update_rows (\<lambda>r. nr_id r = in_Id m \<and> nr_lastsolved r < in_LastSolved m)
            (\<lambda>r. r\<lparr>nr_lastsolved := in_LastSolved m\<rparr>) (instances t)\<rparr>)))
      (\<lambda>_. map_err (Wrap ''could not record build solve'')
        (update (\<lambda>t. t\<lparr>builds := update_rows (\<lambda>r. br_id r = in_Build m \<and> br_lastsolved r < in_LastSolved m)
            (\<lambda>r. r\<lparr>br_lastsolved := in_LastSolved m\<rparr>) (builds t)\<rparr>))))"

section \<open>The invariant\<close>

lemma keeps_track [keeps_intros]: "keeps_inv (track_container i c)"
  unfolding keeps_inv_def
proof (intro allI impI)
  fix d :: db
  assume d: "db_inv (tab d)"
  obtain r d1 where 1: "update (unretire c) d = (r, d1)" by fastforce
  have k: "keeps_inv (update (unretire c))"
    by (rule keeps_update) (auto simp: db_inv_def unretire_def)
  show "db_inv (tab (snd (track_container i c d)))"
  proof (cases r)
    case (Inl e)
    then show ?thesis using keeps_invD [OF k 1 d] 1 by (simp add: track_container_def bnd_def)
  next
    case (Inr u)
    have t1: "c \<notin> set (retiredContainers (tab d1))" "db_inv (tab d1)"
      using update_Inr [OF 1 [unfolded Inr]] keeps_invD [OF k 1 d] by (auto simp: unretire_def)
    obtain r2 d2 where 2: "update (insert_container i c) d1 = (r2, d2)" by fastforce
    have "db_inv (tab d2)"
    proof (cases r2)
      case (Inl e)
      then show ?thesis using update_Inl 2 t1 by (metis)
    next
      case (Inr v)
      then show ?thesis using update_Inr [OF 2 [unfolded Inr]] t1
        by (auto simp: db_inv_def insert_container_def)
    qed
    then show ?thesis using 1 2 Inr by (simp add: track_container_def bnd_def)
  qed
qed

interpretation fi: db_operation "finalizeInstance m" for m
  unfolding finalizeInstance_def
  by (intro db_operation_transaction keeps_intros) (simp_all add: insert_port_def)

interpretation rs: db_operation "recordSolve m" for m
  unfolding recordSolve_def by (intro db_operation_transaction keeps_intros) simp_all

interpretation ri: db_operation "removeInstanceMetadata i" for i
  unfolding removeInstanceMetadata_def
  by (intro db_operation_update keeps_update) (auto simp: db_inv_def delete_instance_def)

interpretation fr: db_operation "forgetRetiredContainer c" for c
  unfolding forgetRetiredContainer_def
  by (intro db_operation_update keeps_update) (auto simp: db_inv_def unretire_def)

interpretation rp: db_operation "removeInstancePorts i" for i
  unfolding removeInstancePorts_def
  by (intro db_operation_update keeps_intros) (simp_all add: clear_ports_def)

interpretation rn: db_operation "retireNetwork n" for n
  unfolding retireNetwork_def by (intro db_operation_update keeps_intros) simp_all

interpretation fn: db_operation "forgetRetiredNetwork n" for n
  unfolding forgetRetiredNetwork_def by (intro db_operation_update keeps_intros) simp_all

section \<open>Swapping an instance's containers\<close>

lemma fold_insert_port_rows:
  "fold (insert_port i) ps t = t\<lparr>portAssignments := portAssignments t @ map (\<lambda>np. (i, fst np, snd np)) ps\<rparr>"
  by (induction ps arbitrary: t) (simp_all add: insert_port_def)

lemma fold_track:
  "fold (\<lambda>c t. insert_container i c (unretire c t)) cs t =
     t\<lparr>containers := containers t @ map (Pair i) cs,
       retiredContainers := filter (\<lambda>x. x \<notin> set cs) (retiredContainers t)\<rparr>"
  by (induction cs arbitrary: t) (simp_all add: insert_container_def unretire_def conj_commute)

lemma fold_retire:
  "\<exists>rs. fold retire cs t = t\<lparr>retiredContainers := rs\<rparr> \<and> set rs = set (retiredContainers t) \<union> set cs"
proof (induction cs arbitrary: t)
  case Nil
  show ?case by (rule exI [of _ "retiredContainers t"]) simp
next
  case (Cons c cs)
  show ?case using Cons [of "retire c t"] by (auto simp: retire_def split: if_splits)
qed

lemma track_Inr:
  assumes "track_container i c d = (Inr u, d')"
  shows "tab d' = insert_container i c (unretire c (tab d))"
  using assms unfolding track_container_def by (elim bnd_InrE) (auto dest!: update_Inr)

lemma replace_effect:
  assumes "replaceInstanceRuntimeMetadata m d = (Inr u, d')"
  obtains rs where "tab d' = (tab d)\<lparr>
      portAssignments := filter (\<lambda>r. fst r \<noteq> in_Id m) (portAssignments (tab d)) @
        map (\<lambda>np. (in_Id m, fst np, snd np)) (in_Ports m),
      containers := filter (\<lambda>r. fst r \<noteq> in_Id m) (containers (tab d)) @ map (Pair (in_Id m)) (in_Containers m),
      retiredContainers := rs\<rparr>"
    "set rs = (set (retiredContainers (tab d)) \<union> set (instance_containers (in_Id m) (tab d))) -
       set (in_Containers m)" "constraints (tab d')"
proof -
  let ?i = "in_Id m" and ?cs = "in_Containers m"
  obtain d0 d9 where b: "tab d0 = tab d" "tab d' = tab d9" and body:
     "bnd (query (instance_containers ?i)) (\<lambda>previous.
      bnd (update (clear_ports ?i)) (\<lambda>_. bnd (update (clear_containers ?i)) (\<lambda>_.
      bnd (each (\<lambda>np. update (insert_port ?i np)) (in_Ports m)) (\<lambda>_.
      bnd (each (track_container ?i) ?cs) (\<lambda>_.
      each (\<lambda>c. update (retire c)) (filter (\<lambda>c. c \<notin> set ?cs) previous)))))) d0 = (Inr u, d9)"
    using assms unfolding replaceInstanceRuntimeMetadata_def by (rule withTransaction_Inr)
  obtain p d1 v2 d2 v3 d3 v4 d4 v5 d5 where s: "query (instance_containers ?i) d0 = (Inr p, d1)"
      "update (clear_ports ?i) d1 = (Inr v2, d2)" "update (clear_containers ?i) d2 = (Inr v3, d3)"
      "each (\<lambda>np. update (insert_port ?i np)) (in_Ports m) d3 = (Inr v4, d4)"
      "each (track_container ?i) ?cs d4 = (Inr v5, d5)"
      "each (\<lambda>c. update (retire c)) (filter (\<lambda>c. c \<notin> set ?cs) p) d5 = (Inr u, d9)"
    using body by (elim bnd_InrE)
  have 1: "p = instance_containers ?i (tab d)" "tab d1 = tab d" using query_Inr [OF s(1)] b by simp_all
  have 4: "tab d4 = fold (insert_port ?i) (in_Ports m) (tab d3)"
    by (rule each_effect [OF s(4)]) (auto dest: update_Inr)
  have 5: "tab d5 = fold (\<lambda>c t. insert_container ?i c (unretire c t)) ?cs (tab d4)"
    by (rule each_effect [OF s(5)]) (rule track_Inr)
  have 6: "tab d9 = fold retire (filter (\<lambda>c. c \<notin> set ?cs) p) (tab d5)"
    by (rule each_effect [OF s(6)]) (auto dest: update_Inr)
  have c4: "constraints (tab d4)"
    by (rule each_Inr_preserves [where P = "\<lambda>d. constraints (tab d)", OF s(4)]) (use update_Inr [OF s(3)] in \<open>auto dest: update_Inr\<close>)
  have c5: "constraints (tab d5)"
    by (rule each_Inr_preserves [where P = "\<lambda>d. constraints (tab d)", OF s(5) c4])
      (auto simp: track_container_def elim!: bnd_InrE dest: update_Inr)
  obtain rs where rs: "fold retire (filter (\<lambda>c. c \<notin> set ?cs) p) (tab d5) = (tab d5)\<lparr>retiredContainers := rs\<rparr>"
      "set rs = set (retiredContainers (tab d5)) \<union> set (filter (\<lambda>c. c \<notin> set ?cs) p)"
    using fold_retire by blast
  have t5: "tab d5 = (tab d)\<lparr>
      portAssignments := filter (\<lambda>r. fst r \<noteq> ?i) (portAssignments (tab d)) @
        map (\<lambda>np. (?i, fst np, snd np)) (in_Ports m),
      containers := filter (\<lambda>r. fst r \<noteq> ?i) (containers (tab d)) @ map (Pair ?i) ?cs,
      retiredContainers := filter (\<lambda>x. x \<notin> set ?cs) (retiredContainers (tab d))\<rparr>"
    using update_Inr [OF s(2)] update_Inr [OF s(3)] 1 4 5
    by (simp add: fold_track fold_insert_port_rows clear_ports_def clear_containers_def)
  show thesis
  proof (rule that [of rs])
    show "tab d' = (tab d)\<lparr>
      portAssignments := filter (\<lambda>r. fst r \<noteq> in_Id m) (portAssignments (tab d)) @
        map (\<lambda>np. (in_Id m, fst np, snd np)) (in_Ports m),
      containers := filter (\<lambda>r. fst r \<noteq> in_Id m) (containers (tab d)) @ map (Pair (in_Id m)) (in_Containers m),
      retiredContainers := rs\<rparr>"
      using b(2) 6 rs(1) t5 by simp
    show "constraints (tab d')"
      unfolding b(2) by (rule each_Inr_preserves [where P = "\<lambda>d. constraints (tab d)", OF s(6) c5]) (auto dest: update_Inr)
    show "set rs = (set (retiredContainers (tab d)) \<union> set (instance_containers (in_Id m) (tab d))) -
       set (in_Containers m)"
      using rs(2) 1 by (auto simp: t5)
  qed
qed

lemma other_instance_containers:
  assumes "constraints t" "(j, c) \<in> set (containers t)" "j \<noteq> i"
  shows "c \<notin> set (instance_containers i t)"
proof
  assume "c \<in> set (instance_containers i t)"
  then have "(i, c) \<in> set (containers t)" by (auto simp: instance_containers_def)
  moreover have "inj_on snd (set (containers t))"
    using assms(1) by (simp add: constraints_def instance_constraints_def distinct_map)
  ultimately have "(i, c) = (j, c)" using assms(2) inj_onD [of snd _ "(i, c)" "(j, c)"] by simp
  then show False using assms(3) by simp
qed

lemma keeps_replace: "db_inv (tab d) \<Longrightarrow> replaceInstanceRuntimeMetadata m d = (Inr u, d') \<Longrightarrow> db_inv (tab d')"
proof -
  assume inv: "db_inv (tab d)" and r: "replaceInstanceRuntimeMetadata m d = (Inr u, d')"
  obtain rs where e: "tab d' = (tab d)\<lparr>
      portAssignments := filter (\<lambda>r. fst r \<noteq> in_Id m) (portAssignments (tab d)) @
        map (\<lambda>np. (in_Id m, fst np, snd np)) (in_Ports m),
      containers := filter (\<lambda>r. fst r \<noteq> in_Id m) (containers (tab d)) @ map (Pair (in_Id m)) (in_Containers m),
      retiredContainers := rs\<rparr>"
    "set rs = (set (retiredContainers (tab d)) \<union> set (instance_containers (in_Id m) (tab d))) -
       set (in_Containers m)" "constraints (tab d')"
    by (rule replace_effect [OF r])
  have "c \<notin> set rs" if "(j, c) \<in> set (containers (tab d))" "j \<noteq> in_Id m" for j c
  proof -
    have "c \<notin> set (instance_containers (in_Id m) (tab d))"
      using other_instance_containers that inv by (simp add: db_inv_def)
    moreover have "c \<notin> set (retiredContainers (tab d))" using inv that by (force simp: db_inv_def)
    ultimately show ?thesis using e(2) by simp
  qed
  moreover have "set rs \<inter> set (in_Containers m) = {}" using e(2) by auto
  ultimately show "db_inv (tab d')" using e(3) by (auto simp: db_inv_def e(1))
qed

interpretation rr: db_operation "replaceInstanceRuntimeMetadata m" for m
proof
  show "replaceInstanceRuntimeMetadata m d = (Inl e, d') \<Longrightarrow> tab d' = tab d" for d e d'
    unfolding replaceInstanceRuntimeMetadata_def by (rule withTransaction_Inl)
qed (rule keeps_replace)

text \<open>
  C12. Replacing an instance's runtime metadata is an exact swap: on success the instance has the
  given containers and ports, every container it had before and no longer has is retired, none of
  the given ones is, all other instances and tables are untouched and the invariant holds; on
  failure nothing changed. So no container is ever forgotten between the two tables.
\<close>

theorem replace_runtime_swaps:
  assumes "db_inv (tab d)"
  shows "case replaceInstanceRuntimeMetadata m d of
      (Inl _, d') \<Rightarrow> tab d' = tab d
    | (Inr _, d') \<Rightarrow>
        db_inv (tab d') \<and>
        instance_containers (in_Id m) (tab d') = in_Containers m \<and>
        instance_ports (in_Id m) (tab d') = in_Ports m \<and>
        set (retiredContainers (tab d')) =
          (set (retiredContainers (tab d)) \<union> set (instance_containers (in_Id m) (tab d))) - set (in_Containers m) \<and>
        filter (\<lambda>r. fst r \<noteq> in_Id m) (containers (tab d')) = filter (\<lambda>r. fst r \<noteq> in_Id m) (containers (tab d)) \<and>
        filter (\<lambda>r. fst r \<noteq> in_Id m) (portAssignments (tab d')) =
          filter (\<lambda>r. fst r \<noteq> in_Id m) (portAssignments (tab d)) \<and>
        (tab d')\<lparr>containers := [], portAssignments := [], retiredContainers := []\<rparr> =
          (tab d)\<lparr>containers := [], portAssignments := [], retiredContainers := []\<rparr>"
proof -
  obtain r d' where r: "replaceInstanceRuntimeMetadata m d = (r, d')" by fastforce
  show ?thesis
  proof (cases r)
    case (Inl e)
    then show ?thesis using r rr.atomic [of m d e d'] by simp
  next
    case (Inr u)
    obtain rs where e: "tab d' = (tab d)\<lparr>
      portAssignments := filter (\<lambda>r. fst r \<noteq> in_Id m) (portAssignments (tab d)) @
        map (\<lambda>np. (in_Id m, fst np, snd np)) (in_Ports m),
      containers := filter (\<lambda>r. fst r \<noteq> in_Id m) (containers (tab d)) @ map (Pair (in_Id m)) (in_Containers m),
      retiredContainers := rs\<rparr>"
      "set rs = (set (retiredContainers (tab d)) \<union> set (instance_containers (in_Id m) (tab d))) -
         set (in_Containers m)"
      by (rule replace_effect [OF r [unfolded Inr]])
    have "db_inv (tab d')" using rr.keeps assms r Inr by blast
    moreover have "filter (\<lambda>r. fst r = in_Id m) (map (Pair (in_Id m)) (in_Containers m)) =
        map (Pair (in_Id m)) (in_Containers m)" by (simp add: filter_True)
    ultimately show ?thesis using r Inr e(2)
      by (simp add: e(1) instance_containers_def instance_ports_def comp_def)
  qed
qed

definition ex_instance_db :: db where
  "ex_instance_db = ex_db\<lparr>tab := ex_tables\<lparr>instances := [\<lparr>nr_id = 1, nr_lastsolved = 0, nr_build = 1\<rparr>],
     portAssignments := [(1, ''http'', 5000)], containers := [(1, ''old'')], retiredContainers := [''gone'']\<rparr>\<rparr>"

theorem replace_runtime_swaps_witness:
  "\<exists>d'. replaceInstanceRuntimeMetadata \<lparr>in_Id = 1, in_Ports = [(''http'', 6000)], in_Containers = [''new''],
       in_LastSolved = 0, in_Build = 1\<rparr> ex_instance_db = (Inr (), d') \<and>
     db_inv (tab d') \<and> set (retiredContainers (tab d')) = {''gone'', ''old''}"
proof -
  let ?m = "\<lparr>in_Id = 1, in_Ports = [(''http'', 6000)], in_Containers = [''new''],
       in_LastSolved = 0, in_Build = 1\<rparr>"
  have "db_inv (tab ex_instance_db)" by code_simp
  note swap = replace_runtime_swaps [OF this, of ?m]
  have "\<not> isl (fst (replaceInstanceRuntimeMetadata ?m ex_instance_db))" by code_simp
  then obtain u d' where r: "replaceInstanceRuntimeMetadata ?m ex_instance_db = (Inr u, d')"
    by (cases "replaceInstanceRuntimeMetadata ?m ex_instance_db"; cases "fst (replaceInstanceRuntimeMetadata ?m ex_instance_db)")
      auto
  have old: "retiredContainers (tab ex_instance_db) = [''gone'']"
    "instance_containers 1 (tab ex_instance_db) = [''old'']"
    by (simp_all add: ex_instance_db_def instance_containers_def)
  show ?thesis using swap by (auto simp: r old)
qed

section \<open>Every operation keeps the invariant\<close>

lemma keeps_openBuildQuery [keeps_intros]: "keeps_inv (update (openBuildQuery b))"
  by (rule keeps_update_frame) (simp_all add: openBuildQuery_def)

lemma keeps_stageBuildQuery [keeps_intros]: "keeps_inv (update (stageBuildQuery b))"
  by (rule keeps_update_frame) (simp_all add: stageBuildQuery_def)

lemma keeps_lookup [keeps_intros]: "keeps_inv (lookupBuildMetadata b)"
  by (rule reads_keeps) (rule reads_intros)

lemma keeps_case_list [keeps_intros]:
  "keeps_inv m \<Longrightarrow> (\<And>x xs. keeps_inv (f x xs)) \<Longrightarrow> keeps_inv (case l of [] \<Rightarrow> m | x # xs \<Rightarrow> f x xs)"
  by (cases l) simp_all

lemma build_operations_keep:
  "keeps_inv (openBuild b)" "keeps_inv (stageBuild b)" "keeps_inv (createSchemaRecord n k)"
  "keeps_inv (deleteSchemaRecord n)" "keeps_inv (deleteSchemaRecordIfEmpty n)"
  by (auto simp: openBuild_def stageBuild_def createSchemaRecord_def deleteSchemaRecord_def
      deleteSchemaRecordIfEmpty_def Let_def simp del: ret_apply raise_apply intro!: keeps_intros)

lemma instance_operations_keep:
  "keeps_inv (openInstance m)" "keeps_inv (removeContainerMetadata i c)"
proof -
  show "keeps_inv (openInstance m)"
    unfolding openInstance_def by (intro keeps_intros) (simp_all add: Let_def)
  show "keeps_inv (removeContainerMetadata i c)"
    unfolding removeContainerMetadata_def
    by (intro keeps_bnd keeps_report keeps_update) (auto simp: db_inv_def)
qed

lemma keeps_retireContainer:
  "db_inv (tab d) \<Longrightarrow> c \<notin> snd ` set (containers (tab d)) \<Longrightarrow> db_inv (tab (snd (retireContainer c d)))"
proof -
  assume inv: "db_inv (tab d)" and c: "c \<notin> snd ` set (containers (tab d))"
  obtain r d' where r: "update (retire c) d = (r, d')" by fastforce
  show "db_inv (tab (snd (retireContainer c d)))"
  proof (cases r)
    case (Inl e)
    then show ?thesis using r inv update_Inl [of "retire c" d e d'] by (simp add: retireContainer_def)
  next
    case (Inr u)
    have "constraints (tab d')" "tab d' = retire c (tab d)" using update_Inr [OF r [unfolded Inr]] by blast+
    moreover have "snd ` set (containers (tab d)) \<inter> set (retiredContainers (retire c (tab d))) = {}"
      using inv c by (simp add: retire_def db_inv_def Int_insert_right)
    moreover have "containers (retire c (tab d)) = containers (tab d)" by (simp add: retire_def)
    ultimately show ?thesis using r by (simp add: retireContainer_def db_inv_def)
  qed
qed



end
