(* ===== verification/Register.thy ===== *)
theory Register
  imports Interceptor
begin

text \<open>
  \<open>internal/ociinterceptor/register.go\<close>: merging the wrapper into Docker's \<open>daemon.json\<close> and the
  \<open>register\<close> command with its rollback. The configuration file is absent or has a kind, a size, a
  parsed content and a mode; every file operation may fail, as decided in turn by \<open>rs_io\<close>. What the
  rest of the system answers (executables, trust checks, dockerd's validation, the reload, the
  adopted configuration) is \<open>register_env\<close>.
\<close>

definition maxDockerConfigSize :: int where "maxDockerConfigSize = 16 * 1024 * 1024"

definition defaultDockerConfigPath :: string where
  "defaultDockerConfigPath = ''/etc/docker/daemon.json''"

record config_file =
  cf_regular :: bool
  cf_size :: int
  cf_doc :: "json option"
  cf_mode :: int

record reg_state =
  rs_file :: "config_file option"
  rs_io :: "bool list"

text \<open>A file operation that may fail.\<close>

definition io_step :: "string \<Rightarrow> (reg_state, unit) act" where
  "io_step what s =
     (case rs_io s of
        True # rest \<Rightarrow> (Inl (Plain what), s\<lparr>rs_io := rest\<rparr>)
      | _ \<Rightarrow> (Inr (), s\<lparr>rs_io := tl (rs_io s)\<rparr>))"

definition set_file :: "config_file option \<Rightarrow> (reg_state, unit) act" where
  "set_file f s = (Inr (), s\<lparr>rs_file := f\<rparr>)"

definition get_file :: "(reg_state, config_file option) act" where
  "get_file s = (Inr (rs_file s), s)"

definition guard :: "bool \<Rightarrow> string \<Rightarrow> (reg_state, unit) act" where
  "guard ok what = (if ok then ret () else raise (Plain what))"

definition runtimeArguments :: "string \<Rightarrow> string list" where
  "runtimeArguments runcPath = [RuntimeProtocolArgument, runtimePathOption @ ''='' @ runcPath]"

text \<open>\<open>dockerRuntimeRegistration\<close>, encoded in the order of the struct's fields.\<close>

definition registration :: "string \<Rightarrow> string \<Rightarrow> json" where
  "registration runtimePath runcPath =
     JObj [(''path'', JStr runtimePath), (''runtimeArgs'', encode_strings (runtimeArguments runcPath))]"

definition equalJSON :: "json \<Rightarrow> json \<Rightarrow> bool" where
  "equalJSON a b \<longleftrightarrow> canon a = canon b"

text \<open>\<open>replaceFile\<close> writes a temporary file and renames it over the target: one step here.\<close>

definition replaceFile :: "config_file \<Rightarrow> (reg_state, unit) act" where
  "replaceFile f = bnd (io_step ''could not write'') (\<lambda>_. set_file (Some f))"

definition syncDirectory :: "(reg_state, unit) act" where
  "syncDirectory = io_step ''could not sync directory''"

text \<open>Reading the configuration; a new one gets mode 0644.\<close>

definition read_document :: "(reg_state, jmap \<times> int) act" where
  "read_document =
     bnd (io_step ''could not inspect'') (\<lambda>_.
     bnd get_file (\<lambda>file.
     case file of
       None \<Rightarrow> ret ([], 420)
     | Some f \<Rightarrow>
       bnd (guard (cf_regular f) ''not a regular file'') (\<lambda>_.
       bnd (guard (cf_size f \<le> maxDockerConfigSize) ''exceeds the size limit'') (\<lambda>_.
       bnd (io_step ''could not read'') (\<lambda>_.
       case Option.bind (cf_doc f) decode_obj of
         None \<Rightarrow> raise (Plain ''could not parse'')
       | Some None \<Rightarrow> raise (Plain ''does not contain a JSON object'')
       | Some (Some m) \<Rightarrow> ret (m, cf_mode f))))))"

definition runtimes_of :: "jmap \<Rightarrow> jmap option" where
  "runtimes_of document =
     (case map_of document ''runtimes'' of
        None \<Rightarrow> Some []
      | Some raw \<Rightarrow> (case decode_obj raw of Some (Some m) \<Rightarrow> Some m | _ \<Rightarrow> None))"

definition registered :: "json \<Rightarrow> jmap \<Rightarrow> jmap \<Rightarrow> json" where
  "registered reg runtimes document =
     encode_obj (put ''runtimes'' (encode_obj (put RuntimeName reg runtimes)) document)"

text \<open>\<open>executable p\<close> is \<open>validateExecutable p\<close>; \<open>len\<close> is the length of the encoded document.\<close>

definition RegisterRuntime ::
  "(string \<Rightarrow> bool) \<Rightarrow> (json \<Rightarrow> int) \<Rightarrow> string \<Rightarrow> string \<Rightarrow> string \<Rightarrow> bool \<Rightarrow> (reg_state, bool) act" where
  "RegisterRuntime executable len configPath runtimePath runcPath force =
     bnd (guard (configPath \<noteq> []) ''configuration path cannot be empty'') (\<lambda>_.
     bnd (guard (IsAbs runtimePath) ''interceptor path must be absolute'') (\<lambda>_.
     bnd (guard (shellSafePath runtimePath) ''interceptor path unsafe'') (\<lambda>_.
     bnd (guard (runcPath \<noteq> []) ''runc path cannot be empty'') (\<lambda>_.
     bnd (guard (IsAbs runcPath) ''runc path must be absolute'') (\<lambda>_.
     bnd (guard (shellSafePath runcPath) ''runc path unsafe'') (\<lambda>_.
     bnd (guard (executable runtimePath) ''not an executable'') (\<lambda>_.
     bnd read_document (\<lambda>(document, mode).
     case runtimes_of document of
       None \<Rightarrow> raise (Plain ''runtimes is not an object'')
     | Some runtimes \<Rightarrow>
       let reg = registration runtimePath runcPath; old = map_of runtimes RuntimeName in
       if (case old of Some e \<Rightarrow> equalJSON e reg | None \<Rightarrow> False) then ret False
       else if old \<noteq> None \<and> \<not> force then raise (Plain ''already has a different configuration'')
       else
         bnd (io_step ''could not create configuration directory'') (\<lambda>_.
         bnd (replaceFile \<lparr>cf_regular = True, cf_size = len (registered reg runtimes document),
                cf_doc = Some (registered reg runtimes document), cf_mode = mode\<rparr>) (\<lambda>_.
         bnd syncDirectory (\<lambda>_. ret True)))))))))))"

text \<open>\<open>snapshotFile\<close> and \<open>restoreFile\<close>; the snapshot of an absent file is \<open>None\<close>.\<close>

definition snapshotFile :: "(reg_state, config_file option) act" where
  "snapshotFile =
     bnd (io_step ''could not inspect'') (\<lambda>_.
     bnd get_file (\<lambda>file.
     case file of
       None \<Rightarrow> ret None
     | Some f \<Rightarrow>
       bnd (guard (cf_regular f) ''not a regular file'') (\<lambda>_.
       bnd (guard (cf_size f \<le> maxDockerConfigSize) ''exceeds the size limit'') (\<lambda>_.
       bnd (io_step ''could not read'') (\<lambda>_. ret (Some f))))))"

definition restoreFile :: "config_file option \<Rightarrow> (reg_state, unit) act" where
  "restoreFile snapshot =
     (case snapshot of
        Some f \<Rightarrow> bnd (replaceFile f) (\<lambda>_. syncDirectory)
      | None \<Rightarrow> bnd (io_step ''could not remove'') (\<lambda>_. bnd (set_file None) (\<lambda>_. syncDirectory)))"

section \<open>The register command\<close>

record register_env =
  g_linux :: bool
  g_root :: bool
  g_interceptor :: "err + string"
  g_runc :: "err + string"
  g_executable :: "string \<Rightarrow> bool"
  g_trusted :: "string \<Rightarrow> bool"
  g_directory_trusted :: bool
  g_config_trusted :: bool
  g_validation :: "bool \<times> bool"
  g_reload :: bool
  g_reload_again :: bool
  g_adopted :: bool

text \<open>\<open>rollbackRegistration\<close>.\<close>

definition rollbackRegistration :: "register_env \<Rightarrow> config_file option \<Rightarrow> bool \<Rightarrow> (reg_state, unit) act" where
  "rollbackRegistration env original changed =
     bnd (if changed then map_err (Wrap ''could not restore'') (restoreFile original) else ret ()) (\<lambda>_.
     if g_reload_again env then ret () else raise (Plain ''could not reload Docker''))"

text \<open>
  \<open>RunRegisterCommand\<close> after its flags were parsed: the exit code and the state. The file lock
  around the update is taken with the other file operations.
\<close>

definition RunRegisterCommand ::
  "register_env \<Rightarrow> (json \<Rightarrow> int) \<Rightarrow> string \<Rightarrow> bool \<Rightarrow> bool \<Rightarrow> reg_state \<Rightarrow> nat \<times> reg_state" where
  "RunRegisterCommand env len configPath force noReload s =
     (let privileged = (Clean configPath = defaultDockerConfigPath) in
      if \<not> g_linux env then (1, s)
      else if privileged \<and> \<not> g_root env then (1, s)
      else case g_interceptor env of
        Inl _ \<Rightarrow> (1, s)
      | Inr interceptor \<Rightarrow>
      case g_runc env of
        Inl _ \<Rightarrow> (1, s)
      | Inr runc \<Rightarrow>
      if privileged \<and> \<not> (g_trusted env interceptor \<and> g_trusted env runc) then (1, s)
      else case io_step ''could not create configuration directory'' s of
        (Inl _, s1) \<Rightarrow> (1, s1)
      | (Inr _, s1) \<Rightarrow>
      if privileged \<and> \<not> (g_directory_trusted env \<and> (rs_file s1 \<noteq> None \<longrightarrow> g_config_trusted env)) then (1, s1)
      else case io_step ''could not lock'' s1 of
        (Inl _, s2) \<Rightarrow> (1, s2)
      | (Inr _, s2) \<Rightarrow>
      case snapshotFile s2 of
        (Inl _, s3) \<Rightarrow> (1, s3)
      | (Inr original, s3) \<Rightarrow>
      case RegisterRuntime (g_executable env) len configPath interceptor runc force s3 of
        (Inl _, s4) \<Rightarrow> (1, s4)
      | (Inr changed, s4) \<Rightarrow>
      if changed \<and> fst (g_validation env) \<and> \<not> snd (g_validation env)
        then (1, snd (restoreFile original s4))
      else if noReload then (0, s4)
      else if \<not> g_reload env then (1, snd (rollbackRegistration env original changed s4))
      else if \<not> g_adopted env then (1, snd (rollbackRegistration env original changed s4))
      else (0, s4))"

text \<open>What Docker reports must match exactly.\<close>

definition runtimeRegistrationMatches ::
  "(string \<times> string \<times> string list) list \<Rightarrow> string \<Rightarrow> string list \<Rightarrow> bool" where
  "runtimeRegistrationMatches runtimes path arguments \<longleftrightarrow>
     map_of runtimes RuntimeName = Some (path, arguments)"

section \<open>What registration does\<close>

lemma guard_Inr: "guard ok w s = (Inr u, s') \<longleftrightarrow> ok \<and> s' = s"
  by (auto simp: guard_def)

lemma io_step_file [simp, frame]: "rs_file (snd (io_step w s)) = rs_file s"
  by (auto simp: io_step_def split: list.splits bool.splits)

lemma io_step_Inr: "io_step w s = (Inr u, s') \<Longrightarrow> rs_file s' = rs_file s"
  using io_step_file [of w s] by simp

lemma io_step_calm [simp]: "rs_io s = [] \<Longrightarrow> io_step w s = (Inr (), s)"
  by (cases s) (simp add: io_step_def)

definition file_document :: "config_file option \<Rightarrow> json" where
  "file_document f = (case Option.bind f cf_doc of Some j \<Rightarrow> j | None \<Rightarrow> JObj [])"

lemma read_document_Inr:
  assumes "read_document s = (Inr (m, mode), s')"
  shows "rs_file s' = rs_file s" "decode_obj (file_document (rs_file s)) = Some (Some m)"
proof -
  obtain s1 where s1: "rs_file s1 = rs_file s"
     "(case rs_file s of None \<Rightarrow> ret ([], 420)
       | Some f \<Rightarrow> bnd (guard (cf_regular f) ''not a regular file'') (\<lambda>_.
       bnd (guard (cf_size f \<le> maxDockerConfigSize) ''exceeds the size limit'') (\<lambda>_.
       bnd (io_step ''could not read'') (\<lambda>_.
       case Option.bind (cf_doc f) decode_obj of
         None \<Rightarrow> raise (Plain ''could not parse'')
       | Some None \<Rightarrow> raise (Plain ''does not contain a JSON object'')
       | Some (Some m) \<Rightarrow> ret (m, cf_mode f))))) s1 = (Inr (m, mode), s')"
    using assms unfolding read_document_def
    by (elim bnd_InrE) (auto simp: get_file_def dest: io_step_Inr)
  show "rs_file s' = rs_file s" "decode_obj (file_document (rs_file s)) = Some (Some m)"
    using s1 by (auto simp: file_document_def go_map_def guard_Inr split: option.splits
        elim!: bnd_InrE dest!: io_step_Inr)
qed

lemma canon_registration_refl: "equalJSON a a"
  by (simp add: equalJSON_def)

lemma runtimes_of_Some:
  assumes "runtimes_of document = Some runtimes"
  shows "distinct (map fst runtimes)"
    "map_of document ''runtimes'' = Some r \<Longrightarrow> decode_obj r = Some (Some runtimes)"
    "map_of document ''runtimes'' = None \<Longrightarrow> runtimes = []"
  using assms by (auto simp: runtimes_of_def split: option.splits dest: decode_obj_distinct)

text \<open>The runtime entry called \<open>k\<close> of a document.\<close>

definition runtime_entry :: "string \<Rightarrow> json \<Rightarrow> json option" where
  "runtime_entry k doc = Option.bind (jfield ''runtimes'' doc) (jfield k)"

lemma runtime_entry_old:
  assumes "decode_obj doc = Some (Some document)" "runtimes_of document = Some runtimes"
  shows "runtime_entry k doc = map_of runtimes k"
  using jfield_decode [OF assms(1)] runtimes_of_Some [OF assms(2)] jfield_decode
  by (cases "map_of document ''runtimes''") (auto simp: runtime_entry_def)

lemma registered_entries:
  assumes "distinct (map fst document)" "distinct (map fst runtimes)"
  shows "runtime_entry k (registered reg runtimes document) =
      (if k = RuntimeName then Some reg else map_of runtimes k)"
    "k \<noteq> ''runtimes'' \<Longrightarrow> jfield k (registered reg runtimes document) = map_of document k"
  using assms by (simp_all add: runtime_entry_def registered_def)

definition keeps_settings :: "json \<Rightarrow> json \<Rightarrow> bool" where
  "keeps_settings old new \<longleftrightarrow>
     (\<forall>k. k \<noteq> ''runtimes'' \<longrightarrow> jfield k new = jfield k old) \<and>
     (\<forall>k. k \<noteq> RuntimeName \<longrightarrow> runtime_entry k new = runtime_entry k old)"

definition has_runtime :: "string \<Rightarrow> string \<Rightarrow> json \<Rightarrow> bool" where
  "has_runtime runtimePath runcPath doc \<longleftrightarrow>
     (case runtime_entry RuntimeName doc of
        Some e \<Rightarrow> equalJSON e (registration runtimePath runcPath) | None \<Rightarrow> False)"

lemma RegisterRuntime_Inr:
  assumes "RegisterRuntime ex len c rp rc force s = (Inr ch, s')"
  shows "IsAbs rp \<and> shellSafePath rp \<and> IsAbs rc \<and> shellSafePath rc \<and> ex rp"
    "has_runtime rp rc (file_document (rs_file s'))"
    "keeps_settings (file_document (rs_file s)) (file_document (rs_file s'))"
    "\<not> ch \<Longrightarrow> rs_file s' = rs_file s"
proof -
  obtain m mode s1 where g: "IsAbs rp" "shellSafePath rp" "IsAbs rc" "shellSafePath rc" "ex rp"
      and rd: "read_document s = (Inr (m, mode), s1)"
      and rest: "(case runtimes_of m of
       None \<Rightarrow> raise (Plain ''runtimes is not an object'')
     | Some runtimes \<Rightarrow>
       let reg = registration rp rc; old = map_of runtimes RuntimeName in
       if (case old of Some e \<Rightarrow> equalJSON e reg | None \<Rightarrow> False) then ret False
       else if old \<noteq> None \<and> \<not> force then raise (Plain ''already has a different configuration'')
       else
         bnd (io_step ''could not create configuration directory'') (\<lambda>_.
         bnd (replaceFile \<lparr>cf_regular = True, cf_size = len (registered reg runtimes m),
                cf_doc = Some (registered reg runtimes m), cf_mode = mode\<rparr>) (\<lambda>_.
         bnd syncDirectory (\<lambda>_. ret True)))) s1 = (Inr ch, s')"
    using assms unfolding RegisterRuntime_def
    by (elim bnd_InrE) (auto simp: guard_Inr)
  show "IsAbs rp \<and> shellSafePath rp \<and> IsAbs rc \<and> shellSafePath rc \<and> ex rp" using g by simp
  note d = read_document_Inr [OF rd]
  obtain runtimes where rt: "runtimes_of m = Some runtimes" using rest by (cases "runtimes_of m") auto
  note old = runtime_entry_old [OF d(2) rt]
  let ?reg = "registration rp rc"
  have "(\<not> ch \<and> s' = s1 \<and> (\<exists>e. map_of runtimes RuntimeName = Some e \<and> equalJSON e ?reg)) \<or>
      (ch \<and> file_document (rs_file s') = registered ?reg runtimes m)"
    using rest
    by (auto simp: rt Let_def replaceFile_def set_file_def syncDirectory_def file_document_def
        split: if_splits option.splits elim!: bnd_InrE dest!: io_step_Inr)
  then show "has_runtime rp rc (file_document (rs_file s'))"
    "keeps_settings (file_document (rs_file s)) (file_document (rs_file s'))"
    "\<not> ch \<Longrightarrow> rs_file s' = rs_file s"
    using d(1) old jfield_decode [OF d(2)] canon_registration_refl
      registered_entries [OF decode_obj_distinct [OF d(2)] runtimes_of_Some(1) [OF rt]]
    by (auto simp: has_runtime_def keeps_settings_def)
qed

lemma silent_restore: "rs_io s = [] \<Longrightarrow> rs_file (snd (restoreFile f s)) = f"
  by (cases f) (simp_all add: restoreFile_def replaceFile_def syncDirectory_def set_file_def bnd_def)

lemma silent_rollback:
  assumes "rs_io s = []" "\<not> changed \<Longrightarrow> rs_file s = f"
  shows "rs_file (snd (rollbackRegistration env f changed s)) = f"
proof (cases changed)
  case True
  obtain r s1 where r: "restoreFile f s = (r, s1)" by fastforce
  then have "rs_file s1 = f" using silent_restore [OF assms(1), of f] by simp
  then show ?thesis using True r by (cases r) (auto simp: rollbackRegistration_def bnd_def map_err_def)
next
  case False
  then show ?thesis using assms(2) by (simp add: rollbackRegistration_def)
qed

definition silent :: "(reg_state, 'a) act \<Rightarrow> bool" where
  "silent m \<longleftrightarrow> (\<forall>s. rs_io s = [] \<longrightarrow> rs_io (snd (m s)) = [])"

lemma silent_intros:
  "silent (io_step w)" "silent (set_file f)" "silent get_file" "silent (guard b w)" "silent (ret x)" "silent (raise e)"
  by (simp_all add: silent_def set_file_def get_file_def guard_def)

lemma silent_bnd: "silent m \<Longrightarrow> (\<And>x. silent (f x)) \<Longrightarrow> silent (bnd m f)"
  unfolding silent_def by (intro allI impI, rule bnd_preserves) simp_all

lemma silent_case_option: "silent a \<Longrightarrow> (\<And>x. silent (f x)) \<Longrightarrow> silent (case z of None \<Rightarrow> a | Some x \<Rightarrow> f x)"
  by (cases z) simp_all

lemma silent_if: "silent a \<Longrightarrow> silent b \<Longrightarrow> silent (if P then a else b)"
  by simp

lemmas silent_rules = silent_intros silent_bnd silent_case_option silent_if

lemma silent_register: "silent (RegisterRuntime ex len c rp rc force)"
proof -
  have "silent read_document" unfolding read_document_def by (intro silent_rules)
  then show ?thesis
    unfolding RegisterRuntime_def Let_def replaceFile_def syncDirectory_def
    by (intro silent_rules) (auto simp: split_def intro!: silent_rules)
qed

lemma silent_snapshot: "rs_io s = [] \<Longrightarrow> snapshotFile s = (r, s') \<Longrightarrow> s' = s \<and> (\<forall>f. r = Inr f \<longrightarrow> f = rs_file s)"
  by (cases "rs_file s") (auto simp: snapshotFile_def get_file_def guard_def bnd_def split: if_splits)

lemma command_0:
  assumes "RunRegisterCommand env len cfg force noReload s = (0, s')"
  obtains i r s3 ch where "g_interceptor env = Inr i" "g_runc env = Inr r" "rs_file s3 = rs_file s"
    "RegisterRuntime (g_executable env) len cfg i r force s3 = (Inr ch, s')"
proof -
  obtain i r where ir: "g_interceptor env = Inr i" "g_runc env = Inr r"
    using assms by (auto simp: RunRegisterCommand_def Let_def split: if_splits sum.splits)
  obtain r1 s1 where 1: "io_step ''could not create configuration directory'' s = (r1, s1)" by fastforce
  obtain r2 s2 where 2: "io_step ''could not lock'' s1 = (r2, s2)" by fastforce
  obtain r3 s3 where 3: "snapshotFile s2 = (r3, s3)" by fastforce
  obtain r4 s4 where 4: "RegisterRuntime (g_executable env) len cfg i r force s3 = (r4, s4)" by fastforce
  have f: "rs_file s1 = rs_file s" "rs_file s2 = rs_file s1"
    using io_step_file [of _ s] io_step_file [of _ s1] 1 2 by (metis snd_conv)+
  have "rs_file s3 = rs_file s2"
    using 3 by (auto simp: snapshotFile_def bnd_def get_file_def guard_def split: prod.splits sum.splits option.splits if_splits)
      (metis io_step_file snd_conv)+
  moreover have "\<exists>ch. r4 = Inr ch \<and> s4 = s'"
    using assms ir 1 2 3 4
    by (cases r1; cases r2; cases r3; cases r4)
      (auto simp: RunRegisterCommand_def Let_def split: if_splits)
  ultimately show thesis using that ir 4 f by auto
qed

lemma command_1_calm:
  assumes "RunRegisterCommand env len cfg force noReload s = (code, s')" "rs_io s = []" "code \<noteq> 0"
    "\<And>i r e s''. RegisterRuntime (g_executable env) len cfg i r force s = (Inl e, s'') \<Longrightarrow> rs_file s'' = rs_file s"
  shows "rs_file s' = rs_file s"
proof -
  note run = assms(1) [unfolded RunRegisterCommand_def Let_def io_step_calm [OF assms(2)] prod.case sum.case]
  show ?thesis
  proof (cases "g_interceptor env")
    case (Inl e)
    then show ?thesis using run by (auto split: if_splits)
  next
    case i: (Inr i)
    show ?thesis
    proof (cases "g_runc env")
      case (Inl e)
      then show ?thesis using run i by (auto split: if_splits)
    next
      case r: (Inr r)
      obtain r3 s3 where 3: "snapshotFile s = (r3, s3)" by fastforce
      obtain r4 s4 where 4: "RegisterRuntime (g_executable env) len cfg i r force s = (r4, s4)" by fastforce
      note c3 = silent_snapshot [OF assms(2) 3]
      have io4: "rs_io s4 = []" using silent_register assms(2) 4 by (metis silent_def snd_conv)
      show ?thesis
      proof (cases r3)
        case (Inl e)
        then show ?thesis using run i r 3 c3 by (auto split: if_splits)
      next
        case snap: (Inr f)
        show ?thesis
        proof (cases r4)
          case (Inl e)
          then show ?thesis using run i r 3 c3 snap 4 assms(4) by (auto split: if_splits)
        next
          case (Inr ch)
          have "\<not> ch \<Longrightarrow> rs_file s4 = rs_file s" using RegisterRuntime_Inr(4) 4 Inr by blast
          then show ?thesis using run i r 3 c3 snap 4 Inr assms(3) silent_restore [OF io4, of f]
              silent_rollback [OF io4, of ch f env]
            by (auto split: if_splits)
        qed
      qed
    qed
  qed
qed

lemma register_error_calm:
  assumes "RegisterRuntime ex len c rp rc force s = (Inl e, s')" "rs_io s = []"
  shows "rs_file s' = rs_file s"
proof -
  have rd: "read_document s = (r, s1) \<Longrightarrow> s1 = s" for r s1
    using assms(2)
    by (cases "rs_file s") (auto simp: read_document_def get_file_def guard_def bnd_def split: if_splits option.splits)
  obtain r1 s1 where 1: "read_document s = (r1, s1)" by fastforce
  note s1 = rd [OF 1]
  show ?thesis
    using assms 1 s1
    by (cases r1) (auto simp: RegisterRuntime_def bnd_def guard_def Let_def replaceFile_def set_file_def
        syncDirectory_def split: if_splits option.splits)
qed

text \<open>
  C15. Registration is all or nothing: when the file operations themselves work, the command either
  exits with 0, and then Docker's configuration names the wrapper with exactly the arguments of this
  version, and every other setting and runtime is as it was; or it exits with another code, whatever
  went wrong (validation, reload, adoption, checks), and the configuration file is the original one.
\<close>

theorem registration_all_or_nothing:
  assumes "RunRegisterCommand env len cfg force noReload s = (code, s')" "rs_io s = []"
  shows "if code = 0
    then (\<exists>i r. g_interceptor env = Inr i \<and> g_runc env = Inr r \<and>
        has_runtime i r (file_document (rs_file s')) \<and>
        keeps_settings (file_document (rs_file s)) (file_document (rs_file s')))
    else rs_file s' = rs_file s"
proof (cases "code = 0")
  case True
  obtain i r s3 ch where "g_interceptor env = Inr i" "g_runc env = Inr r" "rs_file s3 = rs_file s"
      "RegisterRuntime (g_executable env) len cfg i r force s3 = (Inr ch, s')"
    by (rule command_0 [OF assms(1) [unfolded True]])
  then show ?thesis using True RegisterRuntime_Inr(2,3) by metis
next
  case False
  then show ?thesis using command_1_calm [OF assms] register_error_calm assms(2) by simp
qed

definition ex_register_env :: register_env where
  "ex_register_env = \<lparr>g_linux = True, g_root = True, g_interceptor = Inr ''/usr/bin/cmgr-oci-interceptor'',
     g_runc = Inr ''/usr/bin/runc'', g_executable = (\<lambda>_. True), g_trusted = (\<lambda>_. True),
     g_directory_trusted = True, g_config_trusted = True, g_validation = (True, True), g_reload = True,
     g_reload_again = True, g_adopted = False\<rparr>"

theorem registration_all_or_nothing_witness:
  "rs_file (snd (RunRegisterCommand ex_register_env (\<lambda>_. 100) ''/etc/docker/daemon.json'' False False
     \<lparr>rs_file = None, rs_io = []\<rparr>)) = None"
proof -
  let ?run = "RunRegisterCommand ex_register_env (\<lambda>_. 100) ''/etc/docker/daemon.json'' False False
     \<lparr>rs_file = None, rs_io = []\<rparr>"
  have "fst ?run = 1" by code_simp
  then have "?run = (1, snd ?run)" by (metis prod.collapse)
  from registration_all_or_nothing [OF this] show ?thesis by simp
qed



text \<open>
  One failure is not undone: if only the directory sync after the replacement fails,
  \<open>RegisterRuntime\<close> reports an error, the command exits with 1 without a rollback, and the
  configuration file stays replaced.
\<close>

lemma registration_sync_failure_kept:
  "fst (RunRegisterCommand ex_register_env (\<lambda>_. 100) ''/etc/docker/daemon.json'' False False
      \<lparr>rs_file = None, rs_io = [False, False, False, False, False, False, True]\<rparr>) = 1 \<and>
   rs_file (snd (RunRegisterCommand ex_register_env (\<lambda>_. 100) ''/etc/docker/daemon.json'' False False
      \<lparr>rs_file = None, rs_io = [False, False, False, False, False, False, True]\<rparr>)) \<noteq> None"
  by code_simp

end
