(* ===== verification/ChallengeStore.thy ===== *)
theory ChallengeStore
  imports InstanceStore "HOL-Library.Sublist"
begin

text \<open>
  The challenge statements of \<open>cmgr/database_challenges.go\<close>: listing, searching, reading, inserting,
  replacing and removing challenges with their relations, and the stored form of container options.
  \<open>hash\<close> and \<open>parse\<close> are those of the seccomp component.
\<close>

section \<open>Container options\<close>

definition toDbContainerOptions :: "ContainerOptions \<Rightarrow> dbContainerOptions" where
  "toDbContainerOptions c = \<lparr>do_Init = Init c, do_Cpus = Cpus c, do_Memory = Memory c,
     do_Ulimits = Ulimits c, do_PidsLimit = PidsLimit c, do_ReadonlyRootfs = ReadonlyRootfs c,
     do_DroppedCaps = DroppedCaps c, do_NoNewPrivileges = NoNewPrivileges c, do_DiskQuota = DiskQuota c,
     do_CgroupParent = CgroupParent c, do_Seccomp = marshalSeccompOptions (Seccomp c)\<rparr>"

definition newFromDbContainerOptions ::
  "(string \<Rightarrow> string) \<Rightarrow> (string \<Rightarrow> seccompProfile option) \<Rightarrow> dbContainerOptions \<Rightarrow> err + ContainerOptions" where
  "newFromDbContainerOptions hash parse d =
     (case unmarshalSeccompOptions hash parse (do_Seccomp d) of
        Inl e \<Rightarrow> Inl e
      | Inr s \<Rightarrow> Inr \<lparr>Init = do_Init d, Cpus = do_Cpus d, Memory = do_Memory d, Ulimits = do_Ulimits d,
          PidsLimit = do_PidsLimit d, ReadonlyRootfs = do_ReadonlyRootfs d, DroppedCaps = do_DroppedCaps d,
          NoNewPrivileges = do_NoNewPrivileges d, DiskQuota = do_DiskQuota d,
          CgroupParent = do_CgroupParent d, Seccomp = s\<rparr>)"

section \<open>Reading\<close>

definition row_meta :: "challenge_row \<Rightarrow> ChallengeMetadata" where
  "row_meta r = \<lparr>ch_Id = cr_id r, ch_Name = cr_name r, Namespace = cr_namespace r,
     ChallengeType = cr_challengetype r, Description = cr_description r, Details = cr_details r,
     Hints = [], SourceChecksum = cr_sourcechecksum r, MetadataChecksum = cr_metadatachecksum r,
     SourceDigest = cr_sourcedigest r, MetadataDigest = cr_metadatadigest r, Path = cr_path r,
     Templatable = cr_templatable r, PortMap = [], Hosts = [], MaxUsers = cr_maxusers r,
     Category = cr_category r, Points = cr_points r, Tags = [], Attributes = [],
     ch_Options = \<lparr>co_Network = \<lparr>AllowEgress = False\<rparr>, co_Container = no_options, Overrides = []\<rparr>,
     SolveScript = cr_solvescript r, ch_Builds = []\<rparr>"

text \<open>The columns that listing selects.\<close>

definition summary :: "challenge_row \<Rightarrow> ChallengeMetadata" where
  "summary r = (row_meta (r\<lparr>cr_namespace := [], cr_challengetype := [], cr_description := [],
     cr_details := [], cr_templatable := False, cr_maxusers := 0, cr_category := [], cr_points := 0\<rparr>))"

definition listChallenges :: "(db, ChallengeMetadata list) act" where
  "listChallenges = query (\<lambda>t. map summary (sort_key cr_id (challenges t)))"

text \<open>SQLite's \<open>LIKE\<close>: a percent sign matches any text, an underscore any character, letters match
  in either case.\<close>

fun like :: "string \<Rightarrow> string \<Rightarrow> bool" where
  "like [] s = (s = [])"
| "like (p # ps) [] = (p = CHR ''%'' \<and> like ps [])"
| "like (p # ps) (c # s) =
     (if p = CHR ''%'' then like ps (c # s) \<or> like (p # ps) s
      else (p = CHR ''_'' \<or> lower_char p = lower_char c) \<and> like ps s)"

definition tag_pattern :: "string \<Rightarrow> string" where
  "tag_pattern = map (\<lambda>c. if c = CHR ''*'' then CHR ''%'' else c)"

definition searchChallenges :: "string list \<Rightarrow> (db, ChallengeMetadata list) act" where
  "searchChallenges ts =
     (if ts = [] then listChallenges
      else query (\<lambda>t. map summary (sort_key cr_id (filter (\<lambda>r.
        list_all (\<lambda>g. list_ex (\<lambda>(c, tag). c = cr_id r \<and> like (tag_pattern g) tag) (tags t)) ts)
        (challenges t)))))"

text \<open>The loop over the stored container options stops at the first that does not decode.\<close>

fun load_overrides ::
  "(string \<Rightarrow> string) \<Rightarrow> (string \<Rightarrow> seccompProfile option) \<Rightarrow> (string \<times> dbContainerOptions) list \<Rightarrow>
    err + (string \<times> ContainerOptions) list" where
  "load_overrides hash parse [] = Inr []"
| "load_overrides hash parse ((h, d) # rows) =
     (case newFromDbContainerOptions hash parse d of
        Inl e \<Rightarrow> Inl (Plain ''could not load container options'')
      | Inr c \<Rightarrow> (case load_overrides hash parse rows of Inl e \<Rightarrow> Inl e | Inr cs \<Rightarrow> Inr ((h, c) # cs)))"

definition of_challenge :: "ChallengeId \<Rightarrow> (ChallengeId \<times> 'a) list \<Rightarrow> 'a list" where
  "of_challenge c rows = map snd (filter (\<lambda>r. fst r = c) rows)"

definition lookupChallengeMetadata ::
  "(string \<Rightarrow> string) \<Rightarrow> (string \<Rightarrow> seccompProfile option) \<Rightarrow> ChallengeId \<Rightarrow> (db, ChallengeMetadata) act" where
  "lookupChallengeMetadata hash parse c = readTransaction
     (bnd (query (\<lambda>t. filter (\<lambda>r. cr_id r = c) (challenges t))) (\<lambda>rows.
      case rows of
        [] \<Rightarrow> raise (unknownChallengeIdError c)
      | r # _ \<Rightarrow>
        bnd (query (\<lambda>t. map snd (sort_key fst (of_challenge c (hints t))))) (\<lambda>hs.
        bnd (query (\<lambda>t. of_challenge c (tags t))) (\<lambda>ts.
        bnd (query (\<lambda>t. map (\<lambda>(n, i, g). \<lparr>hi_Name = n, hi_Target = g\<rparr>)
          (sort_key (\<lambda>(n, i, g). i) (of_challenge c (hosts t))))) (\<lambda>hosts.
        bnd (query (\<lambda>t. map (\<lambda>(n, h, p). (n, \<lparr>pi_Host = h, pi_Port = p\<rparr>)) (of_challenge c (portNames t)))) (\<lambda>ports.
        bnd (query (\<lambda>t. of_challenge c (attributes t))) (\<lambda>attrs.
        bnd (query (\<lambda>t. case map_of (networkOptions t) c of Some e \<Rightarrow> e | None \<Rightarrow> False)) (\<lambda>egress.
        bnd (query (\<lambda>t. of_challenge c (containerOptions t))) (\<lambda>copts.
        case load_overrides hash parse copts of
          Inl e \<Rightarrow> raise e
        | Inr overrides \<Rightarrow>
          ret ((row_meta r)\<lparr>Hints := hs, Tags := ts, Hosts := hosts, PortMap := ports, Attributes := attrs,
            ch_Options := \<lparr>co_Network = \<lparr>AllowEgress = egress\<rparr>,
              co_Container = (case map_of overrides [] of Some o' \<Rightarrow> o' | None \<Rightarrow> no_options),
              Overrides = overrides\<rparr>\<rparr>))))))))))"

section \<open>Writing\<close>

definition challenge_row_of :: "ChallengeMetadata \<Rightarrow> challenge_row" where
  "challenge_row_of m = \<lparr>cr_id = ch_Id m, cr_name = ch_Name m, cr_namespace = Namespace m,
     cr_challengetype = ChallengeType m, cr_description = Description m, cr_details = Details m,
     cr_sourcechecksum = SourceChecksum m, cr_metadatachecksum = MetadataChecksum m,
     cr_sourcedigest = SourceDigest m, cr_metadatadigest = MetadataDigest m, cr_path = Path m,
     cr_solvescript = SolveScript m, cr_templatable = Templatable m, cr_maxusers = MaxUsers m,
     cr_category = Category m, cr_points = Points m\<rparr>"

definition insert_hint :: "ChallengeId \<Rightarrow> nat \<times> string \<Rightarrow> tables \<Rightarrow> tables" where
  "insert_hint c x t = t\<lparr>hints := hints t @ [(c, x)]\<rparr>"

definition insert_tag :: "ChallengeId \<Rightarrow> string \<Rightarrow> tables \<Rightarrow> tables" where
  "insert_tag c x t = t\<lparr>tags := tags t @ [(c, x)]\<rparr>"

definition insert_attribute :: "ChallengeId \<Rightarrow> string \<times> string \<Rightarrow> tables \<Rightarrow> tables" where
  "insert_attribute c x t = t\<lparr>attributes := attributes t @ [(c, x)]\<rparr>"

definition insert_host :: "ChallengeId \<Rightarrow> nat \<times> HostInfo \<Rightarrow> tables \<Rightarrow> tables" where
  "insert_host c x t = t\<lparr>hosts := hosts t @ [(c, hi_Name (snd x), fst x, hi_Target (snd x))]\<rparr>"

definition insert_port_name :: "ChallengeId \<Rightarrow> string \<times> PortInfo \<Rightarrow> tables \<Rightarrow> tables" where
  "insert_port_name c x t = t\<lparr>portNames := portNames t @ [(c, fst x, pi_Host (snd x), pi_Port (snd x))]\<rparr>"

definition insert_network :: "ChallengeId \<Rightarrow> bool \<Rightarrow> tables \<Rightarrow> tables" where
  "insert_network c x t = t\<lparr>networkOptions := networkOptions t @ [(c, x)]\<rparr>"

definition insert_options :: "ChallengeId \<Rightarrow> string \<times> ContainerOptions \<Rightarrow> tables \<Rightarrow> tables" where
  "insert_options c x t =
     t\<lparr>containerOptions := containerOptions t @ [(c, fst x, toDbContainerOptions (snd x))]\<rparr>"

lemmas insert_defs = insert_hint_def insert_tag_def insert_attribute_def insert_host_def
  insert_port_name_def insert_network_def insert_options_def

definition insert_each :: "string \<Rightarrow> ('a \<Rightarrow> tables \<Rightarrow> tables) \<Rightarrow> 'a list \<Rightarrow> (db, unit) act" where
  "insert_each what f = each (\<lambda>x. map_err (Wrap what) (update (f x)))"

definition insertChallengeRelations :: "ChallengeMetadata \<Rightarrow> (db, unit) act" where
  "insertChallengeRelations m =
     (let c = ch_Id m in
      bnd (insert_each ''could not insert hint'' (insert_hint c) (enumerate 0 (Hints m))) (\<lambda>_.
      bnd (insert_each ''could not insert tag'' (insert_tag c) (Tags m)) (\<lambda>_.
      bnd (insert_each ''could not insert attribute'' (insert_attribute c) (Attributes m)) (\<lambda>_.
      bnd (insert_each ''could not insert host'' (insert_host c) (enumerate 0 (Hosts m))) (\<lambda>_.
      bnd (insert_each ''could not insert published port'' (insert_port_name c) (PortMap m)) (\<lambda>_.
      bnd (map_err (Wrap ''could not insert network options'')
        (update (insert_network c (AllowEgress (co_Network (ch_Options m)))))) (\<lambda>_.
      insert_each ''could not insert container options'' (insert_options c) (Overrides (ch_Options m)))))))))"

definition addChallenge :: "ChallengeMetadata \<Rightarrow> (db, unit) act" where
  "addChallenge m = withTransaction
     (bnd (map_err (Wrap ''could not insert challenge metadata'')
        (update (\<lambda>t. t\<lparr>challenges := challenges t @ [challenge_row_of m]\<rparr>)))
      (\<lambda>_. insertChallengeRelations m))"

definition not_of :: "ChallengeId \<Rightarrow> (ChallengeId \<times> 'a) list \<Rightarrow> (ChallengeId \<times> 'a) list" where
  "not_of c rows = filter (\<lambda>r. fst r \<noteq> c) rows"

text \<open>The seven tables in the order they are cleared; clearing the hosts cascades to the port names.\<close>

definition relation_clears :: "ChallengeId \<Rightarrow> (tables \<Rightarrow> tables) list" where
  "relation_clears c =
     [\<lambda>t. t\<lparr>hints := not_of c (hints t)\<rparr>,
      \<lambda>t. t\<lparr>tags := not_of c (tags t)\<rparr>,
      \<lambda>t. t\<lparr>attributes := not_of c (attributes t)\<rparr>,
      \<lambda>t. t\<lparr>portNames := not_of c (portNames t)\<rparr>,
      \<lambda>t. t\<lparr>hosts := not_of c (hosts t), portNames := not_of c (portNames t)\<rparr>,
      \<lambda>t. t\<lparr>networkOptions := not_of c (networkOptions t)\<rparr>,
      \<lambda>t. t\<lparr>containerOptions := not_of c (containerOptions t)\<rparr>]"

definition replaceChallengeMetadata :: "ChallengeMetadata \<Rightarrow> (db, unit) act" where
  "replaceChallengeMetadata m = withTransaction
     (bnd (map_err (Wrap ''could not update challenge row'') (affecting (\<lambda>t.
        (t\<lparr>challenges := update_rows (\<lambda>r. cr_id r = ch_Id m) (\<lambda>_. challenge_row_of m) (challenges t)\<rparr>,
         length (filter (\<lambda>r. cr_id r = ch_Id m) (challenges t)))))) (\<lambda>n.
      if n \<noteq> 1 then raise (Plain ''updated challenge rows; expected one'')
      else
      bnd (each (\<lambda>f. map_err (Wrap ''could not clear'') (update f)) (relation_clears (ch_Id m))) (\<lambda>_.
      insertChallengeRelations m)))"

fun addChallenges :: "ChallengeMetadata list \<Rightarrow> db \<Rightarrow> (ChallengeMetadata list \<times> err list) \<times> db" where
  "addChallenges [] d = (([], []), d)"
| "addChallenges (m # ms) d =
     (case addChallenge m d of
        (Inl e, d1) \<Rightarrow>
          (case addChallenges ms d1 of ((ok, errs), d2) \<Rightarrow> ((ok, Wrap ''could not add challenge'' e # errs), d2))
      | (Inr _, d1) \<Rightarrow>
          (case addChallenges ms d1 of ((ok, errs), d2) \<Rightarrow> ((m # ok, errs), d2)))"

text \<open>Deleting a challenge cascades to its relations; its builds forbid it.\<close>

definition delete_challenge :: "ChallengeId \<Rightarrow> tables \<Rightarrow> tables" where
  "delete_challenge c t = fold (\<lambda>f t. f t) (relation_clears c)
     (t\<lparr>challenges := filter (\<lambda>r. cr_id r \<noteq> c) (challenges t)\<rparr>)"

definition remove_one :: "ChallengeMetadata \<Rightarrow> (db, unit) act" where
  "remove_one m =
     bnd (map_err (Wrap ''could not remove challenge'') (affecting (\<lambda>t.
        (delete_challenge (ch_Id m) t, length (filter (\<lambda>r. cr_id r = ch_Id m) (challenges t)))))) (\<lambda>n.
     if n \<noteq> 1 then raise (unknownChallengeIdError (ch_Id m)) else ret ())"

definition removeChallenges :: "ChallengeMetadata list \<Rightarrow> (db, unit) act" where
  "removeChallenges ms = withTransaction (each remove_one ms)"

section \<open>Refreshing and dumping\<close>

text \<open>A metadata change needs no rebuild when type and options are the same and it is no hacksport challenge.\<close>

definition isHacksportChallengeType :: "string \<Rightarrow> bool" where
  "isHacksportChallengeType t \<longleftrightarrow> t = ''hacksport'' \<or> t = ''hacksport-ubuntu26'' \<or> t = ''hacksport-legacy''"

definition safeToRefresh ::
  "(string \<Rightarrow> string) \<Rightarrow> (string \<Rightarrow> seccompProfile option) \<Rightarrow> ChallengeMetadata \<Rightarrow> db \<Rightarrow> bool \<times> db" where
  "safeToRefresh hash parse m d =
     (case lookupChallengeMetadata hash parse (ch_Id m) d of
        (Inl _, d') \<Rightarrow> (False, d')
      | (Inr old, d') \<Rightarrow> (ChallengeType old = ChallengeType m \<and> ch_Options old = ch_Options m \<and>
          \<not> isHacksportChallengeType (ChallengeType m), d'))"

text \<open>A loop that collects results and stops at the first error.\<close>

fun collect :: "('a \<Rightarrow> ('s, 'b) act) \<Rightarrow> 'a list \<Rightarrow> ('s, 'b list) act" where
  "collect f [] = ret []"
| "collect f (x # xs) = bnd (f x) (\<lambda>y. bnd (collect f xs) (\<lambda>ys. ret (y # ys)))"

definition dumpState ::
  "(string \<Rightarrow> string) \<Rightarrow> (string \<Rightarrow> seccompProfile option) \<Rightarrow> (db, ChallengeMetadata list) act" where
  "dumpState hash parse =
     bnd listChallenges (collect (\<lambda>c.
       bnd (lookupChallengeMetadata hash parse (ch_Id c)) (\<lambda>meta.
       bnd (query (\<lambda>t. map br_id (filter (\<lambda>b. br_challenge b = ch_Id c) (builds t)))) (\<lambda>bs.
       bnd (collect (\<lambda>b.
         bnd (lookupBuildMetadata b) (\<lambda>bMeta.
         bnd (query (\<lambda>t. map nr_id (filter (\<lambda>i. nr_build i = bd_Id bMeta) (instances t)))) (\<lambda>ns.
         bnd (collect lookupInstanceMetadata ns) (\<lambda>iMetas.
         ret (bMeta\<lparr>Instances := iMetas\<rparr>))))) bs) (\<lambda>bMetas.
       ret (meta\<lparr>ch_Builds := bMetas\<rparr>))))))"

section \<open>What the tables say of a challenge\<close>

type_synonym view = "challenge_row list \<times> (nat \<times> string) list \<times> string list \<times> (string \<times> string) list \<times>
  (string \<times> nat \<times> string) list \<times> (string \<times> string \<times> int) list \<times> bool list \<times>
  (string \<times> dbContainerOptions) list"

definition view :: "ChallengeId \<Rightarrow> tables \<Rightarrow> view" where
  "view c t = (filter (\<lambda>r. cr_id r = c) (challenges t), of_challenge c (hints t), of_challenge c (tags t),
     of_challenge c (attributes t), of_challenge c (hosts t), of_challenge c (portNames t),
     of_challenge c (networkOptions t), of_challenge c (containerOptions t))"

fun read_view :: "(string \<Rightarrow> string) \<Rightarrow> (string \<Rightarrow> seccompProfile option) \<Rightarrow> ChallengeId \<Rightarrow> view \<Rightarrow>
    err + ChallengeMetadata" where
  "read_view hash parse c ([], _) = Inl (unknownChallengeIdError c)"
| "read_view hash parse c (r # _, hs, ts, as, gs, ps, ns, os) =
     (case load_overrides hash parse os of
        Inl e \<Rightarrow> Inl e
      | Inr overrides \<Rightarrow> Inr ((row_meta r)\<lparr>Hints := map snd (sort_key fst hs), Tags := ts,
          Hosts := map (\<lambda>(n, i, g). \<lparr>hi_Name = n, hi_Target = g\<rparr>) (sort_key (\<lambda>(n, i, g). i) gs),
          PortMap := map (\<lambda>(n, h, p). (n, \<lparr>pi_Host = h, pi_Port = p\<rparr>)) ps, Attributes := as,
          ch_Options := \<lparr>co_Network = \<lparr>AllowEgress = (case ns of [] \<Rightarrow> False | e # _ \<Rightarrow> e)\<rparr>,
            co_Container = (case map_of overrides [] of Some x \<Rightarrow> x | None \<Rightarrow> no_options),
            Overrides = overrides\<rparr>\<rparr>))"

lemma map_of_of_challenge: "map_of xs c = (case of_challenge c xs of [] \<Rightarrow> None | x # _ \<Rightarrow> Some x)"
  by (induction xs) (auto simp: of_challenge_def)

text \<open>With no faults pending, reading a challenge is reading its view.\<close>

lemma lookup_calm:
  assumes "faults d = []"
  shows "lookupChallengeMetadata hash parse c d = (read_view hash parse c (view c (tab d)), d)"
proof (cases "filter (\<lambda>r. cr_id r = c) (challenges (tab d))")
  case Nil
  then show ?thesis using assms
    by (simp add: lookupChallengeMetadata_def readTransaction_def report_calm bnd_def query_calm view_def)
next
  case (Cons r rs)
  then show ?thesis using assms
    by (cases "load_overrides hash parse (of_challenge c (containerOptions (tab d)))")
      (simp_all add: lookupChallengeMetadata_def readTransaction_def report_calm bnd_def query_calm view_def
        map_of_of_challenge [of "networkOptions (tab d)"] split: list.splits)
qed

section \<open>The effect of the writers\<close>

definition put_relations :: "ChallengeMetadata \<Rightarrow> tables \<Rightarrow> tables" where
  "put_relations m t =
     (let c = ch_Id m in
      t\<lparr>hints := hints t @ map (Pair c) (enumerate 0 (Hints m)),
        tags := tags t @ map (Pair c) (Tags m),
        attributes := attributes t @ map (Pair c) (Attributes m),
        hosts := hosts t @ map (\<lambda>x. (c, hi_Name (snd x), fst x, hi_Target (snd x))) (enumerate 0 (Hosts m)),
        portNames := portNames t @ map (\<lambda>x. (c, fst x, pi_Host (snd x), pi_Port (snd x))) (PortMap m),
        networkOptions := networkOptions t @ [(c, AllowEgress (co_Network (ch_Options m)))],
        containerOptions := containerOptions t @
          map (\<lambda>x. (c, fst x, toDbContainerOptions (snd x))) (Overrides (ch_Options m))\<rparr>)"

lemma fold_inserts:
  "fold (insert_hint c) xs t = t\<lparr>hints := hints t @ map (Pair c) xs\<rparr>"
  "fold (insert_tag c) ys t = t\<lparr>tags := tags t @ map (Pair c) ys\<rparr>"
  "fold (insert_attribute c) zs t = t\<lparr>attributes := attributes t @ map (Pair c) zs\<rparr>"
  "fold (insert_host c) hs t =
     t\<lparr>hosts := hosts t @ map (\<lambda>x. (c, hi_Name (snd x), fst x, hi_Target (snd x))) hs\<rparr>"
  "fold (insert_port_name c) ps t =
     t\<lparr>portNames := portNames t @ map (\<lambda>x. (c, fst x, pi_Host (snd x), pi_Port (snd x))) ps\<rparr>"
  "fold (insert_options c) os t =
     t\<lparr>containerOptions := containerOptions t @ map (\<lambda>x. (c, fst x, toDbContainerOptions (snd x))) os\<rparr>"
proof -
  show "fold (insert_hint c) xs t = t\<lparr>hints := hints t @ map (Pair c) xs\<rparr>"
    by (induction xs arbitrary: t) (simp_all add: insert_hint_def)
  show "fold (insert_tag c) ys t = t\<lparr>tags := tags t @ map (Pair c) ys\<rparr>"
    by (induction ys arbitrary: t) (simp_all add: insert_tag_def)
  show "fold (insert_attribute c) zs t = t\<lparr>attributes := attributes t @ map (Pair c) zs\<rparr>"
    by (induction zs arbitrary: t) (simp_all add: insert_attribute_def)
  show "fold (insert_host c) hs t =
     t\<lparr>hosts := hosts t @ map (\<lambda>x. (c, hi_Name (snd x), fst x, hi_Target (snd x))) hs\<rparr>"
    by (induction hs arbitrary: t) (simp_all add: insert_host_def)
  show "fold (insert_port_name c) ps t =
     t\<lparr>portNames := portNames t @ map (\<lambda>x. (c, fst x, pi_Host (snd x), pi_Port (snd x))) ps\<rparr>"
    by (induction ps arbitrary: t) (simp_all add: insert_port_name_def)
  show "fold (insert_options c) os t =
     t\<lparr>containerOptions := containerOptions t @ map (\<lambda>x. (c, fst x, toDbContainerOptions (snd x))) os\<rparr>"
    by (induction os arbitrary: t) (simp_all add: insert_options_def)
qed

lemma insert_each_Inr: "insert_each what f xs d = (Inr u, d') \<Longrightarrow> tab d' = fold f xs (tab d)"
  unfolding insert_each_def by (rule each_effect) (auto dest: update_Inr)

lemma insert_each_constraints:
  "insert_each what f xs d = (Inr u, d') \<Longrightarrow> constraints (tab d) \<Longrightarrow> constraints (tab d')"
  unfolding insert_each_def
  by (rule each_Inr_preserves [where P = "\<lambda>d. constraints (tab d)"]) (auto dest: update_Inr)

lemma insertChallengeRelations_effect:
  assumes "insertChallengeRelations m d = (Inr u, d')"
  shows "tab d' = put_relations m (tab d)" "constraints (tab d')"
proof -
  let ?c = "ch_Id m"
  obtain d1 d2 d3 d4 d5 d6 u1 u2 u3 u4 u5 u6 where s:
      "insert_each ''could not insert hint'' (insert_hint ?c) (enumerate 0 (Hints m)) d = (Inr u1, d1)"
      "insert_each ''could not insert tag'' (insert_tag ?c) (Tags m) d1 = (Inr u2, d2)"
      "insert_each ''could not insert attribute'' (insert_attribute ?c) (Attributes m) d2 = (Inr u3, d3)"
      "insert_each ''could not insert host'' (insert_host ?c) (enumerate 0 (Hosts m)) d3 = (Inr u4, d4)"
      "insert_each ''could not insert published port'' (insert_port_name ?c) (PortMap m) d4 = (Inr u5, d5)"
      "update (insert_network ?c (AllowEgress (co_Network (ch_Options m)))) d5 = (Inr u6, d6)"
      "insert_each ''could not insert container options'' (insert_options ?c) (Overrides (ch_Options m)) d6 = (Inr u, d')"
    using assms unfolding insertChallengeRelations_def Let_def by (elim bnd_InrE) simp
  have 6: "tab d6 = insert_network ?c (AllowEgress (co_Network (ch_Options m))) (tab d5)" "constraints (tab d6)"
    using update_Inr [OF s(6)] by blast+
  show "tab d' = put_relations m (tab d)"
    by (simp add: insert_each_Inr [OF s(7)] 6 insert_each_Inr [OF s(5)] insert_each_Inr [OF s(4)]
        insert_each_Inr [OF s(3)] insert_each_Inr [OF s(2)] insert_each_Inr [OF s(1)] fold_inserts
        put_relations_def insert_network_def Let_def)
  show "constraints (tab d')" using insert_each_constraints [OF s(7)] 6 by simp
qed

definition cleared :: "ChallengeId \<Rightarrow> tables \<Rightarrow> tables" where
  "cleared c t = t\<lparr>hints := not_of c (hints t), tags := not_of c (tags t),
     attributes := not_of c (attributes t), hosts := not_of c (hosts t), portNames := not_of c (portNames t),
     networkOptions := not_of c (networkOptions t), containerOptions := not_of c (containerOptions t)\<rparr>"

lemma not_of_idem: "not_of c (not_of c xs) = not_of c xs"
  by (simp add: not_of_def)

lemma fold_relation_clears: "fold (\<lambda>f t. f t) (relation_clears c) t = cleared c t"
  by (simp add: relation_clears_def cleared_def not_of_idem)

lemma of_challenge_simps [simp]:
  "of_challenge c (xs @ ys) = of_challenge c xs @ of_challenge c ys"
  "of_challenge c (not_of c' xs) = (if c = c' then [] else of_challenge c xs)"
  "of_challenge c ((c', x) # xs) = (if c = c' then x # of_challenge c xs else of_challenge c xs)"
  "of_challenge c [] = []"
  by (induction xs) (auto simp: of_challenge_def not_of_def)

lemma of_challenge_map [simp]: "of_challenge c (map (\<lambda>x. (c', f x)) ys) = (if c = c' then map f ys else [])"
  by (simp add: of_challenge_def filter_map comp_def)

lemma of_challenge_Pair [simp]: "of_challenge c (map (Pair c') ys) = (if c = c' then ys else [])"
  using of_challenge_map [of c c' "\<lambda>x. x" ys] by simp

lemma addChallenge_effect:
  assumes "addChallenge m d = (Inr u, d')"
  shows "tab d' = put_relations m ((tab d)\<lparr>challenges := challenges (tab d) @ [challenge_row_of m]\<rparr>)"
    "constraints (tab d')"
proof -
  obtain d0 d1 d2 v where s: "tab d0 = tab d" "tab d' = tab d2"
      "update (\<lambda>t. t\<lparr>challenges := challenges t @ [challenge_row_of m]\<rparr>) d0 = (Inr v, d1)"
      "insertChallengeRelations m d1 = (Inr u, d2)"
    using assms unfolding addChallenge_def by (elim withTransaction_Inr bnd_InrE) simp
  show "tab d' = put_relations m ((tab d)\<lparr>challenges := challenges (tab d) @ [challenge_row_of m]\<rparr>)"
    using insertChallengeRelations_effect(1) [OF s(4)] update_Inr [OF s(3)] s(1,2) by simp
  show "constraints (tab d')" using insertChallengeRelations_effect(2) [OF s(4)] s(2) by simp
qed

lemma replaceChallenge_effect:
  assumes "replaceChallengeMetadata m d = (Inr u, d')"
  shows "tab d' = put_relations m (cleared (ch_Id m) ((tab d)\<lparr>challenges :=
      update_rows (\<lambda>r. cr_id r = ch_Id m) (\<lambda>_. challenge_row_of m) (challenges (tab d))\<rparr>))"
    "length (filter (\<lambda>r. cr_id r = ch_Id m) (challenges (tab d))) = 1" "constraints (tab d')"
proof -
  let ?c = "ch_Id m" and ?f = "\<lambda>t. (t\<lparr>challenges :=
      update_rows (\<lambda>r. cr_id r = ch_Id m) (\<lambda>_. challenge_row_of m) (challenges t)\<rparr>,
      length (filter (\<lambda>r. cr_id r = ch_Id m) (challenges t)))"
  obtain d0 d1 d2 d3 n v where s: "tab d0 = tab d" "tab d' = tab d3"
      "affecting ?f d0 = (Inr n, d1)" "n = 1"
      "each (\<lambda>f. map_err (Wrap ''could not clear'') (update f)) (relation_clears ?c) d1 = (Inr v, d2)"
      "insertChallengeRelations m d2 = (Inr u, d3)"
    using assms unfolding replaceChallengeMetadata_def
    by (elim withTransaction_Inr bnd_InrE) (auto split: if_splits elim!: bnd_InrE)
  have 1: "tab d1 = fst (?f (tab d))" "n = snd (?f (tab d))" using affecting_Inr [OF s(3)] s(1) by auto
  have 2: "tab d2 = fold (\<lambda>f t. f t) (relation_clears ?c) (tab d1)"
    by (rule each_effect [OF s(5)]) (auto dest: update_Inr)
  show "tab d' = put_relations m (cleared ?c ((tab d)\<lparr>challenges :=
      update_rows (\<lambda>r. cr_id r = ch_Id m) (\<lambda>_. challenge_row_of m) (challenges (tab d))\<rparr>))"
    using insertChallengeRelations_effect(1) [OF s(6)] 1 2 s(2) by (simp add: fold_relation_clears)
  show "length (filter (\<lambda>r. cr_id r = ch_Id m) (challenges (tab d))) = 1" using 1 s(4) by simp
  show "constraints (tab d')" using insertChallengeRelations_effect(2) [OF s(6)] s(2) by simp
qed

text \<open>A challenge that does not exist has no rows anywhere.\<close>

lemma of_challenge_none:
  "list_all (\<lambda>(c, _). c \<in> S) xs \<Longrightarrow> c \<notin> S \<Longrightarrow> of_challenge c xs = []"
  by (induction xs) (auto simp: of_challenge_def)

lemma view_unknown:
  assumes "challenge_constraints t" "c \<notin> set (map cr_id (challenges t))"
  shows "of_challenge c (hints t) = []" "of_challenge c (tags t) = []" "of_challenge c (attributes t) = []"
    "of_challenge c (hosts t) = []" "of_challenge c (portNames t) = []"
    "of_challenge c (networkOptions t) = []" "of_challenge c (containerOptions t) = []"
proof -
  let ?S = "set (map cr_id (challenges t))"
  note C = assms(1) [unfolded challenge_constraints_def Let_def]
  show "of_challenge c (hints t) = []" "of_challenge c (tags t) = []" "of_challenge c (attributes t) = []"
    "of_challenge c (hosts t) = []" "of_challenge c (networkOptions t) = []"
    "of_challenge c (containerOptions t) = []"
    by (rule of_challenge_none [where S = ?S], use C assms(2) in blast, fact)+
  have "list_all (\<lambda>(c, _). c \<in> ?S) (portNames t)" using C by (auto simp: list_all_iff)
  then show "of_challenge c (portNames t) = []" using assms(2) by (rule of_challenge_none)
qed

definition new_view :: "ChallengeMetadata \<Rightarrow> view" where
  "new_view m = ([challenge_row_of m], enumerate 0 (Hints m), Tags m, Attributes m,
     map (\<lambda>x. (hi_Name (snd x), fst x, hi_Target (snd x))) (enumerate 0 (Hosts m)),
     map (\<lambda>x. (fst x, pi_Host (snd x), pi_Port (snd x))) (PortMap m),
     [AllowEgress (co_Network (ch_Options m))],
     map (\<lambda>x. (fst x, toDbContainerOptions (snd x))) (Overrides (ch_Options m)))"

lemma view_put:
  "view c (put_relations m t) =
    (if c = ch_Id m then
       (case (view c t, new_view m) of ((r, hs, ts, as, gs, ps, ns, os), (r', hs', ts', as', gs', ps', ns', os')) \<Rightarrow>
         (r, hs @ hs', ts @ ts', as @ as', gs @ gs', ps @ ps', ns @ ns', os @ os'))
     else view c t)"
  by (simp add: view_def put_relations_def new_view_def Let_def)

lemma add_view:
  assumes "addChallenge m d = (Inr u, d')" "constraints (tab d)"
  shows "view c (tab d') = (if c = ch_Id m then new_view m else view c (tab d))"
proof -
  let ?t = "(tab d)\<lparr>challenges := challenges (tab d) @ [challenge_row_of m]\<rparr>"
  have e: "tab d' = put_relations m ?t" and k: "constraints (tab d')"
    using addChallenge_effect [OF assms(1)] by blast+
  have "distinct (map cr_id (challenges (tab d')))"
    using k by (simp add: constraints_def challenge_constraints_def Let_def)
  then have new: "ch_Id m \<notin> set (map cr_id (challenges (tab d)))"
    by (simp add: e put_relations_def Let_def challenge_row_of_def)
  then have "filter (\<lambda>r. cr_id r = ch_Id m) (challenges (tab d)) = []" by (force simp: filter_empty_conv)
  moreover have "challenge_constraints (tab d)" using assms(2) by (simp add: constraints_def)
  note view_unknown [OF this new]
  ultimately show ?thesis unfolding e view_put
    by (simp add: view_def new_view_def challenge_row_of_def)
qed

lemma filter_update_rows:
  "(\<And>r. P r \<Longrightarrow> k (f r) = i) \<Longrightarrow> (\<And>r. P r \<longleftrightarrow> k r = i) \<Longrightarrow>
   filter (\<lambda>r. k r = c) (update_rows P f xs) =
     (if c = i then map f (filter P xs) else filter (\<lambda>r. k r = c) xs)"
  by (induction xs) (auto simp: update_rows_def)

lemma replace_view:
  assumes "replaceChallengeMetadata m d = (Inr u, d')"
  shows "view c (tab d') = (if c = ch_Id m then new_view m else view c (tab d))"
proof -
  let ?P = "\<lambda>r. cr_id r = ch_Id m"
  note e = replaceChallenge_effect [OF assms]
  obtain r where r: "filter ?P (challenges (tab d)) = [r]"
    using e(2) by (auto simp: length_Suc_conv)
  have "filter (\<lambda>r. cr_id r = c) (update_rows ?P (\<lambda>_. challenge_row_of m) (challenges (tab d))) =
      (if c = ch_Id m then map (\<lambda>_. challenge_row_of m) (filter ?P (challenges (tab d)))
       else filter (\<lambda>r. cr_id r = c) (challenges (tab d)))"
    by (rule filter_update_rows) (simp_all add: challenge_row_of_def)
  then show ?thesis unfolding e(1) view_put
    by (cases "c = ch_Id m") (simp_all add: view_def new_view_def cleared_def r)
qed

text \<open>Reading the written view gives the challenge back.\<close>

definition storable :: "(string \<Rightarrow> string) \<Rightarrow> (string \<Rightarrow> seccompProfile option) \<Rightarrow> ContainerOptions \<Rightarrow> bool" where
  "storable hash parse c \<longleftrightarrow>
     unmarshalSeccompOptions hash parse (marshalSeccompOptions (Seccomp c)) = Inr (Seccomp c)"

lemma container_options_round_trip:
  "storable hash parse c \<Longrightarrow> newFromDbContainerOptions hash parse (toDbContainerOptions c) = Inr c"
  by (simp add: storable_def newFromDbContainerOptions_def toDbContainerOptions_def)

lemma load_overrides_round_trip:
  "list_all (\<lambda>x. storable hash parse (snd x)) os \<Longrightarrow>
   load_overrides hash parse (map (\<lambda>x. (fst x, toDbContainerOptions (snd x))) os) = Inr os"
  by (induction os) (simp_all add: container_options_round_trip)

lemma map_snd_enumerate_hosts:
  "sort_key (\<lambda>(n, i, g). i) (map (\<lambda>x. (hi_Name (snd x), fst x, hi_Target (snd x))) (enumerate k hs)) =
   map (\<lambda>x. (hi_Name (snd x), fst x, hi_Target (snd x))) (enumerate k hs)"
proof (rule sort_key_id_if_sorted)
  have "map (\<lambda>(n, i, g). i) (map (\<lambda>x. (hi_Name (snd x), fst x, hi_Target (snd x))) (enumerate k hs)) =
      [k..<k + length hs]" by (induction hs arbitrary: k) (simp_all add: upt_rec)
  then show "sorted (map (\<lambda>(n, i, g). i)
      (map (\<lambda>x. (hi_Name (snd x), fst x, hi_Target (snd x))) (enumerate k hs)))"
    by (simp only: sorted_upt)
qed

lemma sort_enumerate: "sort_key fst (enumerate k xs) = enumerate k xs"
  by (rule sort_key_id_if_sorted) simp

lemma read_new_view:
  assumes "list_all (\<lambda>x. storable hash parse (snd x)) (Overrides (ch_Options m))"
  shows "read_view hash parse (ch_Id m) (new_view m) = Inr (m\<lparr>ch_Builds := [],
    ch_Options := (ch_Options m)\<lparr>co_Container :=
      (case map_of (Overrides (ch_Options m)) [] of Some x \<Rightarrow> x | None \<Rightarrow> no_options)\<rparr>\<rparr>)"
proof -
  have hosts: "map ((\<lambda>(n, i, g). \<lparr>hi_Name = n, hi_Target = g\<rparr>) \<circ> (\<lambda>x. (hi_Name (snd x), fst x, hi_Target (snd x))))
      (enumerate k hs) = hs" for k and hs :: "HostInfo list"
    by (induction hs arbitrary: k) (simp_all add: comp_def)
  have ports: "map ((\<lambda>(n, h, p). (n, \<lparr>pi_Host = h, pi_Port = p\<rparr>)) \<circ> (\<lambda>x. (fst x, pi_Host (snd x), pi_Port (snd x)))) ps
      = ps" for ps :: "(string \<times> PortInfo) list"
    by (rule map_idI) (auto simp: comp_def)
  show ?thesis using assms
    by (simp add: new_view_def load_overrides_round_trip sort_enumerate map_snd_enumerate_hosts hosts ports
        row_meta_def challenge_row_of_def)
qed

section \<open>Correctness\<close>


definition ex_meta :: "ChallengeMetadata" where
  "ex_meta = \<lparr>ch_Id = ''new'', ch_Name = ''New'', Namespace = [], ChallengeType = ''custom'',
     Description = ''d'', Details = [], Hints = [''h1'', ''h2''], SourceChecksum = 1, MetadataChecksum = 2,
     SourceDigest = ''s'', MetadataDigest = ''m'', Path = ''/p'', Templatable = True,
     PortMap = [(''http'', \<lparr>pi_Host = ''web'', pi_Port = 80\<rparr>)],
     Hosts = [\<lparr>hi_Name = ''web'', hi_Target = []\<rparr>, \<lparr>hi_Name = ''db'', hi_Target = ''db''\<rparr>],
     MaxUsers = 0, Category = ''c'', Points = 5, Tags = [''t''], Attributes = [(''k'', ''v'')],
     ch_Options = \<lparr>co_Network = \<lparr>AllowEgress = True\<rparr>, co_Container = no_options,
       Overrides = [([], no_options\<lparr>Init := True,
         Seccomp := Some (no_seccomp\<lparr>Tweaks := [TweakAllowDisableASLR]\<rparr>)\<rparr>)]\<rparr>,
     SolveScript = False, ch_Builds = []\<rparr>"

definition ex_no_parse :: "string \<Rightarrow> seccompProfile option" where "ex_no_parse s = None"


text \<open>The writers are atomic and keep the invariant of the database.\<close>

lemma keeps_insert_each:
  "(\<And>x t. containers (f x t) = containers t) \<Longrightarrow>
   (\<And>x t. retiredContainers (f x t) = retiredContainers t) \<Longrightarrow> keeps_inv (insert_each what f xs)"
  unfolding insert_each_def by (intro keeps_intros) simp_all

lemma keeps_insertRelations [keeps_intros]: "keeps_inv (insertChallengeRelations m)"
  unfolding insertChallengeRelations_def Let_def
  by (intro keeps_bnd keeps_insert_each keeps_map_err keeps_update_frame) (simp_all add: insert_defs)

interpretation ac: db_operation "addChallenge m" for m
  unfolding addChallenge_def
  by (intro db_operation_transaction keeps_bnd keeps_map_err keeps_update_frame keeps_insertRelations) simp_all

lemma relation_clears_frame:
  "f \<in> set (relation_clears c) \<Longrightarrow> containers (f t) = containers t"
  "f \<in> set (relation_clears c) \<Longrightarrow> retiredContainers (f t) = retiredContainers t"
  by (auto simp: relation_clears_def)

interpretation rc: db_operation "replaceChallengeMetadata m" for m
  unfolding replaceChallengeMetadata_def
  by (intro db_operation_transaction keeps_bnd keeps_map_err keeps_affect keeps_exec_frame keeps_each keeps_if
      keeps_raise keeps_insertRelations keeps_update_frame) (simp_all add: relation_clears_frame)

lemma delete_challenge_cleared:
  "delete_challenge c t = cleared c (t\<lparr>challenges := filter (\<lambda>r. cr_id r \<noteq> c) (challenges t)\<rparr>)"
  by (simp add: delete_challenge_def fold_relation_clears)

interpretation rm: db_operation "removeChallenges ms" for ms
  unfolding removeChallenges_def remove_one_def
  by (intro db_operation_transaction keeps_bnd keeps_map_err keeps_affect keeps_exec_frame keeps_each keeps_if
      keeps_raise keeps_ret) (simp_all add: delete_challenge_cleared cleared_def)

lemma remove_one_effect:
  assumes "remove_one m d = (Inr u, d')"
  shows "tab d' = delete_challenge (ch_Id m) (tab d)" "ch_Id m \<in> set (map cr_id (challenges (tab d)))"
    "constraints (tab d')"
proof -
  let ?f = "\<lambda>t. (delete_challenge (ch_Id m) t, length (filter (\<lambda>r. cr_id r = ch_Id m) (challenges t)))"
  obtain n where n: "affecting ?f d = (Inr n, d')" "n = 1"
    using assms unfolding remove_one_def by (auto elim!: bnd_InrE split: if_splits)
  have e: "tab d' = fst (?f (tab d))" "n = snd (?f (tab d))" using affecting_Inr [OF n(1)] by auto
  show "tab d' = delete_challenge (ch_Id m) (tab d)" using e by simp
  have "filter (\<lambda>r. cr_id r = ch_Id m) (challenges (tab d)) \<noteq> []" using e n(2) by auto
  then show "ch_Id m \<in> set (map cr_id (challenges (tab d)))" by (force simp: filter_empty_conv)
  obtain k d1 where "exec ?f d = (Inr k, d1)" "report k d1 = (Inr n, d')"
    using n(1) by (auto simp: affecting_def elim: bnd_InrE)
  then have "constraints (tab d1)" "tab d' = tab d1" using exec_Inr [of ?f d k d1] report_Inr [of k d1 n d'] by blast+
  then show "constraints (tab d')" by simp
qed

definition no_view :: view where "no_view = ([], [], [], [], [], [], [], [])"

lemma view_delete: "view c (delete_challenge c' t) = (if c = c' then no_view else view c t)"
  by (induction t) (auto simp: delete_challenge_cleared cleared_def view_def no_view_def filter_empty_conv
      intro!: filter_cong)

lemma remove_loop:
  assumes "each remove_one ms d = (Inr u, d')"
  shows "distinct (map ch_Id ms)" "set (map ch_Id ms) \<subseteq> set (map cr_id (challenges (tab d)))"
    "list_all (\<lambda>b. br_challenge b \<notin> set (map ch_Id ms)) (builds (tab d))" "builds (tab d') = builds (tab d)"
    "view c (tab d') = (if c \<in> set (map ch_Id ms) then no_view else view c (tab d))"
proof -
  have "distinct (map ch_Id ms) \<and> set (map ch_Id ms) \<subseteq> set (map cr_id (challenges (tab d))) \<and>
    list_all (\<lambda>b. br_challenge b \<notin> set (map ch_Id ms)) (builds (tab d)) \<and> builds (tab d') = builds (tab d) \<and>
    (\<forall>c. view c (tab d') = (if c \<in> set (map ch_Id ms) then no_view else view c (tab d)))"
    using assms
  proof (induction ms arbitrary: d)
    case Nil
    then show ?case by (simp add: list_all_iff)
  next
    case (Cons m ms)
    obtain d1 where d1: "remove_one m d = (Inr (), d1)" "each remove_one ms d1 = (Inr u, d')"
      using Cons.prems by (auto elim: bnd_InrE)
    note e = remove_one_effect [OF d1(1)] and IH = Cons.IH [OF d1(2)]
    have ids: "set (map cr_id (challenges (tab d1))) = set (map cr_id (challenges (tab d))) - {ch_Id m}"
      and bs: "builds (tab d1) = builds (tab d)"
      by (auto simp: e(1) delete_challenge_cleared cleared_def)
    have "list_all (\<lambda>b. br_challenge b \<noteq> ch_Id m) (builds (tab d))"
      using e(3) ids bs by (auto simp: constraints_def build_constraints_def list_all_iff)
    then have "list_all (\<lambda>b. br_challenge b \<notin> set (map ch_Id (m # ms))) (builds (tab d))"
      using IH unfolding bs list_all_iff by simp
    moreover have "distinct (map ch_Id (m # ms))" using IH unfolding ids by auto
    moreover have "set (map ch_Id (m # ms)) \<subseteq> set (map cr_id (challenges (tab d)))"
      using IH e(2) unfolding ids by auto
    moreover have "view c (tab d') = (if c \<in> set (map ch_Id (m # ms)) then no_view else view c (tab d))" for c
      using IH unfolding e(1) view_delete by auto
    ultimately show ?case using IH unfolding bs by blast
  qed
  then show "distinct (map ch_Id ms)" "set (map ch_Id ms) \<subseteq> set (map cr_id (challenges (tab d)))"
    "list_all (\<lambda>b. br_challenge b \<notin> set (map ch_Id ms)) (builds (tab d))" "builds (tab d') = builds (tab d)"
    "view c (tab d') = (if c \<in> set (map ch_Id ms) then no_view else view c (tab d))" by blast+
qed

text \<open>
  C21. Removing challenges is all or nothing. On success every listed challenge existed, none was
  listed twice, none had a build, the tables say nothing of it any more and nothing about the others
  has changed. In every other case, a challenge with a build in the list above all, no table changes.
\<close>

theorem remove_challenges_exact:
  shows "case removeChallenges ms d of
      (Inl _, d') \<Rightarrow> tab d' = tab d
    | (Inr _, d') \<Rightarrow>
        distinct (map ch_Id ms) \<and> set (map ch_Id ms) \<subseteq> set (map cr_id (challenges (tab d))) \<and>
        list_all (\<lambda>b. br_challenge b \<notin> set (map ch_Id ms)) (builds (tab d)) \<and> builds (tab d') = builds (tab d) \<and>
        view c (tab d') = (if c \<in> set (map ch_Id ms) then no_view else view c (tab d))"
proof -
  obtain r d' where r: "removeChallenges ms d = (r, d')" by fastforce
  show ?thesis
  proof (cases r)
    case (Inl e)
    then show ?thesis using r rm.atomic [of ms d e d'] by simp
  next
    case (Inr u)
    obtain d1 d2 where "each remove_one ms d1 = (Inr u, d2)" "tab d1 = tab d" "tab d' = tab d2"
      using r Inr unfolding removeChallenges_def by (metis withTransaction_Inr)
    then show ?thesis using remove_loop [of ms d1 u d2] r Inr by simp
  qed
qed

text \<open>
  Adding several challenges reports exactly what it did: each of them is either returned or has
  its error, in order, and the database holds the returned ones and no trace of the others.
\<close>

theorem added_challenges_are_committed:
  "case addChallenges ms d of ((ok, errs), d') \<Rightarrow>
     length ok + length errs = length ms \<and> subseq ok ms \<and>
     tab d' = fold (\<lambda>m t. put_relations m (t\<lparr>challenges := challenges t @ [challenge_row_of m]\<rparr>)) ok (tab d)"
proof (induction ms arbitrary: d)
  case (Cons m ms)
  obtain r d1 where r: "addChallenge m d = (r, d1)" by fastforce
  obtain ok errs d2 where rest: "addChallenges ms d1 = ((ok, errs), d2)" by (metis prod.exhaust)
  show ?case
  proof (cases r)
    case (Inl e)
    then show ?thesis using Cons.IH [of d1] r rest ac.atomic [of m d e d1] by (simp add: list_emb_Cons)
  next
    case (Inr u)
    then show ?thesis using Cons.IH [of d1] r rest addChallenge_effect(1) [of m d u d1] by simp
  qed
qed simp

end
