(* ===== verification/Ports.thy ===== *)
theory Ports
  imports ChallengeStore Policy
begin

text \<open>
  Host ports: the range of the environment (\<open>getPortRange\<close>), the search for a free port
  (\<open>getFreePort\<close>, \<open>usedPortSet\<close>, \<open>selectHostPort\<close>), the names of a challenge's ports
  (\<open>getReversePortMap\<close>) and what Docker reports of them (\<open>inspectedPortAssignments\<close>), from
  \<open>cmgr/docker.go\<close> and \<open>cmgr/database.go\<close>. The random start of the search is an argument.
\<close>

section \<open>The range\<close>

definition getPortRange :: "env \<Rightarrow> err + int \<times> int" where
  "getPortRange e =
     (let portRange = (case e ''CMGR_PORTS'' of None \<Rightarrow> [] | Some s \<Rightarrow> s) in
      if portRange = [] then Inr (0, 0)
      else case Split (CHR ''-'') portRange of
        [lowStr, highStr] \<Rightarrow>
          (case Atoi lowStr of
             Inl err \<Rightarrow> Inl err
           | Inr low \<Rightarrow>
             (case Atoi highStr of
                Inl err \<Rightarrow> Inl err
              | Inr high \<Rightarrow>
                if low < 1024 \<or> high \<ge> 65536 \<or> high < low then Inl (Plain ''bad port range'')
                else Inr (low, high)))
      | _ \<Rightarrow> Inl (Plain ''malformed port range''))"

lemma getPortRange_Inr:
  "getPortRange e = Inr (low, high) \<Longrightarrow> (low = 0 \<and> high = 0) \<or> (1024 \<le> low \<and> low \<le> high \<and> high < 65536)"
  by (auto simp: getPortRange_def Let_def split: if_splits list.splits sum.splits)

section \<open>Finding a free port\<close>

definition usedPortSet :: "(db, int list) act" where
  "usedPortSet = query (\<lambda>t. map (\<lambda>(i, n, p). p) (portAssignments t))"

definition next_port :: "int \<Rightarrow> int \<Rightarrow> int \<Rightarrow> int" where
  "next_port low high p = (if p + 1 > high then low else p + 1)"

fun sweep :: "int set \<Rightarrow> int \<Rightarrow> int \<Rightarrow> nat \<Rightarrow> int \<Rightarrow> int option" where
  "sweep used low high 0 p = None"
| "sweep used low high (Suc n) p = (if p \<notin> used then Some p else sweep used low high n (next_port low high p))"

definition getFreePort :: "int \<times> int \<Rightarrow> nat \<Rightarrow> (db, string) act" where
  "getFreePort rng rand =
     (case rng of (low, high) \<Rightarrow>
      if low = 0 then ret []
      else
      let numPorts = high - low + 1 in
      bnd (map_err (Wrap ''could not load assigned ports'') usedPortSet) (\<lambda>ports.
      case sweep (set ports) low high (nat numPorts) (int rand mod numPorts + low) of
        Some p \<Rightarrow> ret (Itoa p)
      | None \<Rightarrow> raise (Plain ''all ports are in use'')))"

definition selectHostPort :: "int \<times> int \<Rightarrow> nat \<Rightarrow> string \<Rightarrow> (string \<times> int) list \<Rightarrow> (db, string) act" where
  "selectHostPort rng rand portName preferredPorts =
     (case map_of preferredPorts portName of
        Some p \<Rightarrow>
          if p \<le> 0 \<or> p \<ge> 65536 then raise (Plain ''cannot preserve invalid host port'') else ret (Itoa p)
      | None \<Rightarrow> getFreePort rng rand)"

section \<open>The names of a challenge's ports\<close>

definition getReversePortMap :: "ChallengeId \<Rightarrow> (db, ((string \<times> string) \<times> string) list) act" where
  "getReversePortMap c = query (\<lambda>t. fold (\<lambda>(n, h, p). put (h, Itoa p @ ''/tcp'') n)
     (of_challenge c (portNames t)) [])"

section \<open>What Docker reports\<close>

record container_state =
  st_Running :: bool
  st_Paused :: bool
  st_Restarting :: bool
  st_Dead :: bool

text \<open>The host ports bound to each container port; \<open>None\<close>: no network settings.\<close>

record inspection =
  in_State :: "container_state option"
  in_Bound :: "(string \<times> string list) list option"

fun bound_ports :: "(string \<times> string list) list \<Rightarrow> (string \<times> string) list \<Rightarrow>
    (string \<times> int) list \<Rightarrow> err + (string \<times> int) list \<times> bool" where
  "bound_ports bound [] acc = Inr (acc, True)"
| "bound_ports bound ((containerPort, portName) # rest) acc =
     (case map_of bound containerPort of
        None \<Rightarrow> Inr ([], False)
      | Some [] \<Rightarrow> Inr ([], False)
      | Some (h # _) \<Rightarrow>
        (case Atoi h of
           Inl e \<Rightarrow> Inl (Plain ''reported invalid host port'')
         | Inr p \<Rightarrow>
           if p \<le> 0 \<or> p \<ge> 65536 then Inl (Plain ''reported invalid host port'')
           else bound_ports bound rest (put portName p acc)))"

definition inspectedPortAssignments ::
  "(string \<times> string) list \<Rightarrow> inspection \<Rightarrow> err + (string \<times> int) list \<times> bool" where
  "inspectedPortAssignments expectedPorts ins =
     (case in_State ins of
        None \<Rightarrow> Inl (Plain ''inspection omitted runtime state'')
      | Some st \<Rightarrow>
        if \<not> st_Running st \<or> st_Paused st \<or> st_Restarting st \<or> st_Dead st
          then Inl (Plain ''failed to remain running'')
        else if expectedPorts = [] then Inr ([], True)
        else case in_Bound ins of
          None \<Rightarrow> Inr ([], False)
        | Some bound \<Rightarrow> bound_ports bound expectedPorts [])"

section \<open>The search\<close>

lemma sweep_Some: "sweep used low high n p = Some q \<Longrightarrow> q \<notin> used"
  by (induction n arbitrary: p) (auto split: if_splits)

lemma sweep_range:
  "sweep used low high n p = Some q \<Longrightarrow> low \<le> p \<Longrightarrow> p \<le> high \<Longrightarrow> low \<le> q \<and> q \<le> high"
proof (induction n arbitrary: p)
  case (Suc n)
  then show ?case by (auto simp: next_port_def split: if_splits)
qed simp

text \<open>A failed sweep has seen every port it was long enough for, wrapping round at the end.\<close>

lemma sweep_None_straight:
  "sweep used low high n p = None \<Longrightarrow> p \<le> q \<Longrightarrow> q < p + int n \<Longrightarrow> q \<le> high \<Longrightarrow> q \<in> used"
proof (induction n arbitrary: p)
  case (Suc n)
  show ?case
  proof (cases "p = q")
    case False
    then have "sweep used low high n (p + 1) = None"
      using Suc.prems by (auto simp: next_port_def split: if_splits)
    then show ?thesis using Suc.IH [of "p + 1"] Suc.prems False by simp
  qed (use Suc.prems in \<open>auto split: if_splits\<close>)
qed simp

lemma sweep_None_wrapped:
  "sweep used low high n p = None \<Longrightarrow> p \<le> high \<Longrightarrow> low \<le> q \<Longrightarrow> q < p \<Longrightarrow>
   q < low + int n - (high - p + 1) \<Longrightarrow> q \<in> used"
proof (induction n arbitrary: p)
  case (Suc n)
  have s: "sweep used low high n (next_port low high p) = None" using Suc.prems(1) by (auto split: if_splits)
  show ?case
  proof (cases "p = high")
    case True
    then show ?thesis using sweep_None_straight [of used low high n low q] s Suc.prems
      by (simp add: next_port_def)
  next
    case False
    then show ?thesis using Suc.IH [of "p + 1"] s Suc.prems by (simp add: next_port_def)
  qed
qed simp

lemma sweep_None:
  assumes "sweep used low high (nat (high - low + 1)) p = None" "low \<le> p" "p \<le> high"
  shows "{low..high} \<subseteq> used"
proof
  fix q
  assume q: "q \<in> {low..high}"
  show "q \<in> used"
  proof (cases "p \<le> q")
    case True
    then show ?thesis using sweep_None_straight [OF assms(1), of q] q assms by simp
  next
    case False
    then show ?thesis using sweep_None_wrapped [OF assms(1), of q] q assms by simp
  qed
qed

text \<open>
  C23. With a port range that \<open>getPortRange\<close> accepted, the search is right wherever it starts: a port
  it returns lies in the range, is not privileged and is assigned to no instance; if it fails without
  the database having failed, every port of the range is assigned. It changes nothing.
\<close>

theorem free_port_search:
  assumes "getPortRange e = Inr (low, high)" "low \<noteq> 0"
  shows "case getFreePort (low, high) rand d of
      (Inr s, d') \<Rightarrow> tab d' = tab d \<and>
        (\<exists>p. s = Itoa p \<and> Atoi s = Inr p \<and> low \<le> p \<and> p \<le> high \<and> 1024 \<le> p \<and> port_range p \<and>
           p \<notin> set (map (\<lambda>(i, n, q). q) (portAssignments (tab d))))
    | (Inl _, d') \<Rightarrow> tab d' = tab d \<and>
        (fail_next d \<or> {low..high} \<subseteq> set (map (\<lambda>(i, n, q). q) (portAssignments (tab d))))"
proof -
  let ?used = "set (map (\<lambda>(i, n, q). q) (portAssignments (tab d)))"
  let ?start = "int rand mod (high - low + 1) + low"
  have r: "1024 \<le> low" "low \<le> high" "high < 65536" using getPortRange_Inr [OF assms(1)] assms(2) by auto
  have "0 \<le> int rand mod (high - low + 1)" "int rand mod (high - low + 1) < high - low + 1"
    using r by (intro pos_mod_sign pos_mod_bound; simp)+
  then have start: "low \<le> ?start" "?start \<le> high" by linarith+
  show ?thesis
  proof (cases "fail_next d")
    case True
    then show ?thesis using assms(2)
      by (simp add: getFreePort_def usedPortSet_def Let_def bnd_def map_err_def query_def)
  next
    case False
    show ?thesis
    proof (cases "sweep ?used low high (nat (high - low + 1)) ?start")
      case None
      then show ?thesis using False assms(2) sweep_None [OF None start]
        by (simp add: getFreePort_def usedPortSet_def Let_def bnd_def map_err_def query_def)
    next
      case (Some p)
      have p: "p \<notin> ?used" "low \<le> p" "p \<le> high"
        using sweep_Some [OF Some] sweep_range [OF Some start] by blast+
      then have "Atoi (Itoa p) = Inr p" using r by (simp add: in_int64_def)
      then show ?thesis using False assms(2) Some p r
        by (simp add: getFreePort_def usedPortSet_def Let_def bnd_def map_err_def query_def port_range_def)
    qed
  qed
qed

theorem free_port_search_witness:
  "getPortRange (\<lambda>n. if n = ''CMGR_PORTS'' then Some ''5000-5001'' else None) = Inr (5000, 5001) \<and>
   (\<exists>p. fst (getFreePort (5000, 5001) 7 ex_instance_db) = Inr (Itoa p) \<and> 5000 \<le> p \<and> p \<le> 5001 \<and> p \<noteq> 5000)"
proof -
  let ?e = "\<lambda>n. if n = ''CMGR_PORTS'' then Some ''5000-5001'' else (None :: string option)"
  let ?g = "getFreePort (5000, 5001) 7 ex_instance_db"
  have e: "getPortRange ?e = Inr (5000, 5001)" by code_simp
  have used: "portAssignments (tab ex_instance_db) = [(1, ''http'', 5000)]" "\<not> fail_next ex_instance_db"
    by (simp_all add: ex_instance_db_def ex_defs fail_next_def)
  obtain r d' where r: "?g = (r, d')" by fastforce
  show ?thesis
  proof (cases r)
    case (Inl x)
    have "\<not> {5000..5001} \<subseteq> {5000 :: int}"
    proof
      assume "{5000..5001} \<subseteq> {5000 :: int}"
      then have "5001 \<in> {5000 :: int}" by (rule subsetD) simp
      then show False by simp
    qed
    then show ?thesis using free_port_search [OF e, where rand = 7 and d = ex_instance_db] r Inl used by auto
  next
    case (Inr s)
    then show ?thesis using free_port_search [OF e, where rand = 7 and d = ex_instance_db] r used e by auto
  qed
qed

text \<open>Ports that Docker reports as ready are valid and complete.\<close>

lemma bound_ports_ready:
  assumes "bound_ports bound es acc = Inr (as, True)"
    "list_all (\<lambda>(n, p). port_range p) acc"
  shows "list_all (\<lambda>(n, p). port_range p) as"
    "set (map fst as) = set (map fst acc) \<union> set (map snd es)"
proof -
  have put: "list_all (\<lambda>(n, p). port_range p) (put k v xs)"
    if "port_range v" "list_all (\<lambda>(n, p). port_range p) xs" for k :: string and v xs
    using that by (induction xs) (auto split: if_splits)
  have "list_all (\<lambda>(n, p). port_range p) as \<and> set (map fst as) = set (map fst acc) \<union> set (map snd es)"
    using assms
  proof (induction bound es acc rule: bound_ports.induct)
    case (2 bound containerPort portName rest acc)
    obtain h hs p where h: "map_of bound containerPort = Some (h # hs)" "Atoi h = Inr p"
        "\<not> (p \<le> 0 \<or> p \<ge> 65536)" "bound_ports bound rest (put portName p acc) = Inr (as, True)"
      using "2.prems"(1) by (auto split: option.splits list.splits sum.splits if_splits)
    have "list_all (\<lambda>(n, p). port_range p) (put portName p acc)"
      using put "2.prems"(2) h(3) by (simp add: port_range_def)
    then show ?case using "2.IH" [OF h(1) refl h(2,3,4)] keys_put [of portName p acc] by auto
  qed simp
  then show "list_all (\<lambda>(n, p). port_range p) as"
    "set (map fst as) = set (map fst acc) \<union> set (map snd es)" by blast+
qed

text \<open>
  C24. When the inspection of a started container counts as ready, the container is up and exactly
  the expected port names are assigned, each to a host port between 1 and 65535.
\<close>

theorem ready_ports_complete:
  assumes "inspectedPortAssignments expectedPorts ins = Inr (as, True)"
  shows "set (map fst as) = set (map snd expectedPorts) \<and> list_all (\<lambda>(n, p). port_range p) as \<and>
    (\<exists>st. in_State ins = Some st \<and> st_Running st \<and> \<not> st_Paused st \<and> \<not> st_Restarting st \<and> \<not> st_Dead st)"
proof -
  obtain st where st: "in_State ins = Some st" "\<not> (\<not> st_Running st \<or> st_Paused st \<or> st_Restarting st \<or> st_Dead st)"
    using assms by (auto simp: inspectedPortAssignments_def split: option.splits if_splits)
  show ?thesis
  proof (cases "expectedPorts = []")
    case True
    then show ?thesis using assms st by (simp add: inspectedPortAssignments_def)
  next
    case False
    then obtain bound where "bound_ports bound expectedPorts [] = Inr (as, True)"
      using assms st by (auto simp: inspectedPortAssignments_def split: option.splits)
    then show ?thesis using bound_ports_ready [of bound expectedPorts "[]" as] st by simp
  qed
qed

definition ex_inspection :: inspection where
  "ex_inspection = \<lparr>in_State = Some \<lparr>st_Running = True, st_Paused = False, st_Restarting = False, st_Dead = False\<rparr>,
     in_Bound = Some [(''80/tcp'', [''5001''])]\<rparr>"

theorem ready_ports_complete_witness:
  "inspectedPortAssignments [(''80/tcp'', ''http'')] ex_inspection = Inr ([(''http'', 5001)], True) \<and> port_range 5001"
proof -
  have r: "inspectedPortAssignments [(''80/tcp'', ''http'')] ex_inspection = Inr ([(''http'', 5001)], True)"
    by code_simp
  show ?thesis using ready_ports_complete [OF r] r by simp
qed

end
