(* ===== verification/Daemon.thy ===== *)
theory Daemon
  imports Ports
begin

text \<open>
  The Docker daemon and the host as \<open>cmgr/docker.go\<close> and \<open>cmgr/api.go\<close> see them. The daemon is
  third-party code: it is a parameter, a record of one function per call of the client that the
  program makes, over a state of any type \<open>'w\<close>. The world of an operation is that state, the
  database, the artifacts directory and what may go wrong in calls of the operating system.
\<close>

section \<open>The interface\<close>

datatype docker_error = NotFound | Rejected string

record container_spec =
  cs_Image :: string
  cs_Hostname :: string
  cs_Env :: "string list"
  cs_Published :: "(string \<times> string \<times> string) list"
  cs_RestartPolicy :: string
  cs_Init :: "bool option"
  cs_NanoCPUs :: int
  cs_Memory :: int
  cs_MemorySwap :: int
  cs_Ulimits :: "string list"
  cs_PidsLimit :: "int option"
  cs_ReadonlyRootfs :: bool
  cs_CapDrop :: "string list"
  cs_SecurityOpt :: "string list"
  cs_StorageOpt :: "string option"
  cs_CgroupParent :: string
  cs_Runtime :: string
  cs_Network :: string
  cs_Aliases :: "string list"

record host_info =
  OSType :: string
  Runtimes :: "(string \<times> string \<times> string list) list"

record image_build =
  ib_Args :: "(string \<times> string) list"
  ib_CacheFrom :: "string list"
  ib_Tags :: "string list"
  ib_Target :: string
  ib_NoCache :: bool
  ib_PullParent :: bool
  ib_Context :: string

text \<open>A progress stream: the messages in order, then its end or a message that does not decode.\<close>

record progress_message =
  pm_Error :: string
  pm_Detail :: "string option"
  pm_Stream :: string
  pm_Status :: string

type_synonym progress = "progress_message list \<times> bool"

record 'w daemon =
  ContainerCreate :: "container_spec \<Rightarrow> 'w \<Rightarrow> (docker_error + string) \<times> 'w"
  ContainerStart :: "string \<Rightarrow> 'w \<Rightarrow> (docker_error + unit) \<times> 'w"
  ContainerStop :: "string \<Rightarrow> 'w \<Rightarrow> (docker_error + unit) \<times> 'w"
  ContainerRemove :: "string \<Rightarrow> 'w \<Rightarrow> (docker_error + unit) \<times> 'w"
  ContainerInspect :: "string \<Rightarrow> 'w \<Rightarrow> (docker_error + inspection) \<times> 'w"
  CopyFromContainer :: "string \<Rightarrow> 'w \<Rightarrow> (docker_error + (string \<times> string) list \<times> bool) \<times> 'w"
  NetworkCreate :: "string \<Rightarrow> bool \<Rightarrow> 'w \<Rightarrow> (docker_error + unit) \<times> 'w"
  NetworkRemove :: "string \<Rightarrow> 'w \<Rightarrow> (docker_error + unit) \<times> 'w"
  ImageRemove :: "string \<Rightarrow> 'w \<Rightarrow> (docker_error + unit) \<times> 'w"
  ImageInspect :: "string \<Rightarrow> 'w \<Rightarrow> (docker_error + string) \<times> 'w"
  ImageTag :: "string \<Rightarrow> string \<Rightarrow> 'w \<Rightarrow> (docker_error + unit) \<times> 'w"
  ImageList :: "'w \<Rightarrow> (docker_error + string list list) \<times> 'w"
  ImageBuild :: "image_build \<Rightarrow> 'w \<Rightarrow> (docker_error + progress) \<times> 'w"
  ImagePull :: "string \<Rightarrow> 'w \<Rightarrow> (docker_error + progress) \<times> 'w"
  ImagePush :: "string \<Rightarrow> 'w \<Rightarrow> (docker_error + progress) \<times> 'w"
  Info :: "'w \<Rightarrow> (docker_error + host_info) \<times> 'w"

text \<open>
  The world. \<open>host_faults\<close> says of each call of the operating system in turn whether it fails, as
  \<open>faults\<close> does for the database; \<open>random\<close> holds the numbers the program will draw.
\<close>

record 'w world =
  wdb :: db
  dock :: 'w
  artifacts :: "(string \<times> string) list"
  host_faults :: "bool list"
  randoms :: "nat list"
  diskQuotasEnabled :: bool
  portLockHeld :: bool

text \<open>The parts of \<open>Manager\<close> that do not change, and the parsers of other packages it calls.\<close>

record mgr =
  portRange :: "int \<times> int"
  challengeInterface :: string
  challengeRegistry :: string
  runtimeDefaults :: ContainerOptions
  policy :: managerPolicy
  ParseAddr :: "string \<Rightarrow> string option"
  ParsePort :: "string \<Rightarrow> string option"
  SetString :: "string \<Rightarrow> rat option"
  RAMInBytes :: "string \<Rightarrow> int option"
  ParseUlimit :: "string \<Rightarrow> string option"
  sha256 :: "string \<Rightarrow> string"
  parseProfile :: "string \<Rightarrow> seccompProfile option"

section \<open>Calls\<close>

definition in_db :: "(db, 'a) act \<Rightarrow> ('w world, 'a) act" where
  "in_db m w = (case m (wdb w) of (r, d) \<Rightarrow> (r, w\<lparr>wdb := d\<rparr>))"

text \<open>A call whose outcome the program inspects itself.\<close>

definition call :: "('w \<Rightarrow> (docker_error + 'a) \<times> 'w) \<Rightarrow> ('w world, docker_error + 'a) act" where
  "call f w = (case f (dock w) of (r, k) \<Rightarrow> (Inr r, w\<lparr>dock := k\<rparr>))"

text \<open>A call whose error is returned, wrapped or not.\<close>

definition docker_err :: "docker_error \<Rightarrow> err" where
  "docker_err e = (case e of NotFound \<Rightarrow> Plain ''not found'' | Rejected m \<Rightarrow> Wrap ''docker'' (Plain m))"

definition must :: "('w \<Rightarrow> (docker_error + 'a) \<times> 'w) \<Rightarrow> ('w world, 'a) act" where
  "must f = bnd (call f) (\<lambda>r. case r of Inl e \<Rightarrow> raise (docker_err e) | Inr x \<Rightarrow> ret x)"

text \<open>A removal that is satisfied with an absent object.\<close>

definition unless_missing :: "('w \<Rightarrow> (docker_error + unit) \<times> 'w) \<Rightarrow> ('w world, unit) act" where
  "unless_missing f = bnd (call f) (\<lambda>r. case r of
     Inl NotFound \<Rightarrow> ret () | Inl (Rejected m) \<Rightarrow> raise (docker_err (Rejected m)) | Inr _ \<Rightarrow> ret ())"

definition host_call :: "string \<Rightarrow> ('w world, unit) act" where
  "host_call what w =
     (let w' = w\<lparr>host_faults := tl (host_faults w)\<rparr> in
      if host_faults w \<noteq> [] \<and> hd (host_faults w) then (Inl (Plain what), w') else (Inr (), w'))"

definition draw :: "('w world, nat) act" where
  "draw w = (Inr (case randoms w of [] \<Rightarrow> 0 | r # _ \<Rightarrow> r), w\<lparr>randoms := tl (randoms w)\<rparr>)"

text \<open>
  Loops that go on after an error and join what they collected (\<open>errors.Join\<close>), and the first error
  of a sequence of steps that all run.
\<close>

definition join_all :: "('a \<Rightarrow> ('s, unit) act) \<Rightarrow> 'a list \<Rightarrow> ('s, unit) act" where
  "join_all f xs s = (case each_collect f xs s of (es, s') \<Rightarrow>
     (case join_errors es of None \<Rightarrow> Inr () | Some e \<Rightarrow> Inl e, s'))"

text \<open>Run a step and keep its error as a value.\<close>

definition attempt :: "('s, 'a) act \<Rightarrow> ('s, err + 'a) act" where
  "attempt m s = (case m s of (r, s') \<Rightarrow> (Inr r, s'))"

definition errors_of :: "(err + 'a) list \<Rightarrow> err list" where
  "errors_of rs = map projl (filter isl rs)"

definition lift_sum :: "err + 'a \<Rightarrow> ('s, 'a) act" where
  "lift_sum r = (case r of Inl e \<Rightarrow> raise e | Inr x \<Rightarrow> ret x)"

lemma in_db_state [simp]: "snd (in_db m w) = w\<lparr>wdb := snd (m (wdb w))\<rparr>"
  by (simp add: in_db_def split: prod.splits)

lemma call_state [simp]: "snd (call f w) = w\<lparr>dock := snd (f (dock w))\<rparr>"
  by (simp add: call_def split: prod.splits)

section \<open>Invariants of composed operations\<close>

definition maintains :: "('s \<Rightarrow> bool) \<Rightarrow> ('s \<Rightarrow> 'r \<times> 's) \<Rightarrow> bool" where
  "maintains P m \<longleftrightarrow> (\<forall>s. P s \<longrightarrow> P (snd (m s)))"

named_theorems maintains_intros "operations that maintain a predicate"

lemma maintainsD: "maintains P m \<Longrightarrow> P s \<Longrightarrow> m s = (r, s') \<Longrightarrow> P s'"
  by (auto simp: maintains_def dest: spec [of _ s])

lemma maintains_ret [maintains_intros]: "maintains P (ret x)" "maintains P (raise e)"
  by (simp_all add: maintains_def)

lemma maintains_bnd [maintains_intros]:
  "maintains P m \<Longrightarrow> (\<And>x. maintains P (f x)) \<Longrightarrow> maintains P (bnd m f)"
  unfolding maintains_def by (intro allI impI, rule bnd_preserves) simp_all

lemma maintains_map_err [maintains_intros]: "maintains P m \<Longrightarrow> maintains P (map_err g m)"
  by (simp add: maintains_def)

lemma maintains_attempt [maintains_intros]: "maintains P m \<Longrightarrow> maintains P (attempt m)"
  by (auto simp: maintains_def attempt_def split: prod.splits)

lemma maintains_lift [maintains_intros]: "maintains P (lift_sum r)"
  by (cases r) (simp_all add: lift_sum_def maintains_ret)

lemma maintains_if [maintains_intros]:
  "(c \<Longrightarrow> maintains P m) \<Longrightarrow> (\<not> c \<Longrightarrow> maintains P n) \<Longrightarrow> maintains P (if c then m else n)"
  by simp

lemma maintains_sum [maintains_intros]:
  "(\<And>x. maintains P (f x)) \<Longrightarrow> (\<And>y. maintains P (g y)) \<Longrightarrow> maintains P (case l of Inl x \<Rightarrow> f x | Inr y \<Rightarrow> g y)"
  by (cases l) simp_all

lemma maintains_option [maintains_intros]:
  "maintains P m \<Longrightarrow> (\<And>x. maintains P (f x)) \<Longrightarrow> maintains P (case l of None \<Rightarrow> m | Some x \<Rightarrow> f x)"
  by (cases l) simp_all

lemma maintains_pair [maintains_intros]:
  "(\<And>x y. maintains P (f x y)) \<Longrightarrow> maintains P (case p of (x, y) \<Rightarrow> f x y)"
  by (cases p) simp

lemma maintains_error [maintains_intros]:
  "maintains P m \<Longrightarrow> (\<And>x. maintains P (f x)) \<Longrightarrow> maintains P (case e of NotFound \<Rightarrow> m | Rejected x \<Rightarrow> f x)"
  by (cases e) simp_all

lemma maintains_each [maintains_intros]: "(\<And>x. maintains P (f x)) \<Longrightarrow> maintains P (each f xs)"
  by (induction xs) (simp_all add: maintains_intros)

lemma maintains_collect:
  assumes "\<And>x. maintains P (f x)" "P s"
  shows "P (snd (each_collect f xs s))"
  by (rule each_collect_preserves) (use assms in \<open>auto simp: maintains_def\<close>)

lemma maintains_join_all [maintains_intros]: "(\<And>x. maintains P (f x)) \<Longrightarrow> maintains P (join_all f xs)"
  using maintains_collect [of P f]
  by (auto simp: maintains_def [of P "join_all f xs"] join_all_def split: prod.splits) (metis snd_conv)

lemma maintains_collected [maintains_intros]:
  "(\<And>x. maintains P (f x)) \<Longrightarrow> maintains P (\<lambda>w. case each_collect f xs w of (es, w') \<Rightarrow> (Inr es, w'))"
  using maintains_collect [of P f]
  by (auto simp: maintains_def [of P "\<lambda>w. case each_collect f xs w of (es, w') \<Rightarrow> (Inr es, w')"] split: prod.splits)
    (metis snd_conv)

lemma maintains_seq:
  "maintains P m \<Longrightarrow> (\<And>r. maintains P (f r)) \<Longrightarrow> maintains P (\<lambda>s. case m s of (r, s') \<Rightarrow> f r s')"
  by (auto simp: maintains_def split: prod.splits)

lemma maintains_value [maintains_intros]: "maintains P (Pair c)" "maintains P (\<lambda>s. (c, s))"
  by (simp_all add: maintains_def)

text \<open>An operation whose success may give up the predicate for another one.\<close>

definition finishes :: "('s \<Rightarrow> bool) \<Rightarrow> ('s \<Rightarrow> bool) \<Rightarrow> ('s, 'a) act \<Rightarrow> bool" where
  "finishes P Q m \<longleftrightarrow> (\<forall>s r s'. P s \<longrightarrow> m s = (r, s') \<longrightarrow> (case r of Inl _ \<Rightarrow> P s' | Inr _ \<Rightarrow> Q s'))"

lemma finishes_bnd:
  assumes "maintains P m" "\<And>x. finishes P Q (f x)"
  shows "finishes P Q (bnd m f)"
  unfolding finishes_def
proof (intro allI impI)
  fix s r s'
  assume P: "P s" and b: "bnd m f s = (r, s')"
  obtain q s1 where m: "m s = (q, s1)" by fastforce
  have s1: "P s1" using maintainsD [OF assms(1) P m] .
  show "case r of Inl _ \<Rightarrow> P s' | Inr _ \<Rightarrow> Q s'"
  proof (cases q)
    case (Inl e)
    then show ?thesis using b m s1 by (auto simp: bnd_def)
  next
    case (Inr x)
    then have "f x s1 = (r, s')" using b m by (simp add: bnd_def)
    then show ?thesis using assms(2) s1 unfolding finishes_def by blast
  qed
qed

lemma finishes_raise: "finishes P Q (raise e)"
  by (simp add: finishes_def)

section \<open>What the daemon is relied on for\<close>

text \<open>
  Documented behaviour of the daemon, for a reading \<open>alive\<close> of its state as the set of its
  containers: creating adds a container that was not there, removing removes it, a container that
  is not found is not there, failed calls and all other calls neither add nor remove one.
\<close>

definition container_laws :: "'w daemon \<Rightarrow> ('w \<Rightarrow> string set) \<Rightarrow> bool" where
  "container_laws dk alive \<longleftrightarrow>
     (\<forall>sp k. case ContainerCreate dk sp k of
        (Inr c, k') \<Rightarrow> c \<notin> alive k \<and> alive k' = insert c (alive k)
      | (Inl _, k') \<Rightarrow> alive k' = alive k) \<and>
     (\<forall>c k. case ContainerRemove dk c k of
        (Inr _, k') \<Rightarrow> alive k' = alive k - {c}
      | (Inl NotFound, k') \<Rightarrow> c \<notin> alive k \<and> alive k' = alive k
      | (Inl (Rejected _), k') \<Rightarrow> alive k' = alive k) \<and>
     (\<forall>c k. alive (snd (ContainerStart dk c k)) = alive k) \<and>
     (\<forall>c k. alive (snd (ContainerStop dk c k)) = alive k) \<and>
     (\<forall>c k. alive (snd (ContainerInspect dk c k)) = alive k) \<and>
     (\<forall>c k. alive (snd (CopyFromContainer dk c k)) = alive k) \<and>
     (\<forall>n b k. alive (snd (NetworkCreate dk n b k)) = alive k) \<and>
     (\<forall>n k. alive (snd (NetworkRemove dk n k)) = alive k) \<and>
     (\<forall>n k. alive (snd (ImageRemove dk n k)) = alive k) \<and>
     (\<forall>n k. alive (snd (ImageInspect dk n k)) = alive k) \<and>
     (\<forall>a b k. alive (snd (ImageTag dk a b k)) = alive k) \<and>
     (\<forall>k. alive (snd (ImageList dk k)) = alive k) \<and>
     (\<forall>b k. alive (snd (ImageBuild dk b k)) = alive k) \<and>
     (\<forall>n k. alive (snd (ImagePull dk n k)) = alive k) \<and>
     (\<forall>n k. alive (snd (ImagePush dk n k)) = alive k) \<and>
     (\<forall>k. alive (snd (Info dk k)) = alive k)"

end
