(* ===== verification/Containers.thy ===== *)
theory Containers
  imports Daemon
begin

text \<open>
  Instances in Docker, from \<open>cmgr/docker.go\<close>: the options in effect for a container, its
  specification, starting the containers of an instance, stopping and removing them, the cutover of an
  instance to a new build and its rollback. An operation that is given a pointer to an instance works
  on the pair of the world and that instance.
\<close>

section \<open>Options of a container\<close>

definition effectiveContainerOptions ::
  "(string \<times> ContainerOptions) list \<Rightarrow> string \<Rightarrow> ContainerOptions \<times> bool" where
  "effectiveContainerOptions options host =
     (let defaultOptions = (case map_of options [] of Some c \<Rightarrow> c | None \<Rightarrow> no_options);
          hasDefault = (map_of options [] \<noteq> None) in
      case map_of options host of
        None \<Rightarrow> (defaultOptions, hasDefault)
      | Some hostOptions \<Rightarrow>
        (if Seccomp hostOptions = None then hostOptions\<lparr>Seccomp := Seccomp defaultOptions\<rparr> else hostOptions, True))"

definition seccompRuntimeReady :: "host_info \<Rightarrow> bool" where
  "seccompRuntimeReady info =
     (case map_of (Runtimes info) RuntimeName of
        None \<Rightarrow> False
      | Some (path, arguments) \<Rightarrow> RuntimeRegistrationCompatible path arguments)"

definition seccompRuntimeWarning :: "host_info \<Rightarrow> bool" where
  "seccompRuntimeWarning info \<longleftrightarrow> OSType info = ''linux'' \<and> \<not> seccompRuntimeReady info"

definition configureContainerSeccomp ::
  "container_spec \<Rightarrow> SeccompOptions option \<Rightarrow> host_info \<Rightarrow> err + container_spec" where
  "configureContainerSeccomp sp options info =
     (case options of
        None \<Rightarrow> Inr sp
      | Some opt \<Rightarrow>
        if OSType info \<noteq> ''linux'' then Inl (Plain ''only supported by Linux Docker hosts'')
        else
        let sp1 = (if effectiveProfile opt \<noteq> []
          then sp\<lparr>cs_SecurityOpt := cs_SecurityOpt sp @ [''seccomp='' @ effectiveProfile opt]\<rparr> else sp) in
        if Tweaks opt = [] then Inr sp1
        else if \<not> seccompRuntimeReady info then Inl (Plain ''tweaks require compatible Docker runtime'')
        else Inr (sp1\<lparr>cs_Runtime := RuntimeName,
          cs_Env := cs_Env sp1 @ [TweakEnvironmentVariable @ ''='' @ Join_with '','' (Tweaks opt)]\<rparr>))"

definition wants_seccomp :: "SeccompOptions option \<Rightarrow> bool" where
  "wants_seccomp s = (case s of None \<Rightarrow> False | Some opt \<Rightarrow> Tweaks opt \<noteq> [] \<or> effectiveProfile opt \<noteq> [])"

fun parse_all :: "('a \<Rightarrow> 'b option) \<Rightarrow> 'a list \<Rightarrow> 'b list option" where
  "parse_all f [] = Some []"
| "parse_all f (x # xs) =
     (case f x of None \<Rightarrow> None | Some y \<Rightarrow> map_option (\<lambda>ys. y # ys) (parse_all f xs))"

text \<open>What the options add to the specification of a container.\<close>

definition apply_options :: "mgr \<Rightarrow> bool \<Rightarrow> ContainerOptions \<Rightarrow> container_spec \<Rightarrow> err + container_spec" where
  "apply_options m quotas c sp =
     sbind (if Cpus c = [] then Inr 0 else parseNanoCPUs (SetString m) (Cpus c)) (\<lambda>cpus.
     sbind (if Memory c = [] then Inr 0
            else case RAMInBytes m (Memory c) of None \<Rightarrow> Inl (Plain ''invalid size'') | Some b \<Rightarrow> Inr b) (\<lambda>memory.
     sbind (case parse_all (ParseUlimit m) (Ulimits c) of
              None \<Rightarrow> Inl (Plain ''invalid ulimit'') | Some ls \<Rightarrow> Inr ls) (\<lambda>limits.
     Inr (sp\<lparr>cs_Init := Some (Init c), cs_NanoCPUs := cpus, cs_Memory := memory, cs_MemorySwap := memory,
       cs_Ulimits := limits, cs_PidsLimit := (if PidsLimit c \<noteq> 0 then Some (PidsLimit c) else None),
       cs_ReadonlyRootfs := ReadonlyRootfs c, cs_CapDrop := DroppedCaps c,
       cs_SecurityOpt := cs_SecurityOpt sp @ (if NoNewPrivileges c then [''no-new-privileges:true''] else []),
       cs_StorageOpt := (if DiskQuota c \<noteq> [] \<and> quotas then Some (DiskQuota c) else None),
       cs_CgroupParent := (if CgroupParent c \<noteq> [] then CgroupParent c else cs_CgroupParent sp)\<rparr>))))"

definition has_options :: "ContainerOptions \<Rightarrow> bool" where
  "has_options c \<longleftrightarrow> Cpus c \<noteq> [] \<or> Memory c \<noteq> [] \<or> PidsLimit c \<noteq> 0 \<or> Ulimits c \<noteq> []"

definition dockerId :: "BuildMetadata \<Rightarrow> string \<Rightarrow> string" where
  "dockerId b host = Itoa (bd_Id b) @ ''-'' @ host"

definition getNetworkName :: "InstanceMetadata \<Rightarrow> string" where
  "getNetworkName i = ''cmgr-'' @ Itoa (in_Id i)"

definition base_spec :: "BuildMetadata \<Rightarrow> string \<Rightarrow> string \<Rightarrow> (string \<times> string \<times> string) list \<Rightarrow> container_spec" where
  "base_spec b net host published = \<lparr>cs_Image = bd_Challenge b @ '':'' @ dockerId b host, cs_Hostname = host,
     cs_Env = [], cs_Published = published, cs_RestartPolicy = ''always'', cs_Init = None, cs_NanoCPUs = 0,
     cs_Memory = 0, cs_MemorySwap = 0, cs_Ulimits = [], cs_PidsLimit = None, cs_ReadonlyRootfs = False,
     cs_CapDrop = [], cs_SecurityOpt = [], cs_StorageOpt = None, cs_CgroupParent = [], cs_Runtime = [],
     cs_Network = net, cs_Aliases = [host]\<rparr>"

definition unsupportedStorageQuotaError :: "docker_error \<Rightarrow> bool" where
  "unsupportedStorageQuotaError e =
     (let message = (case e of NotFound \<Rightarrow> ''not found'' | Rejected t \<Rightarrow> ToLower t) in
      Contains message ''storage-opt'' \<and>
      (Contains message ''pquota'' \<or> Contains message ''quota'' \<or> Contains message ''not supported'' \<or>
       Contains message ''supported only''))"

section \<open>Working on an instance\<close>

type_synonym 'w st = "'w world \<times> InstanceMetadata"

definition on_world :: "('w world, 'a) act \<Rightarrow> ('w st, 'a) act" where
  "on_world m s = (case m (fst s) of (r, w) \<Rightarrow> (r, (w, snd s)))"

definition on_instance :: "(InstanceMetadata \<Rightarrow> InstanceMetadata) \<Rightarrow> ('w st, unit) act" where
  "on_instance f s = (Inr (), (fst s, f (snd s)))"

definition with_instance :: "(InstanceMetadata \<Rightarrow> ('w st, 'a) act) \<Rightarrow> ('w st, 'a) act" where
  "with_instance f s = f (snd s) s"

section \<open>Starting containers\<close>

text \<open>The ports of one image: what to publish, and the name expected of each container port.\<close>

fun publish_ports :: "mgr \<Rightarrow> ((string \<times> string) \<times> string) list \<Rightarrow> string \<Rightarrow> (string \<times> int) list \<Rightarrow> string \<Rightarrow>
    string list \<Rightarrow> ('w world, (string \<times> string \<times> string) list \<times> (string \<times> string) list) act" where
  "publish_ports m rpm ip preferred host [] = ret ([], [])"
| "publish_ports m rpm ip preferred host (portStr # rest) =
     (case ParsePort m portStr of
        None \<Rightarrow> raise (Plain ''invalid image port'')
      | Some port \<Rightarrow>
        (case map_of rpm (host, portStr) of
           None \<Rightarrow> raise (Plain ''could not find the challenge port name'')
         | Some portName \<Rightarrow>
           bnd draw (\<lambda>r.
           bnd (in_db (selectHostPort (portRange m) r portName preferred)) (\<lambda>hostPort.
           bnd (publish_ports m rpm ip preferred host rest) (\<lambda>x.
           ret ((port, ip, hostPort) # fst x, (port, portName) # snd x))))))"

text \<open>The container is created once more without its quota when Docker rejects the quota.\<close>

definition create_container :: "'w daemon \<Rightarrow> container_spec \<Rightarrow> ('w world, string) act" where
  "create_container dk sp =
     bnd (call (ContainerCreate dk sp)) (\<lambda>r.
     case r of
       Inr cid \<Rightarrow> ret cid
     | Inl e \<Rightarrow>
       if cs_StorageOpt sp \<noteq> None \<and> unsupportedStorageQuotaError e
       then bnd (\<lambda>w. (Inr (), w\<lparr>diskQuotasEnabled := False\<rparr>)) (\<lambda>_.
            must (ContainerCreate dk (sp\<lparr>cs_StorageOpt := None\<rparr>)))
       else raise (docker_err e))"

text \<open>Ten inspections, with the waits doubling from a millisecond while they are below a second.\<close>

fun await_ports :: "'w daemon \<Rightarrow> string \<Rightarrow> (string \<times> string) list \<Rightarrow> nat \<Rightarrow> ('w world, (string \<times> int) list) act" where
  "await_ports dk cid expected 0 = raise (Plain ''timed out waiting for Docker port assignments'')"
| "await_ports dk cid expected (Suc n) =
     bnd (must (ContainerInspect dk cid)) (\<lambda>ins.
     bnd (lift_sum (inspectedPortAssignments expected ins)) (\<lambda>x.
     if snd x then ret (fst x) else await_ports dk cid expected n))"

definition inspections :: nat where "inspections = 10"

definition spec_of :: "'w daemon \<Rightarrow> mgr \<Rightarrow> BuildMetadata \<Rightarrow> (string \<times> ContainerOptions) list \<Rightarrow> string \<Rightarrow> string \<Rightarrow>
    (string \<times> string \<times> string) list \<Rightarrow> ('w world, container_spec) act" where
  "spec_of dk m b opts net host published =
     (case effectiveContainerOptions opts (ToLower host) of (own, hasOwn) \<Rightarrow>
      let cOpts = mergeRuntimeDefaults (runtimeDefaults m) own;
          base = base_spec b net host published in
      bnd (\<lambda>w. (if hasOwn \<or> has_options cOpts
                then apply_options m (diskQuotasEnabled w) cOpts base else Inr base, w)) (\<lambda>sp.
      bnd (lift_sum (withRequiredSeccompTweaks (Seccomp cOpts) (RequiredSeccompTweaks b))) (\<lambda>sc.
      if wants_seccomp sc
      then bnd (must (Info dk)) (\<lambda>info. lift_sum (configureContainerSeccomp sp sc info))
      else ret sp)))"

definition start_image :: "'w daemon \<Rightarrow> mgr \<Rightarrow> BuildMetadata \<Rightarrow> (string \<times> ContainerOptions) list \<Rightarrow>
    (string \<times> int) list \<Rightarrow> ((string \<times> string) \<times> string) list \<Rightarrow> string \<Rightarrow> Image \<Rightarrow> ('w st, unit) act" where
  "start_image dk m b opts preferred rpm ip im =
     (if im_Host im = ''builder'' then ret ()
      else
      with_instance (\<lambda>i.
      bnd (on_world (publish_ports m rpm ip preferred (im_Host im) (im_Ports im))) (\<lambda>(published, expected).
      bnd (on_world (spec_of dk m b opts (getNetworkName i) (im_Host im) published)) (\<lambda>sp.
      bnd (on_world (create_container dk sp)) (\<lambda>cid.
      bnd (on_instance (\<lambda>i. i\<lparr>in_Containers := in_Containers i @ [cid]\<rparr>)) (\<lambda>_.
      bnd (on_world (map_err (Wrap ''could not record pending container'') (in_db (retireContainer cid)))) (\<lambda>_.
      bnd (on_world (must (ContainerStart dk cid))) (\<lambda>_.
      bnd (on_world (await_ports dk cid expected inspections)) (\<lambda>assignments.
      on_instance (\<lambda>i. i\<lparr>in_Ports := fold (\<lambda>(n, p). put n p) assignments (in_Ports i)\<rparr>))))))))))"

section \<open>Removing containers\<close>

definition removeRetiredContainerIDs :: "'w daemon \<Rightarrow> string list \<Rightarrow> ('w world, unit) act" where
  "removeRetiredContainerIDs dk = join_all (\<lambda>c.
     bnd (map_err (Wrap ''remove retired container'') (unless_missing (ContainerRemove dk c))) (\<lambda>_.
     map_err (Wrap ''forget retired container'') (in_db (forgetRetiredContainer c))))"

text \<open>
  \<open>stopContainers\<close> keeps the containers that could not be removed, or not be forgotten, in the
  instance. The ports are released when none remains.
\<close>

definition stop_one :: "'w daemon \<Rightarrow> InstanceId \<Rightarrow> string \<Rightarrow> ('w world, unit) act" where
  "stop_one dk i c =
     bnd (map_err (Wrap ''remove container'') (unless_missing (ContainerRemove dk c))) (\<lambda>_.
     bnd (map_err (Wrap ''forget container'') (in_db (removeContainerMetadata i c))) (\<lambda>_.
     map_err (Wrap ''forget pending container'') (in_db (forgetRetiredContainer c))))"

fun stop_each :: "'w daemon \<Rightarrow> InstanceId \<Rightarrow> string list \<Rightarrow> 'w world \<Rightarrow> (err list \<times> string list) \<times> 'w world" where
  "stop_each dk i [] w = (([], []), w)"
| "stop_each dk i (c # cs) w =
     (case stop_one dk i c w of
        (Inl e, w1) \<Rightarrow> (case stop_each dk i cs w1 of ((es, rem), w2) \<Rightarrow> ((e # es, c # rem), w2))
      | (Inr _, w1) \<Rightarrow> stop_each dk i cs w1)"

definition joined :: "err list \<Rightarrow> err + unit" where
  "joined es = (case join_errors es of None \<Rightarrow> Inr () | Some e \<Rightarrow> Inl e)"

definition stopContainers :: "'w daemon \<Rightarrow> ('w st, unit) act" where
  "stopContainers dk s =
     (case s of (w, i) \<Rightarrow>
      case stop_each dk (in_Id i) (in_Containers i) w of
        ((es, remaining), w1) \<Rightarrow>
          let i1 = i\<lparr>in_Containers := remaining\<rparr> in
          if remaining \<noteq> [] then (joined es, (w1, i1))
          else case in_db (removeInstancePorts (in_Id i)) w1 of
            (Inl e, w2) \<Rightarrow> (joined (es @ [Wrap ''release instance ports'' e]), (w2, i1))
          | (Inr _, w2) \<Rightarrow> (joined es, (w2, i1\<lparr>in_Ports := []\<rparr>)))"

definition startNetwork :: "'w daemon \<Rightarrow> bool \<Rightarrow> ('w st, unit) act" where
  "startNetwork dk allowEgress =
     with_instance (\<lambda>i. on_world (must (NetworkCreate dk (getNetworkName i) (\<not> allowEgress))))"

definition stopNetwork :: "'w daemon \<Rightarrow> InstanceMetadata \<Rightarrow> ('w world, unit) act" where
  "stopNetwork dk i = unless_missing (NetworkRemove dk (getNetworkName i))"

section \<open>Starting an instance's containers\<close>

text \<open>
  The two deferred functions of the published branch run after the body, last first: one sets
  \<open>complete\<close> when \<open>err\<close> is nil, the other removes the containers unless \<open>complete\<close>. Both close over
  the \<open>err\<close> that the branch declares with its own \<open>:=\<close> for the port lock, not over the function's
  result, so what they see is the error of acquiring the lock, nil by then. \<open>seen\<close> is that variable.
\<close>

definition deferred_release :: "'w daemon \<Rightarrow> err option \<Rightarrow> err + unit \<Rightarrow> ('w st, unit) act" where
  "deferred_release dk seen r s =
     (let complete = (seen = None) in
      if complete then (r, s)
      else case on_world (removeRetiredContainerIDs dk (in_Containers (snd s))) s of
        (Inl cleanupErr, s') \<Rightarrow>
          (Inl (Join ((case r of Inl e \<Rightarrow> [e] | Inr _ \<Rightarrow> []) @
             [Wrap ''release failed instance containers'' cleanupErr])), s')
      | (Inr _, s') \<Rightarrow> (r, s'))"

definition start_body :: "'w daemon \<Rightarrow> mgr \<Rightarrow> BuildMetadata \<Rightarrow> (string \<times> ContainerOptions) list \<Rightarrow> bool \<Rightarrow>
    (string \<times> int) list \<Rightarrow> ((string \<times> string) \<times> string) list \<Rightarrow> ('w st, unit) act" where
  "start_body dk m b opts persist preferred rpm =
     (case ParseAddr m (challengeInterface m) of
        None \<Rightarrow> raise (Plain ''invalid challenge interface'')
      | Some ip \<Rightarrow>
        bnd (each (start_image dk m b opts preferred rpm ip) (Images b)) (\<lambda>_.
        with_instance (\<lambda>i. on_world (in_db
          (if persist then finalizeInstance i else replaceInstanceRuntimeMetadata i)))))"

definition startContainersWithPersistence :: "'w daemon \<Rightarrow> mgr \<Rightarrow> BuildMetadata \<Rightarrow>
    (string \<times> ContainerOptions) list \<Rightarrow> bool \<Rightarrow> (string \<times> int) list \<Rightarrow> ('w st, unit) act" where
  "startContainersWithPersistence dk m b opts persist preferred =
     bnd (on_world (in_db (getReversePortMap (bd_Challenge b)))) (\<lambda>rpm.
     if rpm = [] then start_body dk m b opts persist preferred rpm
     else
     bnd (on_world (host_call ''port allocation lock'')) (\<lambda>_ s.
     case start_body dk m b opts persist preferred rpm (case s of (w, i) \<Rightarrow> (w\<lparr>portLockHeld := True\<rparr>, i)) of
       (r, s1) \<Rightarrow>
         (case deferred_release dk None r s1 of
            (r', (w, i)) \<Rightarrow> (r', (w\<lparr>portLockHeld := False\<rparr>, i)))))"

definition startContainers :: "'w daemon \<Rightarrow> mgr \<Rightarrow> BuildMetadata \<Rightarrow> (string \<times> ContainerOptions) list \<Rightarrow>
    ('w st, unit) act" where
  "startContainers dk m b opts = startContainersWithPersistence dk m b opts True []"

end
