(* ===== verification/Instances.thy ===== *)
theory Instances
  imports Containers
begin

text \<open>
  The life of an instance: \<open>newInstance\<close> and \<open>stopInstance\<close> of \<open>cmgr/api.go\<close>, and from
  \<open>cmgr/docker.go\<close> the cutover of an instance to a new build with its rollback, and the recovery at
  startup (\<open>retryRetiredResources\<close>, \<open>reconcileBrokenInstances\<close>).
\<close>

section \<open>New instances\<close>

definition empty_instance :: "BuildId \<Rightarrow> InstanceMetadata" where
  "empty_instance b = \<lparr>in_Id = 0, in_Ports = [], in_Containers = [], in_LastSolved = 0, in_Build = b\<rparr>"

text \<open>The deferred cleanup of a failed start: every step runs, its errors are joined to the first.\<close>

definition undo_new_instance :: "'w daemon \<Rightarrow> ('w st, err list) act" where
  "undo_new_instance dk =
     bnd (attempt (stopContainers dk)) (\<lambda>r1.
     with_instance (\<lambda>i.
     bnd (on_world (\<lambda>w. case each_collect (\<lambda>c. in_db (retireContainer c)) (in_Containers i) w of
            (es, w') \<Rightarrow> (Inr es, w'))) (\<lambda>es.
     bnd (attempt (on_world (stopNetwork dk i))) (\<lambda>r3.
     bnd (if isl r3 then attempt (on_world (in_db (retireNetwork (getNetworkName i)))) else ret (Inr ())) (\<lambda>r4.
     bnd (attempt (on_world (in_db (removeInstanceMetadata (in_Id i))))) (\<lambda>r5.
     ret (errors_of [r1] @ es @ errors_of [r3, r4, r5])))))))"

definition start_new :: "'w daemon \<Rightarrow> mgr \<Rightarrow> BuildMetadata \<Rightarrow> ('w st, unit) act" where
  "start_new dk m b =
     bnd (on_world (in_db (lookupChallengeMetadata (sha256 m) (parseProfile m) (bd_Challenge b)))) (\<lambda>cMeta.
     bnd (startNetwork dk (AllowEgress (co_Network (ch_Options cMeta)))) (\<lambda>_.
     startContainers dk m b (Overrides (ch_Options cMeta))))"

definition newInstance :: "'w daemon \<Rightarrow> mgr \<Rightarrow> BuildMetadata \<Rightarrow> ('w world, InstanceId) act" where
  "newInstance dk m b =
     bnd (in_db (openInstance (empty_instance (bd_Id b)))) (\<lambda>i w.
     case start_new dk m b (w, i) of
       (Inr _, (w', _)) \<Rightarrow> (Inr (in_Id i), w')
     | (Inl e, s) \<Rightarrow>
         (case undo_new_instance dk s of
            (Inr es, (w', _)) \<Rightarrow> (Inl (Join (e # es)), w')
          | (Inl e', (w', _)) \<Rightarrow> (Inl e', w')))"

definition stopInstance :: "'w daemon \<Rightarrow> InstanceMetadata \<Rightarrow> ('w world, unit) act" where
  "stopInstance dk i w =
     (case stopContainers dk (w, i) of
        (Inl e, (w1, _)) \<Rightarrow> (Inl e, w1)
      | (Inr _, (w1, i1)) \<Rightarrow>
        bnd (stopNetwork dk i1) (\<lambda>_. in_db (removeInstanceMetadata (in_Id i1))) w1)"

section \<open>Cutover\<close>

fun pause_each :: "'w daemon \<Rightarrow> string list \<Rightarrow> string list \<Rightarrow> 'w world \<Rightarrow> (string list \<times> err option) \<times> 'w world" where
  "pause_each dk [] paused w = ((paused, None), w)"
| "pause_each dk (c # cs) paused w =
     (case must (ContainerStop dk c) w of
        (Inl e, w1) \<Rightarrow> ((paused, Some (Plain ''could not stop container'')), w1)
      | (Inr _, w1) \<Rightarrow> pause_each dk cs (paused @ [c]) w1)"

definition pauseContainerProcesses :: "'w daemon \<Rightarrow> string list \<Rightarrow> 'w world \<Rightarrow> (string list \<times> err option) \<times> 'w world" where
  "pauseContainerProcesses dk cs = pause_each dk cs []"

definition resumeContainerProcesses :: "'w daemon \<Rightarrow> string list \<Rightarrow> ('w world, unit) act" where
  "resumeContainerProcesses dk cs w =
     (case each_collect (\<lambda>c. must (ContainerStart dk c)) cs w of
        (es, w') \<Rightarrow> (if es \<noteq> [] then Inl (Plain ''could not restart container'') else Inr (), w'))"

record instanceCutover =
  old_inst :: InstanceMetadata
  cand_inst :: InstanceMetadata

definition prepareInstanceCutover :: "'w daemon \<Rightarrow> mgr \<Rightarrow> BuildMetadata \<Rightarrow> InstanceMetadata \<Rightarrow>
    (string \<times> ContainerOptions) list \<Rightarrow> ('w world, instanceCutover) act" where
  "prepareInstanceCutover dk m b current opts w =
     (case pauseContainerProcesses dk (in_Containers current) w of
        ((paused, Some e), w1) \<Rightarrow>
          (case resumeContainerProcesses dk paused w1 of
             (Inl _, w2) \<Rightarrow> (Inl (Plain ''partially paused containers could not be resumed''), w2)
           | (Inr _, w2) \<Rightarrow> (Inl e, w2))
      | ((_, None), w1) \<Rightarrow>
          let candidate = \<lparr>in_Id = in_Id current, in_Ports = [], in_Containers = [],
            in_LastSolved = in_LastSolved current, in_Build = in_Build current\<rparr> in
          (case startContainersWithPersistence dk m b opts False (in_Ports current) (w1, candidate) of
             (Inr _, (w2, c)) \<Rightarrow> (Inr \<lparr>old_inst = current, cand_inst = c\<rparr>, w2)
           | (Inl e, (w2, c)) \<Rightarrow>
             (case removeRetiredContainerIDs dk (in_Containers c) w2 of
                (r1, w3) \<Rightarrow>
                  (case resumeContainerProcesses dk (in_Containers current) w3 of
                     (r2, w4) \<Rightarrow>
                       (Inl (if isl r1 \<or> isl r2 then Plain ''replacement failed; recovery also failed'' else e), w4)))))"

definition rollbackInstanceCutover :: "'w daemon \<Rightarrow> instanceCutover \<Rightarrow> ('w world, unit) act" where
  "rollbackInstanceCutover dk c =
     bnd (map_err (Wrap ''restore instance metadata'') (in_db (replaceInstanceRuntimeMetadata (old_inst c)))) (\<lambda>_.
     bnd (attempt (removeRetiredContainerIDs dk (in_Containers (cand_inst c)))) (\<lambda>r1.
     bnd (attempt (resumeContainerProcesses dk (in_Containers (old_inst c)))) (\<lambda>r2.
     if isl r1 \<or> isl r2 then raise (Plain ''cutover problems'') else ret ())))"

definition finishInstanceCutover :: "'w daemon \<Rightarrow> instanceCutover \<Rightarrow> ('w world, unit) act" where
  "finishInstanceCutover dk c = removeRetiredContainerIDs dk (in_Containers (old_inst c))"

section \<open>Recovery at startup\<close>

definition removeBrokenInstanceContainers :: "'w daemon \<Rightarrow> string list \<Rightarrow> ('w world, unit) act" where
  "removeBrokenInstanceContainers dk =
     join_all (\<lambda>c. map_err (Wrap ''remove broken instance container'') (unless_missing (ContainerRemove dk c)))"

definition removeBrokenInstance :: "'w daemon \<Rightarrow> InstanceMetadata \<Rightarrow> ('w world, unit) act" where
  "removeBrokenInstance dk i =
     bnd (removeBrokenInstanceContainers dk (in_Containers i)) (\<lambda>_.
     bnd (attempt (stopNetwork dk i)) (\<lambda>r.
     bnd (case r of
            Inr _ \<Rightarrow> ret ()
          | Inl e \<Rightarrow> map_err (\<lambda>e'. Join [e, e']) (in_db (retireNetwork (getNetworkName i)))) (\<lambda>_.
     in_db (removeInstanceMetadata (in_Id i)))))"

text \<open>The first loop: the errors, and the builds to restore without duplicates, both in order.\<close>

definition restore_step :: "BuildMetadata \<Rightarrow> err list \<Rightarrow> BuildMetadata list \<Rightarrow> err list \<times> BuildMetadata list" where
  "restore_step b errs todo =
     (if InstanceCount b \<ge> 0
      then (errs, if bd_Id b \<in> set (map bd_Id todo) then todo else todo @ [b])
      else if InstanceCount b = DYNAMIC_INSTANCES \<or> InstanceCount b = LOCKED then (errs, todo)
      else (errs @ [Plain ''invalid instance target''], todo))"

fun remove_broken :: "'w daemon \<Rightarrow> InstanceId list \<Rightarrow> err list \<Rightarrow> BuildMetadata list \<Rightarrow>
    'w world \<Rightarrow> (err list \<times> BuildMetadata list) \<times> 'w world" where
  "remove_broken dk [] errs todo w = ((errs, todo), w)"
| "remove_broken dk (i # is) errs todo w =
     (case bnd (in_db (lookupInstanceMetadata i)) (\<lambda>inst.
           bnd (in_db (lookupBuildMetadata (in_Build inst))) (\<lambda>b.
           bnd (map_err (Wrap ''remove broken instance'') (removeBrokenInstance dk inst)) (\<lambda>_.
           ret b))) w of
        (Inl e, w1) \<Rightarrow> remove_broken dk is (errs @ [e]) todo w1
      | (Inr b, w1) \<Rightarrow> (case restore_step b errs todo of (errs', todo') \<Rightarrow> remove_broken dk is errs' todo' w1))"

fun create_missing :: "('w world, InstanceId) act \<Rightarrow> nat \<Rightarrow> ('w world, unit) act" where
  "create_missing create 0 = ret ()"
| "create_missing create (Suc n) =
     bnd (map_err (Wrap ''restore capacity'') create) (\<lambda>_. create_missing create n)"

definition reconcileBrokenInstancesWith :: "'w daemon \<Rightarrow> (BuildMetadata \<Rightarrow> ('w world, InstanceId) act) \<Rightarrow>
    InstanceId list \<Rightarrow> ('w world, unit) act" where
  "reconcileBrokenInstancesWith dk create is w =
     (case remove_broken dk is [] [] w of
        ((errs, todo), w1) \<Rightarrow>
          (case each_collect (\<lambda>b. bnd (in_db (getBuildInstances (bd_Id b))) (\<lambda>have.
                create_missing (create b) (nat (InstanceCount b) - length have))) todo w1 of
             (errs', w2) \<Rightarrow> (joined (errs @ errs'), w2)))"

definition reconcileBrokenInstances :: "'w daemon \<Rightarrow> mgr \<Rightarrow> InstanceId list \<Rightarrow> ('w world, unit) act" where
  "reconcileBrokenInstances dk m = reconcileBrokenInstancesWith dk (newInstance dk m)"

definition appendUniqueInstanceID :: "InstanceId list \<Rightarrow> InstanceId \<Rightarrow> InstanceId list" where
  "appendUniqueInstanceID is i = (if i \<in> set is then is else is @ [i])"

text \<open>One tracked container: restarted if it is down; its instance is broken if it is missing.\<close>

definition check_tracked :: "'w daemon \<Rightarrow> string \<Rightarrow> ('w world, bool) act" where
  "check_tracked dk c =
     bnd (call (ContainerInspect dk c)) (\<lambda>r.
     case r of
       Inl NotFound \<Rightarrow> ret True
     | Inl e \<Rightarrow> raise (Wrap ''inspect tracked container'' (docker_err e))
     | Inr ins \<Rightarrow>
       (case in_State ins of
          None \<Rightarrow> raise (Plain ''Docker omitted runtime state'')
        | Some st \<Rightarrow>
          if st_Running st then ret False
          else bnd (call (ContainerStart dk c)) (\<lambda>r2.
            case r2 of
              Inl NotFound \<Rightarrow> ret True
            | Inl e \<Rightarrow> raise (Wrap ''restart tracked container'' (docker_err e))
            | Inr _ \<Rightarrow> ret False)))"

fun check_all_tracked :: "'w daemon \<Rightarrow> (InstanceId \<times> string) list \<Rightarrow> err list \<Rightarrow> InstanceId list \<Rightarrow>
    'w world \<Rightarrow> (err list \<times> InstanceId list) \<times> 'w world" where
  "check_all_tracked dk [] errs broken w = ((errs, broken), w)"
| "check_all_tracked dk ((i, c) # ts) errs broken w =
     (case check_tracked dk c w of
        (Inl e, w1) \<Rightarrow> check_all_tracked dk ts (errs @ [e]) broken w1
      | (Inr missing, w1) \<Rightarrow>
          check_all_tracked dk ts errs (if missing then appendUniqueInstanceID broken i else broken) w1)"

definition retire_networks :: "'w daemon \<Rightarrow> string list \<Rightarrow> 'w world \<Rightarrow> err list \<times> 'w world" where
  "retire_networks dk = each_collect (\<lambda>n.
     bnd (map_err (Wrap ''remove retired network'') (unless_missing (NetworkRemove dk n))) (\<lambda>_.
     in_db (forgetRetiredNetwork n)))"

definition retryRetiredResources :: "'w daemon \<Rightarrow> mgr \<Rightarrow> ('w world, unit) act" where
  "retryRetiredResources dk m w =
     (case attempt (bnd (in_db retiredContainerIDs) (removeRetiredContainerIDs dk)) w of
        (Inl _, w1) \<Rightarrow> (Inr (), w1)
      | (Inr r1, w1) \<Rightarrow>
      case in_db retiredNetworkNames w1 of (r2, w2) \<Rightarrow>
      case (case r2 of Inl e \<Rightarrow> ([e], w2) | Inr names \<Rightarrow> retire_networks dk names w2) of (es2, w3) \<Rightarrow>
      case in_db incompleteInstanceIDs w3 of (r3, w4) \<Rightarrow>
      case (case r3 of Inl e \<Rightarrow> ([e], []) | Inr is \<Rightarrow> ([], is)) of (es3, broken) \<Rightarrow>
      case in_db trackedContainers w4 of (r4, w5) \<Rightarrow>
      case (case r4 of Inl e \<Rightarrow> (([e], broken), w5)
            | Inr ts \<Rightarrow> check_all_tracked dk ts [] broken w5) of ((es4, broken'), w6) \<Rightarrow>
      case (if broken' \<noteq> [] then reconcileBrokenInstances dk m broken' w6 else (Inr (), w6)) of (r5, w7) \<Rightarrow>
      (joined (errors_of [r1] @ es2 @ es3 @ es4 @ errors_of [r5]), w7))"

end
