(* ===== verification/Tracking.thy ===== *)
theory Tracking
  imports Instances
begin

text \<open>
  No container of Docker is ever forgotten: whatever an operation does, a container it leaves alive
  is known to the database as active or as retired, so that startup recovery can find it. The
  theory states that once as the contract of an operation, shows how each way of building
  operations meets it, and instantiates it.
\<close>

definition tracked :: "tables \<Rightarrow> string set" where
  "tracked t = snd ` set (containers t) \<union> set (retiredContainers t)"

section \<open>Database calls that do not fail by themselves\<close>

definition sound :: "db \<Rightarrow> bool" where
  "sound d \<longleftrightarrow> faults d = [] \<and> constraints (tab d)"

definition calm :: "(db, 'a) act \<Rightarrow> bool" where
  "calm m \<longleftrightarrow> (\<forall>d. sound d \<longrightarrow> sound (snd (m d)))"

named_theorems calm_intros "operations that keep a sound database sound"

lemma calmD: "calm m \<Longrightarrow> sound d \<Longrightarrow> sound (snd (m d))"
  by (simp add: calm_def)

lemma tick_faults [simp]: "faults d = [] \<Longrightarrow> faults (tick d) = []"
  by (simp add: tick_def)

lemma calm_basic [calm_intros]:
  "calm (ret x)" "calm (raise e)" "calm (query f)" "calm (report y)" "calm (exec g)" "calm (update h)"
  by (auto simp: calm_def sound_def query_def report_def exec_def update_def split: prod.splits)

lemma calm_bnd [calm_intros]: "calm m \<Longrightarrow> (\<And>x. calm (f x)) \<Longrightarrow> calm (bnd m f)"
  unfolding calm_def by (intro allI impI, rule bnd_preserves) simp_all

lemma calm_map_err [calm_intros]: "calm m \<Longrightarrow> calm (map_err g m)"
  by (simp add: calm_def)

lemma calm_if [calm_intros]: "(P \<Longrightarrow> calm m) \<Longrightarrow> (\<not> P \<Longrightarrow> calm n) \<Longrightarrow> calm (if P then m else n)"
  by simp

lemma calm_list [calm_intros]:
  "calm m \<Longrightarrow> (\<And>x xs. calm (f x xs)) \<Longrightarrow> calm (case l of [] \<Rightarrow> m | x # xs \<Rightarrow> f x xs)"
  by (cases l) simp_all

lemma calm_option [calm_intros]:
  "calm m \<Longrightarrow> (\<And>x. calm (f x)) \<Longrightarrow> calm (case l of None \<Rightarrow> m | Some x \<Rightarrow> f x)"
  by (cases l) simp_all

lemma calm_sum [calm_intros]:
  "(\<And>x. calm (f x)) \<Longrightarrow> (\<And>x. calm (g x)) \<Longrightarrow> calm (case l of Inl x \<Rightarrow> f x | Inr y \<Rightarrow> g y)"
  by (cases l) simp_all

lemma calm_each [calm_intros]: "(\<And>x. calm (f x)) \<Longrightarrow> calm (each f xs)"
  by (induction xs) (simp_all add: calm_intros)

lemma calm_transaction [calm_intros]:
  assumes "calm body"
  shows "calm (withTransaction body)"
  unfolding calm_def
proof (intro allI impI)
  fix d
  assume d: "sound d"
  obtain r d2 where b: "body d = (r, d2)" by fastforce
  have d2: "sound d2" using calmD [OF assms d] b by simp
  have "faults d = []" "faults d2 = []" using d d2 by (simp_all add: sound_def)
  note c = report_calm [OF this(1)] report_calm [OF this(2)]
  show "sound (snd (withTransaction body d))"
    using d d2 by (cases r) (simp_all add: withTransaction_def c b sound_def)
qed

lemma calm_read [calm_intros]:
  assumes "calm body"
  shows "calm (readTransaction body)"
  unfolding calm_def
proof (intro allI impI)
  fix d
  assume d: "sound d"
  obtain r d2 where b: "body d = (r, d2)" by fastforce
  have d2: "sound d2" using calmD [OF assms d] b by simp
  have "faults d = []" "faults d2 = []" using d d2 by (simp_all add: sound_def)
  note c = report_calm [OF this(1)] report_calm [OF this(2)]
  show "sound (snd (readTransaction body d))"
    using d2 by (cases r) (simp_all add: readTransaction_def c b)
qed

lemma calm_load_ports: "sound d \<Longrightarrow> snd (load_ports is d) = d"
  using load_ports_calm [of d "is"] by (simp add: sound_def)

lemma calm_lookupBuild [calm_intros]: "calm (lookupBuildMetadata b)"
proof -
  have "calm (\<lambda>d. case load_ports is d of
      ((Some e, _), d') \<Rightarrow> (Inl e, d') | ((None, ims), d') \<Rightarrow> (Inr (g ims), d'))" for "is" and g :: "Image list \<Rightarrow> BuildMetadata"
    unfolding calm_def
  proof (intro allI impI)
    fix d
    assume d: "sound d"
    obtain e ims d' where l: "load_ports is d = ((e, ims), d')" by (metis prod.exhaust)
    have "d' = d" using calm_load_ports [OF d, of "is"] l by simp
    then show "sound (snd (case load_ports is d of
      ((Some e, _), d') \<Rightarrow> (Inl e, d') | ((None, ims), d') \<Rightarrow> (Inr (g ims), d')))"
      using d l by (cases e) simp_all
  qed
  then show ?thesis unfolding lookupBuildMetadata_def
    by (intro calm_read calm_bnd calm_list calm_basic)
qed

lemma calm_lookups [calm_intros]:
  "calm (lookupInstanceMetadata i)" "calm (lookupChallengeMetadata hash parse c)"
  unfolding lookupInstanceMetadata_def lookupChallengeMetadata_def
  by (intro calm_read calm_bnd calm_list calm_basic calm_sum)+

lemma calm_instance_ops [calm_intros]:
  "calm (openInstance m)" "calm (finalizeInstance m)" "calm (replaceInstanceRuntimeMetadata m)"
  "calm (removeContainerMetadata i c)" "calm (removeInstancePorts i)" "calm (retireContainer c)"
  "calm (forgetRetiredContainer c)" "calm (retireNetwork n)" "calm (forgetRetiredNetwork n)"
  "calm (removeInstanceMetadata i)"
  by (simp_all add: openInstance_def finalizeInstance_def replaceInstanceRuntimeMetadata_def track_container_def
      removeContainerMetadata_def removeInstancePorts_def retireContainer_def forgetRetiredContainer_def
      retireNetwork_def forgetRetiredNetwork_def removeInstanceMetadata_def Let_def calm_intros)

text \<open>A statement that keeps the constraints succeeds on a sound database.\<close>

lemma sound_update:
  "sound d \<Longrightarrow> constraints (f (tab d)) \<Longrightarrow> update f d = (Inr (), d\<lparr>tab := f (tab d)\<rparr>)"
  by (simp add: sound_def update_calm)

lemma retire_succeeds:
  assumes "sound d"
  shows "retireContainer c d = (Inr (), d\<lparr>tab := retire c (tab d)\<rparr>)"
proof -
  have "constraints (retire c (tab d))"
    using assms by (simp add: sound_def retire_def constraint_defs)
  then show ?thesis using assms by (simp add: retireContainer_def sound_update)
qed

section \<open>What operations do to the tracked containers\<close>

lemma tracked_retire [simp]: "tracked (retire c t) = insert c (tracked t)"
  by (auto simp: tracked_def retire_def)

lemma tracked_unretire: "tracked t - {c} \<subseteq> tracked (unretire c t)"
  by (auto simp: tracked_def unretire_def)

lemma finalizeInstance_tracked:
  assumes "finalizeInstance m d = (r, d')"
  shows "tracked (tab d) \<subseteq> tracked (tab d')"
proof (cases r)
  case (Inl e)
  then show ?thesis using fi.atomic [of m d e d'] assms by simp
next
  case (Inr u)
  obtain d0 d1 d2 v where s: "tab d0 = tab d" "tab d' = tab d2"
      "each (\<lambda>np. map_err (Wrap ''could not record port'') (update (insert_port (in_Id m) np))) (in_Ports m) d0 = (Inr v, d1)"
      "each (\<lambda>c. map_err (Wrap ''could not record container'') (track_container (in_Id m) c)) (in_Containers m) d1 = (Inr u, d2)"
    using assms unfolding Inr finalizeInstance_def by (elim withTransaction_Inr bnd_InrE)
  have 1: "tab d1 = fold (insert_port (in_Id m)) (in_Ports m) (tab d0)"
    by (rule each_effect [OF s(3)]) (auto dest: update_Inr)
  have 2: "tab d2 = fold (\<lambda>c t. insert_container (in_Id m) c (unretire c t)) (in_Containers m) (tab d1)"
    by (rule each_effect [OF s(4)]) (auto dest: track_Inr)
  have p: "tracked (fold (insert_port i) ps t) = tracked t" for i ps t
    by (induction ps arbitrary: t) (simp_all add: insert_port_def tracked_def)
  have "tracked (tab d1) = tracked (tab d)" using 1 s(1) p by simp
  moreover have "tracked (tab d2) = snd ` set (containers (tab d1)) \<union> set (in_Containers m) \<union>
      (set (retiredContainers (tab d1)) - set (in_Containers m))"
    unfolding 2 by (auto simp: fold_track tracked_def image_Un image_image)
  ultimately show ?thesis using s(2) by (auto simp: tracked_def)
qed

lemma replaceRuntime_tracked:
  assumes "replaceInstanceRuntimeMetadata m d = (r, d')"
  shows "tracked (tab d) \<subseteq> tracked (tab d')"
proof (cases r)
  case (Inl e)
  then show ?thesis using rr.atomic [of m d e d'] assms by simp
next
  case (Inr u)
  obtain rs where e: "tab d' = (tab d)\<lparr>
      portAssignments := filter (\<lambda>r. fst r \<noteq> in_Id m) (portAssignments (tab d)) @
        map (\<lambda>np. (in_Id m, fst np, snd np)) (in_Ports m),
      containers := filter (\<lambda>r. fst r \<noteq> in_Id m) (containers (tab d)) @ map (Pair (in_Id m)) (in_Containers m),
      retiredContainers := rs\<rparr>"
    "set rs = (set (retiredContainers (tab d)) \<union> set (instance_containers (in_Id m) (tab d))) -
       set (in_Containers m)"
    using assms unfolding Inr by (rule replace_effect)
  have "tracked (tab d') = snd ` set (filter (\<lambda>r. fst r \<noteq> in_Id m) (containers (tab d))) \<union>
      set (in_Containers m) \<union> set rs"
    unfolding e(1) by (simp add: tracked_def image_Un image_image)
  moreover have "snd ` set (containers (tab d)) \<subseteq>
      snd ` set (filter (\<lambda>r. fst r \<noteq> in_Id m) (containers (tab d))) \<union> set (instance_containers (in_Id m) (tab d))"
    by (force simp: instance_containers_def)
  ultimately show ?thesis using e(2) by (auto simp: tracked_def)
qed

text \<open>What a database call may drop: only containers of \<open>C\<close>, and it starts tracking none as active.\<close>

definition forgets :: "string set \<Rightarrow> (db, 'a) act \<Rightarrow> bool" where
  "forgets C m \<longleftrightarrow> calm m \<and> (\<forall>d. tracked (tab d) - C \<subseteq> tracked (tab (snd (m d))) \<and>
     set (containers (tab (snd (m d)))) \<subseteq> set (containers (tab d)))"

named_theorems forgets_intros "what database calls may drop"

lemma forgets_reads [forgets_intros]: "calm m \<Longrightarrow> reads_only m \<Longrightarrow> forgets C m"
  by (simp add: forgets_def reads_only_def)

lemma forgets_update:
  assumes "\<And>t. tracked t - C \<subseteq> tracked (f t)" "\<And>t. set (containers (f t)) \<subseteq> set (containers t)"
  shows "forgets C (update f)"
proof -
  have "tab (snd (update f d)) = tab d \<or> tab (snd (update f d)) = f (tab d)" for d
    by (auto simp: update_def exec_def split: prod.splits)
  then show ?thesis unfolding forgets_def using assms
    by (metis calm_basic(6) Diff_subset order_refl)
qed

lemma forgets_bnd_report [forgets_intros]: "forgets C m \<Longrightarrow> forgets C (bnd m (\<lambda>_. report ()))"
  by (simp add: forgets_def calm_intros snd_bnd_reads reads_intros)

lemma forgets_statements [forgets_intros]:
  "forgets C (retireContainer c)" "forgets C (retireNetwork n)" "forgets C (forgetRetiredNetwork n)"
  "forgets C (removeInstancePorts i)" "c \<in> C \<Longrightarrow> forgets C (forgetRetiredContainer c)"
  "c \<in> C \<Longrightarrow> forgets C (removeContainerMetadata i c)"
  unfolding retireContainer_def retireNetwork_def forgetRetiredNetwork_def removeInstancePorts_def
    forgetRetiredContainer_def removeContainerMetadata_def
proof -
  show "forgets C (update (retire c))" by (rule forgets_update) (auto simp: tracked_def retire_def)
  show "forgets C (update (\<lambda>t. if n \<in> set (retiredNetworks t) then t
      else t\<lparr>retiredNetworks := retiredNetworks t @ [n]\<rparr>))" by (rule forgets_update) (auto simp: tracked_def)
  show "forgets C (update (\<lambda>t. t\<lparr>retiredNetworks := filter (\<lambda>x. x \<noteq> n) (retiredNetworks t)\<rparr>))"
    by (rule forgets_update) (auto simp: tracked_def)
  show "forgets C (update (clear_ports i))" by (rule forgets_update) (auto simp: tracked_def clear_ports_def)
  show "forgets C (update (unretire c))" if "c \<in> C"
    using that by (intro forgets_update) (auto simp: tracked_def unretire_def)
  show "forgets C (bnd (update (\<lambda>t. t\<lparr>containers := filter (\<lambda>r. r \<noteq> (i, c)) (containers t)\<rparr>)) (\<lambda>_. report ()))"
    if "c \<in> C"
    using that by (intro forgets_bnd_report forgets_update) (auto simp: tracked_def image_iff)
qed

lemma reads_case_sum [reads_intros]:
  "(\<And>x. reads_only (f x)) \<Longrightarrow> (\<And>y. reads_only (g y)) \<Longrightarrow> reads_only (case l of Inl x \<Rightarrow> f x | Inr y \<Rightarrow> g y)"
  by (cases l) simp_all

lemma forgets_lookups [forgets_intros]:
  "forgets C (lookupInstanceMetadata i)" "forgets C (lookupBuildMetadata b)"
  "forgets C (lookupChallengeMetadata hash parse c)" "forgets C (query f)"
proof -
  show "forgets C (lookupInstanceMetadata i)"
    by (rule forgets_reads, rule calm_intros) (auto simp: lookupInstanceMetadata_def intro!: reads_intros)
  show "forgets C (lookupBuildMetadata b)" by (rule forgets_reads, rule calm_intros, rule reads_intros)
  show "forgets C (lookupChallengeMetadata hash parse c)"
    unfolding lookupChallengeMetadata_def
    by (intro forgets_reads calm_intros reads_intros)
  show "forgets C (query f)" by (intro forgets_reads calm_intros reads_intros)
qed

section \<open>Containers are tracked\<close>

text \<open>
  \<open>A\<close>: containers that are not the program's. \<open>R\<close>: the rows the table of active containers may
  have. \<open>G\<close>: containers known to be gone.
\<close>

definition safe :: "('w \<Rightarrow> string set) \<Rightarrow> string set \<Rightarrow> (InstanceId \<times> string) set \<Rightarrow> string set \<Rightarrow> 'w world \<Rightarrow> bool" where
  "safe alive A R G w \<longleftrightarrow> sound (wdb w) \<and> alive (dock w) \<subseteq> A \<union> tracked (tab (wdb w)) \<and>
     set (containers (tab (wdb w))) \<subseteq> R \<and> alive (dock w) \<inter> G = {}"

lemma safe_weaken: "safe alive A R G w \<Longrightarrow> R \<subseteq> R' \<Longrightarrow> G' \<subseteq> G \<Longrightarrow> safe alive A R' G' w"
  by (auto simp: safe_def)

lemma maintains_in_db [maintains_intros]:
  assumes "forgets G m"
  shows "maintains (safe alive A R G) (in_db m)"
  unfolding maintains_def
proof (intro allI impI)
  fix w
  assume w: "safe alive A R G w"
  let ?t = "tab (wdb w)" and ?t' = "tab (snd (m (wdb w)))"
  have f: "sound (snd (m (wdb w)))" "tracked ?t - G \<subseteq> tracked ?t'" "set (containers ?t') \<subseteq> set (containers ?t)"
    using assms w calmD [of m "wdb w"] by (simp_all add: forgets_def safe_def)
  then show "safe alive A R G (snd (in_db m w))" using f w by (auto simp: safe_def)
qed

lemma maintains_call:
  assumes "\<And>k. alive (snd (f k)) \<subseteq> alive k"
  shows "maintains (safe alive A R G) (call f)"
  unfolding maintains_def using assms by (auto simp: safe_def) blast+

lemma maintains_must [maintains_intros]:
  "maintains (safe alive A R G) (call f) \<Longrightarrow> maintains (safe alive A R G) (must f)"
  unfolding must_def by (intro maintains_intros)

lemma maintains_unless_missing [maintains_intros]:
  "maintains (safe alive A R G) (call f) \<Longrightarrow> maintains (safe alive A R G) (unless_missing f)"
  unfolding unless_missing_def by (intro maintains_intros)

lemma maintains_host [maintains_intros]:
  "maintains (safe alive A R G) (host_call what)" "maintains (safe alive A R G) draw"
  by (auto simp: maintains_def safe_def host_call_def draw_def Let_def)

lemma remove_law:
  "container_laws dk alive \<Longrightarrow> case ContainerRemove dk c k of
      (Inr _, k') \<Rightarrow> alive k' = alive k - {c}
    | (Inl NotFound, k') \<Rightarrow> c \<notin> alive k \<and> alive k' = alive k
    | (Inl (Rejected _), k') \<Rightarrow> alive k' = alive k"
  unfolding container_laws_def by (drule conjunct2, drule conjunct1, drule spec, drule spec, assumption)

lemma create_law:
  "container_laws dk alive \<Longrightarrow> case ContainerCreate dk sp k of
      (Inr c, k') \<Rightarrow> c \<notin> alive k \<and> alive k' = insert c (alive k)
    | (Inl _, k') \<Rightarrow> alive k' = alive k"
  unfolding container_laws_def by (drule conjunct1, drule spec, drule spec, assumption)

lemma alive_remove:
  assumes "container_laws dk alive" "ContainerRemove dk c k = (r, k')"
  shows "alive k' \<subseteq> alive k" "r = Inr u \<or> r = Inl NotFound \<Longrightarrow> c \<notin> alive k'"
  using remove_law [OF assms(1), of c k] unfolding assms(2)
  by (auto split: sum.splits docker_error.splits)

lemma alive_calls:
  assumes "container_laws dk alive"
  shows "alive (snd (ContainerRemove dk c k)) \<subseteq> alive k" "alive (snd (ContainerStart dk c k)) \<subseteq> alive k"
    "alive (snd (ContainerStop dk c k)) \<subseteq> alive k" "alive (snd (ContainerInspect dk c k)) \<subseteq> alive k"
    "alive (snd (CopyFromContainer dk c k)) \<subseteq> alive k" "alive (snd (NetworkCreate dk n b k)) \<subseteq> alive k"
    "alive (snd (NetworkRemove dk n k)) \<subseteq> alive k" "alive (snd (ImageRemove dk n k)) \<subseteq> alive k"
    "alive (snd (ImageInspect dk n k)) \<subseteq> alive k" "alive (snd (ImageTag dk n n' k)) \<subseteq> alive k"
    "alive (snd (ImageList dk k)) \<subseteq> alive k" "alive (snd (ImageBuild dk ib k)) \<subseteq> alive k"
    "alive (snd (ImagePull dk n k)) \<subseteq> alive k" "alive (snd (ImagePush dk n k)) \<subseteq> alive k"
    "alive (snd (Info dk k)) \<subseteq> alive k"
proof -
  obtain r k' where r: "ContainerRemove dk c k = (r, k')" by fastforce
  show "alive (snd (ContainerRemove dk c k)) \<subseteq> alive k" using alive_remove(1) [OF assms r] r by simp
qed (use assms in \<open>simp_all only: container_laws_def order_refl\<close>)

lemma maintains_calls:
  assumes "container_laws dk alive"
  shows "maintains (safe alive A R G) (call (ContainerRemove dk c))"
    "maintains (safe alive A R G) (call (ContainerStart dk c))"
    "maintains (safe alive A R G) (call (ContainerStop dk c))"
    "maintains (safe alive A R G) (call (ContainerInspect dk c))"
    "maintains (safe alive A R G) (call (CopyFromContainer dk c))"
    "maintains (safe alive A R G) (call (NetworkCreate dk n b))"
    "maintains (safe alive A R G) (call (NetworkRemove dk n))"
    "maintains (safe alive A R G) (call (ImageRemove dk n))"
    "maintains (safe alive A R G) (call (ImageInspect dk n))"
    "maintains (safe alive A R G) (call (ImageTag dk n n'))"
    "maintains (safe alive A R G) (call (ImageList dk))"
    "maintains (safe alive A R G) (call (ImageBuild dk ib))"
    "maintains (safe alive A R G) (call (ImagePull dk n))"
    "maintains (safe alive A R G) (call (ImagePush dk n))"
    "maintains (safe alive A R G) (call (Info dk))"
  by (rule maintains_call, rule alive_calls [OF assms])+

text \<open>Removing a container successfully makes it gone; what comes next may then forget it.\<close>

lemma finishes_remove:
  assumes "container_laws dk alive"
  shows "finishes (safe alive A R G) (safe alive A R (insert c G)) (map_err g (unless_missing (ContainerRemove dk c)))"
  unfolding finishes_def
proof (intro allI impI)
  fix w r w'
  assume w: "safe alive A R G w" and m: "map_err g (unless_missing (ContainerRemove dk c)) w = (r, w')"
  obtain q k' where q: "ContainerRemove dk c (dock w) = (q, k')" by fastforce
  note a = alive_remove [OF assms q]
  have w': "w' = w\<lparr>dock := k'\<rparr>" and r: "isl r \<longleftrightarrow> (\<exists>e. q = Inl (Rejected e))"
    using m by (auto simp: map_err_def unless_missing_def bnd_def call_def q split: sum.splits docker_error.splits)
  show "case r of Inl _ \<Rightarrow> safe alive A R G w' | Inr _ \<Rightarrow> safe alive A R (insert c G) w'"
  proof (cases "\<exists>e. q = Inl (Rejected e)")
    case True
    then show ?thesis using r w a(1) w' by (cases r) (auto simp: safe_def)
  next
    case False
    then have "c \<notin> alive k'" using a(2) by (cases q; cases "projl q") auto
    moreover have "\<not> isl r" using False r by blast
    ultimately show ?thesis using w a(1) w' by (cases r) (auto simp: safe_def)
  qed
qed

lemma finishes_then:
  assumes "finishes P Q m" "\<And>x. maintains Q (f x)" "\<And>s. Q s \<Longrightarrow> P s"
  shows "maintains P (bnd m f)"
  unfolding maintains_def
proof (intro allI impI)
  fix s
  assume P: "P s"
  obtain r s1 where m: "m s = (r, s1)" by fastforce
  have "case r of Inl _ \<Rightarrow> P s1 | Inr _ \<Rightarrow> Q s1" using assms(1) P m unfolding finishes_def by blast
  then show "P (snd (bnd m f s))" using m assms(2,3) by (cases r) (auto simp: bnd_def maintains_def)
qed

lemma maintains_removeRetired [maintains_intros]:
  assumes "container_laws dk alive"
  shows "maintains (safe alive A R G) (removeRetiredContainerIDs dk cs)"
  unfolding removeRetiredContainerIDs_def
proof (intro maintains_join_all finishes_then [OF finishes_remove [OF assms]])
  show "maintains (safe alive A R (insert c G)) (map_err g (in_db (forgetRetiredContainer c)))" for c g
    by (intro maintains_intros forgets_intros) simp
qed (auto intro: safe_weaken)

lemma finishes_stop_one:
  assumes "container_laws dk alive"
  shows "finishes (safe alive A R G) (safe alive A R (insert c G)) (stop_one dk i c)"
proof -
  let ?m = "\<lambda>_ :: unit. bnd (map_err (Wrap ''forget container'') (in_db (removeContainerMetadata i c)))
      (\<lambda>_. map_err (Wrap ''forget pending container'') (in_db (forgetRetiredContainer c)))"
  have k: "maintains (safe alive A R (insert c G)) (?m x)" for x
    by (intro maintains_intros forgets_intros) simp_all
  show ?thesis unfolding finishes_def
  proof (intro allI impI)
    fix w r w'
    assume w: "safe alive A R G w" and m: "stop_one dk i c w = (r, w')"
    obtain q w1 where q: "map_err (Wrap ''remove container'') (unless_missing (ContainerRemove dk c)) w = (q, w1)"
      by fastforce
    have f: "case q of Inl _ \<Rightarrow> safe alive A R G w1 | Inr _ \<Rightarrow> safe alive A R (insert c G) w1"
      using finishes_remove [OF assms] w q unfolding finishes_def by blast
    show "case r of Inl _ \<Rightarrow> safe alive A R G w' | Inr _ \<Rightarrow> safe alive A R (insert c G) w'"
    proof (cases q)
      case (Inl e)
      then show ?thesis using m q f by (auto simp: stop_one_def bnd_def)
    next
      case (Inr u)
      then have "?m () w1 = (r, w')" using m q by (simp add: stop_one_def bnd_def)
      then have "safe alive A R (insert c G) w'" using maintainsD [OF k] f Inr by auto
      then show ?thesis by (cases r) (auto intro: safe_weaken)
    qed
  qed
qed

lemma stop_each_safe:
  assumes "container_laws dk alive" "safe alive A R G w" "stop_each dk i cs w = ((es, rem), w')"
  shows "safe alive A R (G \<union> (set cs - set rem)) w' \<and> (es = [] \<longleftrightarrow> rem = []) \<and> set rem \<subseteq> set cs"
  using assms(2,3)
proof (induction cs arbitrary: G w es rem w')
  case (Cons c cs)
  obtain q w1 where q: "stop_one dk i c w = (q, w1)" by fastforce
  have f: "case q of Inl _ \<Rightarrow> safe alive A R G w1 | Inr _ \<Rightarrow> safe alive A R (insert c G) w1"
    using finishes_stop_one [OF assms(1)] Cons.prems(1) q unfolding finishes_def by blast
  obtain es1 rem1 w2 where r: "stop_each dk i cs w1 = ((es1, rem1), w2)" by (metis prod.exhaust)
  show ?case
  proof (cases q)
    case (Inl e)
    then have "safe alive A R (G \<union> (set cs - set rem1)) w2 \<and> (es1 = [] \<longleftrightarrow> rem1 = []) \<and> set rem1 \<subseteq> set cs"
      using Cons.IH [OF _ r] f by simp
    then show ?thesis using Cons.prems(2) q r Inl by (auto intro: safe_weaken)
  next
    case (Inr u)
    then have "safe alive A R (insert c G \<union> (set cs - set rem1)) w2 \<and> (es1 = [] \<longleftrightarrow> rem1 = []) \<and> set rem1 \<subseteq> set cs"
      using Cons.IH [where G = "insert c G", OF _ r] f Inr by simp
    then show ?thesis using Cons.prems(2) q r Inr by (auto intro: safe_weaken)
  qed
qed simp

section \<open>Starting\<close>

definition held :: "('w \<Rightarrow> string set) \<Rightarrow> string set \<Rightarrow> (InstanceId \<times> string) set \<Rightarrow> InstanceId \<Rightarrow> 'w st \<Rightarrow> bool" where
  "held alive A R i0 s \<longleftrightarrow> safe alive A R {} (fst s) \<and> in_Id (snd s) = i0"

lemma maintains_on_world [maintains_intros]:
  "maintains (safe alive A R {}) m \<Longrightarrow> maintains (held alive A R i0) (on_world m)"
  by (auto simp: maintains_def held_def on_world_def split: prod.splits)

lemma maintains_on_instance [maintains_intros]:
  "(\<And>i. in_Id (f i) = in_Id i) \<Longrightarrow> maintains (held alive A R i0) (on_instance f)"
  by (simp add: maintains_def held_def on_instance_def)

lemma maintains_with_instance [maintains_intros]:
  "(\<And>i. in_Id i = i0 \<Longrightarrow> maintains (held alive A R i0) (f i)) \<Longrightarrow> maintains (held alive A R i0) (with_instance f)"
  by (simp add: maintains_def with_instance_def held_def)

lemma create_safe:
  assumes "container_laws dk alive" "safe alive A R {} w" "create_container dk sp w = (r, w')"
  shows "safe alive (case r of Inl _ \<Rightarrow> A | Inr c \<Rightarrow> insert c A) R {} w'"
proof -
  have one: "safe alive (case q of Inl _ \<Rightarrow> A | Inr c \<Rightarrow> insert c A) R {} (w\<lparr>dock := k\<rparr>)"
    if "safe alive A R {} w" "ContainerCreate dk sp (dock w) = (q, k)" for q k sp w
    using create_law [OF assms(1), where sp = sp and k = "dock w"] that by (cases q) (auto simp: safe_def)
  obtain q k where q: "ContainerCreate dk sp (dock w) = (q, k)" by fastforce
  note s1 = one [OF assms(2) q]
  show ?thesis
  proof (cases q)
    case (Inr c)
    then show ?thesis using assms(3) s1 by (auto simp: create_container_def bnd_def call_def q)
  next
    case (Inl e)
    let ?sp = "sp\<lparr>cs_StorageOpt := None\<rparr>" and ?w = "w\<lparr>dock := k, diskQuotasEnabled := False\<rparr>"
    show ?thesis
    proof (cases "cs_StorageOpt sp \<noteq> None \<and> unsupportedStorageQuotaError e")
      case False
      then show ?thesis using assms(3) s1 Inl by (auto simp: create_container_def bnd_def call_def q)
    next
      case True
      obtain q2 k2 where q2: "ContainerCreate dk ?sp k = (q2, k2)" by fastforce
      have "safe alive A R {} ?w" using s1 Inl by (simp add: safe_def)
      then have "safe alive (case q2 of Inl _ \<Rightarrow> A | Inr c \<Rightarrow> insert c A) R {} (?w\<lparr>dock := k2\<rparr>)"
        using one [where w = ?w and sp = ?sp and q = q2 and k = k2] q2 by simp
      moreover have "w' = ?w\<lparr>dock := k2\<rparr>" "r = (case q2 of Inl x \<Rightarrow> Inl (docker_err x) | Inr c \<Rightarrow> Inr c)"
        using assms(3) True Inl by (cases q2; simp add: create_container_def bnd_def call_def must_def q q2)+
      ultimately show ?thesis by (cases q2) simp_all
    qed
  qed
qed

text \<open>Creating a container and retiring it at once, whatever comes next.\<close>

lemma create_then_retire:
  assumes "container_laws dk alive" "safe alive A R {} w" "create_container dk sp w = (Inr cid, w1)"
  obtains w2 where "in_db (retireContainer cid) w1 = (Inr (), w2)" "safe alive A R {} w2"
proof
  let ?w2 = "w1\<lparr>wdb := (wdb w1)\<lparr>tab := retire cid (tab (wdb w1))\<rparr>\<rparr>"
  have c: "safe alive (insert cid A) R {} w1" using create_safe [OF assms] by simp
  then have so: "sound (wdb w1)" by (simp add: safe_def)
  note rt = retire_succeeds [OF so, of cid]
  show "in_db (retireContainer cid) w1 = (Inr (), ?w2)" by (simp add: in_db_def rt)
  have "sound (wdb ?w2)" using calmD [OF calm_instance_ops(6) so, of cid] rt by simp
  then show "safe alive A R {} ?w2" using c by (auto simp: safe_def retire_def tracked_def split: if_splits)
qed

lemma maintains_create [maintains_intros]:
  assumes "container_laws dk alive" "\<And>c. maintains (safe alive A R {}) (rest c)"
  shows "maintains (safe alive A R {})
    (bnd (create_container dk sp) (\<lambda>cid. bnd (map_err g (in_db (retireContainer cid))) (\<lambda>_. rest cid)))"
  unfolding maintains_def
proof (intro allI impI)
  fix w
  assume w: "safe alive A R {} w"
  obtain r w1 where r: "create_container dk sp w = (r, w1)" by fastforce
  show "safe alive A R {} (snd (bnd (create_container dk sp)
      (\<lambda>cid. bnd (map_err g (in_db (retireContainer cid))) (\<lambda>_. rest cid)) w))"
  proof (cases r)
    case (Inl e)
    then show ?thesis using r create_safe [OF assms(1) w r] by (simp add: bnd_def)
  next
    case (Inr cid)
    obtain w2 where "in_db (retireContainer cid) w1 = (Inr (), w2)" "safe alive A R {} w2"
      using create_then_retire [OF assms(1) w r [unfolded Inr]] .
    then show ?thesis using r Inr assms(2) [of cid] by (simp add: bnd_def map_err_def maintains_def)
  qed
qed

lemma held_create [maintains_intros]:
  assumes "container_laws dk alive" "\<And>c. maintains (held alive A R i0) (rest c)" "\<And>c i. in_Id (f c i) = in_Id i"
  shows "maintains (held alive A R i0) (bnd (on_world (create_container dk sp)) (\<lambda>cid. bnd (on_instance (f cid)) (\<lambda>_.
    bnd (on_world (map_err g (in_db (retireContainer cid)))) (\<lambda>_. rest cid))))"
  unfolding maintains_def
proof (intro allI impI)
  fix s
  assume s: "held alive A R i0 s"
  obtain w i where wi: "s = (w, i)" by fastforce
  obtain r w1 where r: "create_container dk sp w = (r, w1)" by fastforce
  have w: "safe alive A R {} w" "in_Id i = i0" using s wi by (simp_all add: held_def)
  show "held alive A R i0 (snd (bnd (on_world (create_container dk sp)) (\<lambda>cid. bnd (on_instance (f cid)) (\<lambda>_.
    bnd (on_world (map_err g (in_db (retireContainer cid)))) (\<lambda>_. rest cid))) s))"
  proof (cases r)
    case (Inl e)
    then show ?thesis using r create_safe [OF assms(1) w(1) r] w(2)
      by (simp add: bnd_def on_world_def wi held_def)
  next
    case (Inr cid)
    obtain w2 where w2: "in_db (retireContainer cid) w1 = (Inr (), w2)" "safe alive A R {} w2"
      using create_then_retire [OF assms(1) w(1) r [unfolded Inr]] .
    have "held alive A R i0 (w2, f cid i)" using w2(2) w(2) assms(3) by (simp add: held_def)
    then have "held alive A R i0 (snd (rest cid (w2, f cid i)))" using assms(2) [of cid] by (simp add: maintains_def)
    then show ?thesis using r Inr w2(1)
      by (simp add: bnd_def map_err_def on_world_def on_instance_def wi)
  qed
qed

lemma maintains_publish [maintains_intros]:
  "maintains (safe alive A R G) (publish_ports m rpm ip preferred host ps)"
proof (induction ps)
  case (Cons p ps)
  have "forgets G (selectHostPort rng r n pref)" for rng r n pref
  proof (rule forgets_reads)
    show "calm (selectHostPort rng r n pref)"
      unfolding selectHostPort_def getFreePort_def usedPortSet_def Let_def
      by (cases "map_of pref n"; cases rng) (simp_all add: calm_intros split: option.split)
    show "reads_only (selectHostPort rng r n pref)"
      unfolding selectHostPort_def getFreePort_def usedPortSet_def Let_def
      by (cases "map_of pref n"; cases rng) (auto simp: reads_intros split: option.split intro!: reads_intros)
  qed
  then show ?case unfolding publish_ports.simps by (intro maintains_intros Cons)
qed (simp only: publish_ports.simps maintains_ret)

lemma maintains_await [maintains_intros]:
  assumes "container_laws dk alive"
  shows "maintains (safe alive A R G) (await_ports dk cid expected n)"
proof (induction n)
  case (Suc n)
  then show ?case unfolding await_ports.simps by (intro maintains_intros maintains_calls [OF assms])
qed (simp only: await_ports.simps maintains_ret)

lemma maintains_spec_of [maintains_intros]:
  assumes "container_laws dk alive"
  shows "maintains (safe alive A R G) (spec_of dk m b opts net host published)"
proof -
  have "maintains (safe alive A R G) (\<lambda>w. (f w, w))" for f :: "'a world \<Rightarrow> err + container_spec"
    by (simp add: maintains_def)
  then show ?thesis unfolding spec_of_def Let_def
    by (intro maintains_intros maintains_calls [OF assms])
qed

lemma maintains_start_image [maintains_intros]:
  assumes "container_laws dk alive"
  shows "maintains (held alive A R i0) (start_image dk m b opts preferred rpm ip im)"
  unfolding start_image_def
  by (intro maintains_intros maintains_calls assms) simp_all

text \<open>The last step: the instance becomes active, or nothing changes.\<close>

lemma finishes_in_db:
  assumes "calm m" "\<And>d e d'. m d = (Inl e, d') \<Longrightarrow> tab d' = tab d"
    "\<And>d r d'. m d = (r, d') \<Longrightarrow> tracked (tab d) \<subseteq> tracked (tab d')"
  shows "finishes (held alive A R i0) (held alive A UNIV i0) (on_world (in_db m))"
  unfolding finishes_def
proof (intro allI impI)
  fix s r s'
  assume s: "held alive A R i0 s" and m: "on_world (in_db m) s = (r, s')"
  obtain w i where wi: "s = (w, i)" by fastforce
  obtain d' where d: "m (wdb w) = (r, d')" "s' = (w\<lparr>wdb := d'\<rparr>, i)"
    using m wi by (auto simp: on_world_def in_db_def split: prod.splits)
  have "sound d'" using calmD [OF assms(1), of "wdb w"] s wi d by (simp add: held_def safe_def)
  then show "case r of Inl _ \<Rightarrow> held alive A R i0 s' | Inr _ \<Rightarrow> held alive A UNIV i0 s'"
    using assms(2) [of "wdb w" "projl r" d'] assms(3) [OF d(1)] s wi d
    by (cases r) (auto simp: held_def safe_def)
qed

lemma finishes_start_body:
  assumes "container_laws dk alive"
  shows "finishes (held alive A R i0) (held alive A UNIV i0) (start_body dk m b opts persist preferred rpm)"
proof -
  have "finishes (held alive A R i0) (held alive A UNIV i0) (with_instance (\<lambda>i. on_world (in_db
      (if persist then finalizeInstance i else replaceInstanceRuntimeMetadata i))))"
  proof -
    have "finishes (held alive A R i0) (held alive A UNIV i0) (on_world (in_db
      (if persist then finalizeInstance i else replaceInstanceRuntimeMetadata i)))" for i
    proof (rule finishes_in_db)
      show "calm (if persist then finalizeInstance i else replaceInstanceRuntimeMetadata i)"
        by (simp add: calm_intros)
      show "(if persist then finalizeInstance i else replaceInstanceRuntimeMetadata i) d = (Inl e, d') \<Longrightarrow>
        tab d' = tab d" for d e d' using fi.atomic rr.atomic by (simp split: if_splits)
      show "(if persist then finalizeInstance i else replaceInstanceRuntimeMetadata i) d = (r, d') \<Longrightarrow>
        tracked (tab d) \<subseteq> tracked (tab d')" for d r d'
        using finalizeInstance_tracked replaceRuntime_tracked by (simp split: if_splits)
    qed
    then show ?thesis by (simp add: finishes_def with_instance_def)
  qed
  then show ?thesis unfolding start_body_def
    by (cases "ParseAddr m (challengeInterface m)")
      (auto intro!: finishes_bnd finishes_raise maintains_intros assms simp del: raise_apply)
qed

lemma finishes_start:
  assumes "container_laws dk alive"
  shows "finishes (held alive A R i0) (held alive A UNIV i0)
    (startContainersWithPersistence dk m b opts persist preferred)"
  unfolding startContainersWithPersistence_def
proof (rule finishes_bnd)
  show "maintains (held alive A R i0) (on_world (in_db (getReversePortMap (bd_Challenge b))))"
    unfolding getReversePortMap_def by (intro maintains_intros forgets_intros)
  fix rpm
  note body = finishes_start_body [OF assms, of A R i0 m b opts persist preferred rpm]
  have locked: "finishes (held alive A R i0) (held alive A UNIV i0) (\<lambda>s.
     case start_body dk m b opts persist preferred rpm (case s of (w, i) \<Rightarrow> (w\<lparr>portLockHeld := True\<rparr>, i)) of
       (r, s1) \<Rightarrow> (case deferred_release dk None r s1 of (r', (w, i)) \<Rightarrow> (r', (w\<lparr>portLockHeld := False\<rparr>, i))))"
    unfolding finishes_def
  proof (intro allI impI)
    fix s r s'
    assume s: "held alive A R i0 s" and m: "(case start_body dk m b opts persist preferred rpm
       (case s of (w, i) \<Rightarrow> (w\<lparr>portLockHeld := True\<rparr>, i)) of
       (r, s1) \<Rightarrow> (case deferred_release dk None r s1 of (r', (w, i)) \<Rightarrow> (r', (w\<lparr>portLockHeld := False\<rparr>, i)))) = (r, s')"
    let ?s = "case s of (w, i) \<Rightarrow> (w\<lparr>portLockHeld := True\<rparr>, i)"
    obtain r1 w1 i1 where b: "start_body dk m b opts persist preferred rpm ?s = (r1, (w1, i1))"
      by (metis prod.exhaust)
    have "held alive A R i0 ?s" using s by (auto simp: held_def safe_def split: prod.splits)
    then have "case r1 of Inl _ \<Rightarrow> held alive A R i0 (w1, i1) | Inr _ \<Rightarrow> held alive A UNIV i0 (w1, i1)"
      using body b unfolding finishes_def by blast
    then show "case r of Inl _ \<Rightarrow> held alive A R i0 s' | Inr _ \<Rightarrow> held alive A UNIV i0 s'"
      using m b by (cases r1) (auto simp: deferred_release_def held_def safe_def)
  qed
  show "finishes (held alive A R i0) (held alive A UNIV i0)
    (if rpm = [] then start_body dk m b opts persist preferred rpm
     else bnd (on_world (host_call ''port allocation lock'')) (\<lambda>_ s.
     case start_body dk m b opts persist preferred rpm (case s of (w, i) \<Rightarrow> (w\<lparr>portLockHeld := True\<rparr>, i)) of
       (r, s1) \<Rightarrow> (case deferred_release dk None r s1 of (r', (w, i)) \<Rightarrow> (r', (w\<lparr>portLockHeld := False\<rparr>, i)))))"
    using body locked by (auto intro!: finishes_bnd maintains_intros)
qed

section \<open>Stopping and recovering\<close>

lemma maintains_delete:
  assumes "\<And>c. (i, c) \<in> R \<Longrightarrow> c \<in> G"
  shows "maintains (safe alive A R G) (in_db (removeInstanceMetadata i))"
  unfolding maintains_def
proof (intro allI impI)
  fix w
  assume w: "safe alive A R G w"
  let ?d = "wdb w" and ?d' = "snd (removeInstanceMetadata i (wdb w))"
  have "sound ?d'" using w calmD [OF calm_instance_ops(10), of ?d] by (simp add: safe_def)
  moreover have "tab ?d' = tab ?d \<or> tab ?d' = delete_instance i (tab ?d)"
    by (auto simp: removeInstanceMetadata_def update_def exec_def split: prod.splits)
  moreover have "tracked (tab ?d) - G \<subseteq> tracked (delete_instance i (tab ?d))"
  proof
    fix c
    assume c: "c \<in> tracked (tab ?d) - G"
    then consider j where "(j, c) \<in> set (containers (tab ?d))" | "c \<in> set (retiredContainers (tab ?d))"
      by (auto simp: tracked_def)
    then show "c \<in> tracked (delete_instance i (tab ?d))"
    proof cases
      case (1 j)
      then have "(j, c) \<in> R" using w by (auto simp: safe_def)
      then have "j \<noteq> i" using assms c by auto
      then have "(j, c) \<in> set (containers (delete_instance i (tab ?d)))" using 1 by (simp add: delete_instance_def)
      then show ?thesis by (force simp: tracked_def)
    qed (simp add: tracked_def delete_instance_def)
  qed
  moreover have "set (containers (delete_instance i (tab ?d))) \<subseteq> set (containers (tab ?d))"
    by (auto simp: delete_instance_def)
  ultimately show "safe alive A R G (snd (in_db (removeInstanceMetadata i) w))"
    using w by (auto simp: safe_def)
qed

text \<open>\<open>stopContainers\<close>: what remains in the instance is what may still be alive.\<close>

lemma stopContainers_safe:
  assumes "container_laws dk alive" "safe alive A R {} w" "stopContainers dk (w, i) = (r, (w', i'))"
  shows "safe alive A R (set (in_Containers i) - set (in_Containers i')) w'" "in_Id i' = in_Id i"
    "r = Inr () \<Longrightarrow> in_Containers i' = []" "set (in_Containers i') \<subseteq> set (in_Containers i)"
proof -
  obtain es rem w1 where e: "stop_each dk (in_Id i) (in_Containers i) w = ((es, rem), w1)" by (metis prod.exhaust)
  note s = stop_each_safe [OF assms(1,2) e]
  obtain q w2 where q: "in_db (removeInstancePorts (in_Id i)) w1 = (q, w2)" by fastforce
  have "maintains (safe alive A R (set (in_Containers i) - set rem)) (in_db (removeInstancePorts (in_Id i)))"
    by (intro maintains_intros forgets_intros)
  then have w2: "safe alive A R (set (in_Containers i) - set rem) w2"
    by (rule maintainsD [where s = w1 and r = q]) (use s q in simp_all)
  show "safe alive A R (set (in_Containers i) - set (in_Containers i')) w'" "in_Id i' = in_Id i"
    "r = Inr () \<Longrightarrow> in_Containers i' = []" "set (in_Containers i') \<subseteq> set (in_Containers i)"
    using assms(3) e q s w2
    by (auto simp: stopContainers_def Let_def joined_def join_errors_def split: if_splits sum.splits)
qed

lemma held_stop [maintains_intros]:
  assumes "container_laws dk alive"
  shows "maintains (held alive A R i0) (stopContainers dk)"
  unfolding maintains_def
proof (intro allI impI)
  fix s
  assume s: "held alive A R i0 s"
  obtain w i where wi: "s = (w, i)" by fastforce
  obtain r w' i' where r: "stopContainers dk (w, i) = (r, (w', i'))" by (metis prod.exhaust)
  have "safe alive A R {} w" using s wi by (simp add: held_def)
  note k = stopContainers_safe [OF assms this r]
  show "held alive A R i0 (snd (stopContainers dk s))"
    using k(1,2) s r wi by (auto simp: held_def intro: safe_weaken)
qed

lemma maintains_stopNetwork [maintains_intros]:
  "container_laws dk alive \<Longrightarrow> maintains (safe alive A R G) (stopNetwork dk i)"
  unfolding stopNetwork_def by (intro maintains_intros maintains_calls)

lemma held_undo:
  assumes "container_laws dk alive" "\<And>c. (i0, c) \<notin> R"
  shows "maintains (held alive A R i0) (undo_new_instance dk)"
  unfolding undo_new_instance_def
  by (intro maintains_intros maintains_delete forgets_intros assms) (use assms(2) in auto)

lemma openInstance_fresh:
  assumes "openInstance m d = (Inr i, d')" "sound d"
  shows "tracked (tab d') = tracked (tab d)" "set (containers (tab d')) \<subseteq> {(j, c). j \<noteq> in_Id i}" "sound d'"
proof -
  have so: "sound d'" using calmD [OF calm_instance_ops(1) assms(2), of m] assms(1) by simp
  let ?i = "next_id (map nr_id (instances (tab d)))"
  obtain k d1 where e: "exec (\<lambda>t. let i = next_id (map nr_id (instances t)) in
       (t\<lparr>instances := instances t @ [\<lparr>nr_id = i, nr_lastsolved = in_LastSolved m, nr_build = in_Build m\<rparr>]\<rparr>, i)) d
      = (Inr k, d1)" "bnd (report k) (\<lambda>i. ret (m\<lparr>in_Id := i\<rparr>)) d1 = (Inr i, d')"
    using assms(1) unfolding openInstance_def by (rule bnd_InrE)
  have t: "tab d1 = (tab d)\<lparr>instances := instances (tab d) @
      [\<lparr>nr_id = ?i, nr_lastsolved = in_LastSolved m, nr_build = in_Build m\<rparr>]\<rparr>" "k = ?i"
    using exec_Inr [OF e(1)] by (simp_all add: Let_def)
  have i: "tab d' = tab d1" "in_Id i = k"
    using e(2) report_Inr [of k d1] by (auto elim!: bnd_InrE)
  show "tracked (tab d') = tracked (tab d)" by (simp add: i t tracked_def)
  have "j \<noteq> ?i" if "(j, c) \<in> set (containers (tab d))" for j c
  proof -
    have "j \<in> set (map nr_id (instances (tab d)))"
      using assms(2) that by (auto simp: sound_def constraints_def instance_constraints_def list_all_iff)
    then show ?thesis using next_id_fresh by fastforce
  qed
  then show "set (containers (tab d')) \<subseteq> {(j, c). j \<noteq> in_Id i}" by (auto simp: i t)
  show "sound d'" by (fact so)
qed

lemma openInstance_Inl:
  assumes "openInstance m d = (Inl e, d')" "sound d"
  shows "tab d' = tab d"
proof -
  let ?f = "\<lambda>t. let i = next_id (map nr_id (instances t)) in
       (t\<lparr>instances := instances t @ [\<lparr>nr_id = i, nr_lastsolved = in_LastSolved m, nr_build = in_Build m\<rparr>]\<rparr>, i)"
  obtain q d1 where q: "exec ?f d = (q, d1)" by fastforce
  show ?thesis
  proof (cases q)
    case (Inl x)
    then show ?thesis using assms(1) q exec_Inl [of ?f d x d1] by (auto simp: openInstance_def bnd_def)
  next
    case (Inr k)
    have "sound d1" using calmD [OF calm_basic(5) assms(2), of ?f] q by simp
    then show ?thesis using assms(1) q Inr by (simp add: openInstance_def bnd_def sound_def report_calm)
  qed
qed

lemma maintains_newInstance [maintains_intros]:
  assumes "container_laws dk alive"
  shows "maintains (safe alive A UNIV {}) (newInstance dk m b)"
  unfolding maintains_def
proof (intro allI impI)
  fix w
  assume w: "safe alive A UNIV {} w"
  obtain q d where q: "openInstance (empty_instance (bd_Id b)) (wdb w) = (q, d)" by fastforce
  show "safe alive A UNIV {} (snd (newInstance dk m b w))"
  proof (cases q)
    case (Inl e)
    have so: "sound (wdb w)" using w by (simp add: safe_def)
    have "sound d" using calmD [OF calm_instance_ops(1) [of "empty_instance (bd_Id b)"] so] q by simp
    moreover have "tab d = tab (wdb w)"
      by (rule openInstance_Inl [OF _ so]) (use q Inl in simp)
    ultimately show ?thesis using w q Inl by (simp add: newInstance_def bnd_def in_db_def safe_def)
  next
    case (Inr i)
    let ?R = "{(j, c). j \<noteq> in_Id i}" and ?w = "w\<lparr>wdb := d\<rparr>"
    have n: "newInstance dk m b w = (case start_new dk m b (?w, i) of
       (Inr _, (w', _)) \<Rightarrow> (Inr (in_Id i), w')
     | (Inl e, s) \<Rightarrow>
         (case undo_new_instance dk s of
            (Inr es, (w', _)) \<Rightarrow> (Inl (Join (e # es)), w')
          | (Inl e', (w', _)) \<Rightarrow> (Inl e', w')))"
      by (simp add: newInstance_def bnd_def in_db_def q Inr)
    have h: "held alive A ?R (in_Id i) (?w, i)"
      using openInstance_fresh [OF q [unfolded Inr]] w by (simp add: held_def safe_def)
    have fin: "finishes (held alive A ?R (in_Id i)) (held alive A UNIV (in_Id i)) (start_new dk m b)"
      unfolding start_new_def startContainers_def startNetwork_def
      by (intro finishes_bnd finishes_start maintains_intros maintains_calls forgets_intros assms)
    obtain r w1 i1 where r: "start_new dk m b (?w, i) = (r, (w1, i1))" by (metis prod.exhaust)
    have e: "case r of Inl _ \<Rightarrow> held alive A ?R (in_Id i) (w1, i1) | Inr _ \<Rightarrow> held alive A UNIV (in_Id i) (w1, i1)"
      using fin h r unfolding finishes_def by blast
    show ?thesis
    proof (cases r)
      case (Inr u)
      then show ?thesis using e by (simp add: n r held_def)
    next
      case (Inl er)
      obtain q2 w2 i2 where u: "undo_new_instance dk (w1, i1) = (q2, (w2, i2))" by (metis prod.exhaust)
      have "held alive A ?R (in_Id i) (w2, i2)"
        by (rule maintainsD [OF held_undo [OF assms] _ u]) (use e Inl in auto)
      then have "safe alive A UNIV {} w2" by (auto simp: held_def intro: safe_weaken)
      then show ?thesis by (cases q2) (simp_all add: n r Inl u)
    qed
  qed
qed

lemma lookupInstance_Inr:
  assumes "lookupInstanceMetadata i d = (Inr x, d')"
  shows "in_Id x = i" "in_Containers x = instance_containers i (tab d)" "tab d' = tab d"
    "\<exists>r \<in> set (instances (tab d)). nr_id r = i \<and> nr_build r = in_Build x"
proof -
  obtain d0 d9 where b: "tab d0 = tab d" "tab d' = tab d9" and body:
    "bnd (query (\<lambda>t. filter (\<lambda>r. nr_id r = i) (instances t))) (\<lambda>rows.
      case rows of
        [] \<Rightarrow> raise (unknownInstanceIdError i)
      | r # _ \<Rightarrow>
        bnd (query (instance_ports i)) (\<lambda>ports.
        bnd (query (instance_containers i)) (\<lambda>cs.
        ret \<lparr>in_Id = nr_id r, in_Ports = ports, in_Containers = cs, in_LastSolved = nr_lastsolved r,
             in_Build = nr_build r\<rparr>))) d0 = (Inr x, d9)"
    using assms unfolding lookupInstanceMetadata_def by (rule readTransaction_Inr)
  obtain rows d1 where 1: "query (\<lambda>t. filter (\<lambda>r. nr_id r = i) (instances t)) d0 = (Inr rows, d1)"
    and rest: "(case rows of
        [] \<Rightarrow> raise (unknownInstanceIdError i)
      | r # _ \<Rightarrow>
        bnd (query (instance_ports i)) (\<lambda>ports.
        bnd (query (instance_containers i)) (\<lambda>cs.
        ret \<lparr>in_Id = nr_id r, in_Ports = ports, in_Containers = cs, in_LastSolved = nr_lastsolved r,
             in_Build = nr_build r\<rparr>))) d1 = (Inr x, d9)"
    using body by (rule bnd_InrE)
  obtain r rs where rows: "rows = r # rs" using rest by (cases rows) auto
  have "r \<in> set rows" using rows by simp
  then have r: "nr_id r = i" "r \<in> set (instances (tab d))" using query_Inr [OF 1] b by auto
  obtain ps d2 cs d3 where s: "query (instance_ports i) d1 = (Inr ps, d2)" "query (instance_containers i) d2 = (Inr cs, d3)"
      "x = \<lparr>in_Id = nr_id r, in_Ports = ps, in_Containers = cs, in_LastSolved = nr_lastsolved r,
             in_Build = nr_build r\<rparr>" "d9 = d3"
    using rest rows by (auto elim!: bnd_InrE)
  show "in_Id x = i" "in_Containers x = instance_containers i (tab d)" "tab d' = tab d"
    "\<exists>r \<in> set (instances (tab d)). nr_id r = i \<and> nr_build r = in_Build x"
    using s r query_Inr [OF s(1)] query_Inr [OF s(2)] query_Inr [OF 1] b by auto
qed

text \<open>The rows of an instance that was just read.\<close>

lemma lookup_rows:
  assumes "safe alive A R {} w" "in_db (lookupInstanceMetadata i) w = (Inr x, w')"
  shows "safe alive A (R \<inter> {(j, c). j = i \<longrightarrow> c \<in> set (in_Containers x)}) {} w'" "in_Id x = i"
proof -
  obtain d' where d: "lookupInstanceMetadata i (wdb w) = (Inr x, d')" "w' = w\<lparr>wdb := d'\<rparr>"
    using assms(2) by (auto simp: in_db_def split: prod.splits)
  note l = lookupInstance_Inr [OF d(1)]
  have "sound d'" using calmD [OF calm_lookups(1) [of i], of "wdb w"] assms(1) d(1) by (simp add: safe_def)
  then show "safe alive A (R \<inter> {(j, c). j = i \<longrightarrow> c \<in> set (in_Containers x)}) {} w'"
    using assms(1) d(2) l(2,3) by (force simp: safe_def instance_containers_def)
  show "in_Id x = i" by (fact l)
qed

lemma stopInstance_safe:
  assumes "container_laws dk alive"
    "safe alive A {(j, c). j = in_Id x \<longrightarrow> c \<in> set (in_Containers x)} {} w"
  shows "safe alive A UNIV {} (snd (stopInstance dk x w))"
proof -
  let ?R = "{(j, c). j = in_Id x \<longrightarrow> c \<in> set (in_Containers x)}"
  obtain r w1 x1 where r: "stopContainers dk (w, x) = (r, (w1, x1))" by (metis prod.exhaust)
  note s = stopContainers_safe [OF assms(1,2) r]
  show ?thesis
  proof (cases r)
    case (Inl e)
    then show ?thesis using r s(1) by (auto simp: stopInstance_def intro: safe_weaken)
  next
    case (Inr u)
    then have "safe alive A ?R (set (in_Containers x)) w1" using s(1,3) by simp
    moreover have "maintains (safe alive A ?R (set (in_Containers x)))
        (bnd (stopNetwork dk x1) (\<lambda>_. in_db (removeInstanceMetadata (in_Id x1))))"
      by (intro maintains_intros maintains_delete assms(1)) (simp add: s(2))
    ultimately have "safe alive A ?R (set (in_Containers x))
        (snd (bnd (stopNetwork dk x1) (\<lambda>_. in_db (removeInstanceMetadata (in_Id x1))) w1))"
      by (simp add: maintains_def)
    then show ?thesis using r Inr by (auto simp: stopInstance_def intro: safe_weaken)
  qed
qed

lemma maintains_with_lookup:
  assumes "\<And>x w. in_Id x = i \<Longrightarrow> safe alive A {(j, c). j = in_Id x \<longrightarrow> c \<in> set (in_Containers x)} {} w \<Longrightarrow>
    safe alive A UNIV {} (snd (f x w))"
  shows "maintains (safe alive A UNIV {}) (bnd (in_db (lookupInstanceMetadata i)) f)"
  unfolding maintains_def
proof (intro allI impI)
  fix w
  assume w: "safe alive A UNIV {} w"
  obtain q w1 where q: "in_db (lookupInstanceMetadata i) w = (q, w1)" by fastforce
  show "safe alive A UNIV {} (snd (bnd (in_db (lookupInstanceMetadata i)) f w))"
  proof (cases q)
    case (Inl e)
    have "maintains (safe alive A UNIV {}) (in_db (lookupInstanceMetadata i))"
      by (intro maintains_intros forgets_intros)
    then have "safe alive A UNIV {} w1" by (rule maintainsD) (use w q in simp_all)
    then show ?thesis using q Inl by (simp add: bnd_def)
  next
    case (Inr x)
    note l = lookup_rows [OF w q [unfolded Inr]]
    then have "safe alive A UNIV {} (snd (f x w1))" using assms [of x w1] by simp
    then show ?thesis using q Inr by (simp add: bnd_def)
  qed
qed

lemma maintains_stopInstance [maintains_intros]:
  assumes "container_laws dk alive"
  shows "maintains (safe alive A UNIV {}) (bnd (in_db (lookupInstanceMetadata i)) (stopInstance dk))"
  by (intro maintains_with_lookup stopInstance_safe assms) simp_all

lemma removeBroken_gone:
  assumes "container_laws dk alive" "safe alive A R G w"
    "each_collect (\<lambda>c. map_err g (unless_missing (ContainerRemove dk c))) cs w = (es, w')"
  shows "safe alive A R G w' \<and> (es = [] \<longrightarrow> safe alive A R (G \<union> set cs) w')"
  using assms(2,3)
proof (induction cs arbitrary: G w es w')
  case (Cons c cs)
  let ?f = "\<lambda>c. map_err g (unless_missing (ContainerRemove dk c))"
  obtain q w1 where q: "?f c w = (q, w1)" by fastforce
  have f: "case q of Inl _ \<Rightarrow> safe alive A R G w1 | Inr _ \<Rightarrow> safe alive A R (insert c G) w1"
    using finishes_remove [OF assms(1)] Cons.prems(1) q unfolding finishes_def by blast
  obtain es1 w2 where r: "each_collect ?f cs w1 = (es1, w2)" by fastforce
  show ?case
  proof (cases q)
    case (Inl e)
    then show ?thesis using Cons.IH [where G = G, OF _ r] f Cons.prems(2) q r by auto
  next
    case (Inr u)
    then have "safe alive A R (insert c G) w2 \<and> (es1 = [] \<longrightarrow> safe alive A R (insert c G \<union> set cs) w2)"
      using Cons.IH [where G = "insert c G", OF _ r] f by simp
    then show ?thesis using Cons.prems(2) q r Inr by (auto intro: safe_weaken)
  qed
qed simp

lemma removeBrokenInstance_safe:
  assumes "container_laws dk alive"
    "safe alive A {(j, c). j = in_Id x \<longrightarrow> c \<in> set (in_Containers x)} {} w"
  shows "safe alive A UNIV {} (snd (removeBrokenInstance dk x w))"
proof -
  let ?R = "{(j, c). j = in_Id x \<longrightarrow> c \<in> set (in_Containers x)}"
  let ?rest = "\<lambda>_ :: unit. bnd (attempt (stopNetwork dk x)) (\<lambda>r.
     bnd (case r of
            Inr _ \<Rightarrow> ret ()
          | Inl e \<Rightarrow> map_err (\<lambda>e'. Join [e, e']) (in_db (retireNetwork (getNetworkName x)))) (\<lambda>_.
     in_db (removeInstanceMetadata (in_Id x))))"
  obtain es w1 where e: "each_collect (\<lambda>c. map_err (Wrap ''remove broken instance container'')
      (unless_missing (ContainerRemove dk c))) (in_Containers x) w = (es, w1)" by fastforce
  note g = removeBroken_gone [OF assms e]
  have k: "maintains (safe alive A ?R (set (in_Containers x))) (?rest u)" for u
    by (intro maintains_intros maintains_delete forgets_intros assms(1)) simp
  have rb: "removeBrokenInstanceContainers dk (in_Containers x) w = (joined es, w1)"
    by (simp add: removeBrokenInstanceContainers_def join_all_def e joined_def)
  show ?thesis
  proof (cases "es = []")
    case True
    then have "safe alive A ?R (set (in_Containers x)) (snd (?rest () w1))" using g k by (simp add: maintains_def)
    moreover have "removeBrokenInstance dk x w = ?rest () w1"
      using rb True by (simp add: removeBrokenInstance_def bnd_Inr joined_def join_errors_def)
    ultimately show ?thesis by (simp add: safe_weaken)
  next
    case False
    then have "removeBrokenInstance dk x w = (Inl (Join es), w1)"
      using rb by (simp add: removeBrokenInstance_def bnd_Inl joined_def join_errors_def)
    then show ?thesis using g by (auto intro: safe_weaken)
  qed
qed

lemma maintains_pause [maintains_intros]:
  "container_laws dk alive \<Longrightarrow> maintains (safe alive A R G) (pauseContainerProcesses dk cs)"
proof -
  assume l: "container_laws dk alive"
  have "maintains (safe alive A R G) (pause_each dk cs ps)" for ps
  proof (induction cs arbitrary: ps)
    case (Cons c cs)
    have "maintains (safe alive A R G) (\<lambda>w. case must (ContainerStop dk c) w of (r, w1) \<Rightarrow>
        (case r of Inl e \<Rightarrow> (\<lambda>w. ((ps, Some (Plain ''could not stop container'')), w))
         | Inr _ \<Rightarrow> pause_each dk cs (ps @ [c])) w1)"
      by (intro maintains_seq maintains_intros maintains_calls l Cons)
    moreover have "pause_each dk (c # cs) ps w = (case must (ContainerStop dk c) w of (r, w1) \<Rightarrow>
        (case r of Inl e \<Rightarrow> (\<lambda>w. ((ps, Some (Plain ''could not stop container'')), w))
         | Inr _ \<Rightarrow> pause_each dk cs (ps @ [c])) w1)" for w
      by (simp split: prod.split sum.split)
    ultimately show ?case by (simp add: maintains_def)
  qed (simp add: maintains_def)
  then show ?thesis by (simp add: pauseContainerProcesses_def)
qed

lemma maintains_resume [maintains_intros]:
  assumes "container_laws dk alive"
  shows "maintains (safe alive A R G) (resumeContainerProcesses dk cs)"
  unfolding maintains_def
proof (intro allI impI)
  fix w
  assume w: "safe alive A R G w"
  have "safe alive A R G (snd (each_collect (\<lambda>c. must (ContainerStart dk c)) cs w))"
    by (rule maintains_collect [where P = "safe alive A R G"], intro maintains_must maintains_calls assms, rule w)
  then show "safe alive A R G (snd (resumeContainerProcesses dk cs w))"
    by (auto simp: resumeContainerProcesses_def split: prod.splits)
qed

lemma maintains_prepare [maintains_intros]:
  assumes "container_laws dk alive"
  shows "maintains (safe alive A UNIV {}) (prepareInstanceCutover dk m b current opts)"
  unfolding maintains_def
proof (intro allI impI)
  fix w
  assume w: "safe alive A UNIV {} w"
  obtain ps e w1 where p: "pauseContainerProcesses dk (in_Containers current) w = ((ps, e), w1)"
    by (metis prod.exhaust)
  have w1: "safe alive A UNIV {} w1" by (rule maintainsD [OF maintains_pause [OF assms] w p])
  show "safe alive A UNIV {} (snd (prepareInstanceCutover dk m b current opts w))"
  proof (cases e)
    case (Some e')
    obtain r w2 where r: "resumeContainerProcesses dk ps w1 = (r, w2)" by fastforce
    have "safe alive A UNIV {} w2" by (rule maintainsD [OF maintains_resume [OF assms] w1 r])
    then show ?thesis by (cases r) (simp_all add: prepareInstanceCutover_def p Some r)
  next
    case None
    let ?c = "\<lparr>in_Id = in_Id current, in_Ports = [], in_Containers = [],
            in_LastSolved = in_LastSolved current, in_Build = in_Build current\<rparr>"
    obtain r w2 c where r: "startContainersWithPersistence dk m b opts False (in_Ports current) (w1, ?c) = (r, (w2, c))"
      by (metis prod.exhaust)
    have "held alive A UNIV (in_Id current) (w1, ?c)" using w1 by (simp add: held_def)
    then have "case r of Inl _ \<Rightarrow> held alive A UNIV (in_Id current) (w2, c)
        | Inr _ \<Rightarrow> held alive A UNIV (in_Id current) (w2, c)"
      using finishes_start [OF assms] r unfolding finishes_def by blast
    then have w2: "safe alive A UNIV {} w2" by (cases r) (simp_all add: held_def)
    obtain r3 w3 where r3: "removeRetiredContainerIDs dk (in_Containers c) w2 = (r3, w3)" by fastforce
    have w3: "safe alive A UNIV {} w3" by (rule maintainsD [OF maintains_removeRetired [OF assms] w2 r3])
    obtain r4 w4 where r4: "resumeContainerProcesses dk (in_Containers current) w3 = (r4, w4)" by fastforce
    have w4: "safe alive A UNIV {} w4" by (rule maintainsD [OF maintains_resume [OF assms] w3 r4])
    show ?thesis using w2 w4
      by (cases r) (simp_all add: prepareInstanceCutover_def p None Let_def r r3 r4)
  qed
qed

lemma maintains_replaceRuntime [maintains_intros]:
  "maintains (safe alive A UNIV {}) (in_db (replaceInstanceRuntimeMetadata m))"
  unfolding maintains_def
proof (intro allI impI)
  fix w
  assume w: "safe alive A UNIV {} w"
  obtain r d' where d: "replaceInstanceRuntimeMetadata m (wdb w) = (r, d')" by fastforce
  have "sound d'" using calmD [OF calm_instance_ops(3) [of m], of "wdb w"] w d by (simp add: safe_def)
  then show "safe alive A UNIV {} (snd (in_db (replaceInstanceRuntimeMetadata m) w))"
    using w replaceRuntime_tracked [OF d] by (auto simp: in_db_def d safe_def)
qed

lemma maintains_rollback [maintains_intros]:
  "container_laws dk alive \<Longrightarrow> maintains (safe alive A UNIV {}) (rollbackInstanceCutover dk c)"
  unfolding rollbackInstanceCutover_def by (intro maintains_intros)

lemma maintains_finish [maintains_intros]:
  "container_laws dk alive \<Longrightarrow> maintains (safe alive A UNIV {}) (finishInstanceCutover dk c)"
  unfolding finishInstanceCutover_def by (intro maintains_intros)

lemma maintains_remove_broken [maintains_intros]:
  assumes "container_laws dk alive"
  shows "maintains (safe alive A UNIV {}) (remove_broken dk is errs todo)"
proof (induction "is" arbitrary: errs todo)
  case (Cons i "is")
  let ?one = "bnd (in_db (lookupInstanceMetadata i)) (\<lambda>inst.
           bnd (in_db (lookupBuildMetadata (in_Build inst))) (\<lambda>b.
           bnd (map_err (Wrap ''remove broken instance'') (removeBrokenInstance dk inst)) (\<lambda>_.
           ret b)))"
  have one: "maintains (safe alive A UNIV {}) ?one"
  proof (rule maintains_with_lookup)
    fix x :: InstanceMetadata and w
    let ?R = "{(j, c). j = in_Id x \<longrightarrow> c \<in> set (in_Containers x)}"
    assume w: "safe alive A ?R {} w"
    obtain q w1 where q: "in_db (lookupBuildMetadata (in_Build x)) w = (q, w1)" by fastforce
    have "maintains (safe alive A ?R {}) (in_db (lookupBuildMetadata (in_Build x)))"
      by (intro maintains_intros forgets_intros)
    then have w1: "safe alive A ?R {} w1" by (rule maintainsD) (use w q in simp_all)
    note rb = removeBrokenInstance_safe [OF assms w1]
    obtain r w2 where r: "removeBrokenInstance dk x w1 = (r, w2)" by fastforce
    show "safe alive A UNIV {} (snd (bnd (in_db (lookupBuildMetadata (in_Build x))) (\<lambda>b.
           bnd (map_err (Wrap ''remove broken instance'') (removeBrokenInstance dk x)) (\<lambda>_. ret b)) w))"
      using q w1 rb r by (cases q; cases r) (auto simp: bnd_def map_err_def intro: safe_weaken)
  qed
  have "remove_broken dk (i # is) errs todo w = (case ?one w of (q, w1) \<Rightarrow>
      (case q of Inl e \<Rightarrow> remove_broken dk is (errs @ [e]) todo
       | Inr b \<Rightarrow> (case restore_step b errs todo of (errs', todo') \<Rightarrow> remove_broken dk is errs' todo')) w1)" for w
    by (simp split: prod.split sum.split)
  moreover have "maintains (safe alive A UNIV {}) (\<lambda>w. case ?one w of (q, w1) \<Rightarrow>
      (case q of Inl e \<Rightarrow> remove_broken dk is (errs @ [e]) todo
       | Inr b \<Rightarrow> (case restore_step b errs todo of (errs', todo') \<Rightarrow> remove_broken dk is errs' todo')) w1)"
    by (intro maintains_seq one maintains_intros Cons)
  ultimately show ?case by (simp add: maintains_def)
qed (simp add: maintains_def)

lemma maintains_create_missing [maintains_intros]:
  "maintains P create \<Longrightarrow> maintains P (create_missing create n)"
proof (induction n)
  case (Suc n)
  then show ?case unfolding create_missing.simps by (intro maintains_intros)
qed (simp only: create_missing.simps maintains_ret)

lemma maintains_reconcile [maintains_intros]:
  assumes "container_laws dk alive"
  shows "maintains (safe alive A UNIV {}) (reconcileBrokenInstances dk m is)"
  unfolding maintains_def
proof (intro allI impI)
  fix w
  assume w: "safe alive A UNIV {} w"
  let ?f = "\<lambda>b. bnd (in_db (getBuildInstances (bd_Id b))) (\<lambda>have.
                create_missing (newInstance dk m b) (nat (InstanceCount b) - length have))"
  obtain errs todo w1 where 1: "remove_broken dk is [] [] w = ((errs, todo), w1)" by (metis prod.exhaust)
  have w1: "safe alive A UNIV {} w1" by (rule maintainsD [OF maintains_remove_broken [OF assms] w 1])
  have "maintains (safe alive A UNIV {}) (?f b)" for b
    unfolding getBuildInstances_def by (intro maintains_intros forgets_intros assms)
  then have "safe alive A UNIV {} (snd (each_collect ?f todo w1))"
    by (rule maintains_collect [where P = "safe alive A UNIV {}", OF _ w1])
  then show "safe alive A UNIV {} (snd (reconcileBrokenInstances dk m is w))"
    by (auto simp: reconcileBrokenInstances_def reconcileBrokenInstancesWith_def 1 split: prod.split)
qed

lemma maintains_check_tracked [maintains_intros]:
  assumes "container_laws dk alive"
  shows "maintains (safe alive A R G) (check_tracked dk c)"
  unfolding check_tracked_def by (intro maintains_intros maintains_calls assms)

lemma maintains_check_all [maintains_intros]:
  assumes "container_laws dk alive"
  shows "maintains (safe alive A R G) (check_all_tracked dk ts errs broken)"
proof (induction ts arbitrary: errs broken)
  case (Cons t ts)
  obtain i c where t: "t = (i, c)" by fastforce
  let ?next = "\<lambda>q. case q of Inl e \<Rightarrow> check_all_tracked dk ts (errs @ [e]) broken
      | Inr missing \<Rightarrow> check_all_tracked dk ts errs (if missing then appendUniqueInstanceID broken i else broken)"
  have "check_all_tracked dk (t # ts) errs broken w = (case check_tracked dk c w of (q, w1) \<Rightarrow> ?next q w1)" for w
    by (simp add: t split: prod.split sum.split)
  moreover have "maintains (safe alive A R G) (\<lambda>w. case check_tracked dk c w of (q, w1) \<Rightarrow> ?next q w1)"
    by (intro maintains_seq maintains_check_tracked maintains_sum assms Cons)
  ultimately show ?case by (simp add: maintains_def)
qed (simp add: maintains_def)

lemma maintains_retire_networks [maintains_intros]:
  assumes "container_laws dk alive"
  shows "maintains (safe alive A R G) (retire_networks dk ns)"
  unfolding maintains_def retire_networks_def
proof (intro allI impI)
  fix w
  assume w: "safe alive A R G w"
  let ?f = "\<lambda>n. bnd (map_err (Wrap ''remove retired network'') (unless_missing (NetworkRemove dk n))) (\<lambda>_.
     in_db (forgetRetiredNetwork n))"
  have "maintains (safe alive A R G) (?f n)" for n
    by (intro maintains_intros maintains_calls forgets_intros assms)
  then show "safe alive A R G (snd (each_collect ?f ns w))"
    by (rule maintains_collect [where P = "safe alive A R G", OF _ w])
qed

lemma maintains_retry [maintains_intros]:
  assumes "container_laws dk alive"
  shows "maintains (safe alive A UNIV {}) (retryRetiredResources dk m)"
  unfolding maintains_def
proof (intro allI impI)
  fix w
  let ?P = "safe alive A UNIV {}"
  assume w: "?P w"
  let ?one = "bnd (in_db retiredContainerIDs) (removeRetiredContainerIDs dk)"
  have q: "forgets {} retiredContainerIDs" "forgets {} retiredNetworkNames" "forgets {} incompleteInstanceIDs"
    "forgets {} trackedContainers"
    by (simp_all add: retiredContainerIDs_def retiredNetworkNames_def incompleteInstanceIDs_def
        trackedContainers_def forgets_intros)
  obtain r1 w1 where 1: "?one w = (r1, w1)" by fastforce
  have "maintains ?P ?one" by (intro maintains_intros q assms)
  then have w1: "?P w1" by (rule maintainsD) (use w 1 in simp_all)
  obtain r2 w2 where 2: "in_db retiredNetworkNames w1 = (r2, w2)" by fastforce
  have w2: "?P w2" by (rule maintainsD [OF maintains_in_db [OF q(2)] w1 2])
  obtain es2 w3 where 3: "(case r2 of Inl e \<Rightarrow> ([e], w2) | Inr names \<Rightarrow> retire_networks dk names w2) = (es2, w3)"
    by fastforce
  have w3: "?P w3"
    using 3 w2 maintainsD [OF maintains_retire_networks [OF assms] w2] by (cases r2) auto
  obtain r3 w4 where 4: "in_db incompleteInstanceIDs w3 = (r3, w4)" by fastforce
  have w4: "?P w4" by (rule maintainsD [OF maintains_in_db [OF q(3)] w3 4])
  obtain es3 broken where 5: "(case r3 of Inl e \<Rightarrow> ([e], []) | Inr is \<Rightarrow> ([], is)) = (es3, broken)" by fastforce
  obtain r4 w5 where 6: "in_db trackedContainers w4 = (r4, w5)" by fastforce
  have w5: "?P w5" by (rule maintainsD [OF maintains_in_db [OF q(4)] w4 6])
  obtain es4 broken' w6 where 7: "(case r4 of Inl e \<Rightarrow> (([e], broken), w5)
            | Inr ts \<Rightarrow> check_all_tracked dk ts [] broken w5) = ((es4, broken'), w6)" by (metis prod.exhaust)
  have w6: "?P w6"
    using 7 w5 maintainsD [OF maintains_check_all [OF assms] w5] by (cases r4) auto
  obtain r5 w7 where 8: "(if broken' \<noteq> [] then reconcileBrokenInstances dk m broken' w6 else (Inr (), w6)) = (r5, w7)"
    by fastforce
  have w7: "?P w7"
    using 8 w6 maintainsD [OF maintains_reconcile [OF assms] w6] by (auto split: if_splits)
  have "retryRetiredResources dk m w = (joined (errors_of [r1] @ es2 @ es3 @ es4 @ errors_of [r5]), w7)"
    unfolding retryRetiredResources_def attempt_def 1 prod.case sum.case 2 3 4 5 6 7 8 ..
  then show "?P (snd (retryRetiredResources dk m w))" using w7 by simp
qed

section \<open>The contract\<close>

text \<open>
  The contract of an operation on containers: from a sound database in which every container of the
  program is tracked it leads to such a one, whatever Docker answers.
\<close>

locale container_operation =
  fixes op :: "'w daemon \<Rightarrow> ('w world, 'a) act"
  assumes kept: "container_laws dk alive \<Longrightarrow> safe alive A UNIV {} w \<Longrightarrow> safe alive A UNIV {} (snd (op dk w))"
begin

lemma no_leak:
  assumes "container_laws dk alive" "sound (wdb w)" "alive (dock w) \<subseteq> A \<union> tracked (tab (wdb w))"
    "c \<in> alive (dock (snd (op dk w)))"
  shows "c \<in> A \<or> c \<in> tracked (tab (wdb (snd (op dk w))))"
  using kept [OF assms(1), of A w] assms by (auto simp: safe_def)

lemma constraints_kept:
  assumes "container_laws dk alive" "sound (wdb w)"
  shows "constraints (tab (wdb (snd (op dk w))))"
  using kept [OF assms(1), of "alive (dock w)" w] assms(2) by (auto simp: safe_def sound_def)

lemma kept_by_all:
  "container_laws dk alive \<Longrightarrow> safe alive A UNIV {} w \<Longrightarrow> safe alive A UNIV {} (fold (\<lambda>_ w. snd (op dk w)) ns w)"
  by (induction ns arbitrary: w) (simp_all add: kept)

end

lemma container_operationI:
  "(\<And>dk alive A. container_laws dk alive \<Longrightarrow> maintains (safe alive A UNIV {}) (op dk)) \<Longrightarrow> container_operation op"
  by unfold_locales (simp add: maintains_def)

interpretation start_op: container_operation "\<lambda>dk. newInstance dk m b" for m b
  by (rule container_operationI) (rule maintains_newInstance)

interpretation stop_op: container_operation "\<lambda>dk. bnd (in_db (lookupInstanceMetadata i)) (stopInstance dk)" for i
  by (rule container_operationI) (rule maintains_stopInstance)

interpretation prepare_op: container_operation "\<lambda>dk. prepareInstanceCutover dk m b i opts" for m b i opts
  by (rule container_operationI) (rule maintains_prepare)

interpretation rollback_op: container_operation "\<lambda>dk. rollbackInstanceCutover dk c" for c
  by (rule container_operationI) (rule maintains_rollback)

interpretation finish_op: container_operation "\<lambda>dk. finishInstanceCutover dk c" for c
  by (rule container_operationI) (rule maintains_finish)

interpretation recover_op: container_operation "\<lambda>dk. retryRetiredResources dk m" for m
  by (rule container_operationI) (rule maintains_retry)

text \<open>
  C25. No operation on instances ever forgets a container: if every container of Docker that is not
  foreign is tracked by the database as active or retired, it still is after starting an instance,
  stopping one, preparing, rolling back or finishing a cutover, and after recovery at startup, for
  every daemon and whichever of its calls fail, on success and on every error path, while the
  database itself works (\<open>sound\<close>: statements fail only for their constraints).
\<close>

theorem no_container_forgotten:
  assumes "container_laws dk alive" "sound (wdb w)" "alive (dock w) \<subseteq> A \<union> tracked (tab (wdb w))"
    "w' \<in> {snd (newInstance dk m b w), snd (bnd (in_db (lookupInstanceMetadata i)) (stopInstance dk) w),
      snd (prepareInstanceCutover dk m b inst opts w), snd (rollbackInstanceCutover dk co w),
      snd (finishInstanceCutover dk co w), snd (retryRetiredResources dk m w)}"
  shows "sound (wdb w') \<and> alive (dock w') \<subseteq> A \<union> tracked (tab (wdb w'))"
proof -
  have w: "safe alive A UNIV {} w" using assms(2,3) by (simp add: safe_def)
  note k = start_op.kept [OF assms(1) w] stop_op.kept [OF assms(1) w] prepare_op.kept [OF assms(1) w] rollback_op.kept [OF assms(1) w]
    finish_op.kept [OF assms(1) w] recover_op.kept [OF assms(1) w]
  have "safe alive A UNIV {} w'"
    using assms(4) by (elim insertE emptyE) (simp_all only: k)
  then show ?thesis by (simp add: safe_def)
qed

text \<open>A daemon that meets the laws, with the list of its containers as its state.\<close>

definition ex_daemon :: "string list daemon" where
  "ex_daemon = \<lparr>
     ContainerCreate = (\<lambda>sp k. let c = replicate (Suc (sum_list (map length k))) (CHR ''x'') in (Inr c, k @ [c])),
     ContainerStart = (\<lambda>c k. (if c \<in> set k then Inr () else Inl NotFound, k)),
     ContainerStop = (\<lambda>c k. (if c \<in> set k then Inr () else Inl NotFound, k)),
     ContainerRemove = (\<lambda>c k. if c \<in> set k then (Inr (), filter (\<lambda>x. x \<noteq> c) k) else (Inl NotFound, k)),
     ContainerInspect = (\<lambda>c k. (if c \<in> set k then Inr ex_inspection else Inl NotFound, k)),
     CopyFromContainer = (\<lambda>c k. (Inl NotFound, k)),
     NetworkCreate = (\<lambda>n b k. (Inr (), k)), NetworkRemove = (\<lambda>n k. (Inr (), k)),
     ImageRemove = (\<lambda>n k. (Inr (), k)), ImageInspect = (\<lambda>n k. (Inl NotFound, k)),
     ImageTag = (\<lambda>a b k. (Inr (), k)), ImageList = (\<lambda>k. (Inr [], k)),
     ImageBuild = (\<lambda>b k. (Inr ([], True), k)), ImagePull = (\<lambda>n k. (Inl NotFound, k)),
     ImagePush = (\<lambda>n k. (Inl NotFound, k)), Info = (\<lambda>k. (Inr \<lparr>OSType = ''linux'', Runtimes = []\<rparr>, k))\<rparr>"

lemma longer_not_member: "replicate (Suc (sum_list (map length k))) x \<notin> set k"
proof
  assume "replicate (Suc (sum_list (map length k))) x \<in> set k"
  then have "length (replicate (Suc (sum_list (map length k))) x) \<in> set (map length k)"
    unfolding set_map by (rule imageI)
  from member_le_sum_list [OF this] show False by simp
qed

lemma ex_daemon_laws: "container_laws ex_daemon set"
proof -
  have "set (filter (\<lambda>x. x \<noteq> c) k) = set k - {c}" for c :: string and k by auto
  then show ?thesis using longer_not_member [where x = "CHR ''x''"] unfolding container_laws_def
    by (simp add: ex_daemon_def Let_def del: replicate_Suc)
qed

definition ex_mgr :: mgr where
  "ex_mgr = \<lparr>portRange = (0, 0), challengeInterface = ''0.0.0.0'', challengeRegistry = [],
     runtimeDefaults = no_options\<lparr>PidsLimit := 512\<rparr>,
     policy = \<lparr>MaxSeedsPerRequest = 10, MaxConcurrentBuilds = 1, MaxBuildContextFiles = 10,
       MaxBuildContextBytes = 1000, MaxArtifactFiles = 10, MaxArtifactBytes = 1000, MaxArtifactFileBytes = 1000,
       MaxRequestBytes = 1000, SolverTimeout = 1, MaxSolverLogBytes = 100, MaxSolverFlagBytes = 100\<rparr>,
     ParseAddr = Some, ParsePort = Some, SetString = (\<lambda>_. None), RAMInBytes = (\<lambda>_. None),
     ParseUlimit = Some, sha256 = (\<lambda>s. s), parseProfile = (\<lambda>_. None)\<rparr>"

definition ex_world :: "string list world" where
  "ex_world = \<lparr>wdb = ex_instance_db, dock = [''old'', ''gone'', ''other''], artifacts = [], host_faults = [], randoms = [],
     diskQuotasEnabled = False, portLockHeld = False\<rparr>"

definition ex_run_build :: BuildMetadata where
  "ex_run_build = ex_build\<lparr>Images := [\<lparr>im_Id = 1, im_Host = ''web'', im_Ports = [], im_Build = 1\<rparr>],
     RequiredSeccompTweaks := []\<rparr>"

theorem no_container_forgotten_witness:
  "\<exists>w'. snd (newInstance ex_daemon ex_mgr ex_run_build ex_world) = w' \<and> length (dock w') = 4 \<and>
     set (dock w') \<subseteq> {''other''} \<union> tracked (tab (wdb w'))"
proof -
  let ?w = "snd (newInstance ex_daemon ex_mgr ex_run_build ex_world)"
  have s: "sound (wdb ex_world)" unfolding sound_def by code_simp
  have t: "set (dock ex_world) \<subseteq> {''other''} \<union> tracked (tab (wdb ex_world))"
    by (simp add: ex_world_def ex_instance_db_def tracked_def)
  have "length (dock ?w) = 4" by code_simp
  moreover have "set (dock ?w) \<subseteq> {''other''} \<union> tracked (tab (wdb ?w))"
    by (rule no_container_forgotten [OF ex_daemon_laws s t, THEN conjunct2]) blast
  ultimately show ?thesis by blast
qed

end
