(* ===== verification/Starting.thy ===== *)
theory Starting
  imports Tracking
begin

text \<open>
  What starting a container guarantees: the limits of the policy and the seccomp choice reach the
  specification given to Docker, and what becomes of the containers of a start that fails.
\<close>

section \<open>Confinement\<close>

lemma apply_options_Inr:
  assumes "apply_options m quotas c sp = Inr sp'"
  shows "Cpus c \<noteq> [] \<Longrightarrow> parseNanoCPUs (SetString m) (Cpus c) = Inr (cs_NanoCPUs sp')"
    "Memory c \<noteq> [] \<Longrightarrow> RAMInBytes m (Memory c) = Some (cs_Memory sp') \<and> cs_MemorySwap sp' = cs_Memory sp'"
    "PidsLimit c \<noteq> 0 \<Longrightarrow> cs_PidsLimit sp' = Some (PidsLimit c)"
    "parse_all (ParseUlimit m) (Ulimits c) = Some (cs_Ulimits sp')"
    "cs_CapDrop sp' = DroppedCaps c" "cs_ReadonlyRootfs sp' = ReadonlyRootfs c"
    "NoNewPrivileges c \<Longrightarrow> ''no-new-privileges:true'' \<in> set (cs_SecurityOpt sp')"
    "cs_Env sp' = cs_Env sp"
proof -
  obtain cpus memory limits where
    p: "(if Cpus c = [] then Inr 0 else parseNanoCPUs (SetString m) (Cpus c)) = Inr cpus"
      "(if Memory c = [] then Inr 0
        else case RAMInBytes m (Memory c) of None \<Rightarrow> Inl (Plain ''invalid size'') | Some b \<Rightarrow> Inr b) = Inr memory"
      "(case parse_all (ParseUlimit m) (Ulimits c) of
          None \<Rightarrow> Inl (Plain ''invalid ulimit'') | Some ls \<Rightarrow> Inr ls) = Inr limits" and
    sp': "sp' = sp\<lparr>cs_Init := Some (Init c), cs_NanoCPUs := cpus, cs_Memory := memory, cs_MemorySwap := memory,
       cs_Ulimits := limits, cs_PidsLimit := (if PidsLimit c \<noteq> 0 then Some (PidsLimit c) else None),
       cs_ReadonlyRootfs := ReadonlyRootfs c, cs_CapDrop := DroppedCaps c,
       cs_SecurityOpt := cs_SecurityOpt sp @ (if NoNewPrivileges c then [''no-new-privileges:true''] else []),
       cs_StorageOpt := (if DiskQuota c \<noteq> [] \<and> quotas then Some (DiskQuota c) else None),
       cs_CgroupParent := (if CgroupParent c \<noteq> [] then CgroupParent c else cs_CgroupParent sp)\<rparr>"
    using assms unfolding apply_options_def sbind_Inr_iff by blast
  show "Cpus c \<noteq> [] \<Longrightarrow> parseNanoCPUs (SetString m) (Cpus c) = Inr (cs_NanoCPUs sp')"
    using p(1) sp' by simp
  show "Memory c \<noteq> [] \<Longrightarrow> RAMInBytes m (Memory c) = Some (cs_Memory sp') \<and> cs_MemorySwap sp' = cs_Memory sp'"
    using p(2) sp' by (simp split: option.splits)
  show "parse_all (ParseUlimit m) (Ulimits c) = Some (cs_Ulimits sp')"
    using p(3) sp' by (simp split: option.splits)
  show "PidsLimit c \<noteq> 0 \<Longrightarrow> cs_PidsLimit sp' = Some (PidsLimit c)" "cs_CapDrop sp' = DroppedCaps c"
    "cs_ReadonlyRootfs sp' = ReadonlyRootfs c" "cs_Env sp' = cs_Env sp"
    "NoNewPrivileges c \<Longrightarrow> ''no-new-privileges:true'' \<in> set (cs_SecurityOpt sp')"
    by (simp_all add: sp')
qed

lemma configure_Inr:
  assumes "configureContainerSeccomp sp (Some opt) info = Inr sp'"
  shows "effectiveProfile opt \<noteq> [] \<Longrightarrow> ''seccomp='' @ effectiveProfile opt \<in> set (cs_SecurityOpt sp')"
    "Tweaks opt \<noteq> [] \<Longrightarrow> cs_Runtime sp' = RuntimeName \<and> seccompRuntimeReady info \<and>
       TweakEnvironmentVariable @ ''='' @ Join_with '','' (Tweaks opt) \<in> set (cs_Env sp')"
    "cs_NanoCPUs sp' = cs_NanoCPUs sp" "cs_Memory sp' = cs_Memory sp" "cs_MemorySwap sp' = cs_MemorySwap sp"
    "cs_PidsLimit sp' = cs_PidsLimit sp" "cs_Ulimits sp' = cs_Ulimits sp" "cs_CapDrop sp' = cs_CapDrop sp"
    "set (cs_SecurityOpt sp) \<subseteq> set (cs_SecurityOpt sp')"
  using assms by (auto simp: configureContainerSeccomp_def Let_def split: if_splits)

lemma merged_not_empty:
  assumes "Cpus d \<noteq> []" "Memory d \<noteq> []" "PidsLimit d \<noteq> 0"
  shows "Cpus (mergeRuntimeDefaults d c) \<noteq> []" "Memory (mergeRuntimeDefaults d c) \<noteq> []"
    "PidsLimit (mergeRuntimeDefaults d c) \<noteq> 0"
  using assms by (simp_all add: mergeRuntimeDefaults_def)

lemma spec_of_parts:
  assumes "spec_of dk m b opts net host published w = (Inr sp, w')"
  obtains own hasOwn sp0 sc where
    "effectiveContainerOptions opts (ToLower host) = (own, hasOwn)"
    "(if hasOwn \<or> has_options (mergeRuntimeDefaults (runtimeDefaults m) own)
      then apply_options m (diskQuotasEnabled w) (mergeRuntimeDefaults (runtimeDefaults m) own)
        (base_spec b net host published) else Inr (base_spec b net host published)) = Inr sp0"
    "withRequiredSeccompTweaks (Seccomp (mergeRuntimeDefaults (runtimeDefaults m) own)) (RequiredSeccompTweaks b) = Inr sc"
    "if wants_seccomp sc then \<exists>info. configureContainerSeccomp sp0 sc info = Inr sp else sp = sp0"
proof -
  obtain own hasOwn where e: "effectiveContainerOptions opts (ToLower host) = (own, hasOwn)" by fastforce
  let ?c = "mergeRuntimeDefaults (runtimeDefaults m) own"
  obtain sp0 sc where s: "(if hasOwn \<or> has_options ?c then apply_options m (diskQuotasEnabled w) ?c
        (base_spec b net host published) else Inr (base_spec b net host published)) = Inr sp0"
      "withRequiredSeccompTweaks (Seccomp ?c) (RequiredSeccompTweaks b) = Inr sc"
      "(if wants_seccomp sc
        then bnd (must (Info dk)) (\<lambda>info. lift_sum (configureContainerSeccomp sp0 sc info)) else ret sp0) w = (Inr sp, w')"
    using assms unfolding spec_of_def e prod.case Let_def
    by (auto simp: lift_sum_def elim!: bnd_InrE split: sum.splits)
  have "if wants_seccomp sc then \<exists>info. configureContainerSeccomp sp0 sc info = Inr sp else sp = sp0"
    using s(3) by (auto simp: lift_sum_def elim!: bnd_InrE split: if_splits sum.splits)
  then show thesis using that e s(1,2) by blast
qed


definition ex_policy_mgr :: mgr where
  "ex_policy_mgr = ex_mgr\<lparr>runtimeDefaults := no_options\<lparr>Cpus := ''1/2'', Memory := ''512m'', PidsLimit := 256,
     Ulimits := [''nofile='' @ Itoa 4096 @ '':'' @ Itoa 4096]\<rparr>, SetString := ex_rat, RAMInBytes := ex_ram\<rparr>"


section \<open>A failed start\<close>

text \<open>Nothing in a start removes a container: whatever is alive in \<open>B\<close> stays alive.\<close>

definition keeps_alive :: "('w \<Rightarrow> string set) \<Rightarrow> string set \<Rightarrow> 'w world \<Rightarrow> bool" where
  "keeps_alive alive B w \<longleftrightarrow> B \<subseteq> alive (dock w)"

lemma alive_in_db [maintains_intros]: "maintains (keeps_alive alive B) (in_db m)"
  by (simp add: maintains_def keeps_alive_def)

lemma alive_call: "(\<And>k. alive k \<subseteq> alive (snd (f k))) \<Longrightarrow> maintains (keeps_alive alive B) (call f)"
  by (auto simp: maintains_def keeps_alive_def)

lemma alive_must [maintains_intros]:
  "maintains (keeps_alive alive B) (call f) \<Longrightarrow> maintains (keeps_alive alive B) (must f)"
  unfolding must_def by (intro maintains_intros)

lemma alive_draw [maintains_intros]:
  "maintains (keeps_alive alive B) draw" "maintains (keeps_alive alive B) (host_call what)"
  by (simp_all add: maintains_def keeps_alive_def draw_def host_call_def Let_def)

lemma alive_kept:
  assumes "container_laws dk alive"
  shows "alive k \<subseteq> alive (snd (ContainerStart dk c k))" "alive k \<subseteq> alive (snd (ContainerInspect dk c k))"
    "alive k \<subseteq> alive (snd (Info dk k))" "alive k \<subseteq> alive (snd (ContainerCreate dk sp k))"
proof -
  show "alive k \<subseteq> alive (snd (ContainerCreate dk sp k))"
    using create_law [OF assms, where sp = sp and k = k] by (cases "ContainerCreate dk sp k") (auto split: sum.splits)
qed (use assms in \<open>simp_all only: container_laws_def order_refl\<close>)

lemma alive_calls_kept:
  assumes "container_laws dk alive"
  shows "maintains (keeps_alive alive B) (call (ContainerStart dk c))"
    "maintains (keeps_alive alive B) (call (ContainerInspect dk c))"
    "maintains (keeps_alive alive B) (call (Info dk))" "maintains (keeps_alive alive B) (call (ContainerCreate dk sp))"
  by (rule alive_call, rule alive_kept [OF assms])+

definition owns_alive :: "('w \<Rightarrow> string set) \<Rightarrow> 'w st \<Rightarrow> bool" where
  "owns_alive alive s \<longleftrightarrow> set (in_Containers (snd s)) \<subseteq> alive (dock (fst s))"

lemma owns_on_world:
  assumes "\<And>B. maintains (keeps_alive alive B) m"
  shows "maintains (owns_alive alive) (on_world m)"
proof -
  have "alive (dock w) \<subseteq> alive (dock (snd (m w)))" for w
    using assms [of "alive (dock w)"] by (auto simp: maintains_def keeps_alive_def)
  then show ?thesis by (auto simp: maintains_def owns_alive_def on_world_def split: prod.split)
      (metis snd_conv subsetD)
qed

lemma owns_with_instance: "(\<And>i. maintains (owns_alive alive) (f i)) \<Longrightarrow> maintains (owns_alive alive) (with_instance f)"
  by (simp add: maintains_def with_instance_def)

lemma owns_on_instance:
  "(\<And>i. in_Containers (f i) = in_Containers i) \<Longrightarrow> maintains (owns_alive alive) (on_instance f)"
  by (simp add: maintains_def on_instance_def owns_alive_def)

lemma create_alive:
  assumes "container_laws dk alive" "create_container dk sp w = (Inr c, w')"
  shows "alive (dock w) \<subseteq> alive (dock w') \<and> c \<in> alive (dock w')"
proof -
  have one: "alive k \<subseteq> alive k' \<and> (\<forall>x. q = Inr x \<longrightarrow> x \<in> alive k')" if "ContainerCreate dk sp k = (q, k')" for q k k' sp
    using create_law [OF assms(1), where sp = sp and k = k] that by (auto split: sum.splits)
  obtain q k where q: "ContainerCreate dk sp (dock w) = (q, k)" by fastforce
  obtain q2 k2 where q2: "ContainerCreate dk (sp\<lparr>cs_StorageOpt := None\<rparr>) k = (q2, k2)" by fastforce
  show ?thesis
    using assms(2) one [OF q] one [OF q2]
    by (cases q; cases q2)
      (auto simp: create_container_def bnd_def call_def must_def q q2 split: if_splits)
qed

lemma owns_create:
  assumes "container_laws dk alive" "\<And>c. maintains (owns_alive alive) (rest c)"
  shows "maintains (owns_alive alive) (bnd (on_world (create_container dk sp)) (\<lambda>cid.
    bnd (on_instance (\<lambda>i. i\<lparr>in_Containers := in_Containers i @ [cid]\<rparr>)) (\<lambda>_. rest cid)))"
  unfolding maintains_def
proof (intro allI impI)
  fix s
  assume s: "owns_alive alive s"
  obtain w i where wi: "s = (w, i)" by fastforce
  obtain r w1 where r: "create_container dk sp w = (r, w1)" by fastforce
  have mono: "alive (dock w) \<subseteq> alive (dock w1)"
  proof -
    have "maintains (keeps_alive alive (alive (dock w))) (create_container dk sp)"
      unfolding create_container_def
      by (intro maintains_intros alive_calls_kept [OF assms(1)]) (simp add: maintains_def keeps_alive_def)
    then have "keeps_alive alive (alive (dock w)) w1" by (rule maintainsD) (use r in \<open>simp_all add: keeps_alive_def\<close>)
    then show ?thesis by (simp add: keeps_alive_def)
  qed
  show "owns_alive alive (snd (bnd (on_world (create_container dk sp)) (\<lambda>cid.
    bnd (on_instance (\<lambda>i. i\<lparr>in_Containers := in_Containers i @ [cid]\<rparr>)) (\<lambda>_. rest cid)) s))"
  proof (cases r)
    case (Inl e)
    then show ?thesis using s mono by (auto simp: bnd_def on_world_def wi r owns_alive_def)
  next
    case (Inr c)
    have "c \<in> alive (dock w1)" using create_alive [OF assms(1)] r Inr by blast
    then have "owns_alive alive (w1, i\<lparr>in_Containers := in_Containers i @ [c]\<rparr>)"
      using s mono wi by (auto simp: owns_alive_def)
    then have "owns_alive alive (snd (rest c (w1, i\<lparr>in_Containers := in_Containers i @ [c]\<rparr>)))"
      using assms(2) [of c] by (simp add: maintains_def)
    then show ?thesis by (simp add: bnd_def on_world_def on_instance_def wi r Inr)
  qed
qed

lemma alive_publish [maintains_intros]: "maintains (keeps_alive alive B) (publish_ports m rpm ip preferred host ps)"
proof (induction ps)
  case (Cons p ps)
  then show ?case unfolding publish_ports.simps by (intro maintains_intros)
qed (simp only: publish_ports.simps maintains_ret)

lemma alive_spec_of [maintains_intros]:
  assumes "container_laws dk alive"
  shows "maintains (keeps_alive alive B) (spec_of dk m b opts net host published)"
proof -
  have "maintains (keeps_alive alive B) (\<lambda>w. (f w, w))" for f :: "'a world \<Rightarrow> err + container_spec"
    by (simp add: maintains_def)
  then show ?thesis unfolding spec_of_def Let_def
    by (intro maintains_intros alive_calls_kept [OF assms])
qed

lemma alive_await [maintains_intros]:
  assumes "container_laws dk alive"
  shows "maintains (keeps_alive alive B) (await_ports dk cid expected n)"
proof (induction n)
  case (Suc n)
  then show ?case unfolding await_ports.simps by (intro maintains_intros alive_calls_kept [OF assms])
qed (simp only: await_ports.simps maintains_ret)

lemma owns_start_image:
  assumes "container_laws dk alive"
  shows "maintains (owns_alive alive) (start_image dk m b opts preferred rpm ip im)"
  unfolding start_image_def
  by (intro maintains_if maintains_ret maintains_bnd maintains_pair owns_with_instance owns_create owns_on_world
      owns_on_instance maintains_map_err alive_in_db alive_publish alive_spec_of alive_must alive_calls_kept
      alive_await assms) simp_all

text \<open>
  The containers of a failed start are not released before the port lock is. Whatever happens
  in \<open>startContainersWithPersistence\<close>, every container it created is still alive when it returns and
  the lock is free: the deferred removal never runs, because the variable it tests is the \<open>err\<close> of
  the inner block, which is nil once the lock is held.
\<close>

theorem failed_start_releases_nothing:
  assumes "container_laws dk alive"
    "startContainersWithPersistence dk m b opts persist preferred (w, i) = (r, (w', i'))"
    "in_Containers i = []" "\<not> portLockHeld w"
  shows "set (in_Containers i') \<subseteq> alive (dock w')"
proof -
  have body: "maintains (owns_alive alive) (start_body dk m b opts persist preferred rpm)" for rpm
    unfolding start_body_def
    by (intro maintains_option maintains_ret maintains_bnd maintains_each owns_start_image owns_with_instance
        owns_on_world alive_in_db assms)
  have locked: "maintains (owns_alive alive) (\<lambda>s.
     case start_body dk m b opts persist preferred rpm (case s of (w, i) \<Rightarrow> (w\<lparr>portLockHeld := True\<rparr>, i)) of
       (r, s1) \<Rightarrow> (case deferred_release dk None r s1 of (r', (w, i)) \<Rightarrow> (r', (w\<lparr>portLockHeld := False\<rparr>, i))))" for rpm
    unfolding maintains_def
  proof (intro allI impI)
    fix s
    assume s: "owns_alive alive s"
    let ?s = "case s of (w, i) \<Rightarrow> (w\<lparr>portLockHeld := True\<rparr>, i)"
    obtain r1 w1 i1 where b: "start_body dk m b opts persist preferred rpm ?s = (r1, (w1, i1))" by (metis prod.exhaust)
    have "owns_alive alive ?s" using s by (cases s) (simp add: owns_alive_def)
    then have "owns_alive alive (w1, i1)" by (rule maintainsD [OF body _ b])
    then show "owns_alive alive (snd (case start_body dk m b opts persist preferred rpm ?s of
       (r, s1) \<Rightarrow> (case deferred_release dk None r s1 of (r', (w, i)) \<Rightarrow> (r', (w\<lparr>portLockHeld := False\<rparr>, i)))))"
      by (simp add: b deferred_release_def owns_alive_def)
  qed
  have "maintains (owns_alive alive) (startContainersWithPersistence dk m b opts persist preferred)"
    unfolding startContainersWithPersistence_def
    by (intro maintains_bnd maintains_if owns_on_world alive_in_db alive_draw body locked)
  then have "owns_alive alive (w', i')" by (rule maintainsD) (use assms(2,3) in \<open>simp_all add: owns_alive_def\<close>)
  then show ?thesis by (simp add: owns_alive_def)
qed

definition ex_port_world :: "string list world" where
  "ex_port_world = ex_world\<lparr>wdb := ex_instance_db\<lparr>tab := (tab ex_instance_db)\<lparr>
     hosts := [(''c'', ''web'', 0, [])], portNames := [(''c'', ''http'', ''web'', 80)]\<rparr>\<rparr>\<rparr>"

definition ex_port_build :: BuildMetadata where
  "ex_port_build = ex_run_build\<lparr>Images := [\<lparr>im_Id = 1, im_Host = ''web'', im_Ports = [''80/tcp''], im_Build = 1\<rparr>,
     \<lparr>im_Id = 2, im_Host = ''db'', im_Ports = [''99/tcp''], im_Build = 1\<rparr>]\<rparr>"

theorem failed_start_releases_nothing_witness:
  "\<exists>r w' i'. startContainersWithPersistence ex_daemon ex_mgr ex_port_build [] True [] (ex_port_world, (empty_instance 1)\<lparr>in_Id := 2\<rparr>) =
     (r, (w', i')) \<and> isl r \<and> length (in_Containers i') = 1 \<and> set (in_Containers i') \<subseteq> set (dock w') \<and> \<not> portLockHeld w'"
proof -
  let ?i = "(empty_instance 1)\<lparr>in_Id := 2\<rparr>"
  let ?s = "startContainersWithPersistence ex_daemon ex_mgr ex_port_build [] True [] (ex_port_world, ?i)"
  have e: "isl (fst ?s) \<and> length (in_Containers (snd (snd ?s))) = 1 \<and> \<not> portLockHeld (fst (snd ?s))" by code_simp
  obtain r w' i' where s: "?s = (r, (w', i'))" by (metis prod.exhaust)
  have "set (in_Containers i') \<subseteq> set (dock w')"
    by (rule failed_start_releases_nothing [OF ex_daemon_laws s])
      (simp_all add: empty_instance_def ex_port_world_def ex_world_def)
  then show ?thesis using e s by simp
qed

end
