(* ===== verification/Regex.thy ===== *)
theory Regex
  imports GoText
begin

text \<open>
  The part of Go's \<open>regexp\<close> that the program uses: leftmost matching with the preferences of a
  backtracking matcher, submatches, \<open>FindAllString...\<close> and \<open>ReplaceAllString\<close> with its templates.
  The matcher returns all ways to match from a position, the preferred one first.
\<close>

section \<open>Matching\<close>

datatype re =
    Eps
  | Cls "char \<Rightarrow> bool"
  | Cat re re
  | Alt re re
  | Star re
  | Grp nat re
  | Begin
  | End

type_synonym caps = "(nat \<times> nat \<times> nat) list"

text \<open>
  Greedy repetition. An iteration that consumes nothing is not repeated, so \<open>length s - i\<close>
  iterations from position \<open>i\<close> are all there can be.
\<close>

fun star :: "nat \<Rightarrow> (nat \<Rightarrow> caps \<Rightarrow> (nat \<times> caps) list) \<Rightarrow> nat \<Rightarrow> caps \<Rightarrow> (nat \<times> caps) list" where
  "star 0 f i c = [(i, c)]"
| "star (Suc n) f i c =
     concat (map (\<lambda>(j, c'). star n f j c') (filter (\<lambda>(j, _). i < j) (f i c))) @ [(i, c)]"

fun ways :: "re \<Rightarrow> string \<Rightarrow> nat \<Rightarrow> caps \<Rightarrow> (nat \<times> caps) list" where
  "ways Eps s i c = [(i, c)]"
| "ways (Cls p) s i c = (if i < length s \<and> p (s ! i) then [(Suc i, c)] else [])"
| "ways (Cat a b) s i c = concat (map (\<lambda>(j, c'). ways b s j c') (ways a s i c))"
| "ways (Alt a b) s i c = ways a s i c @ ways b s i c"
| "ways (Star a) s i c = star (length s - i) (ways a s) i c"
| "ways (Grp n a) s i c = map (\<lambda>(j, c'). (j, (n, i, j) # c')) (ways a s i c)"
| "ways Begin s i c = (if i = 0 then [(i, c)] else [])"
| "ways End s i c = (if i = length s then [(i, c)] else [])"

lemma star_bounds:
  assumes "\<And>i c j c'. i \<le> N \<Longrightarrow> (j, c') \<in> set (f i c) \<Longrightarrow> i \<le> j \<and> j \<le> N" "i \<le> N" "(j, c') \<in> set (star n f i c)"
  shows "i \<le> j \<and> j \<le> N"
  using assms(2,3)
proof (induction n arbitrary: i c)
  case (Suc n)
  show ?case
  proof (cases "(j, c') = (i, c)")
    case False
    then obtain k d where k: "(k, d) \<in> set (f i c)" "i < k" "(j, c') \<in> set (star n f k d)" using Suc(3) by auto
    then show ?thesis using assms(1) [OF Suc(2) k(1)] Suc.IH [OF _ k(3)] by simp
  qed (use Suc(2) in simp)
qed simp

text \<open>A match ends after it starts and within the text.\<close>

lemma ways_bounds: "i \<le> length s \<Longrightarrow> (j, c') \<in> set (ways r s i c) \<Longrightarrow> i \<le> j \<and> j \<le> length s"
proof (induction r arbitrary: i c j c')
  case (Cat a b)
  obtain k d where k: "(k, d) \<in> set (ways a s i c)" "(j, c') \<in> set (ways b s k d)" using Cat.prems(2) by auto
  have "i \<le> k \<and> k \<le> length s" by (rule Cat.IH(1) [OF Cat.prems(1) k(1)])
  moreover then have "k \<le> j \<and> j \<le> length s" using Cat.IH(2) k(2) by blast
  ultimately show ?case by simp
next
  case (Alt a b)
  have "(j, c') \<in> set (ways a s i c) \<or> (j, c') \<in> set (ways b s i c)" using Alt.prems(2) by auto
  then show ?case using Alt.IH Alt.prems(1) by blast
next
  case (Star a)
  have "(j, c') \<in> set (star (length s - i) (ways a s) i c)" using Star(3) by simp
  then show ?case by (rule star_bounds [rotated 2]) (use Star in blast)+
next
  case (Grp n a)
  obtain d where "(j, d) \<in> set (ways a s i c)" using Grp.prems(2) by auto
  then show ?case by (rule Grp.IH [OF Grp.prems(1)])
qed (auto split: if_splits)

text \<open>More iterations than characters change nothing.\<close>

lemma star_enough:
  assumes "\<And>i c j c'. i \<le> N \<Longrightarrow> (j, c') \<in> set (f i c) \<Longrightarrow> i \<le> j \<and> j \<le> N" "i \<le> N" "N - i \<le> n"
  shows "star n f i c = star (N - i) f i c"
  using assms(2,3)
proof (induction n arbitrary: i c rule: less_induct)
  case (less n)
  show ?case
  proof (cases "N - i")
    case 0
    then have none: "filter (\<lambda>(j, _). i < j) (f i c) = []"
      using assms(1) [OF less(2)] less(2) by (fastforce simp: filter_empty_conv)
    show ?thesis unfolding 0 by (cases n) (simp_all add: none)
  next
    case (Suc k)
    then obtain n' where n: "n = Suc n'" "k \<le> n'" using less(3) by (cases n) auto
    have "star n' f j c' = star k f j c'" if "(j, c') \<in> set (filter (\<lambda>(j, _). i < j) (f i c))" for j c'
    proof -
      have j: "i < j" "j \<le> N" using that assms(1) [OF less(2)] by auto
      then have "N - j \<le> k" using Suc by simp
      moreover have "star n' f j c' = star (N - j) f j c'"
        using j n Suc by (intro less(1)) auto
      moreover have "star k f j c' = star (N - j) f j c'"
        using j n Suc less(3) by (intro less(1)) auto
      ultimately show ?thesis by simp
    qed
    then have "map (\<lambda>(j, c'). star n' f j c') (filter (\<lambda>(j, _). i < j) (f i c)) =
        map (\<lambda>(j, c'). star k f j c') (filter (\<lambda>(j, _). i < j) (f i c))" by auto
    then show ?thesis by (simp only: n(1) Suc star.simps)
  qed
qed

text \<open>
  What a pattern means, without an order of preference, and that the matcher finds exactly that.
\<close>

inductive matches :: "re \<Rightarrow> string \<Rightarrow> nat \<Rightarrow> nat \<Rightarrow> bool" where
  "matches Eps s i i"
| "i < length s \<Longrightarrow> p (s ! i) \<Longrightarrow> matches (Cls p) s i (Suc i)"
| "matches a s i j \<Longrightarrow> matches b s j k \<Longrightarrow> matches (Cat a b) s i k"
| "matches a s i j \<Longrightarrow> matches (Alt a b) s i j"
| "matches b s i j \<Longrightarrow> matches (Alt a b) s i j"
| star_none: "matches (Star a) s i i"
| star_more: "matches a s i j \<Longrightarrow> matches (Star a) s j k \<Longrightarrow> matches (Star a) s i k"
| "matches a s i j \<Longrightarrow> matches (Grp n a) s i j"
| "matches Begin s 0 0"
| "matches End s (length s) (length s)"

inductive_simps matches_simps [simp]:
  "matches Eps s i j" "matches (Cls p) s i j" "matches (Cat a b) s i j" "matches (Alt a b) s i j"
  "matches (Grp n a) s i j" "matches Begin s i j" "matches End s i j"

lemma star_sound:
  assumes "\<And>i c j c'. (j, c') \<in> set (f i c) \<Longrightarrow> matches a s i j" "(j, c') \<in> set (star n f i c)"
  shows "matches (Star a) s i j"
  using assms(2)
proof (induction n arbitrary: i c)
  case (Suc n)
  show ?case
  proof (cases "(j, c') = (i, c)")
    case False
    then obtain k d where k: "(k, d) \<in> set (f i c)" "(j, c') \<in> set (star n f k d)" using Suc.prems by auto
    show ?thesis by (rule star_more [OF assms(1) [OF k(1)] Suc.IH [OF k(2)]])
  qed (simp add: star_none)
qed (simp add: star_none)

lemma ways_sound: "(j, c') \<in> set (ways r s i c) \<Longrightarrow> matches r s i j"
proof (induction r arbitrary: i c j c')
  case (Cat a b)
  obtain k d where k: "(k, d) \<in> set (ways a s i c)" "(j, c') \<in> set (ways b s k d)" using Cat.prems by auto
  show ?case using Cat.IH(1) [OF k(1)] Cat.IH(2) [OF k(2)] by auto
next
  case (Star a)
  have "(j, c') \<in> set (star (length s - i) (ways a s) i c)" using Star.prems by simp
  then show ?case by (rule star_sound [rotated]) (rule Star.IH)
qed (auto split: if_splits)

lemma matches_bounds: "matches r s i j \<Longrightarrow> i \<le> length s \<Longrightarrow> i \<le> j \<and> j \<le> length s"
  by (induction rule: matches.induct) auto

lemma star_complete:
  assumes "matches r s i k" "r = Star a" "i \<le> length s"
    "\<And>i c j. i \<le> length s \<Longrightarrow> matches a s i j \<Longrightarrow> \<exists>c'. (j, c') \<in> set (ways a s i c)"
  shows "\<exists>c'. (k, c') \<in> set (ways (Star a) s i c)"
  using assms
proof (induction arbitrary: c rule: matches.induct)
  case (star_none b s i)
  then show ?case by (cases "length s - i") auto
next
  case (star_more b s i j k)
  have m: "matches a s i j" using star_more.hyps(1) star_more.prems(1) by simp
  obtain d where d: "(j, d) \<in> set (ways a s i c)" using star_more.prems(3) [OF star_more.prems(2) m] by blast
  have j: "i \<le> j" "j \<le> length s" using matches_bounds [OF m star_more.prems(2)] by auto
  have ih: "\<exists>c'. (k, c') \<in> set (ways (Star a) s j e)" for e
    using star_more.IH(2) [OF star_more.prems(1) j(2) star_more.prems(3)] by blast
  show ?case
  proof (cases "i = j")
    case True
    then show ?thesis using ih by blast
  next
    case False
    then obtain n where n: "length s - i = Suc n" "length s - j \<le> n" using j by (cases "length s - i") auto
    obtain c' where "(k, c') \<in> set (star (length s - j) (ways a s) j d)" using ih [of d] by auto
    moreover have "star n (ways a s) j d = star (length s - j) (ways a s) j d"
      by (rule star_enough) (use ways_bounds j n in blast)+
    ultimately have "(k, c') \<in> set (star (Suc n) (ways a s) i c)" using d False j(1) by force
    then show ?thesis using n(1) by auto
  qed
qed simp_all

lemma ways_complete: "matches r s i j \<Longrightarrow> i \<le> length s \<Longrightarrow> \<exists>c'. (j, c') \<in> set (ways r s i c)"
proof (induction r arbitrary: i j c)
  case (Cat a b)
  obtain k where k: "matches a s i k" "matches b s k j" using Cat.prems(1) by auto
  then have "k \<le> length s" using matches_bounds Cat.prems(2) by blast
  then obtain d e where "(k, d) \<in> set (ways a s i c)" "(j, e) \<in> set (ways b s k d)"
    using Cat.IH(1) [OF k(1) Cat.prems(2)] Cat.IH(2) [OF k(2)] by blast
  then show ?case by fastforce
next
  case (Alt a b)
  then show ?case using Alt.IH [OF _ Alt.prems(2)] by fastforce
next
  case (Star a)
  show ?case by (rule star_complete [OF Star.prems(1) refl Star.prems(2)]) (rule Star.IH)
next
  case (Grp n a)
  then show ?case using Grp.IH [OF _ Grp.prems(2)] by fastforce
qed auto

lemma ways_iff: "i \<le> length s \<Longrightarrow> fst ` set (ways r s i c) = {j. matches r s i j}"
proof (intro equalityI subsetI CollectI)
  show "matches r s i j" if "j \<in> fst ` set (ways r s i c)" for j using that ways_sound by auto
  show "j \<in> fst ` set (ways r s i c)" if "i \<le> length s" "j \<in> {j. matches r s i j}" for j
    using ways_complete [OF _ that(1), of r j c] that(2) by force
qed

section \<open>Searching\<close>

type_synonym found = "nat \<times> nat \<times> caps"

text \<open>The leftmost match at or after a position, among those the preferred one.\<close>

fun search :: "nat \<Rightarrow> re \<Rightarrow> string \<Rightarrow> nat \<Rightarrow> found option" where
  "search n r s i =
     (case ways r s i [] of
        (j, c) # _ \<Rightarrow> Some (i, j, c)
      | [] \<Rightarrow> (case n of 0 \<Rightarrow> None | Suc n' \<Rightarrow> search n' r s (Suc i)))"

declare search.simps [simp del]

definition seek :: "re \<Rightarrow> string \<Rightarrow> nat \<Rightarrow> found option" where
  "seek r s i = (if i \<le> length s then search (length s - i) r s i else None)"

definition MatchString :: "re \<Rightarrow> string \<Rightarrow> bool" where
  "MatchString r s \<longleftrightarrow> seek r s 0 \<noteq> None"

definition submatch :: "string \<Rightarrow> found \<Rightarrow> nat \<Rightarrow> string option" where
  "submatch s f n =
     (case f of (i, j, c) \<Rightarrow>
       if n = 0 then Some (take (j - i) (drop i s))
       else map_option (\<lambda>(a, b). take (b - a) (drop a s)) (map_of c n))"

text \<open>A group that took no part in the match is the empty string in the string forms.\<close>

definition group :: "string \<Rightarrow> found \<Rightarrow> nat \<Rightarrow> string" where
  "group s f n = (case submatch s f n of None \<Rightarrow> [] | Some t \<Rightarrow> t)"

text \<open>
  All successive matches. An empty match right after the previous match is dropped; the search goes on
  after the match, or one character later when the match was empty at the search position.
\<close>

fun all_from :: "nat \<Rightarrow> re \<Rightarrow> string \<Rightarrow> nat \<Rightarrow> nat option \<Rightarrow> found list" where
  "all_from 0 r s pos prev = []"
| "all_from (Suc n) r s pos prev =
     (case seek r s pos of
        None \<Rightarrow> []
      | Some (a, b, c) \<Rightarrow>
        if b = pos
        then (if prev = Some a then [] else [(a, b, c)]) @ all_from n r s (Suc pos) (Some b)
        else (a, b, c) # all_from n r s b (Some b))"

definition FindAll :: "re \<Rightarrow> string \<Rightarrow> found list" where
  "FindAll r s = all_from (Suc (length s)) r s 0 None"

definition FindAllString :: "re \<Rightarrow> string \<Rightarrow> string list" where
  "FindAllString r s = map (\<lambda>f. group s f 0) (FindAll r s)"

section \<open>Replacing\<close>

definition is_word :: "char \<Rightarrow> bool" where
  "is_word c \<longleftrightarrow> is_lower c \<or> is_upper c \<or> is_digit c \<or> c = CHR ''_''"

text \<open>The name after a dollar sign, with or without braces, and the rest of the template.\<close>

definition dollar_name :: "string \<Rightarrow> (string \<times> string) option" where
  "dollar_name t =
     (let brace = (t \<noteq> [] \<and> hd t = CHR ''{'');
          t' = (if brace then tl t else t);
          name = takeWhile is_word t';
          rest = dropWhile is_word t' in
      if name = [] then None
      else if brace then (if rest \<noteq> [] \<and> hd rest = CHR ''}'' then Some (name, tl rest) else None)
      else Some (name, rest))"

definition group_number :: "string \<Rightarrow> nat option" where
  "group_number name =
     (if list_all is_digit name \<and> length name < 10 \<and> (hd name = CHR ''0'' \<longrightarrow> length name = 1)
      then Some (dec_val name) else None)"

fun expand :: "nat \<Rightarrow> string \<Rightarrow> string \<Rightarrow> found \<Rightarrow> string" where
  "expand n s [] f = []"
| "expand 0 s (x # t) f = x # t"
| "expand (Suc n) s (x # t) f =
     (if x \<noteq> CHR ''$'' then x # expand n s t f
      else if t \<noteq> [] \<and> hd t = CHR ''$'' then CHR ''$'' # expand n s (tl t) f
      else case dollar_name t of
        None \<Rightarrow> CHR ''$'' # expand n s t f
      | Some (name, rest) \<Rightarrow>
          (case group_number name of Some k \<Rightarrow> group s f k | None \<Rightarrow> []) @ expand n s rest f)"

text \<open>\<open>ReplaceAllString\<close>; every turn moves the search position, so the length of the text bounds them.\<close>

fun replace_from :: "nat \<Rightarrow> re \<Rightarrow> string \<Rightarrow> string \<Rightarrow> nat \<Rightarrow> nat \<Rightarrow> string" where
  "replace_from 0 r s t pos lastEnd = drop lastEnd s"
| "replace_from (Suc n) r s t pos lastEnd =
     (case seek r s pos of
        None \<Rightarrow> drop lastEnd s
      | Some (a, b, c) \<Rightarrow>
          take (a - lastEnd) (drop lastEnd s) @
          (if b > lastEnd \<or> a = 0 then expand (length t) s t (a, b, c) else []) @
          replace_from n r s t (if Suc pos > b then Suc pos else b) b)"

definition ReplaceAllString :: "re \<Rightarrow> string \<Rightarrow> string \<Rightarrow> string" where
  "ReplaceAllString r s t = replace_from (Suc (length s)) r s t 0 0"

section \<open>Facts about searching\<close>

lemma search_Some: "search n r s i = Some (a, b, c) \<Longrightarrow> i \<le> a \<and> a \<le> i + n \<and> (\<exists>rest. ways r s a [] = (b, c) # rest)"
proof (induction n arbitrary: i)
  case 0
  then show ?case by (subst (asm) search.simps) (auto split: list.splits)
next
  case (Suc n)
  show ?case
  proof (cases "ways r s i []")
    case Nil
    then have "search n r s (Suc i) = Some (a, b, c)" using Suc(2) by (subst (asm) search.simps) simp
    then show ?thesis using Suc.IH by fastforce
  next
    case (Cons x xs)
    then show ?thesis using Suc(2) by (subst (asm) search.simps) (auto split: prod.splits)
  qed
qed

lemma seek_bounds:
  assumes "seek r s i = Some (a, b, c)"
  shows "i \<le> a" "a \<le> b" "b \<le> length s" "\<exists>rest. ways r s a [] = (b, c) # rest"
proof -
  have i: "i \<le> length s" "search (length s - i) r s i = Some (a, b, c)" using assms by (auto simp: seek_def split: if_splits)
  note f = search_Some [OF i(2)]
  then show "i \<le> a" "\<exists>rest. ways r s a [] = (b, c) # rest" by auto
  have "a \<le> length s" using f i(1) by simp
  moreover have "(b, c) \<in> set (ways r s a [])" using f by auto
  ultimately show "a \<le> b" "b \<le> length s" using ways_bounds by blast+
qed

text \<open>A text without a match is not changed.\<close>

lemma replace_none: "seek r s 0 = None \<Longrightarrow> ReplaceAllString r s t = s"
  by (simp add: ReplaceAllString_def)

lemma FindAll_none_iff: "FindAll r s = [] \<longleftrightarrow> seek r s 0 = None"
  by (auto simp: FindAll_def split: option.splits if_splits)

text \<open>The matches reported are increasing and do not overlap.\<close>

lemma all_from_bounds:
  "(a, b, c) \<in> set (all_from n r s pos prev) \<Longrightarrow> pos \<le> a \<and> a \<le> b \<and> b \<le> length s"
proof (induction n arbitrary: pos prev)
  case (Suc n)
  obtain a1 b1 c1 where f: "seek r s pos = Some (a1, b1, c1)"
    using Suc.prems by (cases "seek r s pos") auto
  note fb = seek_bounds(1-3) [OF f]
  show ?case using Suc(2) f fb Suc.IH by (force split: if_splits)
qed simp

lemma search_None: "search n r s i = None \<longleftrightarrow> (\<forall>k. i \<le> k \<and> k \<le> i + n \<longrightarrow> ways r s k [] = [])"
proof (induction n arbitrary: i)
  case 0
  then show ?case by (subst search.simps) (auto split: list.splits)
next
  case (Suc n)
  have "(\<forall>k. i \<le> k \<and> k \<le> i + Suc n \<longrightarrow> P k) \<longleftrightarrow> P i \<and> (\<forall>k. Suc i \<le> k \<and> k \<le> Suc i + n \<longrightarrow> P k)" for P
    by (metis Suc_leD add_Suc add_Suc_right le_add1 le_antisym not_less_eq_eq)
  then show ?case using Suc.IH [of "Suc i"] by (subst search.simps) (auto split: list.splits prod.splits)
qed

lemma MatchString_iff: "MatchString r s \<longleftrightarrow> (\<exists>i j. i \<le> length s \<and> matches r s i j)"
proof -
  have "ways r s k [] = [] \<longleftrightarrow> (\<nexists>j. matches r s k j)" if "k \<le> length s" for k
    using ways_iff [OF that, of r "[]"] by auto
  then show ?thesis by (auto simp: MatchString_def seek_def search_None)
qed

section \<open>Building patterns\<close>

fun lit :: "string \<Rightarrow> re" where
  "lit [] = Eps"
| "lit (x # xs) = Cat (Cls (\<lambda>c. c = x)) (lit xs)"

definition plus :: "re \<Rightarrow> re" where
  "plus r = Cat r (Star r)"

definition optional :: "re \<Rightarrow> re" where
  "optional r = Alt r Eps"

definition one_of :: "string \<Rightarrow> re" where
  "one_of cs = Cls (\<lambda>c. c \<in> set cs)"

definition none_of :: "string \<Rightarrow> re" where
  "none_of cs = Cls (\<lambda>c. c \<notin> set cs)"

text \<open>\<open>\s\<close> is tab, newline, form feed, carriage return and space.\<close>

definition is_blank :: "char \<Rightarrow> bool" where
  "is_blank c = (let n = of_char c :: nat in n = 9 \<or> n = 10 \<or> n = 12 \<or> n = 13 \<or> n = 32)"

definition blanks :: re where "blanks = Star (Cls is_blank)"

definition word :: re where "word = plus (Cls is_word)"

fun cats :: "re list \<Rightarrow> re" where
  "cats [] = Eps"
| "cats [r] = r"
| "cats (r # rs) = Cat r (cats rs)"

end
