(* ===== verification/Templates.thy ===== *)
theory Templates
  imports Regex ChallengeStore Containers
begin

text \<open>
  The templates in the texts of a challenge and the validation of its metadata and of its builds, from
  \<open>cmgr/loader.go\<close>. The patterns are the regular expressions of the source. Errors are kept in the
  order in which the source records them; Go's ranging over a map is one order of the list for it.
\<close>

section \<open>The patterns\<close>

definition quote_mark :: re where "quote_mark = one_of [CHR 0x22, CHR 0x27]"

definition quoted :: "re \<Rightarrow> re" where "quoted r = cats [quote_mark, r, quote_mark]"

definition open_tag :: "string \<Rightarrow> re" where "open_tag name = cats [lit ''{{'', blanks, lit name]"

definition close_tag :: re where "close_tag = cats [blanks, lit ''}}'']"

definition comma :: re where "comma = cats [lit '','', blanks]"

definition call_of :: "string \<Rightarrow> re \<Rightarrow> re" where
  "call_of name args = cats [open_tag (name @ ''(''), args, lit '')'', close_tag]"

definition templateRe :: re where "templateRe = cats [lit ''{{'', Star (none_of ''}''), lit ''}}'']"

definition filename_char :: "char \<Rightarrow> bool" where
  "filename_char c \<longleftrightarrow> is_lower c \<or> is_upper c \<or> is_digit c \<or> c = CHR ''_'' \<or> c = CHR ''.'' \<or> c = CHR ''-''"

definition filenamePattern :: re where "filenamePattern = plus (Cls filename_char)"

definition displayTextPattern :: re where "displayTextPattern = plus (none_of [CHR ''<'', CHR ''>'', CHR 0x27, CHR 0x22])"

definition url_char :: "char \<Rightarrow> bool" where
  "url_char c \<longleftrightarrow> is_lower c \<or> is_upper c \<or> is_digit c \<or> c \<in> set ''_%/=?+&#!.,-''"

definition urlPathPattern :: "nat \<Rightarrow> re" where
  "urlPathPattern n = cats [optional (lit ''/''), Grp n (Star (Cls url_char))]"

definition urlRe :: re where "urlRe = call_of ''url'' (quoted (Grp 1 filenamePattern))"

definition urlForRe :: re where
  "urlForRe = call_of ''url_for'' (cats [quoted (Grp 1 filenamePattern), comma, quoted (Grp 2 displayTextPattern)])"

definition shortUrlForRe :: re where "shortUrlForRe = call_of ''url_for'' (quoted (Grp 1 filenamePattern))"

definition httpBaseRe :: re where "httpBaseRe = call_of ''http_base'' (quoted (Grp 1 word))"

definition shortHttpBaseRe :: re where "shortHttpBaseRe = cats [open_tag ''http_base'', close_tag]"

definition portRe :: re where "portRe = call_of ''port'' (quoted (Grp 1 word))"

definition shortPortRe :: re where "shortPortRe = cats [open_tag ''port'', close_tag]"

definition serverRe :: re where "serverRe = call_of ''server'' (quoted (Grp 1 word))"

definition shortServerRe :: re where "shortServerRe = cats [open_tag ''server'', close_tag]"

definition lookupRe :: re where "lookupRe = call_of ''lookup'' (quoted (Grp 1 word))"

definition linkRe :: re where
  "linkRe = call_of ''link'' (cats [quoted (Grp 1 word), comma, quoted (urlPathPattern 2)])"

definition shortLinkRe :: re where "shortLinkRe = call_of ''link'' (quoted (urlPathPattern 1))"

definition linkAsRe :: re where
  "linkAsRe = cats [open_tag ''link_as('', quoted (Grp 1 word), comma, quoted (urlPathPattern 2), comma,
     quoted (Grp 3 displayTextPattern), blanks, lit '')}}'']"

definition shortLinkAsRe :: re where
  "shortLinkAsRe = cats [open_tag ''link_as('', quoted (urlPathPattern 1), comma,
     quoted (Grp 2 displayTextPattern), blanks, lit '')}}'']"

section \<open>Replacement texts\<close>

definition dq :: string where "dq = [CHR 0x22]"

definition sq :: string where "sq = [CHR 0x27]"

definition in_dq :: "string \<Rightarrow> string" where "in_dq s = dq @ s @ dq"

definition anchor :: "string \<Rightarrow> string \<Rightarrow> string \<Rightarrow> string" where
  "anchor target attrs body = ''<a href='' @ sq @ target @ sq @ attrs @ ''>'' @ body @ ''</a>''"

definition port_address :: string where
  "port_address = ''{{http_base('' @ in_dq ''${1}'' @ '')}}:{{port('' @ in_dq ''${1}'' @ '')}}/${2}''"

definition new_tab :: string where "new_tab = '' target='' @ sq @ ''_blank'' @ sq"

text \<open>The forms without a port name, with the only port filled in.\<close>

definition fill_port :: "string \<Rightarrow> string \<Rightarrow> string" where
  "fill_port port s =
     (let s1 = ReplaceAllString shortHttpBaseRe s (''{{http_base('' @ in_dq port @ '')}}'');
          s2 = ReplaceAllString shortPortRe s1 (''{{port('' @ in_dq port @ '')}}'');
          s3 = ReplaceAllString shortServerRe s2 (''{{server('' @ in_dq port @ '')}}'');
          s4 = ReplaceAllString shortLinkRe s3 (''{{link('' @ in_dq port @ '', '' @ in_dq ''${1}'' @ '')}}'') in
      ReplaceAllString shortLinkAsRe s4
        (''{{link_as('' @ in_dq port @ '', '' @ in_dq ''${1}'' @ '', '' @ in_dq ''${2}'' @ '')}}''))"

definition lift_links :: "string \<Rightarrow> string" where
  "lift_links s =
     (let s1 = ReplaceAllString urlForRe s (anchor (''{{url('' @ in_dq ''${1}'' @ '')}}'') '' download'' ''${2}'');
          s2 = ReplaceAllString linkRe s1 (anchor port_address new_tab ''/${2}'') in
      ReplaceAllString linkAsRe s2 (anchor port_address new_tab ''${3}''))"

section \<open>Checking a text\<close>

type_synonym ports = "(string \<times> PortInfo) list"

definition the_port :: "ports \<Rightarrow> string option" where
  "the_port pm = (case pm of [(name, _)] \<Rightarrow> Some name | _ \<Rightarrow> None)"

definition short_forms :: "re list" where
  "short_forms = [shortUrlForRe, shortHttpBaseRe, shortPortRe, shortServerRe, shortLinkRe, shortLinkAsRe]"

text \<open>One template: its error if it is not recognised, and the port it counts as a reference to.\<close>

definition first_group :: "re \<Rightarrow> string \<Rightarrow> string option" where
  "first_group r s = map_option (\<lambda>f. group s f 1) (seek r s 0)"

definition check_template :: "ports \<Rightarrow> string \<Rightarrow> err list \<times> string list" where
  "check_template pm tmpl =
     (if MatchString urlRe tmpl \<or> MatchString lookupRe tmpl then ([], [])
      else
      let (res, isPortRef) =
        (case first_group httpBaseRe tmpl of
           Some p \<Rightarrow> (Some p, False)
         | None \<Rightarrow>
           (case first_group portRe tmpl of
              Some p \<Rightarrow> (Some p, True)
            | None \<Rightarrow> (first_group serverRe tmpl, False))) in
      case res of
        None \<Rightarrow> ([Plain ''unrecognized template string''], [])
      | Some p \<Rightarrow>
        if pm = [] then ([Plain ''unrecognized template string''], [])
        else if map_of pm p = None then ([Plain ''unrecognized port in template''], [])
        else ([], if isPortRef then [p] else []))"

definition check_templates :: "ports \<Rightarrow> string list \<Rightarrow> err list \<times> string list" where
  "check_templates pm tmpls =
     (concat (map (fst \<circ> check_template pm) tmpls), concat (map (snd \<circ> check_template pm) tmpls))"

text \<open>The normalised text, the errors in order, and the ports referenced.\<close>

definition normalizeAndCheckTemplated :: "ports \<Rightarrow> string \<Rightarrow> string \<times> err list \<times> string list" where
  "normalizeAndCheckTemplated pm s0 =
     (let s1 = ReplaceAllString shortUrlForRe s0 (''{{url_for('' @ in_dq ''$1'' @ '', '' @ in_dq ''$1'' @ '')}}'');
          (s2, es) =
            (case the_port pm of
               Some p \<Rightarrow> (fill_port p s1, [])
             | None \<Rightarrow> (s1, map (\<lambda>_. Plain ''cannot use short form'') (concat (map (\<lambda>r. FindAllString r s1) short_forms))));
          s3 = lift_links s2;
          (es', refs) = check_templates pm (FindAllString templateRe s3) in
      (s3, es @ es', refs))"

definition last_error :: "err list \<Rightarrow> err list" where
  "last_error es = (if es = [] then [] else [last es])"

section \<open>Container options\<close>

definition droppable_capabilities :: "string list" where
  "droppable_capabilities = map ((@) ''CAP_'')
     [''ALL'', ''AUDIT_WRITE'', ''CHOWN'', ''DAC_OVERRIDE'', ''FOWNER'', ''FSETID'', ''KILL'', ''MKNOD'',
      ''NET_BIND_SERVICE'', ''NET_RAW'', ''SETFCAP'', ''SETGID'', ''SETPCAP'', ''SETUID'', ''SYS_CHROOT'']"

definition droppable :: "string \<Rightarrow> bool" where
  "droppable cap \<longleftrightarrow> cap \<in> set droppable_capabilities \<or> ''CAP_'' @ cap \<in> set droppable_capabilities"

text \<open>The name of a limit that \<open>ParseUlimit\<close> accepted is what stands before the equals sign.\<close>

definition positive_size :: "(string \<Rightarrow> int option) \<Rightarrow> string \<Rightarrow> bool" where
  "positive_size ram s \<longleftrightarrow> (case ram s of Some b \<Rightarrow> 0 < b | None \<Rightarrow> False)"

definition option_errors :: "mgr \<Rightarrow> ContainerOptions \<Rightarrow> err list" where
  "option_errors m c =
     (if Cpus c \<noteq> [] \<and> \<not> (case parseNanoCPUs (SetString m) (Cpus c) of Inr n \<Rightarrow> 0 < n | Inl _ \<Rightarrow> False)
      then [Plain ''error parsing cpus container option''] else []) @
     (if Memory c \<noteq> [] \<and> \<not> positive_size (RAMInBytes m) (Memory c)
      then [Plain ''error parsing memory container option''] else []) @
     concat (map (\<lambda>u.
       if ParseUlimit m u = None then [Plain ''error parsing ulimits container option'']
       else if limit_name u = ''nproc'' then [Plain ''nproc ulimits are not supported'']
       else []) (Ulimits c)) @
     (if PidsLimit c < -1 then [Plain ''invalid pidslimit container option''] else []) @
     map (\<lambda>_. Plain ''invalid DroppedCaps container option'') (filter (\<lambda>cap. \<not> droppable cap) (DroppedCaps c)) @
     (if DiskQuota c \<noteq> [] \<and> \<not> positive_size (RAMInBytes m) (DiskQuota c)
      then [Plain ''error parsing DiskQuota container option''] else [])"

type_synonym seccomp_resolver = "string \<Rightarrow> SeccompOptions \<Rightarrow> err + SeccompOptions"

definition validate_override :: "mgr \<Rightarrow> seccomp_resolver \<Rightarrow> string \<Rightarrow> ContainerOptions \<Rightarrow> ContainerOptions \<times> err list" where
  "validate_override m resolver path c =
     (let (c', es) =
        (case Seccomp c of
           None \<Rightarrow> (c, [])
         | Some opt \<Rightarrow>
           (case resolver path opt of
              Inl e \<Rightarrow> (c, [Plain ''error resolving seccomp container option''])
            | Inr opt' \<Rightarrow> (c\<lparr>Seccomp := Some opt'\<rparr>, []))) in
      (c', es @ option_errors m c'))"

section \<open>Metadata\<close>

definition lower_or_digit :: "char \<Rightarrow> bool" where
  "lower_or_digit c \<longleftrightarrow> is_lower c \<or> is_digit c"

definition namespaceRe :: re where
  "namespaceRe = cats [Begin, optional (cats [plus (Cls lower_or_digit),
     Star (cats [lit ''/'', plus (Cls lower_or_digit)])]), End]"

definition field_errors :: "ChallengeMetadata \<Rightarrow> err list" where
  "field_errors md =
     (if ch_Name md = [] then [Plain ''challenge file missing name''] else []) @
     (if \<not> MatchString namespaceRe (Namespace md) then [Plain ''invalid namespace''] else []) @
     (if FindAllString templateRe (Description md) \<noteq> [] then [Plain ''template strings not allowed''] else []) @
     (if MaxUsers md < 0 then [Plain ''max_users cannot be negative''] else []) @
     (if Points md < 0 then [Plain ''points cannot be negative''] else [])"

definition validateMetadata :: "mgr \<Rightarrow> seccomp_resolver \<Rightarrow> ChallengeMetadata \<Rightarrow> ChallengeMetadata \<times> err list" where
  "validateMetadata m resolver md =
     (let pm = PortMap md;
          (details, es1, refs1) = normalizeAndCheckTemplated pm (Details md);
          hs = map (normalizeAndCheckTemplated pm) (Hints md);
          refs = refs1 @ concat (map (snd \<circ> snd) hs);
          unused = (if isHacksportChallengeType (ChallengeType md) then []
                    else filter (\<lambda>p. p \<notin> set refs) (map fst pm));
          os = map (\<lambda>(host, c). (host, validate_override m resolver (Path md) c)) (Overrides (ch_Options md));
          overrides = map (\<lambda>(host, c, _). (host, c)) os in
      (md\<lparr>Details := details, Hints := map fst hs,
          ch_Options := (ch_Options md)\<lparr>Overrides := overrides,
            co_Container := (case map_of overrides [] of Some c \<Rightarrow> c | None \<Rightarrow> no_options)\<rparr>\<rparr>,
       field_errors md @ last_error es1 @ concat (map (last_error \<circ> fst \<circ> snd) hs) @
       map (\<lambda>_. Plain ''port published but not referenced'') unused @ concat (map (snd \<circ> snd) os)))"

section \<open>Builds\<close>

definition references :: "re \<Rightarrow> string \<Rightarrow> string list" where
  "references r s = map (\<lambda>f. group s f 1) (FindAll r s)"

definition check_references :: "string \<Rightarrow> string list \<Rightarrow> string list \<Rightarrow> err list" where
  "check_references what known refs = map (\<lambda>_. Plain what) (filter (\<lambda>k. k \<notin> set known) refs)"

definition texts_of :: "ChallengeMetadata \<Rightarrow> string list" where
  "texts_of c = Details c # Hints c"

definition unreferenced :: "string list \<Rightarrow> string list \<Rightarrow> string list" where
  "unreferenced known refs = filter (\<lambda>k. k \<notin> set refs) (remdups known)"

definition validateBuild :: "ChallengeMetadata \<Rightarrow> BuildMetadata \<Rightarrow> string list \<Rightarrow> err + unit" where
  "validateBuild c b files =
     (let keys = map fst (LookupData b);
          file_refs = concat (map (references urlRe) (texts_of c));
          lookup_refs = concat (map (references lookupRe) (texts_of c)) in
      joined (concat (map (\<lambda>s. check_references ''unknown artifact'' files (references urlRe s) @
            check_references ''unknown lookup key'' keys (references lookupRe s)) (texts_of c)) @
        map (\<lambda>_. Plain ''artifact file published but not referenced'') (unreferenced files file_refs) @
        map (\<lambda>_. Plain ''lookup value published but not referenced'') (unreferenced keys lookup_refs)))"

section \<open>Builds reference exactly what they publish\<close>

definition referenced :: "re \<Rightarrow> ChallengeMetadata \<Rightarrow> string set" where
  "referenced r c = (\<Union>s \<in> set (texts_of c). set (references r s))"

lemma joined_ok_iff: "joined es = Inr () \<longleftrightarrow> es = []"
  by (simp add: joined_def join_errors_def)

lemma check_references_ok: "check_references what known refs = [] \<longleftrightarrow> set refs \<subseteq> set known"
  by (auto simp: check_references_def filter_empty_conv)

lemma unreferenced_none: "unreferenced known refs = [] \<longleftrightarrow> set known \<subseteq> set refs"
  by (auto simp: unreferenced_def filter_empty_conv)

lemma validateBuild_iff:
  "validateBuild c b files = Inr () \<longleftrightarrow>
     referenced urlRe c = set files \<and> referenced lookupRe c = set (map fst (LookupData b))"
  unfolding validateBuild_def Let_def joined_ok_iff
  by (auto simp: check_references_ok unreferenced_none referenced_def)


section \<open>What validation guarantees\<close>

definition seg :: "string \<Rightarrow> nat \<Rightarrow> nat \<Rightarrow> string" where
  "seg s i j = take (j - i) (drop i s)"

lemma seg_same [simp]: "seg s i i = []"
  by (simp add: seg_def)

lemma seg_append: "i \<le> j \<Longrightarrow> j \<le> k \<Longrightarrow> seg s i j @ seg s j k = seg s i k"
proof -
  assume "i \<le> j" "j \<le> k"
  then obtain d e where "j = i + d" "k = j + e" by (metis le_Suc_ex)
  then show ?thesis by (simp add: seg_def take_add add.commute)
qed

lemma seg_one: "i < length s \<Longrightarrow> seg s i (Suc i) = [s ! i]"
  by (simp add: seg_def take_Suc_conv_app_nth hd_drop_conv_nth take_Suc)

lemma matches_class_star:
  assumes "matches r s i j" "r = Star (Cls p)" "i \<le> length s"
  shows "list_all p (seg s i j)"
  using assms
proof (induction rule: matches.induct)
  case (star_more a s i j k)
  have j: "j = Suc i" "i < length s" "p (s ! i)" using star_more.hyps(1) star_more.prems(1) by auto
  have k: "j \<le> k" using matches_bounds [OF star_more.hyps(2)] j by simp
  have "list_all p (seg s j k)" using star_more.IH(2) star_more.prems(1) j by simp
  then show ?case using seg_append [of i j k s] seg_one [OF j(2)] j k by (metis append_Cons append_Nil le_SucI le_refl list.pred_inject(2))
qed simp_all

lemma matches_class_plus:
  assumes "matches (plus (Cls p)) s i j"
  shows "i < j" "j \<le> length s" "seg s i j \<noteq> []" "list_all p (seg s i j)"
proof -
  have m: "i < length s" "p (s ! i)" "matches (Star (Cls p)) s (Suc i) j" using assms by (auto simp: plus_def)
  have b: "Suc i \<le> j \<and> j \<le> length s" using matches_bounds [OF m(3)] m(1) by simp
  then show "i < j" "j \<le> length s" by auto
  have "seg s i j = s ! i # seg s (Suc i) j"
    using seg_append [of i "Suc i" j s] seg_one [OF m(1)] b by simp
  then show "seg s i j \<noteq> []" "list_all p (seg s i j)"
    using matches_class_star [OF m(3) refl] m(1,2) by simp_all
qed

lemma matches_slash_words:
  assumes "matches r s i j" "r = Star (cats [lit ''/'', plus (Cls p)])" "i \<le> length s"
  shows "\<exists>ws. seg s i j = concat (map ((#) CHR ''/'') ws) \<and> list_all (\<lambda>w. w \<noteq> [] \<and> list_all p w) ws"
  using assms
proof (induction rule: matches.induct)
  case (star_none a s i)
  then show ?case by (intro exI [of _ "[]"]) simp
next
  case (star_more a s i j k)
  have m: "i < length s" "s ! i = CHR ''/''" "matches (plus (Cls p)) s (Suc i) j"
    using star_more.hyps(1) star_more.prems(1) by auto
  note w = matches_class_plus [OF m(3)]
  obtain ws where ws: "seg s j k = concat (map ((#) CHR ''/'') ws)" "list_all (\<lambda>w. w \<noteq> [] \<and> list_all p w) ws"
    using star_more.IH(2) [OF star_more.prems(1) w(2)] by blast
  have k: "j \<le> k" using matches_bounds [OF star_more.hyps(2) w(2)] by simp
  have "seg s i k = CHR ''/'' # seg s (Suc i) j @ seg s j k"
    using seg_append [of i "Suc i" k s] seg_append [of "Suc i" j k s] seg_one [OF m(1)] m(2) w(1) k by simp
  then show ?case using ws w(3,4) by (intro exI [of _ "seg s (Suc i) j # ws"]) simp
qed simp_all

definition namespace_ok :: "string \<Rightarrow> bool" where
  "namespace_ok ns \<longleftrightarrow> ns = [] \<or> (\<forall>c \<in> set (Split CHR ''/'' ns). c \<noteq> [] \<and> list_all lower_or_digit c)"

lemma Join_with_slash: "Join_with ''/'' (w # ws) = w @ concat (map ((#) CHR ''/'') ws)"
  by (induction ws arbitrary: w) (auto simp: Join_with_Cons)

lemma namespace_matches:
  assumes "MatchString namespaceRe ns"
  shows "namespace_ok ns"
proof (cases "ns = []")
  case False
  then obtain k where m: "matches (plus (Cls lower_or_digit)) ns 0 k"
    "matches (Star (cats [lit ''/'', plus (Cls lower_or_digit)])) ns k (length ns)"
    using assms by (auto simp: MatchString_iff namespaceRe_def optional_def)
  note w = matches_class_plus [OF m(1)]
  obtain ws where ws: "seg ns k (length ns) = concat (map ((#) CHR ''/'') ws)"
    "list_all (\<lambda>w. w \<noteq> [] \<and> list_all lower_or_digit w) ws"
    using matches_slash_words [OF m(2) refl w(2)] by blast
  have "ns = seg ns 0 k @ seg ns k (length ns)" using w(1,2) by (simp add: seg_append) (simp add: seg_def)
  then have ns: "ns = Join_with ''/'' (seg ns 0 k # ws)" using ws(1) Join_with_slash by simp
  have no: "CHR ''/'' \<notin> set v" if "list_all lower_or_digit v" for v
    using that by (auto simp: list_all_iff lower_or_digit_def is_lower_def is_digit_def)
  have "Split CHR ''/'' (Join_with ''/'' (seg ns 0 k # ws)) = seg ns 0 k # ws"
    by (rule Split_Join) (use no w(4) ws(2) in \<open>auto simp: list_all_iff\<close>)
  then have "Split CHR ''/'' ns = seg ns 0 k # ws" using ns by simp
  then show ?thesis using w(3,4) ws(2) by (auto simp: namespace_ok_def list_all_iff)
qed (simp add: namespace_ok_def)

text \<open>A recognised template, and what accepted container options are.\<close>

definition recognised :: "ports \<Rightarrow> string \<Rightarrow> bool" where
  "recognised pm t \<longleftrightarrow> MatchString urlRe t \<or> MatchString lookupRe t \<or>
     (\<exists>p \<in> fst ` set pm. first_group httpBaseRe t = Some p \<or> first_group portRe t = Some p \<or>
        first_group serverRe t = Some p)"

definition options_ok :: "mgr \<Rightarrow> ContainerOptions \<Rightarrow> bool" where
  "options_ok m c \<longleftrightarrow>
     (Cpus c \<noteq> [] \<longrightarrow> (\<exists>n > 0. parseNanoCPUs (SetString m) (Cpus c) = Inr n)) \<and>
     (Memory c \<noteq> [] \<longrightarrow> (\<exists>b > 0. RAMInBytes m (Memory c) = Some b)) \<and>
     (\<forall>u \<in> set (Ulimits c). ParseUlimit m u \<noteq> None \<and> limit_name u \<noteq> ''nproc'') \<and>
     -1 \<le> PidsLimit c \<and> (\<forall>cap \<in> set (DroppedCaps c). droppable cap) \<and>
     (DiskQuota c \<noteq> [] \<longrightarrow> (\<exists>b > 0. RAMInBytes m (DiskQuota c) = Some b))"

definition metadata_ok :: "mgr \<Rightarrow> seccomp_resolver \<Rightarrow> ChallengeMetadata \<Rightarrow> bool" where
  "metadata_ok m resolver md \<longleftrightarrow>
     ch_Name md \<noteq> [] \<and> namespace_ok (Namespace md) \<and> \<not> MatchString templateRe (Description md) \<and>
     0 \<le> MaxUsers md \<and> 0 \<le> Points md \<and>
     (\<forall>s \<in> set (texts_of md). \<forall>t \<in> set (FindAllString templateRe s). recognised (PortMap md) t) \<and>
     (isHacksportChallengeType (ChallengeType md) \<or>
      (\<forall>p \<in> fst ` set (PortMap md). \<exists>s \<in> set (texts_of md). \<exists>t \<in> set (FindAllString templateRe s).
         first_group portRe t = Some p)) \<and>
     (\<forall>(host, c) \<in> set (Overrides (ch_Options md)). options_ok m c \<and>
        (\<forall>opt. Seccomp c = Some opt \<longrightarrow> (\<exists>opt0. resolver (Path md) opt0 = Inr opt)))"

lemma check_template_ok:
  "fst (check_template pm t) = [] \<Longrightarrow> recognised pm t"
  "p \<in> set (snd (check_template pm t)) \<Longrightarrow> first_group portRe t = Some p"
proof -
  have k: "map_of pm q = Some y \<Longrightarrow> q \<in> fst ` set pm" for q y by (force dest: map_of_SomeD)
  show "fst (check_template pm t) = [] \<Longrightarrow> recognised pm t"
    using k by (force simp: check_template_def recognised_def split: if_splits option.splits)
  show "p \<in> set (snd (check_template pm t)) \<Longrightarrow> first_group portRe t = Some p"
    by (auto simp: check_template_def split: if_splits option.splits)
qed

lemma normalize_shape:
  assumes "normalizeAndCheckTemplated pm s = (s', es, refs)"
  shows "\<exists>e0. es = e0 @ concat (map (fst \<circ> check_template pm) (FindAllString templateRe s')) \<and>
    refs = concat (map (snd \<circ> check_template pm) (FindAllString templateRe s'))"
  using assms by (cases "the_port pm") (auto simp: normalizeAndCheckTemplated_def check_templates_def Let_def)

lemma normalize_ok:
  assumes "normalizeAndCheckTemplated pm s = (s', es, refs)"
  shows "es = [] \<Longrightarrow> t \<in> set (FindAllString templateRe s') \<Longrightarrow> recognised pm t"
    "p \<in> set refs \<Longrightarrow> \<exists>t \<in> set (FindAllString templateRe s'). first_group portRe t = Some p"
  using normalize_shape [OF assms] by (auto intro: check_template_ok)

lemma last_error_none: "last_error es = [] \<longleftrightarrow> es = []"
  by (simp add: last_error_def)

lemma if_single_nil: "(if P then [x] else []) = [] \<longleftrightarrow> \<not> P"
  by simp

lemma if_either_nil: "(if P then [x] else if Q then [y] else []) = [] \<longleftrightarrow> \<not> P \<and> \<not> Q"
  by simp

lemma option_errors_none:
  assumes "option_errors m c = []"
  shows "options_ok m c"
proof -
  note parts = assms [unfolded option_errors_def append_is_Nil_conv if_single_nil if_either_nil concat_eq_Nil_conv map_is_Nil_conv
    set_map ball_simps(9) if_either_nil positive_size_def filter_empty_conv]
  have "Cpus c \<noteq> [] \<longrightarrow> (\<exists>n > 0. parseNanoCPUs (SetString m) (Cpus c) = Inr n)"
    using parts [THEN conjunct1] by (cases "parseNanoCPUs (SetString m) (Cpus c)") auto
  moreover have "Memory c \<noteq> [] \<longrightarrow> (\<exists>b > 0. RAMInBytes m (Memory c) = Some b)"
    using parts [THEN conjunct2, THEN conjunct1] by (cases "RAMInBytes m (Memory c)") auto
  moreover have "ParseUlimit m u \<noteq> None \<and> limit_name u \<noteq> ''nproc''" if "u \<in> set (Ulimits c)" for u
    using parts [THEN conjunct2, THEN conjunct2, THEN conjunct1] that by blast
  moreover have "-1 \<le> PidsLimit c" "\<forall>cap \<in> set (DroppedCaps c). droppable cap"
    using parts by simp_all
  moreover have "DiskQuota c \<noteq> [] \<longrightarrow> (\<exists>b > 0. RAMInBytes m (DiskQuota c) = Some b)"
    using parts by (cases "RAMInBytes m (DiskQuota c)") auto
  ultimately show ?thesis by (simp add: options_ok_def)
qed

lemma validate_override_ok:
  assumes "validate_override m resolver path c = (c', [])"
  shows "options_ok m c' \<and> (\<forall>opt. Seccomp c' = Some opt \<longrightarrow> (\<exists>opt0. resolver path opt0 = Inr opt))"
  using assms by (auto simp: validate_override_def intro: option_errors_none split: option.splits sum.splits)

text \<open>
  C33. Accepted metadata is well formed. When \<open>validateMetadata\<close> records no error, the challenge has a
  name, a namespace of nonempty lower-case components and no negative counts; its description has no
  templates; every template in its rewritten details and hints is of a known kind and names a published
  port when it names one; every published port is referenced (except for hacksport challenges); and the
  options of every container have positive sizes, known limits and droppable capabilities only, with
  their seccomp policies resolved.
\<close>

theorem validated_metadata_ok:
  assumes "validateMetadata m resolver md = (md', [])"
  shows "metadata_ok m resolver md'"
proof -
  let ?pm = "PortMap md"
  obtain details es1 refs1 where n: "normalizeAndCheckTemplated ?pm (Details md) = (details, es1, refs1)"
    by (metis prod.exhaust)
  define hs where "hs = map (normalizeAndCheckTemplated ?pm) (Hints md)"
  define os where "os = map (\<lambda>(host, c). (host, validate_override m resolver (Path md) c)) (Overrides (ch_Options md))"
  have md': "ch_Name md' = ch_Name md" "Namespace md' = Namespace md" "Description md' = Description md"
    "MaxUsers md' = MaxUsers md" "Points md' = Points md" "PortMap md' = ?pm" "ChallengeType md' = ChallengeType md"
    "Path md' = Path md" "Details md' = details" "Hints md' = map fst hs"
    "Overrides (ch_Options md') = map (\<lambda>(host, c, _). (host, c)) os"
    and e: "field_errors md = []" "es1 = []" "\<forall>h \<in> set hs. fst (snd h) = []"
    "isHacksportChallengeType (ChallengeType md) \<or>
       (\<forall>p \<in> set (map fst ?pm). p \<in> set (refs1 @ concat (map (snd \<circ> snd) hs)))"
    "\<forall>x \<in> set os. snd (snd x) = []"
    using assms n unfolding hs_def os_def
    by (auto simp: validateMetadata_def Let_def last_error_none filter_empty_conv split: if_splits)
  have hint: "\<exists>s0. normalizeAndCheckTemplated ?pm s0 = (fst h, fst (snd h), snd (snd h))" if "h \<in> set hs" for h
    using that by (auto simp: hs_def)
  have texts: "recognised ?pm t" if "s \<in> set (texts_of md')" "t \<in> set (FindAllString templateRe s)" for s t
    using that normalize_ok(1) [OF n] hint normalize_ok(1) e(2,3) by (fastforce simp: texts_of_def md')
  have refs: "\<exists>s \<in> set (texts_of md'). \<exists>t \<in> set (FindAllString templateRe s). first_group portRe t = Some p"
    if "p \<in> set (refs1 @ concat (map (snd \<circ> snd) hs))" for p
    using that normalize_ok(2) [OF n] hint normalize_ok(2) by (fastforce simp: texts_of_def md')
  have "options_ok m c \<and> (\<forall>opt. Seccomp c = Some opt \<longrightarrow> (\<exists>opt0. resolver (Path md) opt0 = Inr opt))"
    if h: "(host, c) \<in> set (Overrides (ch_Options md'))" for host c
  proof -
    obtain es where es: "(host, c, es) \<in> set os" using h md'(11) by force
    then obtain c0 where "validate_override m resolver (Path md) c0 = (c, es)" by (auto simp: os_def)
    then show ?thesis using e(5) es validate_override_ok by fastforce
  qed
  moreover have "ch_Name md \<noteq> []" "MatchString namespaceRe (Namespace md)" "\<not> MatchString templateRe (Description md)"
    "0 \<le> MaxUsers md" "0 \<le> Points md"
    using e(1) by (auto simp: field_errors_def FindAllString_def FindAll_none_iff MatchString_def split: if_splits)
  ultimately show ?thesis using texts refs e(4) namespace_matches unfolding metadata_ok_def md' by fastforce
qed

definition ex_challenge_file :: ChallengeMetadata where
  "ex_challenge_file = \<lparr>ch_Id = ''c'', ch_Name = ''n'', Namespace = ''a/b'', ChallengeType = ''custom'',
     Description = ''d'', Details = ''{{port}}'', Hints = [], SourceChecksum = 0,
     MetadataChecksum = 0, SourceDigest = [], MetadataDigest = [], Path = ''/c'', Templatable = False,
     PortMap = [(''p'', \<lparr>pi_Host = ''h'', pi_Port = 80\<rparr>)], Hosts = [], MaxUsers = 0, Category = [], Points = 1,
     Tags = [], Attributes = [], ch_Options = \<lparr>co_Network = \<lparr>AllowEgress = False\<rparr>, co_Container = no_options,
       Overrides = [([], no_options\<lparr>DroppedCaps := [''KILL''], PidsLimit := 5\<rparr>)]\<rparr>, SolveScript = False, ch_Builds = []\<rparr>"

definition ex_parsers :: mgr where
  "ex_parsers = \<lparr>portRange = (0, 0), challengeInterface = [], challengeRegistry = [], runtimeDefaults = no_options,
     policy = \<lparr>MaxSeedsPerRequest = 0, MaxConcurrentBuilds = 0, MaxBuildContextFiles = 0,
       MaxBuildContextBytes = 0, MaxArtifactFiles = 0, MaxArtifactBytes = 0, MaxArtifactFileBytes = 0,
       MaxRequestBytes = 0, SolverTimeout = 0, MaxSolverLogBytes = 0, MaxSolverFlagBytes = 0\<rparr>, ParseAddr = Some, ParsePort = Some, SetString = (\<lambda>_. None), RAMInBytes = (\<lambda>_. None),
     ParseUlimit = Some, sha256 = (\<lambda>s. s), parseProfile = (\<lambda>_. None)\<rparr>"

definition ex_validated :: "ChallengeMetadata \<times> err list" where
  "ex_validated = validateMetadata ex_parsers (\<lambda>_ _. Inl (Plain [])) ex_challenge_file"

theorem validated_metadata_ok_witness:
  "Details (fst ex_validated) = ''{{port('' @ in_dq ''p'' @ '')}}'' \<and>
   metadata_ok ex_parsers (\<lambda>_ _. Inl (Plain [])) (fst ex_validated)"
proof -
  have e: "snd ex_validated = []" "Details (fst ex_validated) = ''{{port('' @ in_dq ''p'' @ '')}}''" by code_simp+
  have "validateMetadata ex_parsers (\<lambda>_ _. Inl (Plain [])) ex_challenge_file = (fst ex_validated, [])"
    using e(1) by (simp add: ex_validated_def prod_eq_iff)
  from validated_metadata_ok [OF this] e(2) show ?thesis by simp
qed

end
