(* ===== verification/Dockerfile.thy ===== *)
theory Dockerfile
  imports Templates
begin

text \<open>
  What a Dockerfile says about a challenge, \<open>processDockerfile\<close> of \<open>cmgr/loader.go\<close>: its stages, the
  hosts to launch and the ports they publish. The directory of the challenge is a function from file
  names to what is there; the built-in Dockerfiles are a parameter.
\<close>

section \<open>Directives\<close>

datatype file_kind = RegularFile | Directory | SymbolicLink | OtherFile

record challenge_dir =
  stat_of :: "string \<Rightarrow> file_kind option"
  open_of :: "string \<Rightarrow> string option"

definition spaces1 :: re where "spaces1 = plus (lit '' '')"

definition digits :: re where "digits = plus (Cls is_digit)"

definition fromRe :: re where
  "fromRe = cats [lit ''FROM'', spaces1, plus (Cls (\<lambda>c. \<not> is_blank c)),
     optional (cats [spaces1, one_of ''aA'', one_of ''sS'', spaces1, Grp 1 word])]"

definition publishRe :: re where
  "publishRe = cats [lit ''#'', Star (lit '' ''), lit ''PUBLISH'', spaces1, Grp 1 digits, spaces1, lit ''AS'', spaces1,
     Grp 2 word, blanks]"

definition launchDirectiveRe :: re where
  "launchDirectiveRe = cats [lit ''#'', Star (lit '' ''), lit ''LAUNCH'', spaces1,
     Grp 1 (cats [word, Star (cats [spaces1, word])])]"

text \<open>The stages in order; the last one is called \<open>challenge\<close> when it has no name.\<close>

fun stage_hosts :: "string option list \<Rightarrow> HostInfo list" where
  "stage_hosts [] = []"
| "stage_hosts (t # ts) =
     (let target = (case t of None \<Rightarrow> [] | Some x \<Rightarrow> x);
          name = (if target = [] \<and> ts = [] then ''challenge'' else target) in
      \<lparr>hi_Name = name, hi_Target = target\<rparr> # stage_hosts ts)"

fun launch_hosts :: "HostInfo list \<Rightarrow> string list \<Rightarrow> string list \<Rightarrow> err + HostInfo list" where
  "launch_hosts stages launched [] = Inr []"
| "launch_hosts stages launched (l # ls) =
     (if l \<in> set launched then Inl (Plain ''Docker target is listed in LAUNCH more than once'')
      else case List.find (\<lambda>h. hi_Name h = l) stages of
        None \<Rightarrow> Inl (Plain ''cannot launch because it is not a Docker target'')
      | Some h \<Rightarrow> map_sum id (\<lambda>hs. h # hs) (launch_hosts stages (l # launched) ls))"

definition hosts_of :: "string \<Rightarrow> HostInfo list \<Rightarrow> err + HostInfo list" where
  "hosts_of text stages =
     sbind (case seek launchDirectiveRe text 0 of
        None \<Rightarrow> Inr [last stages]
      | Some f \<Rightarrow> launch_hosts stages [] (FindAllString word (group text f 1))) (\<lambda>hs.
     Inr (if list_ex (\<lambda>h. hi_Target h = ''builder'') stages
          then \<lparr>hi_Name = ''builder'', hi_Target = ''builder''\<rparr> # hs else hs))"

section \<open>Ports\<close>

definition port_range_ok :: "int \<Rightarrow> bool" where
  "port_range_ok p \<longleftrightarrow> 0 < p \<and> p < 65536"

text \<open>The declared ports, checked one by one; \<open>seen\<close> holds the endpoints before.\<close>

fun check_declared :: "string list \<Rightarrow> PortInfo list \<Rightarrow> ports \<Rightarrow> err + PortInfo list" where
  "check_declared launched seen [] = Inr seen"
| "check_declared launched seen ((name, e) # pm) =
     (if \<not> port_range_ok (pi_Port e) then Inl (Plain ''invalid container port'')
      else if pi_Host e \<notin> set launched \<or> pi_Host e = ''builder'' then Inl (Plain ''exposed on a host which is not launched'')
      else if e \<in> set seen then Inl (Plain ''published ports map to the same endpoint'')
      else check_declared launched (e # seen) pm)"

text \<open>The stage a directive at \<open>pos\<close> belongs to: advance while the next stage starts before it.\<close>

fun advance_stage :: "nat list \<Rightarrow> nat \<Rightarrow> nat \<Rightarrow> nat" where
  "advance_stage [] pos n = n"
| "advance_stage (start # later) pos n = (if start < pos then advance_stage later pos (Suc n) else n)"

fun publish :: "string \<Rightarrow> HostInfo list \<Rightarrow> nat list \<Rightarrow> string list \<Rightarrow> nat \<Rightarrow> found list \<Rightarrow> PortInfo list \<Rightarrow> ports \<Rightarrow>
    err + ports" where
  "publish text stages starts launched n [] seen pm = Inr pm"
| "publish text stages starts launched n (f # fs) seen pm =
     (let n' = advance_stage (drop (Suc n) starts) (fst f) n in
      sbind (Atoi (group text f 1)) (\<lambda>port.
      let name = group text f 2; host = hi_Name (stages ! n') in
      if \<not> port_range_ok port then Inl (Plain ''invalid container port'')
      else if host = [] then Inl (Plain ''uses a stage with no reference name'')
      else if host = ''builder'' then Inl (Plain ''from builder host which will not be launched'')
      else if host \<notin> set launched then Inl (Plain ''exposed on a host which is not marked for launching'')
      else
      let e = \<lparr>pi_Host = host, pi_Port = port\<rparr> in
      if map_of pm name \<noteq> None then Inl (Plain ''published port name is declared more than once'')
      else if e \<in> set seen then Inl (Plain ''published port aliases another'')
      else publish text stages starts launched n' fs (e # seen) (pm @ [(name, e)])))"

section \<open>The whole file\<close>

definition maxDockerfileBytes :: int where "maxDockerfileBytes = 4 * 1024 * 1024"

definition check_type :: "(string \<Rightarrow> string option) \<Rightarrow> bool \<Rightarrow> string \<Rightarrow> err + unit" where
  "check_type builtin custom t =
     (if t = [] then Inl (Plain ''missing the challenge type'')
      else if t = ''custom'' then (if custom then Inr () else Inl (Plain ''custom challenge type is missing Dockerfile''))
      else if custom then Inl (Plain ''Dockerfile forbidden except for custom challenge type'')
      else if builtin t = None then Inl (Plain ''unrecognized type'') else Inr ())"

definition dockerfile_text :: "(string \<Rightarrow> string option) \<Rightarrow> challenge_dir \<Rightarrow> string \<Rightarrow> err + string" where
  "dockerfile_text builtin dir t =
     sbind (if t = ''custom''
       then (case open_of dir ''Dockerfile'' of
          None \<Rightarrow> Inl (Plain ''could not open custom Dockerfile'')
        | Some text \<Rightarrow> if int (length text) > maxDockerfileBytes then Inl (Plain ''custom Dockerfile is too large'') else Inr text)
       else Inr (case builtin t of None \<Rightarrow> [] | Some text \<Rightarrow> text)) (\<lambda>text.
     if text = [] then Inl (Plain ''could not find valid Dockerfile'') else Inr text)"

definition hacksport_script :: "challenge_dir \<Rightarrow> string \<Rightarrow> err + unit" where
  "hacksport_script dir t =
     (if \<not> isHacksportChallengeType t then Inr ()
      else case stat_of dir ''challenge.py'' of
        None \<Rightarrow> Inl (Plain ''could not read challenge.py'')
      | Some k \<Rightarrow> if k = RegularFile then Inr () else Inl (Plain ''challenge.py is not a regular file''))"

definition parse_dockerfile :: "string \<Rightarrow> ChallengeMetadata \<Rightarrow> err + ChallengeMetadata" where
  "parse_dockerfile text md =
     (let stages = FindAll fromRe text in
      if stages = [] then Inl (Plain ''could not find FROM line'')
      else
      let stage_infos = stage_hosts (map (\<lambda>f. submatch text f 1) stages) in
      sbind (hosts_of text stage_infos) (\<lambda>hs.
      let launched = map hi_Name hs in
      sbind (check_declared launched [] (PortMap md)) (\<lambda>seen.
      sbind (publish text stage_infos (map fst stages) launched 0 (FindAll publishRe text) seen (PortMap md)) (\<lambda>pm.
      if list_all (\<lambda>(h, _). h = [] \<or> (h \<in> set launched \<and> h \<noteq> ''builder'')) (Overrides (ch_Options md))
      then Inr (md\<lparr>Hosts := hs, PortMap := pm\<rparr>)
      else Inl (Plain ''container options are specified for a host which is not launched'')))))"

definition processDockerfile :: "(string \<Rightarrow> string option) \<Rightarrow> challenge_dir \<Rightarrow> ChallengeMetadata \<Rightarrow> err + ChallengeMetadata" where
  "processDockerfile builtin dir md =
     sbind (hacksport_script dir (ChallengeType md)) (\<lambda>_.
     sbind (check_type builtin (stat_of dir ''Dockerfile'' \<noteq> None) (ChallengeType md)) (\<lambda>_.
     sbind (dockerfile_text builtin dir (ChallengeType md)) (\<lambda>text.
     parse_dockerfile text md)))"

section \<open>What an accepted Dockerfile guarantees\<close>

definition launched_on :: "HostInfo list \<Rightarrow> string \<Rightarrow> bool" where
  "launched_on hs h \<longleftrightarrow> h \<in> hi_Name ` set hs \<and> h \<noteq> ''builder''"

definition endpoints_ok :: "HostInfo list \<Rightarrow> ports \<Rightarrow> bool" where
  "endpoints_ok hs pm \<longleftrightarrow> distinct (map snd pm) \<and>
     (\<forall>e \<in> snd ` set pm. port_range_ok (pi_Port e) \<and> launched_on hs (pi_Host e))"

lemma stage_hosts_targets:
  "h \<in> set (stage_hosts ts) \<Longrightarrow> hi_Target h = hi_Name h \<or> (hi_Target h = [] \<and> hi_Name h = ''challenge'')"
  by (induction ts rule: stage_hosts.induct) (auto simp: Let_def split: option.splits if_splits)

lemma length_stage_hosts [simp]: "length (stage_hosts ts) = length ts"
  by (induction ts rule: stage_hosts.induct) (simp_all add: Let_def)

lemma stage_hosts_not_empty [simp]: "stage_hosts ts = [] \<longleftrightarrow> ts = []"
  by (metis length_0_conv length_stage_hosts)

lemma map_sum_InrE:
  assumes "map_sum id f x = Inr y"
  obtains z where "x = Inr z" "y = f z"
  using assms by (cases x) auto

lemma launch_hosts_names:
  "launch_hosts stages launched ls = Inr hs \<Longrightarrow>
   map hi_Name hs = ls \<and> set hs \<subseteq> set stages \<and> distinct ls \<and> set ls \<inter> set launched = {}"
proof (induction stages launched ls arbitrary: hs rule: launch_hosts.induct)
  case (2 stages launched l ls)
  then obtain h rest where h: "List.find (\<lambda>h. hi_Name h = l) stages = Some h" "l \<notin> set launched"
    and rest: "launch_hosts stages (l # launched) ls = Inr rest" "hs = h # rest"
    by (auto split: if_splits option.splits elim: map_sum_InrE)
  have "hi_Name h = l" "h \<in> set stages"
    using h(1) by (auto simp: find_Some_iff)
  then show ?case
    using 2 h rest by fastforce
qed simp

lemma check_declared_ok:
  assumes "check_declared launched seen pm = Inr seen'"
  shows "(\<forall>e \<in> snd ` set pm. port_range_ok (pi_Port e) \<and> pi_Host e \<in> set launched \<and> pi_Host e \<noteq> ''builder'') \<and>
    distinct (map snd pm) \<and> snd ` set pm \<inter> set seen = {} \<and> set seen' = set seen \<union> snd ` set pm"
  using assms
  by (induction launched seen pm arbitrary: seen' rule: check_declared.induct) (auto split: if_splits)

lemma publish_ok:
  assumes "publish src stages starts launched n fs seen pm = Inr pm'"
    and "distinct (map fst pm)" "distinct (map snd pm)" "set seen = snd ` set pm"
    and "\<forall>e \<in> snd ` set pm. port_range_ok (pi_Port e) \<and> pi_Host e \<in> set launched \<and> pi_Host e \<noteq> ''builder''"
  shows "distinct (map fst pm') \<and> distinct (map snd pm') \<and>
    (\<forall>e \<in> snd ` set pm'. port_range_ok (pi_Port e) \<and> pi_Host e \<in> set launched \<and> pi_Host e \<noteq> ''builder'') \<and>
    (\<exists>ps. pm' = pm @ ps \<and> map fst ps = map (\<lambda>f. group src f 2) fs)"
  using assms
proof (induction src stages starts launched n fs seen pm rule: publish.induct)
  case (2 src stages starts launched n f fs seen pm)
  define n' where "n' = advance_stage (drop (Suc n) starts) (fst f) n"
  obtain port where port: "Atoi (group src f 1) = Inr port"
    using "2.prems"(1) by (auto simp: Let_def sbind_Inr_iff)
  define e where "e = \<lparr>pi_Host = hi_Name (stages ! n'), pi_Port = port\<rparr>"
  let ?name = "group src f 2"
  have ok: "port_range_ok port" "pi_Host e \<noteq> ''builder''" "pi_Host e \<in> set launched" "hi_Name (stages ! n') \<noteq> []"
    "map_of pm ?name = None" "e \<notin> set seen"
    and rest: "publish src stages starts launched n' fs (e # seen) (pm @ [(?name, e)]) = Inr pm'"
    using "2.prems"(1) by (auto simp: Let_def sbind_Inr_iff port [unfolded One_nat_def] n'_def [symmetric] e_def split: if_splits)
  have "distinct (map fst (pm @ [(?name, e)]))" "distinct (map snd (pm @ [(?name, e)]))"
    "set (e # seen) = snd ` set (pm @ [(?name, e)])"
    "\<forall>e \<in> snd ` set (pm @ [(?name, e)]). port_range_ok (pi_Port e) \<and> pi_Host e \<in> set launched \<and> pi_Host e \<noteq> ''builder''"
    using "2.prems" ok by (auto simp: map_of_eq_None_iff e_def)
  then have "distinct (map fst pm') \<and> distinct (map snd pm') \<and>
    (\<forall>e \<in> snd ` set pm'. port_range_ok (pi_Port e) \<and> pi_Host e \<in> set launched \<and> pi_Host e \<noteq> ''builder'') \<and>
    (\<exists>ps. pm' = (pm @ [(?name, e)]) @ ps \<and> map fst ps = map (\<lambda>f. group src f 2) fs)"
    using ok rest by (intro "2.IH" [OF n'_def refl refl _ _ _ _ e_def]) (auto simp: e_def)
  then show ?case
    by auto
qed simp

text \<open>The hosts that are launched besides the builder.\<close>

lemma hosts_of_ok:
  assumes "hosts_of src stages = Inr hs"
  obtains rest where "distinct (map hi_Name rest)"
    "hs = rest \<or> hs = \<lparr>hi_Name = ''builder'', hi_Target = ''builder''\<rparr> # rest"
proof -
  from assms obtain rest where
    rest: "(case seek launchDirectiveRe src 0 of None \<Rightarrow> Inr [last stages]
       | Some f \<Rightarrow> launch_hosts stages [] (FindAllString word (group src f 1))) = Inr rest"
    and hs: "hs = (if list_ex (\<lambda>h. hi_Target h = ''builder'') stages
          then \<lparr>hi_Name = ''builder'', hi_Target = ''builder''\<rparr> # rest else rest)"
    unfolding hosts_of_def sbind_Inr_iff by auto
  have "distinct (map hi_Name rest)"
    using rest by (auto split: option.splits dest: launch_hosts_names)
  then show thesis
    using hs by (intro that [of rest]) (simp_all split: if_splits)
qed

text \<open>
  C34. A Dockerfile is only accepted when every published port can be reached: the ports the metadata declared
  come first and unchanged, then one per PUBLISH directive in the order of the file, no two share a name
  or an endpoint, each has a number from 1 to 65535 and belongs to a host that is launched and is not
  the builder, and so does every host with options of its own; the launched hosts besides the
  builder have different names.
\<close>

theorem accepted_dockerfile_ports:
  assumes "processDockerfile builtin dir md = Inr md'" and "distinct (map fst (PortMap md))"
  shows "(\<exists>src ps. dockerfile_text builtin dir (ChallengeType md) = Inr src \<and>
      PortMap md' = PortMap md @ ps \<and> map fst ps = map (\<lambda>f. group src f 2) (FindAll publishRe src)) \<and>
    distinct (map fst (PortMap md')) \<and> endpoints_ok (Hosts md') (PortMap md') \<and>
    (\<forall>h \<in> fst ` set (Overrides (ch_Options md')). h = [] \<or> launched_on (Hosts md') h) \<and>
    md' = md\<lparr>Hosts := Hosts md', PortMap := PortMap md'\<rparr> \<and>
    (\<exists>rest. distinct (map hi_Name rest) \<and>
      (Hosts md' = rest \<or> Hosts md' = \<lparr>hi_Name = ''builder'', hi_Target = ''builder''\<rparr> # rest))"
proof -
  obtain src where src: "dockerfile_text builtin dir (ChallengeType md) = Inr src" "parse_dockerfile src md = Inr md'"
    using assms(1) by (auto simp: processDockerfile_def sbind_Inr_iff)
  define stages where "stages = stage_hosts (map (\<lambda>f. submatch src f 1) (FindAll fromRe src))"
  obtain hs seen pm where hs: "hosts_of src stages = Inr hs" "stages \<noteq> []"
    and seen: "check_declared (map hi_Name hs) [] (PortMap md) = Inr seen"
    and pm: "publish src stages (map fst (FindAll fromRe src)) (map hi_Name hs) 0 (FindAll publishRe src) seen (PortMap md) = Inr pm"
    and opts: "list_all (\<lambda>(h, _). h = [] \<or> (h \<in> set (map hi_Name hs) \<and> h \<noteq> ''builder'')) (Overrides (ch_Options md))"
    and md': "md' = md\<lparr>Hosts := hs, PortMap := pm\<rparr>"
    using src(2) unfolding parse_dockerfile_def Let_def stages_def [symmetric] sbind_Inr_iff
    by (auto simp: sbind_Inr_iff stages_def split: if_splits)
  note declared = check_declared_ok [OF seen]
  have published: "distinct (map fst pm) \<and> distinct (map snd pm) \<and>
    (\<forall>e \<in> snd ` set pm. port_range_ok (pi_Port e) \<and> pi_Host e \<in> set (map hi_Name hs) \<and> pi_Host e \<noteq> ''builder'') \<and>
    (\<exists>ps. pm = PortMap md @ ps \<and> map fst ps = map (\<lambda>f. group src f 2) (FindAll publishRe src))"
    by (rule publish_ok [OF pm]) (use declared assms(2) in auto)
  have "\<exists>src ps. dockerfile_text builtin dir (ChallengeType md) = Inr src \<and>
      PortMap md' = PortMap md @ ps \<and> map fst ps = map (\<lambda>f. group src f 2) (FindAll publishRe src)"
    using src(1) published md' by auto
  moreover have "distinct (map fst (PortMap md'))" "endpoints_ok (Hosts md') (PortMap md')"
    using published md' by (auto simp: endpoints_ok_def launched_on_def)
  moreover have "\<forall>h \<in> fst ` set (Overrides (ch_Options md')). h = [] \<or> launched_on (Hosts md') h"
    using opts md' by (fastforce simp: list_all_iff launched_on_def)
  moreover have "md' = md\<lparr>Hosts := Hosts md', PortMap := PortMap md'\<rparr>"
    using md' by simp
  moreover obtain rest where "distinct (map hi_Name rest)"
    "Hosts md' = rest \<or> Hosts md' = \<lparr>hi_Name = ''builder'', hi_Target = ''builder''\<rparr> # rest"
    using hosts_of_ok [OF hs(1)] md' by auto
  ultimately show ?thesis
    by (intro conjI) blast+
qed

text \<open>A file with two stages, the second launched with a port, and one that launches its builder.\<close>

definition ex_dir :: "string \<Rightarrow> challenge_dir" where
  "ex_dir s = \<lparr>stat_of = (\<lambda>n. if n = ''Dockerfile'' then Some RegularFile else None),
     open_of = (\<lambda>n. if n = ''Dockerfile'' then Some s else None)\<rparr>"

definition ex_dockerfile :: string where
  "ex_dockerfile = ''FROM a AS builder'' @ [CHR 0x0A] @ ''FROM b'' @ [CHR 0x0A] @ ''# PUBLISH 80 AS web''"

definition ex_custom :: ChallengeMetadata where
  "ex_custom = ex_challenge_file\<lparr>ChallengeType := ''custom'', PortMap := []\<rparr>"

lemma ex_accepted:
  "processDockerfile (\<lambda>_. None) (ex_dir ex_dockerfile) ex_custom =
     Inr (ex_custom\<lparr>Hosts := [\<lparr>hi_Name = ''builder'', hi_Target = ''builder''\<rparr>, \<lparr>hi_Name = ''challenge'', hi_Target = []\<rparr>],
       PortMap := [(''web'', \<lparr>pi_Host = ''challenge'', pi_Port = 80\<rparr>)]\<rparr>)"
  by code_simp

lemma accepted_dockerfile_ports_witness:
  "endpoints_ok [\<lparr>hi_Name = ''builder'', hi_Target = ''builder''\<rparr>, \<lparr>hi_Name = ''challenge'', hi_Target = []\<rparr>]
     [(''web'', \<lparr>pi_Host = ''challenge'', pi_Port = 80\<rparr>)]"
  using accepted_dockerfile_ports [OF ex_accepted] by (simp add: ex_custom_def)

text \<open>Launching the builder stage lists its host twice, although the hosts of a challenge are a key of the database.\<close>

definition ex_launches_builder :: string where
  "ex_launches_builder = ''FROM a AS builder'' @ [CHR 0x0A] @ ''# LAUNCH builder''"

lemma launched_builder_twice:
  "map_sum id Hosts (processDockerfile (\<lambda>_. None) (ex_dir ex_launches_builder) ex_custom) =
     Inr [\<lparr>hi_Name = ''builder'', hi_Target = ''builder''\<rparr>, \<lparr>hi_Name = ''builder'', hi_Target = ''builder''\<rparr>]"
  by code_simp

end
