(* ===== verification/Artifacts.thy ===== *)
theory Artifacts
  imports Daemon
begin

text \<open>
  \<open>cmgr/artifacts.go\<close>: the archive that a build hands out is checked and rewritten before it is
  stored. Entries are the records of \<open>archive/tar\<close>; the bytes of a compressed archive are read and
  written by two parameters, \<open>Untar\<close> (gzip and tar reader) and \<open>Targz\<close> (the two writers).
\<close>

section \<open>Archives\<close>

datatype tar_type = TypeReg | TypeRegA | TypeDir | OtherType nat

record tar_header =
  hd_Name :: string
  Typeflag :: tar_type
  hd_Size :: int
  Mode :: int
  Linkname :: string
  Uid :: int
  Gid :: int
  Uname :: string
  Gname :: string
  PAXRecords :: "(string \<times> string) list"
  Xattrs :: "(string \<times> string) list"
  ModTime :: int

type_synonym tar_entry = "tar_header \<times> string"

text \<open>
  What the reader finds: whether the gzip header decodes, the entries with the bytes that follow
  them, whether the archive ends properly after them, and whether closing the gzip reader works.
\<close>

record tar_stream =
  gzip_ok :: bool
  entries :: "tar_entry list"
  ends :: bool
  closes :: bool

record codec =
  Untar :: "string \<Rightarrow> tar_stream"
  Targz :: "tar_entry list \<Rightarrow> string"
  LookupJson :: "string \<Rightarrow> (string \<times> string) list option"
  TrailingJson :: "string \<Rightarrow> bool"

definition artifactLimits :: "managerPolicy \<Rightarrow> int \<times> int \<times> int" where
  "artifactLimits pol =
     (if MaxArtifactFiles pol = 0 then 10000 else MaxArtifactFiles pol,
      if MaxArtifactBytes pol = 0 then 5 * 1024 * 1024 * 1024 else MaxArtifactBytes pol,
      if MaxArtifactFileBytes pol = 0 then 1024 * 1024 * 1024 else MaxArtifactFileBytes pol)"

definition nul :: char where "nul = CHR 0x00"

definition backslash :: char where "backslash = CHR 0x5C"

definition safeArchiveName :: "string \<Rightarrow> err + string" where
  "safeArchiveName name =
     (if name = [] \<or> nul \<in> set name \<or> backslash \<in> set name then Inl (Plain ''invalid archive path'')
      else let clean = Clean name in
      if clean = dot \<or> IsAbs clean \<or> clean = dotdot \<or> HasPrefix clean ''../''
      then Inl (Plain ''archive path escapes its root'')
      else if length clean > 4096 then Inl (Plain ''archive path is too long'')
      else Inr clean)"

text \<open>The type switch of the loop: the size to write, the new total and the published files.\<close>

definition admit :: "int \<Rightarrow> int \<Rightarrow> string \<Rightarrow> tar_header \<Rightarrow> int \<Rightarrow> string list \<Rightarrow> err + int \<times> int \<times> string list" where
  "admit maxBytes maxFileBytes name h used files =
     (case Typeflag h of
        TypeDir \<Rightarrow> Inr (0, used, files)
      | OtherType _ \<Rightarrow> Inl (Plain ''unsupported tar type'')
      | _ \<Rightarrow>
        if hd_Size h < 0 \<or> hd_Size h > maxFileBytes then Inl (Plain ''per-file maximum'')
        else if hd_Size h > maxBytes - used then Inl (Plain ''artifact archive exceeds uncompressed bytes'')
        else Inr (hd_Size h, used + hd_Size h, files @ [name]))"

text \<open>\<open>Mode &= 0777\<close> keeps the nine low bits, which for a two's complement number is the remainder.\<close>

definition cleanHeader :: "string \<Rightarrow> int \<Rightarrow> tar_header \<Rightarrow> tar_header" where
  "cleanHeader name sz h = h\<lparr>hd_Name := name, hd_Size := sz, Linkname := [], Mode := Mode h mod 512,
     Uid := 0, Gid := 0, Uname := [], Gname := [], PAXRecords := [], Xattrs := []\<rparr>"

definition is_regular :: "tar_header \<Rightarrow> bool" where
  "is_regular h \<longleftrightarrow> Typeflag h = TypeReg \<or> Typeflag h = TypeRegA"

text \<open>\<open>seen\<close> has one name per entry so far, so its length is the entry count.\<close>

fun copy_entries :: "int \<times> int \<times> int \<Rightarrow> tar_entry list \<Rightarrow> bool \<Rightarrow> string list \<Rightarrow> int \<Rightarrow> string list \<Rightarrow>
    tar_entry list \<Rightarrow> ('w world, string list \<times> tar_entry list) act" where
  "copy_entries lims [] e seen used files out =
     (if e then ret (files, out) else raise (Plain ''could not read artifact archive''))"
| "copy_entries lims ((h, bytes) # rest) e seen used files out =
     (case lims of (maxFiles, maxBytes, maxFileBytes) \<Rightarrow>
      if int (length seen) + 1 > maxFiles then raise (Plain ''artifact archive contains more entries'')
      else case safeArchiveName (hd_Name h) of
        Inl err \<Rightarrow> raise err
      | Inr name \<Rightarrow>
        if name \<in> set seen then raise (Plain ''artifact archive repeats path'')
        else case admit maxBytes maxFileBytes name h used files of
          Inl err \<Rightarrow> raise err
        | Inr (sz, used', files') \<Rightarrow>
          bnd (host_call ''write artifact header'') (\<lambda>_.
          bnd (if \<not> is_regular h then ret ()
               else if int (length bytes) < sz then raise (Plain ''could not copy artifact'')
               else host_call ''copy artifact'') (\<lambda>_.
          copy_entries lims rest e (name # seen) used' files'
            (out @ [(cleanHeader name sz h, take (nat sz) bytes)]))))"

section \<open>Storing an archive\<close>

definition temp_prefix :: string where "temp_prefix = ''.cmgr-artifacts-''"

text \<open>\<open>os.CreateTemp\<close> picks a name that no file has; it starts from a random number.\<close>

definition temp_name :: "nat \<Rightarrow> (string \<times> string) list \<Rightarrow> string" where
  "temp_name r files =
     (case find (\<lambda>n. temp_prefix @ nat_dec n \<notin> fst ` set files) [r ..< r + Suc (length files)] of
        Some n \<Rightarrow> temp_prefix @ nat_dec n
      | None \<Rightarrow> temp_prefix)"

definition without_file :: "string \<Rightarrow> (string \<times> string) list \<Rightarrow> (string \<times> string) list" where
  "without_file name = filter (\<lambda>f. fst f \<noteq> name)"

text \<open>A removal whose error is ignored.\<close>

definition remove_quietly :: "string \<Rightarrow> 'w world \<Rightarrow> 'w world" where
  "remove_quietly name w =
     (case host_call ''remove'' w of
        (Inl _, w') \<Rightarrow> w'
      | (Inr _, w') \<Rightarrow> w'\<lparr>artifacts := without_file name (artifacts w')\<rparr>)"

definition write_archive :: "codec \<Rightarrow> managerPolicy \<Rightarrow> string \<Rightarrow> ('w world, string list \<times> tar_entry list) act" where
  "write_archive cd pol source =
     (let s = Untar cd source in
      bnd (host_call ''chmod'') (\<lambda>_.
      if \<not> gzip_ok s then raise (Plain ''could not decode artifact gzip stream'')
      else
      bnd (copy_entries (artifactLimits pol) (entries s) (ends s) [] 0 [] []) (\<lambda>x.
      if \<not> closes s then raise (Plain ''could not close artifact gzip stream'')
      else
      bnd (host_call ''could not finish artifact tar stream'') (\<lambda>_.
      bnd (host_call ''could not finish artifact gzip stream'') (\<lambda>_.
      bnd (host_call ''could not sync artifact archive'') (\<lambda>_.
      bnd (host_call ''could not close artifact archive'') (\<lambda>_.
      bnd (host_call ''could not install artifact archive'') (\<lambda>_.
      ret x))))))))"

definition cacheArtifacts :: "codec \<Rightarrow> managerPolicy \<Rightarrow> string \<Rightarrow> string \<Rightarrow> ('w world, string list) act" where
  "cacheArtifacts cd pol source destination =
     bnd draw (\<lambda>r.
     bnd (host_call ''could not create temporary artifact archive'') (\<lambda>_ w.
     let temp = temp_name r (artifacts w) in
     case write_archive cd pol source (w\<lparr>artifacts := put temp [] (artifacts w)\<rparr>) of
       (Inl e, w1) \<Rightarrow> (Inl e, remove_quietly temp w1)
     | (Inr (files, out), w1) \<Rightarrow>
         (Inr files, w1\<lparr>artifacts := put destination (Targz cd out) (without_file temp (artifacts w1))\<rparr>)))"

section \<open>What is stored\<close>

definition safe_name :: "string \<Rightarrow> bool" where
  "safe_name n \<longleftrightarrow> n \<noteq> [] \<and> \<not> IsAbs n \<and> length n \<le> 4096 \<and>
     (\<forall>c \<in> set (Split CHR ''/'' n). c \<noteq> [] \<and> c \<noteq> dot \<and> c \<noteq> dotdot)"

definition entry_ok :: "int \<Rightarrow> tar_entry \<Rightarrow> bool" where
  "entry_ok maxFileBytes e \<longleftrightarrow>
     (case e of (h, bytes) \<Rightarrow> safe_name (hd_Name h) \<and> (is_regular h \<or> Typeflag h = TypeDir) \<and>
       0 \<le> hd_Size h \<and> (is_regular h \<longrightarrow> hd_Size h \<le> maxFileBytes \<and> int (length bytes) = hd_Size h) \<and>
       (Typeflag h = TypeDir \<longrightarrow> hd_Size h = 0 \<and> bytes = []) \<and>
       0 \<le> Mode h \<and> Mode h < 512 \<and> Linkname h = [] \<and> Uid h = 0 \<and> Gid h = 0 \<and> Uname h = [] \<and> Gname h = [] \<and>
       PAXRecords h = [] \<and> Xattrs h = [])"

definition published :: "tar_entry list \<Rightarrow> string list" where
  "published out = map (hd_Name \<circ> fst) (filter (is_regular \<circ> fst) out)"

definition archive_ok :: "int \<times> int \<times> int \<Rightarrow> tar_entry list \<Rightarrow> bool" where
  "archive_ok lims out \<longleftrightarrow>
     (case lims of (maxFiles, maxBytes, maxFileBytes) \<Rightarrow>
       distinct (map (hd_Name \<circ> fst) out) \<and> int (length out) \<le> maxFiles \<and>
       sum_list (map (hd_Size \<circ> fst) out) \<le> maxBytes \<and> list_all (entry_ok maxFileBytes) out)"

lemma Join_with_not_Nil: "w \<noteq> [] \<Longrightarrow> Join_with d (w # ws) \<noteq> []"
  by (cases ws) (auto simp: Join_with_Cons)

lemma Clean_rel_components:
  assumes "\<not> IsAbs p" "Clean p \<noteq> dot"
  shows "Split CHR ''/'' (Clean p) = path_components p" "path_components p \<noteq> []" "Clean p = Join_with ''/'' (path_components p)"
proof -
  show ne: "path_components p \<noteq> []" using assms by (auto simp: Clean_def Let_def)
  have "Join_with ''/'' (path_components p) \<noteq> []"
    using ne path_components_set [of "hd (path_components p)" p] by (cases "path_components p") (auto simp: Join_with_not_Nil)
  then show c: "Clean p = Join_with ''/'' (path_components p)" using assms by (simp add: Clean_def Let_def)
  show "Split CHR ''/'' (Clean p) = path_components p"
    unfolding c using ne path_components_set [of _ p] by (intro Split_Join) auto
qed

lemma safeArchiveName_safe:
  assumes "safeArchiveName name = Inr n"
  shows "safe_name n"
proof -
  have n: "n = Clean name" "n \<noteq> dot" "\<not> IsAbs n" "n \<noteq> dotdot" "\<not> HasPrefix n ''../''" "length n \<le> 4096"
    using assms by (auto simp: safeArchiveName_def Let_def split: if_splits)
  have "\<not> IsAbs name" using n(1,3) by (auto simp: Clean_def Let_def IsAbs_def)
  note c = Clean_rel_components [OF this, folded n(1), OF n(2)]
  obtain d ds where ds: "path_components name = d # ds" using c(2) by (cases "path_components name") auto
  have "d \<noteq> dotdot"
  proof
    assume "d = dotdot"
    then show False using n(4,5) c(3) ds by (cases ds) (auto simp: dotdot_def Join_with_Cons)
  qed
  then have "dotdot \<notin> set (path_components name)" using path_components_no_dots [of name] ds by simp
  moreover have "n \<noteq> []" unfolding c(3) ds using path_components_set [of d name] ds by (simp add: Join_with_not_Nil)
  ultimately show ?thesis unfolding safe_name_def c(1) using n(3,6) path_components_set by blast
qed

lemma admit_ok:
  assumes "admit maxBytes maxFileBytes name h used files = Inr (sz, used', files')" "used \<le> maxBytes" "safe_name name"
    "is_regular h \<longrightarrow> sz \<le> int (length bytes)"
  shows "used' = used + sz" "used' \<le> maxBytes" "entry_ok maxFileBytes (cleanHeader name sz h, take (nat sz) bytes)"
    "files' = files @ (if is_regular h then [name] else [])"
  using assms
  by (auto simp: admit_def entry_ok_def cleanHeader_def is_regular_def min_def split: tar_type.splits if_splits)

lemma host_call_artifacts: "host_call what w = (r, w') \<Longrightarrow> artifacts w' = artifacts w"
  by (auto simp: host_call_def Let_def split: if_splits)

definition copied :: "int \<times> int \<times> int \<Rightarrow> string list \<Rightarrow> int \<Rightarrow> string list \<Rightarrow> tar_entry list \<Rightarrow> bool" where
  "copied lims seen used files out \<longleftrightarrow>
     set seen = set (map (hd_Name \<circ> fst) out) \<and> length seen = length out \<and>
     used = sum_list (map (hd_Size \<circ> fst) out) \<and> files = published out \<and> archive_ok lims out"

lemma copied_step:
  assumes "copied (maxFiles, maxBytes, maxFileBytes) seen used files out" "int (length seen) + 1 \<le> maxFiles"
    "safe_name name" "name \<notin> set seen" "admit maxBytes maxFileBytes name h used files = Inr (sz, used', files')"
    "is_regular h \<longrightarrow> sz \<le> int (length bytes)"
  shows "copied (maxFiles, maxBytes, maxFileBytes) (name # seen) used' files'
    (out @ [(cleanHeader name sz h, take (nat sz) bytes)])"
proof -
  have "used \<le> maxBytes" using assms(1) by (simp add: copied_def archive_ok_def)
  note a = admit_ok [OF assms(5) this assms(3,6)]
  have "hd_Name (cleanHeader name sz h) = name" "hd_Size (cleanHeader name sz h) = sz"
    "is_regular (cleanHeader name sz h) = is_regular h" by (simp_all add: cleanHeader_def is_regular_def)
  then show ?thesis using assms(1,2,4) a by (auto simp: copied_def archive_ok_def published_def)
qed

lemma copy_entries_copied:
  "copy_entries lims es e seen used files out w = (Inr (files', out'), w') \<Longrightarrow> copied lims seen used files out \<Longrightarrow>
   e \<and> archive_ok lims out' \<and> files' = published out'"
proof (induction lims es e seen used files out arbitrary: w rule: copy_entries.induct)
  case (1 lims e seen used files out)
  then show ?case by (auto simp: copied_def split: if_splits)
next
  case (2 lims h bytes rest e seen used files out)
  obtain maxFiles maxBytes maxFileBytes where l: "lims = (maxFiles, maxBytes, maxFileBytes)" by (metis prod.exhaust)
  have c: "int (length seen) + 1 \<le> maxFiles" using 2(2) l by (auto split: if_splits)
  obtain name where n: "safeArchiveName (hd_Name h) = Inr name" "name \<notin> set seen"
    using 2(2) l c by (auto split: if_splits sum.splits)
  obtain sz used1 files1 where a: "admit maxBytes maxFileBytes name h used files = Inr (sz, used1, files1)"
    using 2(2) l c n by (auto split: if_splits sum.splits prod.splits)
  let ?out = "out @ [(cleanHeader name sz h, take (nat sz) bytes)]"
  obtain w1 where w1: "copy_entries lims rest e (name # seen) used1 files1 ?out w1 = (Inr (files', out'), w')"
    "is_regular h \<longrightarrow> sz \<le> int (length bytes)"
    using 2(2) l c n a by (auto elim!: bnd_InrE split: if_splits)
  have "copied lims (name # seen) used1 files1 ?out"
    using copied_step [OF _ c safeArchiveName_safe [OF n(1)] n(2) a w1(2)] 2(3) l by blast
  then show ?case using c by (intro 2(1) [OF l [symmetric] refl _ n a refl refl w1(1)]) simp_all
qed

lemma host_keeps_artifacts: "maintains (\<lambda>w. artifacts w = A) (host_call what)"
  by (simp add: maintains_def host_call_def Let_def)

lemma copy_keeps_artifacts: "maintains (\<lambda>w. artifacts w = A) (copy_entries lims es e seen used files out)"
proof (induction es arbitrary: seen used files out)
  case Nil
  then show ?case by (auto intro: maintains_intros)
next
  case (Cons x es)
  then show ?case unfolding copy_entries.simps
    by (cases x) (auto intro!: maintains_intros host_keeps_artifacts)
qed

lemma write_archive_artifacts:
  assumes "write_archive cd pol source w = (r, w')"
  shows "artifacts w' = artifacts w"
proof -
  have "maintains (\<lambda>v. artifacts v = artifacts w) (write_archive cd pol source)"
    unfolding write_archive_def Let_def by (intro maintains_intros host_keeps_artifacts copy_keeps_artifacts)
  from maintainsD [OF this refl assms] show ?thesis .
qed

lemma write_archive_ok:
  fixes w :: "'w world"
  assumes "write_archive cd pol source w = (Inr (files, out), w')"
    "0 \<le> MaxArtifactFiles pol" "0 \<le> MaxArtifactBytes pol"
  shows "archive_ok (artifactLimits pol) out \<and> files = published out"
proof -
  obtain w1 w2 :: "'w world" where w: "copy_entries (artifactLimits pol) (entries (Untar cd source)) (ends (Untar cd source)) [] 0 [] [] w1 =
      (Inr (files, out), w2)"
    using assms(1) unfolding write_archive_def Let_def
    by (auto elim!: bnd_InrE split: if_splits)
  have "copied (artifactLimits pol) [] 0 [] []"
    using assms(2,3) by (simp add: copied_def archive_ok_def published_def artifactLimits_def)
  from copy_entries_copied [OF w this] show ?thesis by simp
qed

lemma temp_name_prefix: "HasPrefix (temp_name r files) temp_prefix"
proof -
  have "HasPrefix temp_prefix temp_prefix" using HasPrefix_append [of temp_prefix "[]"] by simp
  then show ?thesis by (cases "find (\<lambda>n. temp_prefix @ nat_dec n \<notin> fst ` set files) [r ..< r + Suc (length files)]")
    (simp_all add: temp_name_def del: upt_Suc)
qed

text \<open>A free name exists, because there are more numbers than files.\<close>

lemma find_fresh:
  assumes "inj f" "distinct ys" "length xs < length ys"
  shows "\<exists>y. find (\<lambda>n. f n \<notin> set xs) ys = Some y \<and> f y \<notin> set xs"
proof (cases "find (\<lambda>n. f n \<notin> set xs) ys")
  case None
  then have "f ` set ys \<subseteq> set xs" by (auto simp: find_None_iff)
  then have "card (f ` set ys) \<le> card (set xs)" by (rule card_mono [OF List.finite_set])
  moreover have "card (f ` set ys) = length ys"
    using assms(1,2) by (simp add: card_image inj_on_subset distinct_card)
  ultimately show ?thesis using assms(3) card_length [of xs] by linarith
qed (auto simp: find_Some_iff)

lemma temp_name_fresh: "temp_name r files \<notin> fst ` set files"
proof -
  have "inj (\<lambda>n. temp_prefix @ nat_dec n)" by (rule injI) (simp add: nat_dec_inject)
  from find_fresh [OF this, of "[r ..< r + Suc (length files)]" "map fst files"]
  obtain y where "find (\<lambda>n. temp_prefix @ nat_dec n \<notin> fst ` set files) [r ..< r + Suc (length files)] = Some y"
    "temp_prefix @ nat_dec y \<notin> fst ` set files" by (auto simp del: upt_Suc)
  then show ?thesis by (simp only: temp_name_def option.case not_False_eq_True)
qed

lemma map_of_without: "map_of (without_file n files) k = (if k = n then None else map_of files k)"
  by (induction files) (auto simp: without_file_def)

lemma cacheArtifacts_stores:
  assumes "cacheArtifacts cd pol source destination w = (r, w')" "0 \<le> MaxArtifactFiles pol" "0 \<le> MaxArtifactBytes pol"
    "\<not> HasPrefix destination temp_prefix"
  shows "(case r of
      Inl _ \<Rightarrow> map_of (artifacts w') destination = map_of (artifacts w) destination
    | Inr files \<Rightarrow> \<exists>out. map_of (artifacts w') destination = Some (Targz cd out) \<and>
        archive_ok (artifactLimits pol) out \<and> files = published out) \<and>
    (\<forall>n. n \<noteq> destination \<and> \<not> HasPrefix n temp_prefix \<longrightarrow> map_of (artifacts w') n = map_of (artifacts w) n)"
proof -
  obtain q w1 where q: "host_call ''could not create temporary artifact archive'' (snd (draw w)) = (q, w1)" by fastforce
  have w1: "artifacts w1 = artifacts w" using host_call_artifacts [OF q] by (simp add: draw_def)
  let ?r = "case randoms w of [] \<Rightarrow> 0 | r # _ \<Rightarrow> r"
  let ?temp = "temp_name ?r (artifacts w)"
  have other: "n \<noteq> ?temp" if "\<not> HasPrefix n temp_prefix" for n using that temp_name_prefix by metis
  have d: "bnd draw f w = f ?r (snd (draw w))" for f by (simp add: bnd_def draw_def)
  show ?thesis
  proof (cases q)
    case (Inl e)
    then have "r = Inl e" "w' = w1" using assms(1) q by (simp_all add: cacheArtifacts_def d bnd_Inl)
    then show ?thesis using w1 by simp
  next
    case (Inr u)
    obtain p w2 where p: "write_archive cd pol source (w1\<lparr>artifacts := put ?temp [] (artifacts w1)\<rparr>) = (p, w2)" by fastforce
    have w2: "artifacts w2 = put ?temp [] (artifacts w)" using write_archive_artifacts [OF p] w1 by simp
    show ?thesis
    proof (cases p)
      case (Inl e)
      then have r: "r = Inl e" "w' = remove_quietly ?temp w2"
        using assms(1) q p Inr w1 by (simp_all add: cacheArtifacts_def d bnd_Inr Let_def)
      have "map_of (artifacts w') n = map_of (artifacts w) n" if "\<not> HasPrefix n temp_prefix" for n
        using other [OF that] w2 unfolding r(2) remove_quietly_def
        by (auto simp: map_of_without dest: host_call_artifacts split: prod.splits sum.splits)
      then show ?thesis using assms(4) r(1) by simp
    next
      case p2: (Inr x)
      obtain files out where x: "x = (files, out)" by fastforce
      have r: "r = Inr files" "w' = w2\<lparr>artifacts := put destination (Targz cd out) (without_file ?temp (artifacts w2))\<rparr>"
        using assms(1) q p Inr w1 p2 x by (simp_all add: cacheArtifacts_def d bnd_Inr Let_def)
      have "archive_ok (artifactLimits pol) out \<and> files = published out"
        using write_archive_ok [OF _ assms(2,3)] p p2 x by blast
      moreover have "map_of (artifacts w') destination = Some (Targz cd out)" by (simp add: r(2))
      moreover have "map_of (artifacts w') n = map_of (artifacts w) n" if "n \<noteq> destination" "\<not> HasPrefix n temp_prefix" for n
        using other [OF that(2)] that(1) by (simp add: r(2) w2 map_of_without)
      ultimately show ?thesis using r(1) by auto
    qed
  qed
qed

text \<open>
  C28. Only safe archives are stored. When \<open>cacheArtifacts\<close> succeeds, the stored archive ended
  properly, keeps the limits of the policy on entries, total and single file sizes, and each of its
  entries is a file or directory with a relative path that leaves no root, no repeated name, no owner,
  no link target and permission bits only; the names returned are those of its files. When it fails,
  the destination is as before. No other artifact is touched in either case.
\<close>

theorem stored_archives_are_safe:
  assumes "cacheArtifacts cd pol source destination w = (r, w')" "0 \<le> MaxArtifactFiles pol" "0 \<le> MaxArtifactBytes pol"
    "\<not> HasPrefix destination temp_prefix"
  shows "(case r of
      Inl _ \<Rightarrow> map_of (artifacts w') destination = map_of (artifacts w) destination
    | Inr files \<Rightarrow> \<exists>out. map_of (artifacts w') destination = Some (Targz cd out) \<and>
        archive_ok (artifactLimits pol) out \<and> files = published out) \<and>
    (\<forall>n. n \<noteq> destination \<and> \<not> HasPrefix n temp_prefix \<longrightarrow> map_of (artifacts w') n = map_of (artifacts w) n)"
  using assms by (rule cacheArtifacts_stores)

definition ex_codec :: codec where
  "ex_codec = \<lparr>Untar = (\<lambda>s. \<lparr>gzip_ok = True, entries =
       [(\<lparr>hd_Name = ''./d'', Typeflag = TypeDir, hd_Size = 7, Mode = 1023, Linkname = [], Uid = 5, Gid = 5,
          Uname = ''u'', Gname = [], PAXRecords = [], Xattrs = [], ModTime = 0\<rparr>, []),
        (\<lparr>hd_Name = ''d/../a'', Typeflag = TypeReg, hd_Size = 2, Mode = 2541, Linkname = ''x'', Uid = 0, Gid = 0,
          Uname = [], Gname = [], PAXRecords = [(''k'', ''v'')], Xattrs = [], ModTime = 0\<rparr>, s)], ends = True, closes = True\<rparr>),
     Targz = concat \<circ> map (\<lambda>(h, bytes). hd_Name h @ bytes), LookupJson = (\<lambda>_. None), TrailingJson = (\<lambda>_. False)\<rparr>"

definition ex_store :: "string list world" where
  "ex_store = \<lparr>wdb = \<lparr>tab = empty_tables, faults = []\<rparr>, dock = [], artifacts = [(''7.tar.gz'', ''old'')], host_faults = [],
     randoms = [3], diskQuotasEnabled = False, portLockHeld = False\<rparr>"

definition ex_limits :: managerPolicy where
  "ex_limits = \<lparr>MaxSeedsPerRequest = 10, MaxConcurrentBuilds = 1, MaxBuildContextFiles = 10,
     MaxBuildContextBytes = 1000, MaxArtifactFiles = 2, MaxArtifactBytes = 3, MaxArtifactFileBytes = 2,
     MaxRequestBytes = 1000, SolverTimeout = 1, MaxSolverLogBytes = 100, MaxSolverFlagBytes = 100\<rparr>"

theorem stored_archives_are_safe_witness:
  "\<exists>w' out. cacheArtifacts ex_codec ex_limits ''hi'' ''7.tar.gz'' ex_store = (Inr [''a''], w') \<and>
     map_of (artifacts w') ''7.tar.gz'' = Some (Targz ex_codec out) \<and> archive_ok (artifactLimits ex_limits) out"
proof -
  let ?c = "cacheArtifacts ex_codec ex_limits ''hi'' ''7.tar.gz'' ex_store"
  have e: "fst ?c = Inr [''a'']" by code_simp
  obtain r w' where c: "?c = (r, w')" by fastforce
  from stored_archives_are_safe [OF this] c e show ?thesis
    by (simp add: ex_limits_def temp_prefix_def) blast
qed

end
