(* ===== verification/BuildNames.thy ===== *)
theory BuildNames
  imports Artifacts Containers
begin

text \<open>
  Names and progress of builds, from \<open>cmgr/docker.go\<close>: the flag offered to a build, the names of
  images and artifact files, the names of a staged build and how startup recovery recognises them,
  and the progress stream of the daemon.
\<close>

section \<open>Flags and file names\<close>

text \<open>\<open>strings.Replace\<close> with a count of one and a pattern that is not empty.\<close>

fun replace_first :: "string \<Rightarrow> string \<Rightarrow> string \<Rightarrow> string" where
  "replace_first old new [] = []"
| "replace_first old new (c # s) =
     (if HasPrefix (c # s) old then new @ drop (length old) (c # s) else c # replace_first old new s)"

definition makeFlag :: "(string \<Rightarrow> string) \<Rightarrow> BuildMetadata \<Rightarrow> string" where
  "makeFlag hash b =
     (let sum = hash (bd_Challenge b @ '':'' @ Format b @ '':'' @ Itoa (Seed b)) in
      replace_first ''%s'' (take 8 sum) (Format b))"

definition getArtifactsFilename :: "BuildMetadata \<Rightarrow> string" where
  "getArtifactsFilename b = Itoa (bd_Id b) @ ''.tar.gz''"

definition getArtifactsFilenameForQualifier :: "BuildMetadata \<Rightarrow> string \<Rightarrow> string" where
  "getArtifactsFilenameForQualifier b qualifier =
     (if qualifier = [] then getArtifactsFilename b
      else ''.'' @ qualifier @ ''-'' @ getArtifactsFilename b)"

definition backup_name :: "BuildMetadata \<Rightarrow> string \<Rightarrow> string" where
  "backup_name b qualifier = ''.cmgr-old-'' @ qualifier @ ''-'' @ getArtifactsFilename b"

definition hex_digit :: "nat \<Rightarrow> char" where
  "hex_digit n = (if n < 10 then digit_char n else char_of (87 + n))"

text \<open>\<open>%08x\<close> of a 32-bit number.\<close>

definition hex8 :: "32 word \<Rightarrow> string" where
  "hex8 w = map (\<lambda>i. hex_digit (unat w div 16 ^ i mod 16)) (rev [0 ..< 8])"

definition challengeSourceVersion :: "ChallengeMetadata \<Rightarrow> string" where
  "challengeSourceVersion c = (if SourceDigest c \<noteq> [] then SourceDigest c else hex8 (SourceChecksum c))"

definition challengeToFreezeName :: "ChallengeId \<Rightarrow> string" where
  "challengeToFreezeName c = map (\<lambda>x. if x = CHR ''/'' then CHR ''_'' else x) c"

definition buildImageName :: "ChallengeId \<Rightarrow> BuildMetadata \<Rightarrow> string \<Rightarrow> string \<Rightarrow> string" where
  "buildImageName c b host qualifier =
     c @ '':'' @ (if qualifier \<noteq> [] then qualifier @ ''-'' @ dockerId b host else dockerId b host)"

section \<open>Recognising staged names\<close>

definition stagedBuildQualifierPrefix :: string where
  "stagedBuildQualifierPrefix = ''cmgr-validate-''"

definition is_hex :: "char \<Rightarrow> bool" where
  "is_hex c \<longleftrightarrow> is_digit c \<or> (let n = of_char c :: nat in 97 \<le> n \<and> n \<le> 102)"

definition isUpdateQualifier :: "string \<Rightarrow> bool" where
  "isUpdateQualifier v \<longleftrightarrow>
     length v = length stagedBuildQualifierPrefix + 32 \<and> HasPrefix v stagedBuildQualifierPrefix \<and>
     list_all is_hex (drop (length stagedBuildQualifierPrefix) v)"

definition positive_id :: "string \<Rightarrow> BuildId option" where
  "positive_id s = (case Atoi s of Inl _ \<Rightarrow> None | Inr v \<Rightarrow> if v \<le> 0 then None else Some v)"

definition build_and_host :: "string \<Rightarrow> BuildId option" where
  "build_and_host s =
     (case IndexByte s (CHR ''-'') of
        None \<Rightarrow> None
      | Some buildEnd \<Rightarrow> if buildEnd = 0 \<or> buildEnd = length s - 1 then None else positive_id (take buildEnd s))"

text \<open>The loop over the dashes of the tag; \<open>separator\<close> is the index of one.\<close>

function staged_from :: "string \<Rightarrow> nat \<Rightarrow> BuildId option" where
  "staged_from remainder separator =
     (if isUpdateQualifier (take separator remainder) then build_and_host (drop (Suc separator) remainder)
      else case IndexByte (drop (Suc separator) remainder) (CHR ''-'') of
        None \<Rightarrow> None
      | Some next \<Rightarrow> staged_from remainder (separator + next + 1))"
  by auto

termination
  by (relation "measure (\<lambda>(r, s). length r - s)") (auto dest: IndexByte_Some)

declare staged_from.simps [simp del]

definition stagedImageBuildID :: "string \<Rightarrow> ChallengeId \<Rightarrow> BuildId option" where
  "stagedImageBuildID tag c =
     (case CutPrefix tag (c @ '':'') of
        None \<Rightarrow> None
      | Some remainder \<Rightarrow>
        (case IndexByte remainder (CHR ''-'') of None \<Rightarrow> None | Some s \<Rightarrow> staged_from remainder s))"

text \<open>The loop over the dashes of a file name, from the last one.\<close>

function staged_back :: "string \<Rightarrow> BuildId option" where
  "staged_back remainder =
     (case LastIndexByte remainder (CHR ''-'') of
        None \<Rightarrow> None
      | Some s \<Rightarrow>
        if isUpdateQualifier (take s remainder) then positive_id (drop (Suc s) remainder)
        else staged_back (take s remainder))"
  by auto

termination
  by (relation "measure length") (auto dest: LastIndexByte_less)

declare staged_back.simps [simp del]

definition staged_after :: "string \<Rightarrow> string \<Rightarrow> BuildId option" where
  "staged_after pre name =
     (case CutPrefix name pre of
        None \<Rightarrow> None
      | Some r \<Rightarrow> if \<not> HasSuffix r ''.tar.gz'' then None else staged_back (TrimSuffix r ''.tar.gz''))"

definition stagedArtifactBuildID :: "string \<Rightarrow> BuildId option" where
  "stagedArtifactBuildID name =
     (case staged_after ''.'' name of Some i \<Rightarrow> Some i | None \<Rightarrow> staged_after ''.cmgr-old-'' name)"

section \<open>Progress of the daemon\<close>

definition outputTailLimit :: nat where "outputTailLimit = 8 * 1024"

definition appendOutput :: "string \<Rightarrow> string \<Rightarrow> string" where
  "appendOutput tail output =
     (if output = [] then tail
      else let t = tail @ output in if length t > outputTailLimit then drop (length t - outputTailLimit) t else t)"

definition progress_error :: "string \<Rightarrow> string \<Rightarrow> string \<Rightarrow> err" where
  "progress_error operation message tail =
     (let m = TrimSpace message; t = TrimSpace tail;
          text = ''Docker '' @ operation @ '' failed: '' @ m in
      Plain (if t = [] then text else text @ [CHR 0x0A] @ ''Docker output (tail):'' @ [CHR 0x0A] @ t))"

fun consume_messages :: "string \<Rightarrow> string \<Rightarrow> progress_message list \<Rightarrow> bool \<Rightarrow> err + unit" where
  "consume_messages operation tail [] ended =
     (if ended then Inr () else Inl (Wrap ''failed to decode Docker response'' (Plain operation)))"
| "consume_messages operation tail (m # ms) ended =
     (let t1 = appendOutput tail (pm_Stream m);
          t2 = (if pm_Status m \<noteq> [] then appendOutput t1 (pm_Status m @ [CHR 0x0A]) else t1) in
      case pm_Detail m of
        Some d \<Rightarrow>
          if d \<noteq> [] then Inl (progress_error operation d t2)
          else if pm_Error m \<noteq> [] then Inl (progress_error operation (pm_Error m) t2)
          else consume_messages operation t2 ms ended
      | None \<Rightarrow>
          if pm_Error m \<noteq> [] then Inl (progress_error operation (pm_Error m) t2)
          else consume_messages operation t2 ms ended)"

definition consumeDockerProgress :: "progress \<Rightarrow> string \<Rightarrow> err + unit" where
  "consumeDockerProgress p operation = consume_messages operation [] (fst p) (snd p)"

definition reports_error :: "progress_message \<Rightarrow> bool" where
  "reports_error m \<longleftrightarrow> pm_Error m \<noteq> [] \<or> (\<exists>d. pm_Detail m = Some d \<and> d \<noteq> [])"

lemma consume_ok_iff:
  "consume_messages op tail ms ended = Inr () \<longleftrightarrow> ended \<and> list_all (\<lambda>m. \<not> reports_error m) ms"
  by (induction ms arbitrary: tail) (auto simp: reports_error_def Let_def split: option.splits)

lemma appendOutput_bound: "length tail \<le> outputTailLimit \<Longrightarrow> length (appendOutput tail s) \<le> outputTailLimit"
  by (auto simp: appendOutput_def Let_def)

section \<open>Staged names are recognised\<close>

lemma is_hex_no_dash: "list_all is_hex h \<Longrightarrow> CHR ''-'' \<notin> set h"
  by (auto simp: list_all_iff is_hex_def is_digit_def)

lemma qualifier_shape:
  assumes "isUpdateQualifier q"
  obtains h where "q = stagedBuildQualifierPrefix @ h" "length h = 32" "CHR ''-'' \<notin> set h"
proof -
  obtain h where "q = stagedBuildQualifierPrefix @ h" using assms by (auto simp: isUpdateQualifier_def HasPrefix_iff)
  with that assms show ?thesis by (auto simp: isUpdateQualifier_def is_hex_no_dash)
qed

lemma isUpdateQualifier_length: "isUpdateQualifier v \<Longrightarrow> length v = 46"
  by (simp add: isUpdateQualifier_def stagedBuildQualifierPrefix_def)

lemma staged_after_eq: "staged_after pre (pre @ r @ ''.tar.gz'') = staged_back r"
  by (simp only: staged_after_def CutPrefix_append option.case HasSuffix_append TrimSuffix_append not_True_eq_False if_False)

lemma HasPrefix_take: "HasPrefix (take n s) p \<Longrightarrow> HasPrefix s p"
  by (metis HasPrefix_iff append.assoc append_take_drop_id)

lemma staged_from_None: "\<not> HasPrefix r stagedBuildQualifierPrefix \<Longrightarrow> staged_from r s = None"
  by (induction r s rule: staged_from.induct)
    (subst staged_from.simps, auto simp: isUpdateQualifier_def dest: HasPrefix_take split: option.splits)

lemma staged_back_None: "\<not> HasPrefix r stagedBuildQualifierPrefix \<Longrightarrow> staged_back r = None"
  by (induction r rule: staged_back.induct)
    (subst staged_back.simps, auto simp: isUpdateQualifier_def dest: HasPrefix_take split: option.splits)

lemma dash_not_digit: "CHR ''-'' \<notin> set (nat_dec n)"
  by (rule nat_dec_no_char) simp

lemma positive_Itoa: "0 < i \<Longrightarrow> in_int64 i \<Longrightarrow> positive_id (Itoa i) = Some i"
  by (simp add: positive_id_def)

lemma build_and_host_dockerId:
  assumes "0 < bd_Id b" "in_int64 (bd_Id b)" "host \<noteq> []"
  shows "build_and_host (dockerId b host) = Some (bd_Id b)"
proof -
  let ?d = "Itoa (bd_Id b)"
  have i: "IndexByte (?d @ CHR ''-'' # host) (CHR ''-'') = Some (length ?d)"
    using assms(1) dash_not_digit by (intro IndexByte_append) (simp add: Itoa_nonneg)
  have "length ?d \<noteq> 0" using assms(1) by (simp add: Itoa_nonneg)
  then show ?thesis using assms(3) i positive_Itoa [OF assms(1,2)]
    by (simp add: build_and_host_def dockerId_def)
qed

lemma staged_from_qualified:
  assumes "isUpdateQualifier q"
  shows "IndexByte (q @ ''-'' @ rest) (CHR ''-'') = Some 4" "staged_from (q @ ''-'' @ rest) 4 = build_and_host rest"
proof -
  obtain h where h: "q = stagedBuildQualifierPrefix @ h" "length h = 32" "CHR ''-'' \<notin> set h"
    using qualifier_shape [OF assms] .
  show "IndexByte (q @ ''-'' @ rest) (CHR ''-'') = Some 4" by (simp add: h(1) stagedBuildQualifierPrefix_def)
  have q: "length q = 46" by (simp add: h stagedBuildQualifierPrefix_def)
  have short: "\<not> isUpdateQualifier (take n (q @ ''-'' @ rest))" if "n < 46" for n
  proof -
    have "length (take n (q @ ''-'' @ rest)) \<le> n" by simp
    then show ?thesis using that isUpdateQualifier_length by fastforce
  qed
  have 1: "IndexByte (drop (Suc 4) (q @ ''-'' @ rest)) (CHR ''-'') = Some 8"
    by (simp add: h(1) stagedBuildQualifierPrefix_def)
  have "drop (Suc 13) (q @ ''-'' @ rest) = h @ CHR ''-'' # rest" by (simp add: h(1) stagedBuildQualifierPrefix_def)
  then have 2: "IndexByte (drop (Suc 13) (q @ ''-'' @ rest)) (CHR ''-'') = Some 32"
    using IndexByte_append [OF h(3)] h(2) by metis
  have "staged_from (q @ ''-'' @ rest) 46 = build_and_host rest"
    by (subst staged_from.simps) (use assms q in simp)
  moreover have "staged_from (q @ ''-'' @ rest) 13 = staged_from (q @ ''-'' @ rest) 46"
    by (subst staged_from.simps) (use short 2 in simp)
  moreover have "staged_from (q @ ''-'' @ rest) 4 = staged_from (q @ ''-'' @ rest) 13"
    by (subst staged_from.simps) (use short 1 in simp)
  ultimately show "staged_from (q @ ''-'' @ rest) 4 = build_and_host rest" by simp
qed

lemma staged_back_qualified:
  assumes "isUpdateQualifier q" "0 < i" "in_int64 i"
  shows "staged_back (q @ ''-'' @ Itoa i) = Some i"
proof -
  have "LastIndexByte (q @ CHR ''-'' # Itoa i) (CHR ''-'') = Some (length q)"
    using assms(2) dash_not_digit by (intro LastIndexByte_append) (simp add: Itoa_nonneg)
  then show ?thesis using assms(1) positive_Itoa [OF assms(2,3)] by (subst staged_back.simps) simp
qed

lemma staged_after_qualified:
  assumes "isUpdateQualifier q" "0 < i" "in_int64 i"
  shows "staged_after pre (pre @ q @ ''-'' @ Itoa i @ ''.tar.gz'') = Some i"
proof -
  have "staged_after pre (pre @ (q @ ''-'' @ Itoa i) @ ''.tar.gz'') = staged_back (q @ ''-'' @ Itoa i)"
    by (rule staged_after_eq)
  then show ?thesis using staged_back_qualified [OF assms] by simp
qed

lemma nat_dec_head: "\<exists>y ys. nat_dec n = y # ys \<and> is_digit y"
  using nat_dec_digits [of n] by (cases "nat_dec n") auto

lemma Itoa_lead: "x = CHR ''c'' \<or> x = CHR ''.'' \<Longrightarrow> \<not> HasPrefix (Itoa i @ s) (x # xs)"
  using nat_dec_head [of "nat i"] nat_dec_head [of "nat (- i)"] by (auto simp: Itoa_def is_digit_def)

lemma image_remainder: "CutPrefix (buildImageName c b h q) (c @ '':'') =
    Some (if q \<noteq> [] then q @ ''-'' @ dockerId b h else dockerId b h)"
  unfolding buildImageName_def append.assoc [symmetric] by (rule CutPrefix_append)

lemma canonical_image_not_staged: "stagedImageBuildID (buildImageName c b h []) c = None"
  unfolding stagedImageBuildID_def image_remainder
  by (auto simp: Itoa_lead dockerId_def stagedBuildQualifierPrefix_def intro!: staged_from_None split: option.splits)

lemma canonical_file_not_staged: "stagedArtifactBuildID (getArtifactsFilename b) = None"
  by (simp add: Itoa_lead stagedArtifactBuildID_def staged_after_def CutPrefix_def getArtifactsFilename_def)

text \<open>
  C29. Recovery recognises exactly the names that staging gives. For a qualifier of an update, the
  image name of a build and its two artifact files (the staged one and the preserved one) are read
  back as that build's identifier, and the canonical names that a build in use has are never taken
  for staged ones, whatever the host is called.
\<close>

theorem staged_names_round_trip:
  assumes "isUpdateQualifier q" "0 < bd_Id b" "in_int64 (bd_Id b)" "host \<noteq> []"
  shows "stagedImageBuildID (buildImageName c b host q) c = Some (bd_Id b) \<and>
    stagedArtifactBuildID (getArtifactsFilenameForQualifier b q) = Some (bd_Id b) \<and>
    stagedArtifactBuildID (backup_name b q) = Some (bd_Id b) \<and>
    stagedImageBuildID (buildImageName c b' h []) c = None \<and>
    stagedArtifactBuildID (getArtifactsFilename b') = None"
proof (intro conjI)
  have q: "q \<noteq> []" using assms(1) by (auto simp: isUpdateQualifier_def stagedBuildQualifierPrefix_def)
  show "stagedImageBuildID (buildImageName c b host q) c = Some (bd_Id b)"
    using staged_from_qualified [OF assms(1)] build_and_host_dockerId [OF assms(2-4)] q
    by (simp add: stagedImageBuildID_def image_remainder)
  show "stagedArtifactBuildID (getArtifactsFilenameForQualifier b q) = Some (bd_Id b)"
    using staged_after_qualified [OF assms(1-3), of "''.''"] q
    by (simp add: stagedArtifactBuildID_def getArtifactsFilenameForQualifier_def getArtifactsFilename_def)
  have "staged_after ''.'' (backup_name b q) = None"
  proof -
    have "staged_after ''.'' (''.'' @ (''cmgr-old-'' @ q @ ''-'' @ Itoa (bd_Id b)) @ ''.tar.gz'') =
        staged_back (''cmgr-old-'' @ q @ ''-'' @ Itoa (bd_Id b))"
      by (rule staged_after_eq)
    also have "\<dots> = None" by (rule staged_back_None) (simp add: stagedBuildQualifierPrefix_def)
    finally show ?thesis by (simp add: backup_name_def getArtifactsFilename_def)
  qed
  then show "stagedArtifactBuildID (backup_name b q) = Some (bd_Id b)"
    using staged_after_qualified [OF assms(1-3), of "''.cmgr-old-''"]
    by (simp add: stagedArtifactBuildID_def backup_name_def getArtifactsFilename_def)
  show "stagedImageBuildID (buildImageName c b' h []) c = None" by (rule canonical_image_not_staged)
  show "stagedArtifactBuildID (getArtifactsFilename b') = None" by (rule canonical_file_not_staged)
qed

definition ex_qualifier :: string where
  "ex_qualifier = ''cmgr-validate-0123456789abcdef0123456789abcdef''"

theorem staged_names_round_trip_witness:
  "stagedImageBuildID (buildImageName ''c'' (ex_build\<lparr>bd_Id := 17\<rparr>) ''web-1'' ex_qualifier) ''c'' = Some 17 \<and>
   stagedImageBuildID (buildImageName ''c'' ex_build ex_qualifier []) ''c'' = None"
proof -
  have q: "isUpdateQualifier ex_qualifier" by code_simp
  have i: "0 < bd_Id (ex_build\<lparr>bd_Id := 17\<rparr>)" "in_int64 (bd_Id (ex_build\<lparr>bd_Id := 17\<rparr>))"
    by (simp_all add: in_int64_def)
  show ?thesis using staged_names_round_trip [OF q i, of "''web-1''"] by simp
qed

end
