(* ===== verification/Filesystem.thy ===== *)
theory Filesystem
  imports BuildNames
begin

text \<open>
  \<open>cmgr/filesystem.go\<close>: names and paths of challenges, the walk over a challenge directory with the
  two checksums of its sources, and the build context. A directory is a tree of nodes as \<open>lstat\<close>,
  \<open>Readlink\<close>, \<open>Open\<close> and the directory listing show it, unchanged during one operation; \<open>None\<close> is an
  error of the call. What a symbolic link finally points to is a function \<open>eval\<close> (\<open>EvalSymlinks\<close>).
\<close>

section \<open>Paths\<close>

definition elements :: "string \<Rightarrow> string list" where
  "elements p = filter (\<lambda>w. w \<noteq> []) (Split CHR ''/'' p)"

text \<open>\<open>filepath.Join\<close>, \<open>filepath.Dir\<close> and \<open>filepath.Rel\<close> for clean paths.\<close>

definition Join_path :: "string \<Rightarrow> string \<Rightarrow> string" where
  "Join_path a b = (if a = [] then (if b = [] then [] else Clean b) else if b = [] then Clean a else Clean (a @ ''/'' @ b))"

definition Dir :: "string \<Rightarrow> string" where
  "Dir p = (case LastIndexByte p CHR ''/'' of None \<Rightarrow> dot | Some i \<Rightarrow> Clean (take (Suc i) p))"

fun rel_from :: "string list \<Rightarrow> string list \<Rightarrow> string list option" where
  "rel_from (b # bs) (t # ts) =
     (if b = t then rel_from bs ts
      else if b = dotdot then None else Some (replicate (Suc (length bs)) dotdot @ t # ts))"
| "rel_from bs ts = (if bs \<noteq> [] \<and> hd bs = dotdot then None else Some (replicate (length bs) dotdot @ ts))"

definition Rel :: "string \<Rightarrow> string \<Rightarrow> string option" where
  "Rel base target =
     (let b = Clean base; t = Clean target in
      if t = b then Some dot
      else let b' = (if b = dot then [] else b) in
      if IsAbs b' \<noteq> IsAbs t then None
      else map_option (Join_with ''/'') (rel_from (elements b') (elements t)))"

definition pathInDirectory :: "string \<Rightarrow> string \<Rightarrow> bool" where
  "pathInDirectory p dir =
     (case Rel dir p of
        None \<Rightarrow> False
      | Some relative \<Rightarrow> relative \<noteq> dotdot \<and> \<not> IsAbs relative \<and> \<not> HasPrefix relative ''../'')"

section \<open>Names\<close>

text \<open>\<open>strings.Trim\<close> with a cutset of one character.\<close>

definition Trim :: "char \<Rightarrow> string \<Rightarrow> string" where
  "Trim c s = rev (dropWhile (\<lambda>x. x = c) (rev (dropWhile (\<lambda>x. x = c) s)))"

definition is_alnum :: "char \<Rightarrow> bool" where
  "is_alnum c \<longleftrightarrow> is_lower c \<or> is_upper c \<or> is_digit c"

definition sanitizeName :: "string \<Rightarrow> string" where
  "sanitizeName dirty = Trim CHR ''-'' (map (\<lambda>c. if is_alnum c then c else CHR ''-'') (ToLower dirty))"

definition hidden :: "string \<Rightarrow> bool" where
  "hidden name \<longleftrightarrow> HasPrefix name ''.''"

definition checksumIgnore :: "string \<Rightarrow> bool" where
  "checksumIgnore name \<longleftrightarrow> hidden name \<and> name \<noteq> ''.dockerignore'' \<or>
     name \<in> {''README'', ''README.md'', ''problem.json'', ''problem.md'', ''solver'', ''cmgr.db''}"

definition contextIgnore :: "string \<Rightarrow> bool" where
  "contextIgnore name \<longleftrightarrow> hidden name \<and> name \<noteq> ''.dockerignore'' \<or>
     name \<in> {''README'', ''README.md'', ''problem.md'', ''solver'', ''cmgr.db''}"

section \<open>Directory trees\<close>

text \<open>\<open>fs.FileMode\<close>: the type and special bits from the top, the permissions in the nine low bits.\<close>

type_synonym FileMode = "32 word"

definition mode_bit :: "FileMode \<Rightarrow> nat \<Rightarrow> bool" where
  "mode_bit m i \<longleftrightarrow> bit m i"

definition is_dir_mode :: "FileMode \<Rightarrow> bool" where "is_dir_mode m \<longleftrightarrow> mode_bit m 31"

definition is_link_mode :: "FileMode \<Rightarrow> bool" where "is_link_mode m \<longleftrightarrow> mode_bit m 27"

definition is_regular_mode :: "FileMode \<Rightarrow> bool" where
  "is_regular_mode m \<longleftrightarrow> list_all (\<lambda>i. \<not> mode_bit m i) [31, 27, 26, 25, 24, 21, 19]"

text \<open>\<open>FileMode.String\<close>.\<close>

definition mode_letters :: "(nat \<times> char) list" where
  "mode_letters = zip [31, 30, 29, 28, 27, 26, 25, 24, 23, 22, 21, 20, 19] ''dalTLDpSugct?''"

definition permission_letters :: "(nat \<times> char) list" where
  "permission_letters = zip [8, 7, 6, 5, 4, 3, 2, 1, 0] ''rwxrwxrwx''"

definition mode_string :: "FileMode \<Rightarrow> string" where
  "mode_string m =
     (let letters = map snd (filter (\<lambda>(i, _). mode_bit m i) mode_letters) in
      (if letters = [] then ''-'' else letters) @
      map (\<lambda>(i, c). if mode_bit m i then c else CHR ''-'') permission_letters)"

record file_info =
  fi_Name :: string
  fi_Size :: nat
  fi_Mode :: FileMode

datatype node = Node (info_of: file_info) (bytes_of: "string option") (target_of: "string option")
  (children_of: "node list option")

abbreviation is_dir :: "node \<Rightarrow> bool" where
  "is_dir n \<equiv> is_dir_mode (fi_Mode (info_of n))"

text \<open>
  \<open>filepath.Walk\<close>: the visitor sees a path with its node, or with the error of listing it. Children
  come in lexical order. \<open>Skip\<close> is \<open>filepath.SkipDir\<close>.
\<close>

datatype visit = Next | Skip | Halt err

type_synonym 's visitor = "string \<Rightarrow> node \<Rightarrow> bool \<Rightarrow> 's \<Rightarrow> visit \<times> 's"

function (sequential) walk :: "'s visitor \<Rightarrow> string \<Rightarrow> node \<Rightarrow> 's \<Rightarrow> visit \<times> 's"
  and walk_all :: "'s visitor \<Rightarrow> string \<Rightarrow> node list \<Rightarrow> 's \<Rightarrow> visit \<times> 's" where
  "walk f path (Node i b l ch) s =
     (if \<not> is_dir_mode (fi_Mode i) then f path (Node i b l ch) True s
      else case f path (Node i b l ch) (ch \<noteq> None) s of
        (Next, s') \<Rightarrow> (case ch of None \<Rightarrow> (Next, s') | Some ns \<Rightarrow> walk_all f path ns s')
      | r \<Rightarrow> r)"
| "walk_all f path [] s = (Next, s)"
| "walk_all f path (n # ns) s =
     (case walk f (Join_path path (fi_Name (info_of n))) n s of
        (Next, s') \<Rightarrow> walk_all f path ns s'
      | (Skip, s') \<Rightarrow> if is_dir n then walk_all f path ns s' else (Skip, s')
      | (Halt e, s') \<Rightarrow> (Halt e, s'))"
  by pat_completeness auto

termination
  by (relation "measure (\<lambda>x. case x of Inl (_, _, n, _) \<Rightarrow> size n | Inr (_, _, ns, _) \<Rightarrow> size_list size ns)") auto

definition Walk :: "'s visitor \<Rightarrow> string \<Rightarrow> node \<Rightarrow> 's \<Rightarrow> err option \<times> 's" where
  "Walk f path n s = (case walk f path n s of (Halt e, s') \<Rightarrow> (Some e, s') | (_, s') \<Rightarrow> (None, s'))"

section \<open>Checksums\<close>

text \<open>Numbers of a fixed width, most significant byte first (\<open>binary.BigEndian\<close>).\<close>

fun be :: "nat \<Rightarrow> nat \<Rightarrow> string" where
  "be 0 n = []"
| "be (Suc k) n = char_of (n div 256 ^ k) # be k n"

definition writeHashFrame :: "string \<Rightarrow> string \<Rightarrow> string" where
  "writeHashFrame label contents = be 4 (length label) @ label @ be 8 (length contents) @ contents"

definition metadataHashes :: "(string \<Rightarrow> 32 word) \<Rightarrow> (string \<Rightarrow> string) \<Rightarrow> string \<Rightarrow> string \<Rightarrow> 32 word \<times> string" where
  "metadataHashes crc hash contents path =
     (crc (contents @ path), hash (writeHashFrame ''metadata'' contents @ writeHashFrame ''path'' path))"

fun hex_nat :: "nat \<Rightarrow> string" where
  "hex_nat n = (if n < 16 then [hex_digit n] else hex_nat (n div 16) @ [hex_digit (n mod 16)])"

declare hex_nat.simps [simp del]

definition hex_string :: "string \<Rightarrow> string" where
  "hex_string s = concat (map (\<lambda>c. [hex_digit (of_char c div 16), hex_digit (of_char c mod 16)]) s)"

text \<open>What a path finally points to, \<open>None\<close> for a link that leads nowhere.\<close>

type_synonym links = "string \<Rightarrow> string option"

definition check_link :: "links \<Rightarrow> string \<Rightarrow> string \<Rightarrow> string \<Rightarrow> err + unit" where
  "check_link eval challDir path linkTgt =
     (let tgtPath = Join_path (Dir path) linkTgt in
      case eval challDir of
        None \<Rightarrow> Inl (Plain ''invalid challenge directory'')
      | Some basePath \<Rightarrow>
        (case eval tgtPath of
           None \<Rightarrow> Inl (Wrap ''invalid link found'' (Plain path))
         | Some resolved \<Rightarrow>
             if pathInDirectory resolved basePath then Inr () else Inl (Plain ''encountered symlink which points outside'')))"

text \<open>The two byte streams of an entry; its node has a link target and bytes only if they can be read.\<close>

definition entry_frames :: "string \<Rightarrow> node \<Rightarrow> string" where
  "entry_frames relativePath n =
     writeHashFrame ''path'' relativePath @
     writeHashFrame ''mode'' (mode_string (fi_Mode (info_of n))) @
     writeHashFrame ''size'' (nat_dec (fi_Size (info_of n)))"

definition challengeChecksum :: "links \<Rightarrow> string \<Rightarrow> (string \<times> string) visitor" where
  "challengeChecksum eval challDir path n listed s =
     (let i = info_of n; m = fi_Mode i in
      if \<not> listed then (Halt (Wrap ''readdir'' (Plain path)), s)
      else if checksumIgnore (fi_Name i) then (if is_dir n then Skip else Next, s)
      else
      case s of (legacy, digest) \<Rightarrow>
      let legacy1 = legacy @ fi_Name i @ hex_nat (fi_Size i) @ hex_string (mode_string m) in
      case Rel challDir path of
        None \<Rightarrow> (Halt (Plain ''relative path''), (legacy1, digest))
      | Some relativePath \<Rightarrow>
        (let digest1 = digest @ entry_frames relativePath n in
         if is_link_mode m then
           (case target_of n of
              None \<Rightarrow> (Halt (Wrap ''Invalid link found'' (Plain path)), (legacy1, digest1))
            | Some linkTgt \<Rightarrow>
              (case check_link eval challDir path linkTgt of
                 Inl e \<Rightarrow> (Halt e, (legacy1, digest1))
               | Inr _ \<Rightarrow> (Next, (legacy1 @ Join_path (Dir path) linkTgt, digest1 @ writeHashFrame ''symlink'' linkTgt))))
         else if is_regular_mode m then
           (case bytes_of n of
              None \<Rightarrow> (Halt (Wrap ''open'' (Plain path)), (legacy1, digest1))
            | Some b \<Rightarrow> (Next, (legacy1 @ b, digest1 @ be 8 (fi_Size i) @ b)))
         else (Next, (legacy1, digest1))))"

text \<open>The part of \<open>findChallenges\<close> that hashes the directory of a challenge.\<close>

definition source_hashes :: "(string \<Rightarrow> 32 word) \<Rightarrow> (string \<Rightarrow> string) \<Rightarrow> links \<Rightarrow> string \<Rightarrow> node \<Rightarrow>
    err + 32 word \<times> string" where
  "source_hashes crc hash eval dir n =
     (case Walk (challengeChecksum eval dir) dir n ([], []) of
        (Some e, _) \<Rightarrow> Inl e
      | (None, (legacy, digest)) \<Rightarrow> Inr (crc legacy, hash digest))"

section \<open>The digest determines the sources\<close>

datatype payload = NoPayload | LinkPayload string | FilePayload string

record source_entry =
  se_path :: string
  se_mode :: string
  se_size :: nat
  se_payload :: payload

text \<open>What the digest is about: the entries that are not ignored, in the order of the walk.\<close>

definition source_entry_of :: "string \<Rightarrow> string \<Rightarrow> node \<Rightarrow> source_entry" where
  "source_entry_of dir path n =
     (let m = fi_Mode (info_of n) in
      \<lparr>se_path = (case Rel dir path of None \<Rightarrow> [] | Some r \<Rightarrow> r), se_mode = mode_string m, se_size = fi_Size (info_of n),
       se_payload = (if is_link_mode m then LinkPayload (case target_of n of None \<Rightarrow> [] | Some t \<Rightarrow> t)
         else if is_regular_mode m then FilePayload (case bytes_of n of None \<Rightarrow> [] | Some b \<Rightarrow> b) else NoPayload)\<rparr>)"

function (sequential) sources :: "string \<Rightarrow> string \<Rightarrow> node \<Rightarrow> source_entry list"
  and sources_all :: "string \<Rightarrow> string \<Rightarrow> node list \<Rightarrow> source_entry list" where
  "sources dir path (Node i b l ch) =
     (if checksumIgnore (fi_Name i) then []
      else source_entry_of dir path (Node i b l ch) #
        (if is_dir_mode (fi_Mode i) then (case ch of None \<Rightarrow> [] | Some ns \<Rightarrow> sources_all dir path ns) else []))"
| "sources_all dir path [] = []"
| "sources_all dir path (n # ns) =
     sources dir (Join_path path (fi_Name (info_of n))) n @ sources_all dir path ns"
  by pat_completeness auto

termination
  by (relation "measure (\<lambda>x. case x of Inl (_, _, n) \<Rightarrow> size n | Inr (_, _, ns) \<Rightarrow> size_list size ns)") auto

definition entry_stream :: "source_entry \<Rightarrow> string" where
  "entry_stream e =
     writeHashFrame ''path'' (se_path e) @ writeHashFrame ''mode'' (se_mode e) @ writeHashFrame ''size'' (nat_dec (se_size e)) @
     (case se_payload e of NoPayload \<Rightarrow> [] | LinkPayload t \<Rightarrow> writeHashFrame ''symlink'' t
      | FilePayload b \<Rightarrow> be 8 (se_size e) @ b)"

lemma walk_digest:
  "walk (challengeChecksum eval dir) path n (l, g) = (v, (l', g')) \<Longrightarrow> (\<forall>e. v \<noteq> Halt e) \<Longrightarrow>
     g' = g @ concat (map entry_stream (sources dir path n)) \<and> (v = Skip \<longrightarrow> is_dir n)"
  "walk_all (challengeChecksum eval dir) path ns (l, g) = (v, (l', g')) \<Longrightarrow> (\<forall>e. v \<noteq> Halt e) \<Longrightarrow>
     g' = g @ concat (map entry_stream (sources_all dir path ns)) \<and> v = Next"
proof (induction "challengeChecksum eval dir" path n "(l, g)" and "challengeChecksum eval dir" path ns "(l, g)"
    arbitrary: l g l' g' v and l g l' g' v rule: walk_walk_all.induct)
  case (1 path i b t ch)
  let ?n = "Node i b t ch"
  obtain v1 l1 g1 where f: "challengeChecksum eval dir path ?n (is_dir_mode (fi_Mode i) \<longrightarrow> ch \<noteq> None) (l, g) = (v1, (l1, g1))"
    by (metis prod.exhaust)
  have own: "g1 = g @ (if checksumIgnore (fi_Name i) then [] else entry_stream (source_entry_of dir path ?n)) \<and>
      (v1 = Skip \<longleftrightarrow> checksumIgnore (fi_Name i) \<and> is_dir ?n) \<and> (ch = None \<longrightarrow> \<not> is_dir ?n)" if "\<forall>e. v1 \<noteq> Halt e"
    using f that by (auto simp: challengeChecksum_def Let_def entry_frames_def entry_stream_def source_entry_of_def
        split: if_splits option.splits sum.splits)
  show ?case
  proof (cases "is_dir_mode (fi_Mode i)")
    case False
    then show ?thesis using 1 f own by auto
  next
    case True
    show ?thesis
    proof (cases v1)
      case Next
      then obtain ns where ns: "ch = Some ns" using own True by auto
      have "walk_all (challengeChecksum eval dir) path ns (l1, g1) = (v, (l', g'))"
        using 1(2) f True Next ns by simp
      then have "g' = g1 @ concat (map entry_stream (sources_all dir path ns)) \<and> v = Next"
        using 1(1) [OF _ _ _ ns] f True Next ns "1.prems" by auto
      then show ?thesis using own True Next ns by auto
    next
      case Skip
      then show ?thesis using 1(2) own f True by auto
    next
      case (Halt e)
      then show ?thesis using 1(2,3) f True by auto
    qed
  qed
next
  case (2 path)
  then show ?case by simp
next
  case (3 path n ns)
  let ?p = "Join_path path (fi_Name (info_of n))"
  obtain v1 l1 g1 where w: "walk (challengeChecksum eval dir) ?p n (l, g) = (v1, (l1, g1))"
    by (metis prod.exhaust)
  have "\<forall>e. v1 \<noteq> Halt e" using 3 w by (auto split: visit.splits)
  then have n: "g1 = g @ concat (map entry_stream (sources dir ?p n)) \<and> (v1 = Skip \<longrightarrow> is_dir n)"
    using 3(1) w by blast
  then have rest: "walk_all (challengeChecksum eval dir) path ns (l1, g1) = (v, (l', g'))"
    using 3(4) w \<open>\<forall>e. v1 \<noteq> Halt e\<close> by (cases v1) auto
  have "g' = g1 @ concat (map entry_stream (sources_all dir path ns)) \<and> v = Next"
  proof (cases v1)
    case Next
    then show ?thesis using 3(2) [OF w [symmetric] _ rest "3.prems"(2)] by simp
  next
    case Skip
    then show ?thesis using 3(3) [OF w [symmetric] _ _ rest "3.prems"(2)] n by simp
  next
    case (Halt e)
    then show ?thesis using \<open>\<forall>e. v1 \<noteq> Halt e\<close> by simp
  qed
  then show ?case using n by simp
qed

text \<open>Frames and entries are prefix codes.\<close>

lemma length_be [simp]: "length (be k n) = k"
  by (induction k) simp_all

fun be_value :: "string \<Rightarrow> nat" where
  "be_value [] = 0"
| "be_value (c # s) = of_char c * 256 ^ length s + be_value s"

lemma be_value_be: "be_value (be k n) = n mod 256 ^ k"
proof (induction k)
  case (Suc k)
  have "n mod (256 ^ k * 256) = 256 ^ k * (n div 256 ^ k mod 256) + n mod 256 ^ k"
    by (rule mod_mult2_eq)
  then show ?case using Suc by (simp add: mult.commute)
qed simp

lemma be_inject:
  assumes "be k m = be k n" "m < 256 ^ k" "n < 256 ^ k"
  shows "m = n"
  using arg_cong [OF assms(1), of be_value] assms(2,3) by (simp add: be_value_be)

lemma frame_inject:
  assumes "writeHashFrame l a @ x = writeHashFrame l b @ y" "length a < 256 ^ 8" "length b < 256 ^ 8"
  shows "a = b \<and> x = y"
proof -
  have "be 8 (length a) @ a @ x = be 8 (length b) @ b @ y"
    using assms(1) by (simp add: writeHashFrame_def)
  then have "be 8 (length a) = be 8 (length b)" "a @ x = b @ y"
    by (simp_all add: append_eq_append_conv)
  then show ?thesis
    using be_inject [of 8 "length a" "length b"] assms(2,3) by auto
qed

lemma in_mode_string:
  assumes "c \<notin> set ''rwx-''"
  shows "c \<in> set (mode_string m) \<longleftrightarrow> (\<exists>i. (i, c) \<in> set mode_letters \<and> mode_bit m i)"
proof -
  have "c \<notin> set (map (\<lambda>(i, c). if mode_bit m i then c else CHR ''-'') permission_letters)"
    using assms by (auto simp: permission_letters_def)
  moreover have "set (map snd (filter (\<lambda>(i, _). mode_bit m i) mode_letters)) = {c. \<exists>i. (i, c) \<in> set mode_letters \<and> mode_bit m i}"
    by force
  ultimately show ?thesis
    using assms unfolding mode_string_def Let_def by (simp del: set_map set_filter) (auto simp: filter_empty_conv)
qed

lemma link_kind: "is_link_mode m \<longleftrightarrow> CHR ''L'' \<in> set (mode_string m)"
  by (subst in_mode_string) (simp_all add: mode_letters_def is_link_mode_def)

definition regular_text :: "string \<Rightarrow> bool" where
  "regular_text s \<longleftrightarrow> list_all (\<lambda>c. c \<notin> set s) ''dLDpSc?''"

lemma regular_kind: "is_regular_mode m \<longleftrightarrow> regular_text (mode_string m)"
  by (simp add: in_mode_string mode_letters_def is_regular_mode_def regular_text_def)

text \<open>
  What the operating system guarantees of a tree: sizes and lengths fit in 64 bits, and the size of a
  regular file is the number of its bytes.
\<close>

definition entry_ok :: "source_entry \<Rightarrow> bool" where
  "entry_ok e \<longleftrightarrow> length (se_path e) < 256 ^ 8 \<and> length (se_mode e) < 256 ^ 8 \<and> length (nat_dec (se_size e)) < 256 ^ 8 \<and>
     (case se_payload e of
        NoPayload \<Rightarrow> CHR ''L'' \<notin> set (se_mode e) \<and> \<not> regular_text (se_mode e)
      | LinkPayload t \<Rightarrow> length t < 256 ^ 8 \<and> CHR ''L'' \<in> set (se_mode e)
      | FilePayload b \<Rightarrow> length b = se_size e \<and> CHR ''L'' \<notin> set (se_mode e) \<and> regular_text (se_mode e))"

lemma entry_inject:
  assumes "entry_stream e @ x = entry_stream e' @ y" "entry_ok e" "entry_ok e'"
  shows "e = e' \<and> x = y"
proof -
  let ?p = "\<lambda>e. case se_payload e of NoPayload \<Rightarrow> [] | LinkPayload t \<Rightarrow> writeHashFrame ''symlink'' t
      | FilePayload b \<Rightarrow> be 8 (se_size e) @ b"
  have "se_path e = se_path e' \<and>
      writeHashFrame ''mode'' (se_mode e) @ writeHashFrame ''size'' (nat_dec (se_size e)) @ ?p e @ x =
      writeHashFrame ''mode'' (se_mode e') @ writeHashFrame ''size'' (nat_dec (se_size e')) @ ?p e' @ y"
    by (rule frame_inject [where l = "''path''"]) (use assms in \<open>simp_all add: entry_stream_def entry_ok_def\<close>)
  moreover from this have "se_mode e = se_mode e' \<and>
      writeHashFrame ''size'' (nat_dec (se_size e)) @ ?p e @ x = writeHashFrame ''size'' (nat_dec (se_size e')) @ ?p e' @ y"
    by (intro frame_inject [where l = "''mode''"]) (use assms in \<open>simp_all add: entry_ok_def\<close>)
  moreover from this have "nat_dec (se_size e) = nat_dec (se_size e') \<and> ?p e @ x = ?p e' @ y"
    by (intro frame_inject [where l = "''size''"]) (use assms in \<open>simp_all add: entry_ok_def\<close>)
  ultimately have same: "se_path e = se_path e'" "se_mode e = se_mode e'" "se_size e = se_size e'" "?p e @ x = ?p e' @ y"
    by (simp_all add: nat_dec_inject)
  note ok = assms(2,3) [unfolded entry_ok_def]
  have "se_payload e = se_payload e' \<and> x = y"
  proof (cases "se_payload e")
    case NoPayload
    then have "se_payload e' = NoPayload" using ok same(2) by (cases "se_payload e'") simp_all
    then show ?thesis using NoPayload same(4) by simp
  next
    case (LinkPayload t)
    then obtain t' where t': "se_payload e' = LinkPayload t'" using ok same(2) by (cases "se_payload e'") simp_all
    have "writeHashFrame ''symlink'' t @ x = writeHashFrame ''symlink'' t' @ y"
      using same(4) LinkPayload t' by simp
    from frame_inject [OF this] show ?thesis using ok LinkPayload t' by simp
  next
    case (FilePayload b)
    then obtain b' where b': "se_payload e' = FilePayload b'" using ok same(2) by (cases "se_payload e'") simp_all
    have "b @ x = b' @ y" "length b = length b'"
      using same(3,4) FilePayload b' ok by simp_all
    then show ?thesis using FilePayload b' by simp
  qed
  then show ?thesis using same by simp
qed

lemma entry_stream_not_empty: "entry_stream e \<noteq> []"
  by (simp add: entry_stream_def writeHashFrame_def)

lemma entries_inject:
  assumes "concat (map entry_stream es) = concat (map entry_stream es')" "list_all entry_ok es" "list_all entry_ok es'"
  shows "es = es'"
  using assms
proof (induction es arbitrary: es')
  case Nil
  then show ?case by (cases es') (simp_all add: entry_stream_not_empty)
next
  case (Cons e es)
  then obtain e' rest where "es' = e' # rest" by (cases es') (simp_all add: entry_stream_not_empty)
  then show ?case
    using Cons entry_inject [of e "concat (map entry_stream es)" e' "concat (map entry_stream rest)"] by auto
qed

definition entry_sized :: "source_entry \<Rightarrow> bool" where
  "entry_sized e \<longleftrightarrow> length (se_path e) < 256 ^ 8 \<and> se_size e < 256 ^ 8 \<and>
     (case se_payload e of NoPayload \<Rightarrow> True | LinkPayload t \<Rightarrow> length t < 256 ^ 8 | FilePayload b \<Rightarrow> length b = se_size e)"

lemma length_nat_dec: "length (nat_dec n) \<le> max 1 n"
proof (induction n rule: nat_dec.induct)
  case (1 n)
  show ?case
  proof (cases "n < 10")
    case True
    then show ?thesis by (subst nat_dec.simps) simp
  next
    case False
    then have "length (nat_dec n) = Suc (length (nat_dec (n div 10)))" by (subst nat_dec.simps) simp
    also have "\<dots> \<le> n" using 1 False by linarith
    finally show ?thesis by simp
  qed
qed

lemma length_mode_string: "length (mode_string m) \<le> 22"
proof -
  have "length (filter P mode_letters) \<le> 13" for P
    using length_filter_le [of P mode_letters] by (simp add: mode_letters_def)
  then show ?thesis
    unfolding mode_string_def Let_def by (simp add: permission_letters_def le_trans [of _ 13])
qed

lemma sources_ok:
  "list_all entry_sized (sources dir path n) \<Longrightarrow> list_all entry_ok (sources dir path n)"
  "list_all entry_sized (sources_all dir path ns) \<Longrightarrow> list_all entry_ok (sources_all dir path ns)"
proof (induction dir path n and dir path ns rule: sources_sources_all.induct)
  case (1 dir path i b l ch)
  have "entry_sized (source_entry_of dir path n) \<Longrightarrow> entry_ok (source_entry_of dir path n)" for n
    using le_less_trans [OF length_mode_string, of "256 ^ 8" "fi_Mode (info_of n)"]
      le_less_trans [OF length_nat_dec, of "fi_Size (info_of n)" "256 ^ 8"]
    by (auto simp: entry_sized_def entry_ok_def source_entry_of_def Let_def link_kind [symmetric] regular_kind [symmetric])
  then show ?case using 1 by (auto split: option.splits)
qed auto

text \<open>
  C35. The digest of a challenge leaves nothing of its sources out. When the walks over two challenge
  directories hash the same bytes, then the directories have the same entries: the same relative paths
  in the same order, with the same types and permissions, sizes, link targets and file contents, except
  for the names that are ignored. (Sizes and lengths fit in 64 bits, and a file has as many bytes as its size says.)
\<close>

theorem source_digest_injective:
  assumes "Walk (challengeChecksum eval dir) dir n ([], []) = (None, (l, g))"
    and "Walk (challengeChecksum eval' dir') dir' n' ([], []) = (None, (l', g))"
    and "list_all entry_sized (sources dir dir n)" "list_all entry_sized (sources dir' dir' n')"
  shows "sources dir dir n = sources dir' dir' n'"
proof (rule entries_inject)
  have "g = concat (map entry_stream (sources dir dir n))"
    using assms(1) walk_digest(1) [of eval dir dir n "[]" "[]"]
    by (auto simp: Walk_def split: prod.splits visit.splits)
  moreover have "g = concat (map entry_stream (sources dir' dir' n'))"
    using assms(2) walk_digest(1) [of eval' dir' dir' n' "[]" "[]"]
    by (auto simp: Walk_def split: prod.splits visit.splits)
  ultimately show "concat (map entry_stream (sources dir dir n)) = concat (map entry_stream (sources dir' dir' n'))"
    by simp
qed (use assms(3,4) sources_ok in blast)+

definition ex_tree :: "string \<Rightarrow> node" where
  "ex_tree name = Node \<lparr>fi_Name = name, fi_Size = 9, fi_Mode = 0x800001ED\<rparr> None None
     (Some [Node \<lparr>fi_Name = ''README'', fi_Size = 3, fi_Mode = 0x1A4\<rparr> (Some name) None None,
       Node \<lparr>fi_Name = ''f'', fi_Size = 1, fi_Mode = 0x1A4\<rparr> (Some ''x'') None None])"

lemma ex_tree_modes:
  "is_dir_mode 0x800001ED" "\<not> is_link_mode 0x800001ED" "\<not> is_regular_mode 0x800001ED" "mode_string 0x800001ED = ''drwxr-xr-x''"
  "\<not> is_dir_mode 0x1A4" "\<not> is_link_mode 0x1A4" "is_regular_mode 0x1A4" "mode_string 0x1A4 = ''-rw-r--r--''"
  by (simp_all add: is_dir_mode_def is_link_mode_def is_regular_mode_def mode_bit_def mode_string_def mode_letters_def
      permission_letters_def)

lemma ex_tree_paths:
  "Rel ''/a'' ''/a'' = Some ''.''" "Rel ''/a'' ''/a/f'' = Some ''f''" "Join_path ''/a'' ''f'' = ''/a/f''"
  "Rel ''/b'' ''/b'' = Some ''.''" "Rel ''/b'' ''/b/f'' = Some ''f''" "Join_path ''/b'' ''f'' = ''/b/f''"
  by code_simp+

definition ex_entries :: "source_entry list" where
  "ex_entries = [\<lparr>se_path = ''.'', se_mode = ''drwxr-xr-x'', se_size = 9, se_payload = NoPayload\<rparr>,
     \<lparr>se_path = ''f'', se_mode = ''-rw-r--r--'', se_size = 1, se_payload = FilePayload ''x''\<rparr>]"

lemmas ex_tree_facts = ex_tree_def ex_tree_modes ex_tree_paths checksumIgnore_def hidden_def

lemma ex_tree_sources:
  "sources ''/a'' ''/a'' (ex_tree ''a'') = ex_entries" "sources ''/b'' ''/b'' (ex_tree ''b'') = ex_entries"
  by (simp_all add: ex_tree_facts source_entry_of_def ex_entries_def)

lemma ex_tree_walks:
  "\<exists>l. Walk (challengeChecksum (\<lambda>_. None) ''/a'') ''/a'' (ex_tree ''a'') ([], []) = (None, (l, concat (map entry_stream ex_entries)))"
  "\<exists>l. Walk (challengeChecksum (\<lambda>_. None) ''/b'') ''/b'' (ex_tree ''b'') ([], []) = (None, (l, concat (map entry_stream ex_entries)))"
  by (simp_all add: Walk_def challengeChecksum_def ex_tree_facts ex_entries_def entry_frames_def entry_stream_def del: be.simps)

lemma source_digest_injective_witness:
  "sources ''/a'' ''/a'' (ex_tree ''a'') = sources ''/b'' ''/b'' (ex_tree ''b'')"
proof -
  obtain l l' where
    "Walk (challengeChecksum (\<lambda>_. None) ''/a'') ''/a'' (ex_tree ''a'') ([], []) = (None, (l, concat (map entry_stream ex_entries)))"
    "Walk (challengeChecksum (\<lambda>_. None) ''/b'') ''/b'' (ex_tree ''b'') ([], []) = (None, (l', concat (map entry_stream ex_entries)))"
    using ex_tree_walks by blast
  then show ?thesis
    by (rule source_digest_injective) (simp_all add: ex_tree_sources ex_entries_def entry_sized_def)
qed

text \<open>
  Two gaps of the walk. A challenge in a directory with an ignored name (say \<open>solver\<close>) has the digest of
  nothing, whatever its files are; and the check of a symbolic link joins an absolute target to the
  link's directory, so it looks at another file than the link leads to.
\<close>

lemma ignored_directory_not_hashed:
  assumes "checksumIgnore (fi_Name (info_of n))" "is_dir n" "children_of n \<noteq> None"
  shows "Walk (challengeChecksum eval dir) dir n ([], []) = (None, ([], []))"
  using assms by (cases n) (simp add: Walk_def challengeChecksum_def)

lemma IsAbs_append [simp]: "a \<noteq> [] \<Longrightarrow> IsAbs (a @ s) = IsAbs a"
  by (cases a) (auto simp: IsAbs_def)

lemma Split_append [simp]: "Split d (a @ d # s) = Split d a @ Split d s"
  by (induction d a rule: Split.induct) (auto split: list.splits)

lemma clean_components_empty: "clean_components r (xs @ [] # ys) st = clean_components r (xs @ ys) st"
  by (induction r xs st rule: clean_components.induct) (auto split: list.splits)

lemma path_components_double:
  "a \<noteq> [] \<Longrightarrow> path_components (a @ ''/'' @ ''/'' @ b) = path_components (a @ ''/'' @ b)"
  by (simp add: path_components_def clean_components_empty)

lemma absolute_link_taken_as_relative:
  assumes "t \<noteq> []"
  shows "check_link eval challDir path (CHR ''/'' # t) = check_link eval challDir path t"
proof -
  have ne: "Dir path \<noteq> []"
    by (auto simp: Dir_def dot_def Clean_def Let_def split: option.splits)
  then have "Clean (Dir path @ ''/'' @ CHR ''/'' # t) = Clean (Dir path @ ''/'' @ t)"
    using path_components_double [of "Dir path" t] by (simp add: Clean_def)
  then have "Join_path (Dir path) (CHR ''/'' # t) = Join_path (Dir path) t"
    using assms ne by (simp add: Join_path_def)
  then show ?thesis by (simp add: check_link_def)
qed

text \<open>For absolute paths \<open>pathInDirectory\<close> compares components.\<close>

lemma elements_Clean:
  assumes "IsAbs p"
  shows "elements (Clean p) = path_components p"
proof -
  let ?cs = "path_components p"
  have cs: "\<forall>c \<in> set ?cs. c \<noteq> [] \<and> CHR ''/'' \<notin> set c" using path_components_set by auto
  have "filter (\<lambda>w. w \<noteq> []) (Split CHR ''/'' (Join_with ''/'' ?cs)) = ?cs"
  proof (cases "?cs = []")
    case False
    then have "Split CHR ''/'' (Join_with ''/'' ?cs) = ?cs" using cs by (intro Split_Join) auto
    then show ?thesis using cs by (simp add: filter_id_conv)
  qed simp
  then show ?thesis using assms by (simp add: elements_def Clean_def Let_def)
qed

lemma rel_from_prefix: "rel_from bs (bs @ ts) = Some ts"
  by (induction bs) simp_all

lemma rel_from_None: "dotdot \<notin> set bs \<Longrightarrow> rel_from bs ts \<noteq> None"
  by (induction bs ts rule: rel_from.induct) (auto dest: hd_in_set)

lemma rel_from_not_prefix:
  "\<not> prefix bs ts \<Longrightarrow> rel_from bs ts = Some rs \<Longrightarrow> rs \<noteq> [] \<and> hd rs = dotdot"
  by (induction bs ts rule: rel_from.induct) (auto split: if_splits)

lemma path_components_rooted: "IsAbs p \<Longrightarrow> dotdot \<notin> set (path_components p)"
proof -
  have "dotdot \<notin> set st \<Longrightarrow> dotdot \<notin> set (clean_components True cs st)" for cs st
    by (induction True cs st rule: clean_components.induct) (auto split: list.splits)
  then show "IsAbs p \<Longrightarrow> dotdot \<notin> set (path_components p)" by (simp add: path_components_def)
qed

lemma Join_with_hd: "ws \<noteq> [] \<Longrightarrow> \<exists>r. Join_with d ws = hd ws @ r \<and> (r = [] \<or> HasPrefix r d)"
  by (cases ws; cases "tl ws") auto

lemma pathInDirectory_iff:
  assumes "IsAbs p" "IsAbs dir"
  shows "pathInDirectory p dir \<longleftrightarrow> prefix (path_components dir) (path_components p)"
proof -
  let ?b = "path_components dir" and ?t = "path_components p"
  have abs: "IsAbs (Clean p)" "IsAbs (Clean dir)" "Clean dir \<noteq> dot"
    using assms by (auto simp: Clean_def IsAbs_def dot_def)
  have clean: "Clean p = Clean dir \<longleftrightarrow> ?t = ?b"
  proof
    assume "Clean p = Clean dir"
    then have "elements (Clean p) = elements (Clean dir)" by simp
    then show "?t = ?b" using elements_Clean assms by simp
  qed (use assms in \<open>simp add: Clean_def\<close>)
  have nodots: "dotdot \<notin> set ?b" "dotdot \<notin> set ?t" using path_components_rooted assms by auto
  show ?thesis
  proof (cases "?t = ?b")
    case True
    then show ?thesis
      using clean by (simp add: pathInDirectory_def Rel_def Let_def dot_def dotdot_def IsAbs_def)
  next
    case False
    then have rel: "Rel dir p = map_option (Join_with ''/'') (rel_from ?b ?t)"
      using clean abs elements_Clean assms by (simp add: Rel_def Let_def)
    show ?thesis
    proof (cases "prefix ?b ?t")
      case True
      then obtain ts where ts: "?t = ?b @ ts" by (auto simp: prefix_def)
      then have "ts \<noteq> []" using False by auto
      then obtain w r where w: "Join_with ''/'' ts = w @ r" "w \<in> set ts" "r = [] \<or> HasPrefix r ''/''"
        using Join_with_hd [of ts "''/''"] by (metis list.set_sel(1))
      have wp: "w \<noteq> []" "CHR ''/'' \<notin> set w" "w \<noteq> dotdot"
        using path_components_set [of w p] w(2) ts nodots(2) by auto
      have "w @ r \<noteq> dotdot \<and> \<not> IsAbs (w @ r) \<and> \<not> HasPrefix (w @ r) ''../''"
        using wp w(3) by (cases w; cases "tl w"; cases "tl (tl w)") (auto simp: dotdot_def IsAbs_def HasPrefix_iff)
      then show ?thesis
        using True rel ts w(1) by (simp add: pathInDirectory_def rel_from_prefix)
    next
      case False
      obtain rs where rs: "rel_from ?b ?t = Some rs" using rel_from_None [OF nodots(1), of ?t] by auto
      then obtain r where "Join_with ''/'' rs = dotdot @ r" "r = [] \<or> HasPrefix r ''/''"
        using rel_from_not_prefix [OF False rs] Join_with_hd [of rs "''/''"] by metis
      then have "Join_with ''/'' rs = dotdot \<or> HasPrefix (Join_with ''/'' rs) ''../''"
        by (auto simp: HasPrefix_iff dotdot_def)
      then show ?thesis using False rel rs by (auto simp: pathInDirectory_def)
    qed
  qed
qed

end
