(* ===== verification/BuildContext.thy ===== *)
theory BuildContext
  imports Filesystem Json
begin

text \<open>
  The built-in Dockerfiles of \<open>cmgr/dockerfiles/dockerfiles.go\<close> and the build context of a challenge,
  \<open>createBuildContext\<close> of \<open>cmgr/filesystem.go\<close>. The embedded files are a list of names and contents; the
  header blocks of a tar entry are a parameter. A context is the bytes of its temporary file.
\<close>

section \<open>Built-in Dockerfiles\<close>

text \<open>The embedded files, in the order of a walk over them.\<close>

type_synonym embedded = "(string \<times> string) list"

definition ubuntu26Suffix :: string where "ubuntu26Suffix = ''-ubuntu26''"

definition Ubuntu24Image :: string where
  "Ubuntu24Image = ''ubuntu:24.04@sha256:4fbb8e6a8395de5a7550b33509421a2bafbc0aab6c06ba2cef9ebffbc7092d90''"

definition Ubuntu26Image :: string where
  "Ubuntu26Image = ''ubuntu:26.04@sha256:3131b4cc82a783df6c9df078f86e01819a13594b865c2cad47bd1bca2b7063bb''"

definition baseChallengeType :: "string \<Rightarrow> string \<times> bool" where
  "baseChallengeType t =
     (if HasSuffix t ubuntu26Suffix then (TrimSuffix t ubuntu26Suffix, True) else (t, False))"

definition Get :: "embedded \<Rightarrow> string \<Rightarrow> err + string" where
  "Get files t =
     (let (baseType, useUbuntu26) = baseChallengeType t in
      case map_of files (baseType @ ''.Dockerfile'') of
        None \<Rightarrow> Inl (Plain ''file does not exist'')
      | Some dockerfile \<Rightarrow>
        let defaultImage = ''FROM '' @ Ubuntu24Image in
        if \<not> useUbuntu26 then Inr dockerfile
        else if \<not> Contains dockerfile defaultImage
        then Inl (Plain ''challenge type does not support the Ubuntu 26.04 build environment'')
        else Inr (replace_first defaultImage (''FROM '' @ Ubuntu26Image) dockerfile))"

definition GetDockerfile :: "embedded \<Rightarrow> string \<Rightarrow> string option" where
  "GetDockerfile files t = (case Get files t of Inl _ \<Rightarrow> None | Inr d \<Rightarrow> Some d)"

record SupportFile =
  sf_Name :: string
  sf_Mode :: int
  sf_Data :: string

definition SupportFiles :: "embedded \<Rightarrow> string \<Rightarrow> SupportFile list" where
  "SupportFiles files t =
     (if fst (baseChallengeType t) \<noteq> ''hacksport'' then []
      else map (\<lambda>(name, contents). \<lparr>sf_Name = ''.cmgr/'' @ name,
          sf_Mode = (if Ext name = ''.py'' then 493 else 420), sf_Data = contents\<rparr>)
        (filter (\<lambda>(name, _). HasPrefix name ''hacksport_compat/'') files))"

section \<open>Writing entries\<close>

record context_header =
  ct_Name :: string
  ct_Mode :: int
  ct_Size :: nat
  ct_Dir :: bool

text \<open>The writer under construction, with the failures of the calls to come.\<close>

record build_context =
  cx_written :: string
  cx_remaining :: int
  cx_limit :: int
  cx_entries :: nat
  cx_faults :: "bool list"

definition context_call :: "string \<Rightarrow> (build_context, unit) act" where
  "context_call what s =
     (let s' = s\<lparr>cx_faults := tl (cx_faults s)\<rparr> in
      if cx_faults s \<noteq> [] \<and> hd (cx_faults s) then (Inl (Plain what), s') else (Inr (), s'))"

definition boundedWrite :: "string \<Rightarrow> (build_context, unit) act" where
  "boundedWrite bytes s =
     (if int (length bytes) > cx_remaining s then (Inl (Plain ''build context exceeds its maximum size''), s)
      else bnd (context_call ''write'') (\<lambda>_ s.
        (Inr (), s\<lparr>cx_written := cx_written s @ bytes, cx_remaining := cx_remaining s - int (length bytes)\<rparr>)) s)"

text \<open>
  \<open>tar.Writer\<close>: the header blocks, then exactly the announced bytes, filled up to whole blocks of 512;
  two empty blocks at the end.
\<close>

type_synonym tar_format = "context_header \<Rightarrow> string"

definition padding :: "nat \<Rightarrow> string" where
  "padding n = replicate ((512 - n mod 512) mod 512) nul"

definition writeEntry :: "tar_format \<Rightarrow> context_header \<Rightarrow> string \<Rightarrow> (build_context, unit) act" where
  "writeEntry hdr h bytes =
     bnd (boundedWrite (hdr h)) (\<lambda>_.
     bnd (boundedWrite bytes) (\<lambda>_. boundedWrite (padding (length bytes))))"

definition writeBuildContextFile :: "tar_format \<Rightarrow> string \<Rightarrow> int \<Rightarrow> string \<Rightarrow> (build_context, unit) act" where
  "writeBuildContextFile hdr name mode bytes =
     writeEntry hdr \<lparr>ct_Name = name, ct_Mode = mode, ct_Size = length bytes, ct_Dir = False\<rparr> bytes"

definition accountEntry :: "int \<Rightarrow> (build_context, unit) act" where
  "accountEntry maxFiles s =
     (let s' = s\<lparr>cx_entries := Suc (cx_entries s)\<rparr> in
      if int (cx_entries s') > maxFiles then (Inl (Plain ''build context contains too many entries''), s') else (Inr (), s'))"

section \<open>Metadata of hacksport challenges\<close>

text \<open>The files of the challenge directory, by name; JSON text is read and written by two parameters.\<close>

record json_text =
  Unmarshal :: "string \<Rightarrow> json option"
  MarshalIndent :: "json \<Rightarrow> string"

definition file_named :: "node \<Rightarrow> string \<Rightarrow> node option" where
  "file_named dir name =
     (case children_of dir of None \<Rightarrow> None | Some ns \<Rightarrow> List.find (\<lambda>n. fi_Name (info_of n) = name) ns)"

text \<open>\<open>ioutil.ReadFile\<close>: \<open>None\<close> when there is no such file.\<close>

definition ReadFile :: "node \<Rightarrow> string \<Rightarrow> err + string option" where
  "ReadFile dir name =
     (case file_named dir name of
        None \<Rightarrow> Inr None
      | Some n \<Rightarrow> (case bytes_of n of None \<Rightarrow> Inl (Wrap ''read'' (Plain name)) | Some b \<Rightarrow> Inr (Some b)))"

text \<open>Keys that are not there yet.\<close>

definition put_absent :: "string \<times> json \<Rightarrow> jmap \<Rightarrow> jmap" where
  "put_absent kv m = (if map_of m (fst kv) = None then put (fst kv) (snd kv) m else m)"

definition problem_data :: "jmap \<Rightarrow> ChallengeMetadata \<Rightarrow> jmap" where
  "problem_data raw md =
     (let m1 = (case map_of raw ''attributes'' of Some (JObj kvs) \<Rightarrow> fold put_absent (go_map kvs) raw | _ \<Rightarrow> raw);
          m2 = put ''details'' (JStr (Details md)) (put ''category'' (JStr (Category md)) (put ''name'' (JStr (ch_Name md)) m1));
          m3 = (if Hints md \<noteq> [] then put ''hints'' (encode_strings (Hints md)) m2
                else put_absent (''hints'', JArr []) m2);
          m4 = put ''unique_name'' (JStr (ch_Id md)) (put ''score'' (JNum (Itoa (Points md))) m3);
          m5 = (case map_of m4 ''description'' of
                  Some (JStr d) \<Rightarrow> if d = [] then put ''description'' (JStr (Details md)) m4 else m4
                | _ \<Rightarrow> put ''description'' (JStr (Details md)) m4) in
      fold put_absent (map (\<lambda>(k, v). (k, JStr v)) (Attributes md)) m5)"

definition read_problem :: "json_text \<Rightarrow> node \<Rightarrow> err + jmap" where
  "read_problem js dir =
     sbind (ReadFile dir ''problem.json'') (\<lambda>t.
     case t of
       None \<Rightarrow> Inr []
     | Some bytes \<Rightarrow>
       (case Unmarshal js bytes of
          None \<Rightarrow> Inl (Plain ''could not prepare hacksport problem metadata'')
        | Some j \<Rightarrow> (case decode_obj j of
            Some (Some m) \<Rightarrow> Inr m
          | _ \<Rightarrow> Inl (Plain ''could not prepare hacksport problem metadata''))))"

definition support_copies :: "(string \<times> string \<times> int) list" where
  "support_copies = [(''packages.txt'', ''.cmgr/packages.txt'', 420), (''requirements.txt'', ''.cmgr/requirements.txt'', 420),
     (''install_dependencies'', ''.cmgr/install_dependencies'', 493)]"

definition writeHacksportContextFiles :: "json_text \<Rightarrow> tar_format \<Rightarrow> node \<Rightarrow> ChallengeMetadata \<Rightarrow> (build_context, unit) act" where
  "writeHacksportContextFiles js hdr dir md =
     bnd (lift_sum (read_problem js dir)) (\<lambda>raw.
     bnd (writeBuildContextFile hdr ''.cmgr/problem.json'' 420
       (MarshalIndent js (encode_obj (problem_data raw md)) @ [CHR 0x0A])) (\<lambda>_.
     each (\<lambda>(source, target, mode).
       bnd (lift_sum (ReadFile dir source)) (\<lambda>t.
       writeBuildContextFile hdr target mode (case t of None \<Rightarrow> [] | Some b \<Rightarrow> b))) support_copies))"

section \<open>The context\<close>

text \<open>
  \<open>filepath.WalkDir\<close>: the visitor sees an entry first and is called again when a directory cannot
  be listed. The visitor below answers \<open>Skip\<close> for directories only and \<open>Halt\<close> for every other error.
\<close>

definition tar_mode :: "FileMode \<Rightarrow> int" where
  "tar_mode m = uint m mod 512 + (if mode_bit m 23 then 2048 else 0) + (if mode_bit m 22 then 1024 else 0) +
     (if mode_bit m 20 then 512 else 0)"

definition slashes :: "string \<Rightarrow> string" where
  "slashes = map (\<lambda>c. if c = backslash then CHR ''/'' else c)"

definition add_node :: "tar_format \<Rightarrow> string \<Rightarrow> node \<Rightarrow> (build_context, unit) act" where
  "add_node hdr archivePath n =
     (let i = info_of n; m = fi_Mode i in
      if is_link_mode m then raise (Plain ''build context cannot contain symlink'')
      else if \<not> is_dir n \<and> \<not> is_regular_mode m then raise (Plain ''build context contains unsupported file type'')
      else
      let h = \<lparr>ct_Name = slashes archivePath, ct_Mode = tar_mode m, ct_Size = (if is_dir n then 0 else fi_Size i), ct_Dir = is_dir n\<rparr> in
      if is_dir n then writeEntry hdr h []
      else case bytes_of n of
        None \<Rightarrow> bnd (boundedWrite (hdr h)) (\<lambda>_. raise (Plain ''open''))
      | Some b \<Rightarrow>
          if length b \<noteq> fi_Size i then bnd (boundedWrite (hdr h)) (\<lambda>_. raise (Plain ''build context file changed while archiving''))
          else writeEntry hdr h b)"

definition contextVisitor :: "tar_format \<Rightarrow> int \<Rightarrow> string \<Rightarrow> build_context visitor" where
  "contextVisitor hdr maxFiles challengeDir path n listed s =
     (if contextIgnore (fi_Name (info_of n)) \<or> path = challengeDir
      then (if is_dir n \<and> path \<noteq> challengeDir then Skip
            else if \<not> listed then Halt (Plain ''readdir'') else Next, s)
      else
      let add = bnd (accountEntry maxFiles) (\<lambda>_.
          case Rel challengeDir path of None \<Rightarrow> raise (Plain ''relative path'') | Some r \<Rightarrow> add_node hdr r n) in
      case add s of
        (Inl e, s') \<Rightarrow> (Halt e, s')
      | (Inr _, s') \<Rightarrow> (if \<not> listed then Halt (Plain ''readdir'') else Next, s'))"

definition contextLimits :: "managerPolicy \<Rightarrow> int \<times> int" where
  "contextLimits pol =
     (if MaxBuildContextFiles pol = 0 then 10000 else MaxBuildContextFiles pol,
      if MaxBuildContextBytes pol = 0 then 2 * 1024 * 1024 * 1024 else MaxBuildContextBytes pol)"

definition write_support :: "tar_format \<Rightarrow> int \<Rightarrow> SupportFile list \<Rightarrow> (build_context, unit) act" where
  "write_support hdr maxFiles = each (\<lambda>f.
     bnd (accountEntry maxFiles) (\<lambda>_. writeBuildContextFile hdr (sf_Name f) (sf_Mode f) (sf_Data f)))"

definition write_context :: "json_text \<Rightarrow> tar_format \<Rightarrow> embedded \<Rightarrow> int \<Rightarrow> string \<Rightarrow> node \<Rightarrow> ChallengeMetadata \<Rightarrow> string option \<Rightarrow>
    (build_context, unit) act" where
  "write_context js hdr files maxFiles challengeDir dir md dockerfile =
     bnd (case dockerfile of None \<Rightarrow> ret ()
          | Some d \<Rightarrow> bnd (accountEntry maxFiles) (\<lambda>_. writeBuildContextFile hdr ''Dockerfile'' 420 d)) (\<lambda>_.
     let support = SupportFiles files (ChallengeType md) in
     bnd (write_support hdr maxFiles support) (\<lambda>_.
     bnd (if support \<noteq> [] then writeHacksportContextFiles js hdr dir md else ret ()) (\<lambda>_.
     bnd (context_call ''could not open challenge root'') (\<lambda>_.
     bnd (\<lambda>s. case Walk (contextVisitor hdr maxFiles challengeDir) challengeDir dir s of
            (Some e, s') \<Rightarrow> (Inl e, s') | (None, s') \<Rightarrow> (Inr (), s')) (\<lambda>_.
     bnd (boundedWrite (replicate 1024 nul)) (\<lambda>_.
     bnd (context_call ''sync'') (\<lambda>_. context_call ''close'')))))))"

definition createBuildContext :: "json_text \<Rightarrow> tar_format \<Rightarrow> embedded \<Rightarrow> managerPolicy \<Rightarrow> node option \<Rightarrow> ChallengeMetadata \<Rightarrow>
    string option \<Rightarrow> ('w world, string) act" where
  "createBuildContext js hdr files pol dir md dockerfile =
     bnd (host_call ''create temporary file'') (\<lambda>_ w.
     case contextLimits pol of (maxFiles, maxBytes) \<Rightarrow>
     case dir of
       None \<Rightarrow> (Inl (Plain ''could not open challenge root''), w)
     | Some n \<Rightarrow>
       (case write_context js hdr files maxFiles (Dir (Path md)) n md dockerfile
          \<lparr>cx_written = [], cx_remaining = maxBytes, cx_limit = maxBytes, cx_entries = 0, cx_faults = host_faults w\<rparr> of
          (Inl e, s) \<Rightarrow> (Inl e, w\<lparr>host_faults := cx_faults s\<rparr>)
        | (Inr _, s) \<Rightarrow> (Inr (cx_written s), w\<lparr>host_faults := cx_faults s\<rparr>)))"

section \<open>The bounds of a context\<close>

lemma maintains_walk:
  fixes P :: "'s \<Rightarrow> bool"
  shows "(\<And>path n listed s. P s \<Longrightarrow> P (snd (f path n listed s))) \<Longrightarrow> P s \<Longrightarrow> P (snd (walk f path n s))"
    and "(\<And>path n listed s. P s \<Longrightarrow> P (snd (f path n listed s))) \<Longrightarrow> P s \<Longrightarrow> P (snd (walk_all f path ns s))"
proof (induction f path n s and f path ns s rule: walk_walk_all.induct)
  case (1 f path i b l ch s)
  obtain v s1 where f: "f path (Node i b l ch) (is_dir_mode (fi_Mode i) \<longrightarrow> ch \<noteq> None) s = (v, s1)" by fastforce
  then have P: "P s1" using "1.prems"(1) [OF "1.prems"(2)] by (metis snd_conv)
  then show ?case
    using f 1 by (cases "is_dir_mode (fi_Mode i)"; cases v; cases ch) auto
next
  case (3 f path n ns s)
  then show ?case
    by (cases "walk f (Join_path path (fi_Name (info_of n))) n s") (auto split: visit.splits)
qed simp

definition fits :: "int \<Rightarrow> build_context \<Rightarrow> bool" where
  "fits L s \<longleftrightarrow> 0 \<le> cx_remaining s \<and> int (length (cx_written s)) + cx_remaining s = L"

lemma fits_steps [maintains_intros]:
  "maintains (fits L) (boundedWrite b)" "maintains (fits L) (context_call w)" "maintains (fits L) (accountEntry k)"
  by (auto simp: maintains_def fits_def boundedWrite_def context_call_def accountEntry_def bnd_def Let_def split: prod.splits)

lemma fits_entries [maintains_intros]:
  "maintains (fits L) (writeEntry hdr h b)" "maintains (fits L) (writeBuildContextFile hdr n md b)"
  by (auto simp: writeEntry_def writeBuildContextFile_def intro!: maintains_intros)

lemma fits_add_node [maintains_intros]: "maintains (fits L) (add_node hdr p n)"
  unfolding add_node_def Let_def by (intro maintains_intros)

lemma fits_visitor: "fits L s \<Longrightarrow> fits L (snd (contextVisitor hdr k dir path n listed s))"
proof -
  have "maintains (fits L) (bnd (accountEntry k) (\<lambda>_. case Rel dir path of None \<Rightarrow> raise e | Some r \<Rightarrow> add_node hdr r n))" for e
    by (intro maintains_intros)
  then show "fits L s \<Longrightarrow> fits L (snd (contextVisitor hdr k dir path n listed s))"
    by (auto simp: contextVisitor_def Let_def maintains_def split: prod.splits sum.splits)
      (metis snd_conv)+
qed

lemma fits_walk [maintains_intros]:
  "maintains (fits L) (\<lambda>s. case Walk (contextVisitor hdr k dir) dir n s of (Some e, s') \<Rightarrow> (Inl e, s') | (None, s') \<Rightarrow> (Inr (), s'))"
  using maintains_walk(1) [of "fits L" "contextVisitor hdr k dir", OF fits_visitor]
  by (auto simp: maintains_def Walk_def split: prod.splits visit.splits option.splits) (metis snd_conv)+

lemma fits_write_context: "maintains (fits L) (write_context js hdr files k dir n md dockerfile)"
  unfolding write_context_def writeHacksportContextFiles_def write_support_def Let_def
  by (intro maintains_intros)

lemma context_bounded:
  assumes "createBuildContext js hdr files pol dir md dockerfile w = (Inr bytes, w')" "0 \<le> MaxBuildContextBytes pol"
  shows "int (length bytes) \<le> snd (contextLimits pol)"
proof -
  obtain n s where n: "dir = Some n" "bytes = cx_written s"
    and s: "(Inr (), s) = write_context js hdr files (fst (contextLimits pol)) (Dir (Path md)) n md dockerfile
      \<lparr>cx_written = [], cx_remaining = snd (contextLimits pol), cx_limit = snd (contextLimits pol), cx_entries = 0,
       cx_faults = host_faults (snd (host_call ''create temporary file'' w))\<rparr>"
    using assms(1) by (auto simp: createBuildContext_def bnd_def contextLimits_def split: prod.splits sum.splits option.splits)
  have "fits (snd (contextLimits pol)) s"
    by (rule maintainsD [OF fits_write_context _ s [symmetric]])
      (use assms(2) in \<open>auto simp: fits_def contextLimits_def\<close>)
  then show ?thesis using n by (simp add: fits_def)
qed

end
