(* ===== verification/Markdown.thy ===== *)
theory Markdown
  imports Dockerfile BuildContext
begin

text \<open>
  Challenges written in Markdown, \<open>cmgr/loader_markdown.go\<close>: a name line, a list of fields, and
  sections. The Markdown and YAML libraries are third-party code and parameters here: \<open>Convert\<close>
  (\<open>goldmark.Convert\<close>) and \<open>DecodeOptions\<close> (\<open>yaml.Decoder\<close> with known fields only, which gives the options
  filled so far and whether it failed).
\<close>

record markdown =
  Convert :: "string \<Rightarrow> string option"
  DecodeOptions :: "string \<Rightarrow> ChallengeOptions \<times> bool"

section \<open>Lines\<close>

definition parseBool :: "string \<Rightarrow> err + bool" where
  "parseBool s =
     (let t = ToLower s in
      if t \<in> {''yes'', ''true'', ''1'', ''t'', ''y''} then Inr True
      else if t \<in> {''no'', ''false'', ''0'', ''f'', ''n''} then Inr False
      else Inl (Plain ''cannot interpret as boolean''))"

definition newline :: char where "newline = CHR 0x0A"

definition any_char :: re where "any_char = none_of [newline]"

definition nameRe :: re where "nameRe = cats [Begin, lit ''#'', blanks, Grp 1 (plus any_char)]"

definition sectionRe :: re where "sectionRe = cats [Begin, lit ''##'', blanks, Grp 1 (plus any_char)]"

definition kvLineRe :: re where
  "kvLineRe = cats [Begin, blanks, lit ''-'', blanks, Grp 1 word, lit '':'', blanks, Grp 2 (Star any_char)]"

definition tagLineRe :: re where "tagLineRe = cats [Begin, blanks, lit ''-'', blanks, Grp 1 word, blanks, End]"

definition lineStartRe :: re where
  "lineStartRe = Alt (cats [Begin, lit ''    '']) (cats [Begin, lit [CHR 0x09]])"

text \<open>\<open>FindStringSubmatch\<close>, one group.\<close>

definition find_group :: "re \<Rightarrow> string \<Rightarrow> string option" where
  "find_group r s = map_option (\<lambda>f. group s f 1) (seek r s 0)"

definition key_value :: "string \<Rightarrow> (string \<times> string) option" where
  "key_value s = map_option (\<lambda>f. (group s f 1, group s f 2)) (seek kvLineRe s 0)"

section \<open>Text\<close>

text \<open>\<open>strings.ReplaceAll\<close> with a pattern that is not empty; the fuel is the length of the text.\<close>

fun replace_all :: "nat \<Rightarrow> string \<Rightarrow> string \<Rightarrow> string \<Rightarrow> string" where
  "replace_all 0 old new s = s"
| "replace_all (Suc n) old new [] = []"
| "replace_all (Suc n) old new (c # s) =
     (if HasPrefix (c # s) old then new @ replace_all n old new (drop (length old) (c # s))
      else c # replace_all n old new s)"

definition ReplaceAll :: "string \<Rightarrow> string \<Rightarrow> string \<Rightarrow> string" where
  "ReplaceAll s old new = replace_all (length s) old new s"

text \<open>The templates of a section, the last one first, get their quotes back.\<close>

definition unquote_at :: "found \<Rightarrow> string \<Rightarrow> string" where
  "unquote_at f s =
     (case f of (start, stop, _) \<Rightarrow>
      take start s @ ReplaceAll (drop start (take stop s)) ''&quot;'' dq @ drop stop s)"

definition parseMarkdown :: "markdown \<Rightarrow> string \<Rightarrow> err + string" where
  "parseMarkdown mk s =
     (case Convert mk s of
        None \<Rightarrow> Inl (Plain ''markdown'')
      | Some html \<Rightarrow> let body = TrimSpace html in Inr (foldr unquote_at (FindAll templateRe body) body))"

section \<open>Hints\<close>

definition finish_hint :: "markdown \<Rightarrow> string list \<Rightarrow> string list \<times> err list \<Rightarrow> string list \<times> err list" where
  "finish_hint mk ls acc =
     (if ls = [] then acc
      else case acc of (hs, es) \<Rightarrow>
      (case parseMarkdown mk (Join_with [newline] ls) of
         Inl e \<Rightarrow> (hs, es @ [e])
       | Inr h \<Rightarrow> (if TrimSpace h \<noteq> [] then hs @ [TrimSpace h] else hs, es)))"

fun hint_lines :: "markdown \<Rightarrow> string list \<Rightarrow> string list \<Rightarrow> string list \<times> err list \<Rightarrow> string list \<times> err list" where
  "hint_lines mk [] cur acc = finish_hint mk cur acc"
| "hint_lines mk (raw # ls) cur acc =
     (if HasPrefix raw ''-'' then hint_lines mk ls [TrimSpace (tl raw)] (finish_hint mk cur acc)
      else hint_lines mk ls (cur @ [ReplaceAllString lineStartRe raw []]) acc)"

definition parseHints :: "markdown \<Rightarrow> string list \<Rightarrow> string list \<times> err list" where
  "parseHints mk ls = hint_lines mk ls [] ([], [])"

section \<open>Sections\<close>

text \<open>
  The markers of the YAML block: the line after the last opening one and the line of the last closing
  one, counted from the start of the section, and an error for every repeated marker.
\<close>

fun yaml_markers :: "string list \<Rightarrow> nat \<Rightarrow> nat option \<Rightarrow> nat option \<Rightarrow> err list \<Rightarrow> nat option \<times> nat option \<times> err list" where
  "yaml_markers [] i b e es = (b, e, es)"
| "yaml_markers (l # ls) i b e es =
     (if l = ''```yaml''
      then yaml_markers ls (Suc i) (Some (Suc i)) e
        (if b \<noteq> None then es @ [Plain ''found multiple start markers for yaml''] else es)
      else if l = ''```''
      then yaml_markers ls (Suc i) b (Some i) (if e \<noteq> None then es @ [Plain ''found multiple end markers for yaml''] else es)
      else yaml_markers ls (Suc i) b e es)"

definition yaml_part :: "string list \<Rightarrow> (string list) option \<times> err list" where
  "yaml_part ls =
     (case yaml_markers ls 0 None None [] of (b, e, es) \<Rightarrow>
      (case (b, e) of
         (None, None) \<Rightarrow> (Some ls, es)
       | (Some i, Some j) \<Rightarrow> (if i \<le> j then Some (drop i (take j ls)) else None, es)
       | _ \<Rightarrow> (Some [], es @ [Plain ''found a start/end marker but missing its pair''])))"

definition no_challenge_options :: ChallengeOptions where
  "no_challenge_options = \<lparr>co_Network = \<lparr>AllowEgress = False\<rparr>, co_Container = no_options, Overrides = []\<rparr>"

definition options_section :: "markdown \<Rightarrow> string list \<Rightarrow> ChallengeOptions \<times> err list" where
  "options_section mk ls =
     (case yaml_part ls of
        (None, es) \<Rightarrow> (no_challenge_options, es @ [Plain ''invalid YAML marker order''])
      | (Some part, es) \<Rightarrow>
        (case DecodeOptions mk (Join_with [newline] part) of
           (opts, ok) \<Rightarrow> (opts, if ok then es else es @ [Plain ''yaml''])))"

definition tag_lines :: "string list \<Rightarrow> string list \<times> err list" where
  "tag_lines ls =
     (let lines = filter (\<lambda>l. l \<noteq> []) (map TrimSpace ls) in
      (List.map_filter (find_group tagLineRe) lines,
       map (\<lambda>_. Plain ''unexpected text in 'tags' section'') (filter (\<lambda>l. find_group tagLineRe l = None) lines)))"

definition attribute_lines :: "string list \<Rightarrow> (string \<times> string) list \<Rightarrow> (string \<times> string) list \<times> err list" where
  "attribute_lines ls as =
     (let lines = filter (\<lambda>l. l \<noteq> []) (map TrimSpace ls) in
      (fold (\<lambda>(k, v). put k v) (List.map_filter key_value lines) as,
       map (\<lambda>_. Plain ''unexpected text in 'attributes' section'') (filter (\<lambda>l. key_value l = None) lines)))"

text \<open>A text whose conversion fails is empty.\<close>

definition text_section :: "markdown \<Rightarrow> string list \<Rightarrow> string \<times> err list" where
  "text_section mk ls =
     (case parseMarkdown mk (Join_with [newline] ls) of Inl e \<Rightarrow> ([], [e]) | Inr t \<Rightarrow> (t, []))"

definition processMarkdownSection :: "markdown \<Rightarrow> string \<times> string list \<Rightarrow> ChallengeMetadata \<times> err list \<Rightarrow> ChallengeMetadata \<times> err list" where
  "processMarkdownSection mk = (\<lambda>(name, ls) (md, errs).
     let kind = ToLower name in
     if kind = ''description'' then (case text_section mk ls of (t, es) \<Rightarrow> (md\<lparr>Description := t\<rparr>, errs @ es))
     else if kind = ''details'' then (case text_section mk ls of (t, es) \<Rightarrow> (md\<lparr>Details := t\<rparr>, errs @ es))
     else if kind = ''hints'' then (case parseHints mk ls of (hs, es) \<Rightarrow> (md\<lparr>Hints := hs\<rparr>, errs @ es))
     else if kind = ''tags'' then (case tag_lines ls of (ts, es) \<Rightarrow> (md\<lparr>Tags := ts\<rparr>, errs @ es))
     else if kind = ''attributes'' then (case attribute_lines ls (Attributes md) of (as, es) \<Rightarrow> (md\<lparr>Attributes := as\<rparr>, errs @ es))
     else if kind = ''challenge options'' then (case options_section mk ls of (os, es) \<Rightarrow> (md\<lparr>ch_Options := os\<rparr>, errs @ es))
     else (md\<lparr>Attributes := put name (TrimSpace (Join_with [newline] ls)) (Attributes md)\<rparr>, errs))"

section \<open>The file\<close>

text \<open>The lines up to and including the first that matches name the challenge.\<close>

fun read_name :: "string list \<Rightarrow> string \<times> string list" where
  "read_name [] = ([], [])"
| "read_name (l # ls) = (case find_group nameRe (TrimSpace l) of Some n \<Rightarrow> (n, ls) | None \<Rightarrow> read_name ls)"

definition is_section :: "string \<Rightarrow> bool" where
  "is_section l = MatchString sectionRe (TrimSpace l)"

definition int_field :: "string \<Rightarrow> int \<times> err list" where
  "int_field s = (case Atoi s of Inl e \<Rightarrow> (0, [e]) | Inr i \<Rightarrow> (i, []))"

definition top_field :: "string \<Rightarrow> string \<Rightarrow> ChallengeMetadata \<Rightarrow> ChallengeMetadata \<times> err list" where
  "top_field k v md =
     (let key = ToLower k in
      if key = ''id'' then (md\<lparr>ch_Id := v\<rparr>, [])
      else if key = ''namespace'' then (md\<lparr>Namespace := v\<rparr>, [])
      else if key = ''type'' then (md\<lparr>ChallengeType := v\<rparr>, [])
      else if key = ''category'' then (md\<lparr>Category := v\<rparr>, [])
      else if key = ''templatable'' then
        (case parseBool v of Inl e \<Rightarrow> (md\<lparr>Templatable := False\<rparr>, [e]) | Inr b \<Rightarrow> (md\<lparr>Templatable := b\<rparr>, []))
      else if key = ''points'' then (case int_field v of (i, es) \<Rightarrow> (md\<lparr>Points := i\<rparr>, es))
      else if key = ''maxusers'' then (case int_field v of (i, es) \<Rightarrow> (md\<lparr>MaxUsers := i\<rparr>, es))
      else (md, [Plain ''unrecognized top-level attribute'']))"

fun top_level :: "string list \<Rightarrow> ChallengeMetadata \<times> err list \<Rightarrow> (ChallengeMetadata \<times> err list) \<times> string list" where
  "top_level [] acc = (acc, [])"
| "top_level (l # ls) acc =
     (if is_section l then (acc, l # ls)
      else if TrimSpace l = [] then top_level ls acc
      else case acc of (md, errs) \<Rightarrow>
      (case key_value (TrimSpace l) of
         None \<Rightarrow> top_level ls (md, errs @ [Plain ''unrecognized metadata text''])
       | Some (k, v) \<Rightarrow> (case top_field k v md of (md', es) \<Rightarrow> top_level ls (md', errs @ es))))"

text \<open>Each section header with the lines up to the next one; what comes before the first header is dropped.\<close>

fun split_sections :: "string list \<Rightarrow> (string \<times> string list) list" where
  "split_sections [] = []"
| "split_sections (l # ls) =
     (case find_group sectionRe (TrimSpace l) of
        None \<Rightarrow> split_sections ls
      | Some n \<Rightarrow> (n, takeWhile (\<lambda>x. \<not> is_section x) ls) # split_sections ls)"

definition no_challenge :: ChallengeMetadata where
  "no_challenge = \<lparr>ch_Id = [], ch_Name = [], Namespace = [], ChallengeType = [], Description = [], Details = [], Hints = [],
     SourceChecksum = 0, MetadataChecksum = 0, SourceDigest = [], MetadataDigest = [], Path = [], Templatable = False,
     PortMap = [], Hosts = [], MaxUsers = 0, Category = [], Points = 0, Tags = [], Attributes = [],
     ch_Options = no_challenge_options, SolveScript = False, ch_Builds = []\<rparr>"

definition loadMarkdownChallenge :: "markdown \<Rightarrow> (string \<Rightarrow> 32 word) \<Rightarrow> (string \<Rightarrow> string) \<Rightarrow> string \<Rightarrow> string \<Rightarrow>
    ChallengeMetadata \<times> err list" where
  "loadMarkdownChallenge mk crc hash path bytes =
     (case read_name (Split newline bytes) of (name, rest) \<Rightarrow>
      case top_level rest (no_challenge\<lparr>Path := path, ch_Name := name\<rparr>, []) of (acc, body) \<Rightarrow>
      case fold (processMarkdownSection mk) (split_sections body) acc of (md, errs) \<Rightarrow>
      case metadataHashes crc hash bytes path of (c, d) \<Rightarrow>
      (md\<lparr>MetadataChecksum := c, MetadataDigest := d\<rparr>, errs))"

text \<open>
  A file without a name line takes the first section header for its name (\<open>nameRe\<close> also matches two
  hashes), so a missing name is not noticed and that section is lost.
\<close>

lemma header_taken_for_name: "read_name (''## Details'' # ls) = (''# Details'', ls)"
proof -
  have "find_group nameRe (TrimSpace ''## Details'') = Some ''# Details''" by code_simp
  then show ?thesis by simp
qed

end
