(* ===== verification/Loading.thy ===== *)
theory Loading
  imports Markdown
begin

text \<open>
  Loading the challenges of a directory: \<open>loadChallenge\<close> and \<open>loadJsonChallenge\<close> of \<open>cmgr/loader.go\<close>,
  the walk that finds them and the check of directories of \<open>cmgr/filesystem.go\<close>. The disk is a parameter
  with the views the program has of it: the tree at a path as \<open>lstat\<close> shows it, a directory as \<open>stat\<close> and
  \<open>open\<close> show it through links, and where links finally lead.
\<close>

record disk =
  tree_at :: "string \<Rightarrow> node option"
  look_at :: "string \<Rightarrow> challenge_dir"
  link_at :: links

text \<open>The libraries that loading calls: text formats and hashes, with the embedded files.\<close>

record loaders =
  ld_json :: json_text
  ld_markdown :: markdown
  DecodeChallenge :: "jmap \<Rightarrow> ChallengeMetadata option"
  ld_crc :: "string \<Rightarrow> 32 word"
  ld_files :: embedded
  ld_resolver :: seccomp_resolver

section \<open>JSON challenges\<close>

definition compatibilityFields :: "string list" where
  "compatibilityFields = [''author'', ''event'', ''organization'', ''version'', ''score'', ''walkthrough'', ''pip_requirements'',
     ''pip_python_version'', ''packages'', ''pkg_dependencies'', ''section'']"

definition allowedFields :: "string list" where
  "allowedFields = [''id'', ''name'', ''namespace'', ''challenge_type'', ''description'', ''details'', ''hints'', ''templatable'',
     ''port_map'', ''max_users'', ''category'', ''points'', ''tags'', ''attributes'', ''challenge_options''] @ compatibilityFields"

text \<open>Fields that historical catalogs have are accepted and dropped; unknown ones are refused.\<close>

definition strict_fields :: "jmap \<Rightarrow> err + jmap" where
  "strict_fields raw =
     (if list_ex (\<lambda>(k, _). k \<notin> set allowedFields) raw then Inl (Plain ''unknown challenge JSON field'')
      else Inr (filter (\<lambda>(k, _). k \<notin> set compatibilityFields) raw))"

record hacksportAttrs =
  ha_Author :: string
  ha_Event :: string
  ha_Organization :: string
  ha_Version :: string
  ha_Score :: int

definition string_field :: "jmap \<Rightarrow> string \<Rightarrow> err + string" where
  "string_field m k =
     (case map_of m k of
        None \<Rightarrow> Inr []
      | Some j \<Rightarrow> (case decode_string j of None \<Rightarrow> Inl (Plain ''json: cannot unmarshal'') | Some s \<Rightarrow> Inr s))"

definition number_field :: "jmap \<Rightarrow> string \<Rightarrow> err + int" where
  "number_field m k =
     (case map_of m k of
        None \<Rightarrow> Inr 0
      | Some JNull \<Rightarrow> Inr 0
      | Some (JNum n) \<Rightarrow> (case Atoi n of Inl _ \<Rightarrow> Inl (Plain ''json: cannot unmarshal'') | Inr i \<Rightarrow> Inr i)
      | Some _ \<Rightarrow> Inl (Plain ''json: cannot unmarshal''))"

definition read_attrs :: "jmap \<Rightarrow> err + hacksportAttrs" where
  "read_attrs m =
     sbind (string_field m ''author'') (\<lambda>a.
     sbind (string_field m ''event'') (\<lambda>e.
     sbind (string_field m ''organization'') (\<lambda>org.
     sbind (string_field m ''version'') (\<lambda>v.
     sbind (number_field m ''score'') (\<lambda>s.
     Inr \<lparr>ha_Author = a, ha_Event = e, ha_Organization = org, ha_Version = v, ha_Score = s\<rparr>)))))"

definition put_given :: "string \<times> string \<Rightarrow> (string \<times> string) list \<Rightarrow> (string \<times> string) list" where
  "put_given kv m = (if snd kv = [] then m else put (fst kv) (snd kv) m)"

text \<open>The historical hacksport format is lifted: type, namespace, details, points and attributes.\<close>

definition lift_hacksport :: "bool \<Rightarrow> hacksportAttrs \<Rightarrow> ChallengeMetadata \<Rightarrow> ChallengeMetadata" where
  "lift_hacksport implicit attrs md =
     (let m1 = (if implicit then md\<lparr>ChallengeType := ''hacksport''\<rparr> else md);
          m2 = (if Namespace m1 = [] then m1\<lparr>Namespace := ''hacksport''\<rparr> else m1);
          m3 = (if Details m2 = [] then m2\<lparr>Details := Description m2, Description := []\<rparr> else m2);
          m4 = m3\<lparr>SolveScript := False\<rparr>;
          m5 = (if Points m4 = 0 then m4\<lparr>Points := ha_Score attrs\<rparr> else m4) in
      m5\<lparr>Attributes := fold put_given [(''author'', ha_Author attrs), (''event'', ha_Event attrs),
         (''organization'', ha_Organization attrs), (''version'', ha_Version attrs)] (Attributes m5)\<rparr>)"

definition loadJsonChallenge :: "loaders \<Rightarrow> (string \<Rightarrow> string) \<Rightarrow> challenge_dir \<Rightarrow> string \<Rightarrow> string \<Rightarrow> err + ChallengeMetadata" where
  "loadJsonChallenge ld hash dir path bytes =
     (case Unmarshal (ld_json ld) bytes of
        None \<Rightarrow> Inl (Plain ''could not decode challenge file'')
      | Some j \<Rightarrow>
        (case decode_obj j of
           None \<Rightarrow> Inl (Plain ''could not decode challenge file'')
         | Some m \<Rightarrow>
           let raw = (case m of None \<Rightarrow> [] | Some kvs \<Rightarrow> kvs) in
           sbind (string_field raw ''challenge_type'') (\<lambda>_.
           sbind (strict_fields raw) (\<lambda>strict.
           case DecodeChallenge ld strict of
             None \<Rightarrow> Inl (Plain ''could not unmarshal challenge file'')
           | Some md0 \<Rightarrow>
             let implicit = (ChallengeType md0 = []) in
             sbind (if \<not> implicit \<and> \<not> isHacksportChallengeType (ChallengeType md0) then Inr md0
               else case stat_of dir ''challenge.py'' of
                 None \<Rightarrow> Inl (Plain ''could not stat 'challenge.py' on hacksport challenge'')
               | Some k \<Rightarrow>
                 if k \<noteq> RegularFile then Inl (Plain ''challenge.py on hacksport challenge is not a regular file'')
                 else sbind (read_attrs raw) (\<lambda>attrs. Inr (lift_hacksport implicit attrs md0))) (\<lambda>md.
             case metadataHashes (ld_crc ld) hash bytes path of (c, d) \<Rightarrow>
             Inr (md\<lparr>MetadataChecksum := c, MetadataDigest := d\<rparr>))))))"

section \<open>One challenge\<close>

definition challenge_id :: "ChallengeMetadata \<Rightarrow> ChallengeId" where
  "challenge_id md =
     (if Namespace md \<noteq> [] then Namespace md @ ''/'' else []) @ sanitizeName (if ch_Id md \<noteq> [] then ch_Id md else ch_Name md)"

text \<open>A file that describes no challenge gives \<open>None\<close>.\<close>

definition read_challenge :: "loaders \<Rightarrow> (string \<Rightarrow> string) \<Rightarrow> challenge_dir \<Rightarrow> string \<Rightarrow> node \<Rightarrow> err + ChallengeMetadata option" where
  "read_challenge ld hash dir path n =
     (let name = fi_Name (info_of n); isJSON = (name = ''problem.json''); isMarkdown = (name = ''problem.md'') in
      if \<not> isJSON \<and> \<not> isMarkdown then Inr None
      else if \<not> is_regular_mode (fi_Mode (info_of n)) then Inl (Plain ''challenge metadata must be a regular file'')
      else case bytes_of n of
        None \<Rightarrow> Inl (Plain ''could not read challenge file'')
      | Some bytes \<Rightarrow>
        if isJSON then sbind (loadJsonChallenge ld hash dir path bytes) (\<lambda>md. Inr (Some md))
        else (case loadMarkdownChallenge (ld_markdown ld) (ld_crc ld) hash path bytes of
          (md, es) \<Rightarrow> if es = [] then Inr (Some md) else Inl (Join es)))"

definition loadChallenge :: "mgr \<Rightarrow> loaders \<Rightarrow> disk \<Rightarrow> string \<Rightarrow> node \<Rightarrow> err + ChallengeMetadata option" where
  "loadChallenge m ld dk path n =
     (let dir = look_at dk (Dir path) in
      sbind (read_challenge ld (sha256 m) dir path n) (\<lambda>r.
      case r of
        None \<Rightarrow> Inr None
      | Some md0 \<Rightarrow>
        let md1 = md0\<lparr>ch_Id := challenge_id md0, Path := Dir path,
              SolveScript := (stat_of dir ''solver'' = Some Directory),
              ch_Options := (ch_Options md0)\<lparr>Overrides := put [] (co_Container (ch_Options md0)) (Overrides (ch_Options md0))\<rparr>\<rparr> in
        sbind (processDockerfile (GetDockerfile (ld_files ld)) dir md1) (\<lambda>md2.
        case validateMetadata m (ld_resolver ld) md2 of
          (md3, es) \<Rightarrow> if es = [] then Inr (Some md3) else Inl (Join es))))"

section \<open>All challenges of a directory\<close>

type_synonym found_challenges = "(ChallengeId \<times> ChallengeMetadata) list"

definition findChallenges :: "mgr \<Rightarrow> loaders \<Rightarrow> disk \<Rightarrow> (found_challenges \<times> err list) visitor" where
  "findChallenges m ld dk path n listed s =
     (case s of (found, errs) \<Rightarrow>
      if \<not> listed then (Next, (found, errs @ [Wrap ''readdir'' (Plain path)]))
      else if hidden (fi_Name (info_of n)) then (if is_dir n then Skip else Next, s)
      else if is_dir n then (Next, s)
      else case loadChallenge m ld dk path n of
        Inl e \<Rightarrow> (Next, (found, errs @ [e]))
      | Inr None \<Rightarrow> (Next, s)
      | Inr (Some md) \<Rightarrow>
        (case tree_at dk (Dir path) of
           None \<Rightarrow> (Next, (found, errs @ [Plain ''could not hash source files'']))
         | Some dir \<Rightarrow>
           (case source_hashes (ld_crc ld) (sha256 m) (link_at dk) (Dir path) dir of
              Inl e \<Rightarrow> (Next, (found, errs @ [e]))
            | Inr (c, d) \<Rightarrow>
              let md' = md\<lparr>SourceChecksum := c, SourceDigest := d, Path := path\<rparr> in
              if map_of found (ch_Id md') \<noteq> None then (Halt (Wrap ''found multiple challenges with id'' (Plain (ch_Id md'))), s)
              else (Next, (found @ [(ch_Id md', md')], errs)))))"

text \<open>Two challenges with one identifier end the search, and then there are none.\<close>

definition inventoryChallenges :: "mgr \<Rightarrow> loaders \<Rightarrow> disk \<Rightarrow> string \<Rightarrow> found_challenges \<times> err list" where
  "inventoryChallenges m ld dk dir =
     (case tree_at dk dir of
        None \<Rightarrow> ([], [Wrap ''lstat'' (Plain dir)])
      | Some n \<Rightarrow>
        (case Walk (findChallenges m ld dk) dir n ([], []) of
           (Some e, (_, errs)) \<Rightarrow> ([], errs @ [e])
         | (None, s) \<Rightarrow> s))"

section \<open>Directories\<close>

definition Abs_path :: "string \<Rightarrow> string \<Rightarrow> string" where
  "Abs_path cwd p = (if IsAbs p then Clean p else Join_path cwd p)"

text \<open>\<open>kind\<close> is \<open>os.Stat\<close>.\<close>

definition normalizeDirPath :: "(string \<Rightarrow> file_kind option) \<Rightarrow> string \<Rightarrow> string \<Rightarrow> string \<Rightarrow> err + string" where
  "normalizeDirPath kind cwd chalDir dir =
     (let tgtDir = Abs_path cwd dir in
      case kind tgtDir of
        None \<Rightarrow> Inl (Plain ''could not stat directory'')
      | Some k \<Rightarrow>
        if k \<noteq> Directory then Inl (Plain ''is not a directory'')
        else if \<not> pathInDirectory tgtDir chalDir then Inl (Plain ''is not a sub-directory of the challenge directory'')
        else Inr tgtDir)"

definition check_directory :: "(string \<Rightarrow> file_kind option) \<Rightarrow> string \<Rightarrow> string option \<Rightarrow> err + string" where
  "check_directory kind cwd setting =
     (let d = Abs_path cwd (case setting of None \<Rightarrow> ''.'' | Some x \<Rightarrow> x) in
      case kind d of
        None \<Rightarrow> Inl (Plain ''could not stat the directory'')
      | Some k \<Rightarrow> if k = Directory then Inr d else Inl (Plain ''is not a directory''))"

definition setDirectories :: "(string \<Rightarrow> file_kind option) \<Rightarrow> string \<Rightarrow> env \<Rightarrow> err + string \<times> string" where
  "setDirectories kind cwd e =
     sbind (check_directory kind cwd (e ''CMGR_DIR'')) (\<lambda>chalDir.
     sbind (check_directory kind cwd (e ''CMGR_ARTIFACT_DIR'')) (\<lambda>artifactsDir.
     Inr (chalDir, artifactsDir)))"

section \<open>What an inventory guarantees\<close>

definition inventory_ok :: "found_challenges \<Rightarrow> bool" where
  "inventory_ok found \<longleftrightarrow> distinct (map fst found) \<and> (\<forall>(i, md) \<in> set found. ch_Id md = i)"

lemma inventory_step:
  "inventory_ok (fst s) \<Longrightarrow> inventory_ok (fst (snd (findChallenges m ld dk path n listed s)))"
  by (auto simp: findChallenges_def inventory_ok_def Let_def map_of_eq_None_iff split: prod.splits sum.splits option.splits if_splits)

lemma inventory_distinct: "inventory_ok (fst (inventoryChallenges m ld dk dir))"
proof -
  have base: "inventory_ok []" by (simp add: inventory_ok_def)
  have "inventory_ok (fst (snd (walk (findChallenges m ld dk) dir n ([], []))))" for n
    by (rule maintains_walk(1) [where P = "\<lambda>s. inventory_ok (fst s)"]) (use inventory_step base in auto)
  then have "inventory_ok (fst (snd (Walk (findChallenges m ld dk) dir n ([], []))))" for n
    by (auto simp: Walk_def split: prod.splits visit.splits) (metis fst_conv snd_conv)+
  then show ?thesis
    using base by (auto simp: inventoryChallenges_def split: option.splits prod.splits) (metis fst_conv snd_conv)
qed

text \<open>A name without letters and digits gives an empty identifier, which nothing refuses.\<close>

lemma empty_identifier: "challenge_id (no_challenge\<lparr>ch_Name := ''!!!''\<rparr>) = []"
  by code_simp

end
