(* ===== verification/Images.thy ===== *)
theory Images
  imports BuildNames Instances
begin

text \<open>
  The images and artifact files of a build, from \<open>cmgr/docker.go\<close>: promotion of a staged build with
  its rollback and its completion, discarding, cleanup after an interrupted update, destruction, and
  the update of a build as a whole. Image names are the tags of the daemon, artifact files the keys of
  \<open>artifacts\<close>. The order in which Go ranges over a map is one order of the list that models it.
\<close>

section \<open>Files of the artifacts directory\<close>

text \<open>\<open>os.Stat\<close>, \<open>os.Rename\<close>, and \<open>os.Remove\<close> where a missing file is no error.\<close>

definition stat_file :: "string \<Rightarrow> ('w world, bool) act" where
  "stat_file name = bnd (host_call ''stat'') (\<lambda>_ w. (Inr (map_of (artifacts w) name \<noteq> None), w))"

definition rename_file :: "string \<Rightarrow> string \<Rightarrow> ('w world, unit) act" where
  "rename_file a b = bnd (host_call ''rename'') (\<lambda>_ w.
     case map_of (artifacts w) a of
       None \<Rightarrow> (Inl (Plain ''no such file''), w)
     | Some c \<Rightarrow> (Inr (), w\<lparr>artifacts := put b c (without_file a (artifacts w))\<rparr>))"

definition remove_file :: "string \<Rightarrow> ('w world, unit) act" where
  "remove_file name = bnd (host_call ''remove'') (\<lambda>_ w. (Inr (), w\<lparr>artifacts := without_file name (artifacts w)\<rparr>))"

text \<open>Steps that all run, with the first error kept (\<open>firstErr\<close>) or all of them joined.\<close>

definition first_failed :: "('s, unit) act list \<Rightarrow> ('s, unit) act" where
  "first_failed steps s = (case each_collect (\<lambda>m. m) steps s of (es, s') \<Rightarrow>
     (case es of [] \<Rightarrow> Inr () | e # _ \<Rightarrow> Inl e, s'))"

section \<open>Promotion\<close>

record stagedBuildPromotion =
  pr_build :: BuildMetadata
  pr_qualifier :: string
  canonicalImageIDs :: "(string \<times> string) list"
  stagedImageNames :: "string list"
  canonicalArtifact :: string
  backupArtifact :: string
  hadArtifact :: bool
  installedArtifact :: bool

text \<open>What was not there before is removed.\<close>

definition restore_name :: "'w daemon \<Rightarrow> string \<times> string \<Rightarrow> ('w world, unit) act" where
  "restore_name dk = (\<lambda>(canonical, imageID).
     if imageID = [] then unless_missing (ImageRemove dk canonical) else must (ImageTag dk imageID canonical))"

definition rollbackStagedBuild :: "'w daemon \<Rightarrow> stagedBuildPromotion \<Rightarrow> ('w world, unit) act" where
  "rollbackStagedBuild dk p = first_failed
     (map (restore_name dk) (canonicalImageIDs p) @
      (if installedArtifact p then [remove_file (canonicalArtifact p)] else []) @
      (if hadArtifact p then [rename_file (backupArtifact p) (canonicalArtifact p)] else []))"

definition finishStagedBuild :: "'w daemon \<Rightarrow> stagedBuildPromotion \<Rightarrow> ('w world, unit) act" where
  "finishStagedBuild dk p = first_failed
     (map (\<lambda>name. unless_missing (ImageRemove dk name)) (stagedImageNames p) @
      (if hadArtifact p then [remove_file (backupArtifact p)] else []))"

definition canonical_name :: "BuildMetadata \<Rightarrow> Image \<Rightarrow> string" where
  "canonical_name b im = buildImageName (bd_Challenge b) b (im_Host im) []"

definition staged_name :: "BuildMetadata \<Rightarrow> string \<Rightarrow> Image \<Rightarrow> string" where
  "staged_name b qualifier im = buildImageName (bd_Challenge b) b (im_Host im) qualifier"

fun snapshot_images :: "'w daemon \<Rightarrow> Image list \<Rightarrow> stagedBuildPromotion \<Rightarrow> ('w world, stagedBuildPromotion) act" where
  "snapshot_images dk [] p = ret p"
| "snapshot_images dk (im # ims) p =
     (let canonical = canonical_name (pr_build p) im;
          note = (\<lambda>i. p\<lparr>canonicalImageIDs := put canonical i (canonicalImageIDs p),
            stagedImageNames := stagedImageNames p @ [staged_name (pr_build p) (pr_qualifier p) im]\<rparr>) in
      bnd (call (ImageInspect dk canonical)) (\<lambda>r.
      case r of
        Inr i \<Rightarrow> snapshot_images dk ims (note i)
      | Inl NotFound \<Rightarrow> snapshot_images dk ims (note [])
      | Inl (Rejected _) \<Rightarrow> raise (Plain ''could not snapshot image before promotion'')))"

text \<open>A step after whose failure the promotion is rolled back.\<close>

definition or_roll_back :: "'w daemon \<Rightarrow> stagedBuildPromotion \<Rightarrow> ('w world, 'a) act \<Rightarrow> ('w world, 'a) act" where
  "or_roll_back dk p m w =
     (case m w of
        (Inr x, w1) \<Rightarrow> (Inr x, w1)
      | (Inl e, w1) \<Rightarrow>
        (case rollbackStagedBuild dk p w1 of
           (Inl e', w2) \<Rightarrow> (Inl (Join [e, Wrap ''could not roll back staged build'' e']), w2)
         | (Inr _, w2) \<Rightarrow> (Inl e, w2)))"

definition new_promotion :: "BuildMetadata \<Rightarrow> string \<Rightarrow> stagedBuildPromotion" where
  "new_promotion b qualifier = \<lparr>pr_build = b, pr_qualifier = qualifier, canonicalImageIDs = [], stagedImageNames = [],
     canonicalArtifact = [], backupArtifact = [], hadArtifact = False, installedArtifact = False\<rparr>"

definition promote_images :: "'w daemon \<Rightarrow> BuildMetadata \<Rightarrow> string \<Rightarrow> ('w world, unit) act" where
  "promote_images dk b qualifier = each (\<lambda>im.
     map_err (\<lambda>_. Plain ''could not promote image'')
       (must (ImageTag dk (staged_name b qualifier im) (canonical_name b im)))) (Images b)"

definition promoteStagedBuild :: "'w daemon \<Rightarrow> BuildMetadata \<Rightarrow> string \<Rightarrow> ('w world, stagedBuildPromotion) act" where
  "promoteStagedBuild dk b qualifier =
     bnd (snapshot_images dk (Images b) (new_promotion b qualifier)) (\<lambda>p0.
     bnd (or_roll_back dk p0 (promote_images dk b qualifier)) (\<lambda>_.
     let p1 = p0\<lparr>canonicalArtifact := getArtifactsFilename b, backupArtifact := backup_name b qualifier\<rparr> in
     bnd (or_roll_back dk p1 (map_err (\<lambda>_. Plain ''could not inspect current artifacts'')
            (stat_file (canonicalArtifact p1)))) (\<lambda>there.
     bnd (if there then or_roll_back dk p1 (map_err (\<lambda>_. Plain ''could not preserve current artifacts'')
            (rename_file (canonicalArtifact p1) (backupArtifact p1))) else ret ()) (\<lambda>_.
     let p2 = p1\<lparr>hadArtifact := there\<rparr> in
     bnd (if HasArtifacts b then or_roll_back dk p2 (map_err (\<lambda>_. Plain ''could not promote staged artifacts'')
            (rename_file (getArtifactsFilenameForQualifier b qualifier) (canonicalArtifact p2))) else ret ()) (\<lambda>_.
     ret (p2\<lparr>installedArtifact := HasArtifacts b\<rparr>))))))"

section \<open>Discarding, cleanup, destruction\<close>

definition discardStagedBuild :: "'w daemon \<Rightarrow> ChallengeMetadata \<Rightarrow> BuildMetadata \<Rightarrow> string \<Rightarrow> ('w world, unit) act" where
  "discardStagedBuild dk c b qualifier = join_all (\<lambda>m. m)
     (map (\<lambda>h. map_err (Wrap ''could not discard image'')
        (unless_missing (ImageRemove dk (buildImageName (ch_Id c) b (hi_Name h) qualifier)))) (Hosts c) @
      [map_err (Wrap ''could not discard artifacts'') (remove_file (getArtifactsFilenameForQualifier b qualifier))])"

text \<open>The first occurrence of each value, in order.\<close>

definition once :: "'a list \<Rightarrow> 'a list" where
  "once xs = rev (remdups (rev xs))"

definition staged_for :: "BuildId list \<Rightarrow> BuildId option \<Rightarrow> bool" where
  "staged_for buildIDs b = (case b of None \<Rightarrow> False | Some i \<Rightarrow> i \<in> set buildIDs)"

definition cleanup_images :: "'w daemon \<Rightarrow> ChallengeId \<Rightarrow> BuildId list \<Rightarrow> 'w world \<Rightarrow> err list \<times> 'w world" where
  "cleanup_images dk c buildIDs w =
     (case must (ImageList dk) w of
        (Inl e, w1) \<Rightarrow> ([Wrap ''list staged images'' e], w1)
      | (Inr items, w1) \<Rightarrow>
        each_collect (\<lambda>tag. map_err (Wrap ''remove orphaned staged image'') (unless_missing (ImageRemove dk tag)))
          (once (filter (\<lambda>tag. staged_for buildIDs (stagedImageBuildID tag c)) (concat items))) w1)"

definition cleanup_artifacts :: "BuildId list \<Rightarrow> 'w world \<Rightarrow> err list \<times> 'w world" where
  "cleanup_artifacts buildIDs w =
     (case host_call ''list staged artifacts'' w of
        (Inl e, w1) \<Rightarrow> ([Wrap ''list staged artifacts'' e], w1)
      | (Inr _, w1) \<Rightarrow>
        each_collect (\<lambda>name. map_err (Wrap ''remove orphaned staged artifacts'') (remove_file name))
          (filter (\<lambda>name. staged_for buildIDs (stagedArtifactBuildID name)) (sort (remdups (map fst (artifacts w1))))) w1)"

definition cleanupInterruptedBuildResources :: "'w daemon \<Rightarrow> ChallengeId \<Rightarrow> BuildId list \<Rightarrow> ('w world, unit) act" where
  "cleanupInterruptedBuildResources dk c buildIDs w =
     (if buildIDs = [] then (Inr (), w)
      else case cleanup_images dk c buildIDs w of (es, w1) \<Rightarrow>
      case cleanup_artifacts buildIDs w1 of (es', w2) \<Rightarrow> (joined (es @ es'), w2))"

definition destroyImages :: "'w daemon \<Rightarrow> BuildId \<Rightarrow> ('w world, unit) act" where
  "destroyImages dk b =
     bnd (in_db (lookupBuildMetadata b)) (\<lambda>meta.
     bnd (in_db (getBuildInstances b)) (\<lambda>is.
     if is \<noteq> [] then raise (ConflictError (Plain ''cannot destroy build while instances remain''))
     else
     bnd (if HasArtifacts meta then remove_file (getArtifactsFilename meta) else ret ()) (\<lambda>_.
     bnd (each (\<lambda>im. unless_missing (ImageRemove dk (canonical_name meta im))) (Images meta)) (\<lambda>_.
     in_db (removeBuildMetadata b)))))"

section \<open>Seccomp preflight\<close>

definition blank_spec :: container_spec where
  "blank_spec = \<lparr>cs_Image = [], cs_Hostname = [], cs_Env = [], cs_Published = [], cs_RestartPolicy = [], cs_Init = None,
     cs_NanoCPUs = 0, cs_Memory = 0, cs_MemorySwap = 0, cs_Ulimits = [], cs_PidsLimit = None, cs_ReadonlyRootfs = False,
     cs_CapDrop = [], cs_SecurityOpt = [], cs_StorageOpt = None, cs_CgroupParent = [], cs_Runtime = [],
     cs_Network = [], cs_Aliases = []\<rparr>"

definition preflight_host :: "ChallengeMetadata \<Rightarrow> host_info \<Rightarrow> HostInfo \<Rightarrow> ('w world, unit) act" where
  "preflight_host c info h =
     (if hi_Name h = ''builder'' then ret ()
      else case effectiveContainerOptions (Overrides (ch_Options c)) (ToLower (hi_Name h)) of
        (opts, ok) \<Rightarrow>
          if \<not> ok \<or> Seccomp opts = None then ret ()
          else case configureContainerSeccomp blank_spec (Seccomp opts) info of
            Inl e \<Rightarrow> raise (Plain ''seccomp preflight failed'')
          | Inr _ \<Rightarrow> ret ())"

definition preflightChallengeSeccomp :: "'w daemon \<Rightarrow> ChallengeMetadata \<Rightarrow> ('w world, unit) act" where
  "preflightChallengeSeccomp dk c =
     (if \<not> list_ex (\<lambda>(_, opts). wants_seccomp (Seccomp opts)) (Overrides (ch_Options c)) then ret ()
      else
      bnd (map_err (\<lambda>_. Plain ''could not preflight seccomp configuration'') (must (Info dk))) (\<lambda>info.
      each (preflight_host c info) (Hosts c)))"

section \<open>Updates of a build\<close>

record stagedBuildUpdate =
  up_metadata :: ChallengeMetadata
  up_previous :: BuildMetadata
  up_candidate :: BuildMetadata
  up_qualifier :: string
  up_promotion :: stagedBuildPromotion
  up_cutovers :: "instanceCutover list"

definition restore_previous :: "BuildMetadata \<Rightarrow> (db, unit) act" where
  "restore_previous b =
     bnd (finalizeBuild b) (\<lambda>_.
     update (\<lambda>t. t\<lparr>builds := map (\<lambda>r. if br_id r = bd_Id b then r\<lparr>br_lastsolved := bd_LastSolved b\<rparr> else r) (builds t)\<rparr>))"

definition rollbackBuildUpdate :: "'w daemon \<Rightarrow> stagedBuildUpdate \<Rightarrow> 'w world \<Rightarrow> err list \<times> 'w world" where
  "rollbackBuildUpdate dk u = each_collect (\<lambda>m. m)
     (map (rollbackInstanceCutover dk) (rev (up_cutovers u)) @
      [rollbackStagedBuild dk (up_promotion u),
       in_db (restore_previous (up_previous u)),
       discardStagedBuild dk (up_metadata u) (up_candidate u) (up_qualifier u)])"

definition finishBuildUpdate :: "'w daemon \<Rightarrow> stagedBuildUpdate \<Rightarrow> 'w world \<Rightarrow> err list \<times> 'w world" where
  "finishBuildUpdate dk u =
     (let kept = set (map im_Host (Images (up_candidate u))) in
      each_collect (\<lambda>m. m)
     (map (finishInstanceCutover dk) (up_cutovers u) @
      [finishStagedBuild dk (up_promotion u)] @
      map (\<lambda>im. map_err (\<lambda>_. Plain ''could not remove obsolete image'')
          (unless_missing (ImageRemove dk (canonical_name (up_previous u) im))))
        (filter (\<lambda>im. im_Host im \<notin> kept) (Images (up_previous u)))))"

section \<open>Promotion can be undone\<close>

text \<open>
  Documented behaviour of the daemon on image names, for a reading \<open>tag\<close> of its state as the map from
  names to image identifiers: tagging makes the target name what the source names (an identifier
  names itself and is never a name), removing a name unties it, failed calls change no name.
\<close>

definition image_laws :: "'w daemon \<Rightarrow> ('w \<Rightarrow> string \<Rightarrow> string option) \<Rightarrow> bool" where
  "image_laws dk tag \<longleftrightarrow>
     (\<forall>k n i. tag k n = Some i \<longrightarrow> i \<noteq> [] \<and> (\<forall>k'. tag k' i = None)) \<and>
     (\<forall>n k. case ImageInspect dk n k of
        (Inr i, k') \<Rightarrow> tag k n = Some i \<and> tag k' = tag k
      | (Inl NotFound, k') \<Rightarrow> tag k n = None \<and> tag k' = tag k
      | (Inl (Rejected _), k') \<Rightarrow> tag k' = tag k) \<and>
     (\<forall>src tgt k. case ImageTag dk src tgt k of
        (Inr _, k') \<Rightarrow> tag k' = (tag k)(tgt := Some (case tag k src of Some i \<Rightarrow> i | None \<Rightarrow> src))
      | (Inl _, k') \<Rightarrow> tag k' = tag k) \<and>
     (\<forall>n k. case ImageRemove dk n k of
        (Inr _, k') \<Rightarrow> tag k' = (tag k)(n := None)
      | (Inl NotFound, k') \<Rightarrow> tag k n = None \<and> tag k' = tag k
      | (Inl (Rejected _), k') \<Rightarrow> tag k' = tag k) \<and>
     (\<forall>k. tag (snd (ImageList dk k)) = tag k)"

lemma image_ids: "image_laws dk tag \<Longrightarrow> tag k n = Some i \<Longrightarrow> i \<noteq> [] \<and> tag k' i = None"
  unfolding image_laws_def by blast

lemma inspect_law:
  "image_laws dk tag \<Longrightarrow> case ImageInspect dk n k of
        (Inr i, k') \<Rightarrow> tag k n = Some i \<and> tag k' = tag k
      | (Inl NotFound, k') \<Rightarrow> tag k n = None \<and> tag k' = tag k
      | (Inl (Rejected _), k') \<Rightarrow> tag k' = tag k"
  unfolding image_laws_def by (drule conjunct2, drule conjunct1, drule spec, drule spec, assumption)

lemma tag_law:
  "image_laws dk tag \<Longrightarrow> case ImageTag dk src tgt k of
        (Inr _, k') \<Rightarrow> tag k' = (tag k)(tgt := Some (case tag k src of Some i \<Rightarrow> i | None \<Rightarrow> src))
      | (Inl _, k') \<Rightarrow> tag k' = tag k"
  unfolding image_laws_def
  by (drule conjunct2, drule conjunct2, drule conjunct1, drule spec, drule spec, drule spec, assumption)

lemma untag_law:
  "image_laws dk tag \<Longrightarrow> case ImageRemove dk n k of
        (Inr _, k') \<Rightarrow> tag k' = (tag k)(n := None)
      | (Inl NotFound, k') \<Rightarrow> tag k n = None \<and> tag k' = tag k
      | (Inl (Rejected _), k') \<Rightarrow> tag k' = tag k"
  unfolding image_laws_def
  by (drule conjunct2, drule conjunct2, drule conjunct2, drule conjunct1, drule spec, drule spec, assumption)

lemma list_law: "image_laws dk tag \<Longrightarrow> tag (snd (ImageList dk k)) = tag k"
  unfolding image_laws_def by blast

lemma must_tag:
  assumes "image_laws dk tag" "must (ImageTag dk src tgt) w = (r, w')"
  shows "artifacts w' = artifacts w \<and> (case r of
    Inr _ \<Rightarrow> tag (dock w') = (tag (dock w))(tgt := Some (case tag (dock w) src of Some i \<Rightarrow> i | None \<Rightarrow> src))
  | Inl _ \<Rightarrow> tag (dock w') = tag (dock w))"
  using assms(2) tag_law [OF assms(1), where src = src and tgt = tgt and k = "dock w"]
  by (auto simp: must_def call_def bnd_def split: prod.splits sum.splits)

lemma unless_missing_untag:
  assumes "image_laws dk tag" "unless_missing (ImageRemove dk n) w = (r, w')"
  shows "artifacts w' = artifacts w \<and> (case r of
    Inr _ \<Rightarrow> tag (dock w') = (tag (dock w))(n := None)
  | Inl _ \<Rightarrow> tag (dock w') = tag (dock w))"
  using assms(2) untag_law [OF assms(1), where n = n and k = "dock w"]
  by (auto simp: unless_missing_def call_def bnd_def fun_eq_iff split: prod.splits sum.splits docker_error.splits)

lemma each_collect_append:
  "each_collect f (xs @ ys) s = (case each_collect f xs s of (es, s1) \<Rightarrow>
     case each_collect f ys s1 of (es', s2) \<Rightarrow> (es @ es', s2))"
  by (induction xs arbitrary: s) (auto split: prod.splits sum.splits)

lemma first_failed_ok:
  "first_failed steps s = (Inr u, s') \<longleftrightarrow> each_collect (\<lambda>m. m) steps s = ([], s')"
  by (auto simp: first_failed_def split: prod.splits list.splits)

text \<open>Restoring a snapshot of names, when every step succeeds.\<close>

definition snapshot_of :: "(string \<Rightarrow> string option) \<Rightarrow> string \<Rightarrow> string" where
  "snapshot_of before n = (case before n of None \<Rightarrow> [] | Some i \<Rightarrow> i)"

lemma restore_images:
  assumes "image_laws dk tag"
  shows "each_collect (\<lambda>m. m) (map (restore_name dk) ids) w = ([], w') \<Longrightarrow>
    \<forall>(c, i) \<in> set ids. i = snapshot_of (tag k0) c \<Longrightarrow>
    artifacts w' = artifacts w \<and>
    tag (dock w') n = (if n \<in> fst ` set ids then tag k0 n else tag (dock w) n)"
proof (induction ids arbitrary: w)
  case (Cons x ids)
  obtain c i where x: "x = (c, i)" by fastforce
  have i: "i = snapshot_of (tag k0) c" using Cons(3) x by simp
  obtain u w1 where s: "restore_name dk (c, i) w = (Inr u, w1)" "each_collect (\<lambda>m. m) (map (restore_name dk) ids) w1 = ([], w')"
    using Cons(2) x by (auto split: prod.splits sum.splits)
  have "artifacts w1 = artifacts w \<and> tag (dock w1) = (tag (dock w))(c := tag k0 c)"
  proof (cases "tag k0 c")
    case None
    then show ?thesis using s(1) i unless_missing_untag [OF assms, of c w]
      by (simp add: restore_name_def snapshot_of_def)
  next
    case (Some j)
    then have "j \<noteq> []" "tag (dock w) j = None" using image_ids [OF assms Some] by auto
    then show ?thesis using s(1) i Some must_tag [OF assms, of j c w]
      by (simp add: restore_name_def snapshot_of_def)
  qed
  moreover have "artifacts w' = artifacts w1 \<and>
      tag (dock w') n = (if n \<in> fst ` set ids then tag k0 n else tag (dock w1) n)"
    using Cons.IH [OF s(2)] Cons(3) by simp
  ultimately show ?case using x by auto
qed simp

lemma set_put: "set (put k v m) \<subseteq> insert (k, v) (set m)"
  by (induction m) auto

lemma snapshot_ok:
  assumes "image_laws dk tag"
  shows "snapshot_images dk ims p w = (Inr p', w') \<Longrightarrow> \<forall>(c, i) \<in> set (canonicalImageIDs p). i = snapshot_of (tag (dock w)) c \<Longrightarrow>
    distinct (map fst (canonicalImageIDs p)) \<Longrightarrow>
    (\<forall>(c, i) \<in> set (canonicalImageIDs p'). i = snapshot_of (tag (dock w)) c) \<and>
    fst ` set (canonicalImageIDs p') = fst ` set (canonicalImageIDs p) \<union> canonical_name (pr_build p) ` set ims \<and>
    artifacts w' = artifacts w \<and> tag (dock w') = tag (dock w) \<and> pr_build p' = pr_build p \<and>
    (hadArtifact p' \<longleftrightarrow> hadArtifact p) \<and> (installedArtifact p' \<longleftrightarrow> installedArtifact p)"
proof (induction ims arbitrary: p w)
  case (Cons im ims)
  let ?c = "canonical_name (pr_build p) im"
  obtain r k where ins: "ImageInspect dk ?c (dock w) = (r, k)" by fastforce
  have law: "case (r, k) of (Inr i, k') \<Rightarrow> tag (dock w) ?c = Some i \<and> tag k' = tag (dock w)
      | (Inl NotFound, k') \<Rightarrow> tag (dock w) ?c = None \<and> tag k' = tag (dock w)
      | (Inl (Rejected _), k') \<Rightarrow> tag k' = tag (dock w)"
    using inspect_law [OF assms, where n = ?c and k = "dock w"] ins by simp
  let ?i = "snapshot_of (tag (dock w)) ?c"
  let ?p = "p\<lparr>canonicalImageIDs := put ?c ?i (canonicalImageIDs p),
      stagedImageNames := stagedImageNames p @ [staged_name (pr_build p) (pr_qualifier p) im]\<rparr>"
  let ?w = "w\<lparr>dock := k\<rparr>"
  have step: "snapshot_images dk ims ?p ?w = (Inr p', w')" "tag k = tag (dock w)"
    using Cons(2) ins law
    by (auto simp: bnd_def call_def Let_def snapshot_of_def split: sum.splits docker_error.splits)
  have ids: "\<forall>(c, i) \<in> set (canonicalImageIDs ?p). i = snapshot_of (tag (dock ?w)) c"
    using Cons(3) step(2) set_put [of ?c ?i "canonicalImageIDs p"] by auto
  have d: "distinct (map fst (canonicalImageIDs ?p))" using Cons(4) by simp
  have keys: "fst ` set (put ?c ?i (canonicalImageIDs p)) = insert ?c (fst ` set (canonicalImageIDs p))"
    using keys_put [of ?c ?i "canonicalImageIDs p"] by simp
  show ?case using Cons.IH [OF step(1) ids d] step(2) keys by auto
qed auto

lemma promote_images_off:
  assumes "image_laws dk tag" "n \<notin> canonical_name b ` set ims"
    "each (\<lambda>im. map_err (\<lambda>_. Plain ''could not promote image'')
       (must (ImageTag dk (staged_name b q im) (canonical_name b im)))) ims w = (r, w')"
  shows "artifacts w' = artifacts w \<and> tag (dock w') n = tag (dock w) n"
  using assms(2,3)
proof (induction ims arbitrary: w)
  case (Cons im ims)
  obtain r1 w1 where m: "must (ImageTag dk (staged_name b q im) (canonical_name b im)) w = (r1, w1)" by fastforce
  have w1: "artifacts w1 = artifacts w" "tag (dock w1) n = tag (dock w) n"
    using must_tag [OF assms(1) m] Cons(2) by (auto split: sum.splits)
  show ?case
  proof (cases r1)
    case (Inl e)
    then show ?thesis using Cons(3) m w1 by (auto simp: bnd_def map_err_def)
  next
    case (Inr u)
    then show ?thesis using Cons(3) m w1 Cons.IH [of w1] Cons(2) by (simp add: bnd_def map_err_def)
  qed
qed auto

lemma promote_images_artifacts:
  assumes "image_laws dk tag" "promote_images dk b q w = (r, w')"
  shows "artifacts w' = artifacts w"
proof -
  have "maintains (\<lambda>v. artifacts v = artifacts w) (must (ImageTag dk src tgt))" for src tgt
    unfolding maintains_def using must_tag [OF assms(1), of src tgt] by (metis prod.collapse)
  then have "maintains (\<lambda>v. artifacts v = artifacts w) (promote_images dk b q)"
    unfolding promote_images_def by (intro maintains_intros)
  from maintainsD [OF this refl assms(2)] show ?thesis .
qed

text \<open>What a world must still have for a rollback to bring everything back.\<close>

definition remembers :: "('w \<Rightarrow> string \<Rightarrow> string option) \<Rightarrow> 'w world \<Rightarrow> stagedBuildPromotion \<Rightarrow> bool" where
  "remembers tag w0 p \<longleftrightarrow> (\<forall>(c, i) \<in> set (canonicalImageIDs p). i = snapshot_of (tag (dock w0)) c)"

lemma remembers_cong [simp]:
  "remembers tag w0 (p\<lparr>canonicalArtifact := x\<rparr>) = remembers tag w0 p"
  "remembers tag w0 (p\<lparr>backupArtifact := x\<rparr>) = remembers tag w0 p"
  "remembers tag w0 (p\<lparr>hadArtifact := y\<rparr>) = remembers tag w0 p"
  "remembers tag w0 (p\<lparr>installedArtifact := y\<rparr>) = remembers tag w0 p"
  by (simp_all add: remembers_def)

definition files_back :: "'w world \<Rightarrow> string set \<Rightarrow> stagedBuildPromotion \<Rightarrow> 'w world \<Rightarrow> bool" where
  "files_back w0 F p w \<longleftrightarrow>
     (\<forall>n. n \<notin> F \<longrightarrow> map_of (artifacts w0) n =
        (if hadArtifact p \<and> n = canonicalArtifact p then map_of (artifacts w) (backupArtifact p)
         else if installedArtifact p \<and> n = canonicalArtifact p then None
         else map_of (artifacts w) n)) \<and>
     (hadArtifact p \<longrightarrow> backupArtifact p \<in> F \<and> backupArtifact p \<noteq> canonicalArtifact p)"

lemma files_back_cong: "files_back w0 F p w \<Longrightarrow> artifacts w' = artifacts w \<Longrightarrow> files_back w0 F p w'"
  by (simp add: files_back_def)

lemma files_back_start:
  "\<not> hadArtifact p \<Longrightarrow> \<not> installedArtifact p \<Longrightarrow> artifacts w = artifacts w0 \<Longrightarrow> files_back w0 F p w"
  by (simp add: files_back_def)

definition restorable :: "('w \<Rightarrow> string \<Rightarrow> string option) \<Rightarrow> 'w world \<Rightarrow> string set \<Rightarrow> stagedBuildPromotion \<Rightarrow> 'w world \<Rightarrow> bool" where
  "restorable tag w0 F p w \<longleftrightarrow>
     remembers tag w0 p \<and>
     (\<forall>n. n \<notin> fst ` set (canonicalImageIDs p) \<longrightarrow> tag (dock w) n = tag (dock w0) n) \<and>
     files_back w0 F p w"

lemma rollback_restores:
  assumes "image_laws dk tag" "restorable tag w0 F p w" "rollbackStagedBuild dk p w = (Inr u, w')"
  shows "tag (dock w') = tag (dock w0) \<and> (\<forall>n. n \<notin> F \<longrightarrow> map_of (artifacts w') n = map_of (artifacts w0) n)"
proof -
  obtain w1 where i: "each_collect (\<lambda>m. m) (map (restore_name dk) (canonicalImageIDs p)) w = ([], w1)"
    "each_collect (\<lambda>m. m) ((if installedArtifact p then [remove_file (canonicalArtifact p)] else []) @
      (if hadArtifact p then [rename_file (backupArtifact p) (canonicalArtifact p)] else [])) w1 = ([], w')"
    using assms(3) by (auto simp: rollbackStagedBuild_def first_failed_ok each_collect_append split: prod.splits)
  have ids: "\<forall>(c, i) \<in> set (canonicalImageIDs p). i = snapshot_of (tag (dock w0)) c"
    using assms(2) by (simp add: restorable_def remembers_def)
  have w1: "artifacts w1 = artifacts w" "tag (dock w1) = tag (dock w0)"
    using restore_images [OF assms(1) i(1) ids] assms(2) by (auto simp: restorable_def fun_eq_iff)
  have d: "dock w' = dock w1"
    using i(2) by (auto simp: remove_file_def rename_file_def bnd_def host_call_def Let_def split: if_splits option.splits)
  have "map_of (artifacts w') n = map_of (artifacts w0) n" if "n \<notin> F" for n
    using i(2) assms(2) that w1(1)
    by (auto simp: restorable_def files_back_def remove_file_def rename_file_def bnd_def host_call_def Let_def map_of_without
        split: if_splits option.splits)
  then show ?thesis using d w1(2) by simp
qed

definition as_before :: "('w \<Rightarrow> string \<Rightarrow> string option) \<Rightarrow> string set \<Rightarrow> 'w world \<Rightarrow> 'w world \<Rightarrow> bool" where
  "as_before tag F w w' \<longleftrightarrow> tag (dock w') = tag (dock w) \<and>
     (\<forall>n. n \<notin> F \<longrightarrow> map_of (artifacts w') n = map_of (artifacts w) n)"

definition rollback_failed :: "err \<Rightarrow> bool" where
  "rollback_failed e \<longleftrightarrow> (\<exists>x y. e = Join [x, Wrap ''could not roll back staged build'' y])"

lemma or_roll_back_undone:
  assumes "image_laws dk tag" "or_roll_back dk p m w1 = (Inl e, w')" "\<not> rollback_failed e"
    "\<And>e w2. m w1 = (Inl e, w2) \<Longrightarrow> restorable tag w F p w2"
  shows "as_before tag F w w'"
proof -
  obtain e1 w2 u where m: "m w1 = (Inl e1, w2)" "rollbackStagedBuild dk p w2 = (Inr u, w')"
    using assms(2,3) by (auto simp: or_roll_back_def rollback_failed_def split: prod.splits sum.splits)
  from rollback_restores [OF assms(1) assms(4) [OF m(1)] m(2)] show ?thesis by (simp add: as_before_def)
qed

lemma or_roll_back_ok: "or_roll_back dk p m w = (Inr x, w') \<Longrightarrow> m w = (Inr x, w')"
  by (auto simp: or_roll_back_def split: prod.splits sum.splits)

lemma restorable_cong:
  "restorable tag w0 F p w \<Longrightarrow> dock w' = dock w \<Longrightarrow> artifacts w' = artifacts w \<Longrightarrow> restorable tag w0 F p w'"
  by (simp add: restorable_def files_back_def)

lemma rename_file_cases:
  assumes "rename_file a b w = (r, w')"
  shows "dock w' = dock w \<and> (case r of Inl _ \<Rightarrow> artifacts w' = artifacts w
    | Inr _ \<Rightarrow> (\<exists>c. map_of (artifacts w) a = Some c \<and> artifacts w' = put b c (without_file a (artifacts w))))"
  using assms by (auto simp: rename_file_def bnd_def host_call_def Let_def split: if_splits option.splits)

lemma stat_file_cases:
  assumes "stat_file a w = (r, w')"
  shows "dock w' = dock w \<and> artifacts w' = artifacts w \<and>
    (\<forall>b. r = Inr b \<longrightarrow> b = (map_of (artifacts w) a \<noteq> None))"
  using assms by (auto simp: stat_file_def bnd_def host_call_def Let_def split: if_splits option.splits)

lemma artifact_names_differ:
  assumes "q \<noteq> []"
  shows "getArtifactsFilenameForQualifier b q \<noteq> getArtifactsFilename b" "backup_name b q \<noteq> getArtifactsFilename b"
    "isUpdateQualifier q \<Longrightarrow> backup_name b q \<noteq> getArtifactsFilenameForQualifier b q"
proof -
  have "\<not> HasPrefix (getArtifactsFilename b) ''.''" unfolding getArtifactsFilename_def by (rule Itoa_lead) simp
  then show "getArtifactsFilenameForQualifier b q \<noteq> getArtifactsFilename b" "backup_name b q \<noteq> getArtifactsFilename b"
    using assms by (auto simp: getArtifactsFilenameForQualifier_def backup_name_def)
  show "backup_name b q \<noteq> getArtifactsFilenameForQualifier b q" if "isUpdateQualifier q"
  proof
    assume "backup_name b q = getArtifactsFilenameForQualifier b q"
    then have "length (backup_name b q) = length (getArtifactsFilenameForQualifier b q)" by simp
    then show False using assms by (simp add: backup_name_def getArtifactsFilenameForQualifier_def)
  qed
qed

lemma canonical_not_staged:
  assumes "isUpdateQualifier q"
  shows "staged_name b q im \<noteq> canonical_name b im'"
proof
  assume "staged_name b q im = canonical_name b im'"
  then have "q @ ''-'' @ dockerId b (im_Host im) = Itoa (bd_Id b) @ ''-'' @ im_Host im'"
    using isUpdateQualifier_length [OF assms]
    by (cases q) (simp_all add: staged_name_def canonical_name_def buildImageName_def dockerId_def)
  moreover have "HasPrefix (q @ s) ''cmgr-validate-''" for s
    using assms by (auto simp: isUpdateQualifier_def stagedBuildQualifierPrefix_def HasPrefix_iff)
  ultimately show False using Itoa_lead [of "CHR ''c''"] by metis
qed

lemma promote_images_on:
  assumes "image_laws dk tag" "isUpdateQualifier q"
    "each (\<lambda>im. map_err (\<lambda>_. Plain ''could not promote image'')
       (must (ImageTag dk (staged_name b q im) (canonical_name b im)))) ims w = (Inr u, w')"
    "\<And>x. canonical_name b x = c \<Longrightarrow> tag (dock w) (staged_name b q x) = Some i"
    "tag (dock w) c = Some i \<or> c \<in> canonical_name b ` set ims"
  shows "tag (dock w') c = Some i"
  using assms(3-)
proof (induction ims arbitrary: w)
  case (Cons x ims)
  obtain u1 w1 where m: "must (ImageTag dk (staged_name b q x) (canonical_name b x)) w = (Inr u1, w1)"
    "each (\<lambda>im. map_err (\<lambda>_. Plain ''could not promote image'')
       (must (ImageTag dk (staged_name b q im) (canonical_name b im)))) ims w1 = (Inr u, w')"
    using Cons(2) by (auto elim!: bnd_InrE)
  have w1: "tag (dock w1) = (tag (dock w))(canonical_name b x :=
      Some (case tag (dock w) (staged_name b q x) of Some i \<Rightarrow> i | None \<Rightarrow> staged_name b q x))"
    using must_tag [OF assms(1) m(1)] by simp
  have "tag (dock w1) (staged_name b q y) = Some i" if "canonical_name b y = c" for y
    using w1 Cons(3) [OF that] canonical_not_staged [OF assms(2)] by simp
  moreover have "tag (dock w1) c = Some i \<or> c \<in> canonical_name b ` set ims"
    using w1 Cons(3) Cons(4) by auto
  ultimately show ?case by (rule Cons.IH [OF m(2)])
qed simp

lemma staged_of_canonical: "canonical_name b x = canonical_name b y \<Longrightarrow> staged_name b q x = staged_name b q y"
  by (simp add: canonical_name_def staged_name_def buildImageName_def dockerId_def)

lemma promotion_steps:
  assumes "promoteStagedBuild dk b q w = (r, w')"
  obtains
    (snapshot) e where "snapshot_images dk (Images b) (new_promotion b q) w = (Inl e, w')" "r = Inl e"
  | (images) p e w1 where "snapshot_images dk (Images b) (new_promotion b q) w = (Inr p, w1)" "r = Inl e"
      "or_roll_back dk p (promote_images dk b q) w1 = (Inl e, w')"
  | (files) p w1 w2 u where "snapshot_images dk (Images b) (new_promotion b q) w = (Inr p, w1)"
      "promote_images dk b q w1 = (Inr u, w2)"
      "(let p1 = p\<lparr>canonicalArtifact := getArtifactsFilename b, backupArtifact := backup_name b q\<rparr> in
     bnd (or_roll_back dk p1 (map_err (\<lambda>_. Plain ''could not inspect current artifacts'')
            (stat_file (canonicalArtifact p1)))) (\<lambda>there.
     bnd (if there then or_roll_back dk p1 (map_err (\<lambda>_. Plain ''could not preserve current artifacts'')
            (rename_file (canonicalArtifact p1) (backupArtifact p1))) else ret ()) (\<lambda>_.
     let p2 = p1\<lparr>hadArtifact := there\<rparr> in
     bnd (if HasArtifacts b then or_roll_back dk p2 (map_err (\<lambda>_. Plain ''could not promote staged artifacts'')
            (rename_file (getArtifactsFilenameForQualifier b q) (canonicalArtifact p2))) else ret ()) (\<lambda>_.
     ret (p2\<lparr>installedArtifact := HasArtifacts b\<rparr>))))) w2 = (r, w')"
proof -
  obtain q1 w1 where q1: "snapshot_images dk (Images b) (new_promotion b q) w = (q1, w1)" by fastforce
  show ?thesis
  proof (cases q1)
    case (Inl e)
    then show ?thesis using assms q1 by (intro snapshot [of e]) (simp_all add: promoteStagedBuild_def bnd_def)
  next
    case p: (Inr p)
    obtain q2 w2 where q2: "or_roll_back dk p (promote_images dk b q) w1 = (q2, w2)" by fastforce
    show ?thesis
    proof (cases q2)
      case (Inl e)
      then show ?thesis using assms q1 p q2 by (intro images [of p w1 e]) (simp_all add: promoteStagedBuild_def bnd_def)
    next
      case (Inr u)
      then show ?thesis using assms q1 p q2 or_roll_back_ok [of dk p _ w1 u w2]
        by (intro files [of p w1 u w2]) (simp_all add: promoteStagedBuild_def bnd_Inr)
    qed
  qed
qed

lemma snapshot_frame:
  assumes "image_laws dk tag"
  shows "snapshot_images dk ims p w = (r, w') \<Longrightarrow> artifacts w' = artifacts w \<and> tag (dock w') = tag (dock w)"
proof (induction ims arbitrary: p w)
  case (Cons im ims)
  let ?c = "canonical_name (pr_build p) im"
  obtain i k where ins: "ImageInspect dk ?c (dock w) = (i, k)" by fastforce
  have k: "tag k = tag (dock w)"
    using inspect_law [OF assms, where n = ?c and k = "dock w"] ins by (auto split: sum.splits docker_error.splits)
  show ?case
    using Cons(2) ins k Cons.IH
    by (auto simp: bnd_def call_def Let_def split: sum.splits docker_error.splits)
qed simp

definition staging_files :: "BuildMetadata \<Rightarrow> string \<Rightarrow> string set" where
  "staging_files b q = {backup_name b q, getArtifactsFilenameForQualifier b q}"

definition promoted :: "('w \<Rightarrow> string \<Rightarrow> string option) \<Rightarrow> 'w daemon \<Rightarrow> BuildMetadata \<Rightarrow> string \<Rightarrow> 'w world \<Rightarrow>
    err + stagedBuildPromotion \<Rightarrow> 'w world \<Rightarrow> bool" where
  "promoted tag dk b q w r w1 \<longleftrightarrow>
     (case r of
        Inl e \<Rightarrow> rollback_failed e \<or> as_before tag (staging_files b q) w w1
      | Inr p \<Rightarrow>
          (HasArtifacts b \<longrightarrow> map_of (artifacts w1) (getArtifactsFilename b) =
             map_of (artifacts w) (getArtifactsFilenameForQualifier b q)) \<and>
          (\<forall>w2. rollbackStagedBuild dk p w1 = (Inr (), w2) \<longrightarrow> as_before tag (staging_files b q) w w2))"

lemma files_promoted:
  assumes "image_laws dk tag" "isUpdateQualifier q" "restorable tag w (staging_files b q) p w1"
    "\<not> hadArtifact p" "\<not> installedArtifact p" "artifacts w1 = artifacts w"
    "canonicalArtifact p = getArtifactsFilename b" "backupArtifact p = backup_name b q"
    "bnd (or_roll_back dk p (map_err f1 (stat_file (canonicalArtifact p)))) (\<lambda>there.
     bnd (if there then or_roll_back dk p (map_err f2
            (rename_file (canonicalArtifact p) (backupArtifact p))) else ret ()) (\<lambda>_.
     let p2 = p\<lparr>hadArtifact := there\<rparr> in
     bnd (if HasArtifacts b then or_roll_back dk p2 (map_err f3
            (rename_file (getArtifactsFilenameForQualifier b q) (canonicalArtifact p2))) else ret ()) (\<lambda>_.
     ret (p2\<lparr>installedArtifact := HasArtifacts b\<rparr>)))) w1 = (r, w')"
  shows "promoted tag dk b q w r w' \<and> (\<forall>p'. r = Inr p' \<longrightarrow> dock w' = dock w1)"
proof -
  let ?F = "staging_files b q" and ?can = "getArtifactsFilename b" and ?st = "getArtifactsFilenameForQualifier b q"
  have q: "q \<noteq> []" using isUpdateQualifier_length [OF assms(2)] by auto
  note names = artifact_names_differ(1,2) [OF q, of b] artifact_names_differ(3) [OF q assms(2), of b]
  have F: "backup_name b q \<in> ?F" "?st \<in> ?F" "?can \<notin> ?F" "\<And>n. n \<notin> ?F \<Longrightarrow> n \<noteq> backup_name b q \<and> n \<noteq> ?st"
    using names by (auto simp: staging_files_def)
  obtain q1 w2 where s1: "or_roll_back dk p (map_err f1 (stat_file (canonicalArtifact p))) w1 = (q1, w2)" by fastforce
  show ?thesis
  proof (cases q1)
    case (Inl e)
    have "r = Inl e" "w' = w2" using assms(9) s1 Inl by (simp_all add: bnd_Inl)
    moreover have "\<not> rollback_failed e \<Longrightarrow> as_before tag ?F w w2"
      by (rule or_roll_back_undone [OF assms(1) s1 [unfolded Inl]])
        (auto elim!: map_err_InlE dest!: stat_file_cases intro: restorable_cong [OF assms(3)])
    ultimately show ?thesis by (auto simp: promoted_def)
  next
    case there: (Inr there)
    have st: "dock w2 = dock w1" "artifacts w2 = artifacts w1" "there = (map_of (artifacts w) ?can \<noteq> None)"
      using or_roll_back_ok [OF s1 [unfolded there]] stat_file_cases assms(6,7) by fastforce+
    obtain q2 w3 where s2: "(if there then or_roll_back dk p (map_err f2
            (rename_file (canonicalArtifact p) (backupArtifact p))) else ret ()) w2 = (q2, w3)" by fastforce
    show ?thesis
    proof (cases q2)
      case (Inl e)
      then have "there" using s2 by (cases there) auto
      have "r = Inl e" "w' = w3" using assms(9) s1 s2 Inl there by (simp_all add: bnd_Inl bnd_Inr)
      moreover have "\<not> rollback_failed e \<Longrightarrow> as_before tag ?F w w3"
        using s2 \<open>there\<close> Inl st
        by (intro or_roll_back_undone [OF assms(1), of p _ w2 e])
          (auto elim!: map_err_InlE dest!: rename_file_cases intro: restorable_cong [OF assms(3)])
      ultimately show ?thesis by (auto simp: promoted_def)
    next
      case (Inr u)
      let ?p2 = "p\<lparr>hadArtifact := there\<rparr>"
      have w3: "dock w3 = dock w1" "there \<Longrightarrow> \<exists>c. map_of (artifacts w) ?can = Some c \<and>
          artifacts w3 = put (backup_name b q) c (without_file ?can (artifacts w))" "\<not> there \<Longrightarrow> artifacts w3 = artifacts w"
        using s2 Inr st assms(6-8) rename_file_cases [of ?can "backup_name b q" w2]
        by (auto split: if_splits dest!: or_roll_back_ok)
      have f: "files_back w ?F ?p2 w3"
        using assms(4-8) w3(2,3) F names by (cases there) (auto simp: files_back_def map_of_without)
      then have r3: "restorable tag w ?F ?p2 w3"
        using assms(3) w3(1) by (simp add: restorable_def)
      obtain q3 w4 where s3: "(if HasArtifacts b then or_roll_back dk ?p2 (map_err f3 (rename_file ?st ?can)) else ret ()) w3 = (q3, w4)"
        by fastforce
      show ?thesis
      proof (cases q3)
        case (Inl e)
        then have h: "HasArtifacts b" using s3 by (cases "HasArtifacts b") auto
        have "r = Inl e" "w' = w4" using assms(7,9) s1 s2 s3 Inl Inr there h by (simp_all add: bnd_Inl bnd_Inr Let_def)
        moreover have "\<not> rollback_failed e \<Longrightarrow> as_before tag ?F w w4"
          using s3 h Inl
          by (intro or_roll_back_undone [OF assms(1), of ?p2 _ w3 e])
            (auto elim!: map_err_InlE dest!: rename_file_cases intro: restorable_cong [OF r3])
        ultimately show ?thesis by (auto simp: promoted_def)
      next
        case u3: (Inr u3)
        let ?p3 = "?p2\<lparr>installedArtifact := HasArtifacts b\<rparr>"
        have r: "r = Inr ?p3" "w' = w4" using assms(7,9) s1 s2 s3 u3 Inr there
          by (cases "HasArtifacts b"; simp add: bnd_Inr Let_def)+
        have w4: "dock w4 = dock w3" "HasArtifacts b \<Longrightarrow> \<exists>c. map_of (artifacts w3) ?st = Some c \<and>
            artifacts w4 = put ?can c (without_file ?st (artifacts w3))" "\<not> HasArtifacts b \<Longrightarrow> artifacts w4 = artifacts w3"
          using s3 u3 rename_file_cases [of ?st ?can w3] by (auto split: if_splits dest!: or_roll_back_ok)
        have "files_back w ?F ?p3 w4"
          using w3(2,3) w4(2,3) st(3) F names assms(4-8)
          by (cases "HasArtifacts b"; cases there) (auto simp: files_back_def map_of_without)
        then have "restorable tag w ?F ?p3 w4" using r3 w4(1) by (simp add: restorable_def)
        from rollback_restores [OF assms(1) this]
        have "rollbackStagedBuild dk ?p3 w4 = (Inr (), w5) \<Longrightarrow> as_before tag ?F w w5" for w5
          by (simp add: as_before_def)
        moreover have "HasArtifacts b \<longrightarrow> map_of (artifacts w4) ?can = map_of (artifacts w) ?st"
          using w3 w4 names by (cases there) (auto simp: map_of_without)
        ultimately show ?thesis using r w3 w4 by (simp add: promoted_def)
      qed
    qed
  qed
qed

text \<open>
  C30. Promotion is all or nothing. When promoting a staged build succeeds, every canonical image name
  names what the staged name named and the canonical artifact file is the staged one; a later rollback
  that reports success makes every image name of the daemon and every artifact file (other than the two
  staging files) what it was before the promotion. When promoting fails, it has already rolled itself
  back to the state before, unless it reports that its rollback failed.
\<close>

theorem promotion_is_undone:
  assumes "image_laws dk tag" "isUpdateQualifier q" "promoteStagedBuild dk b q w = (r, w1)"
  shows "(case r of
      Inl e \<Rightarrow> rollback_failed e \<or> as_before tag (staging_files b q) w w1
    | Inr p \<Rightarrow>
       (\<forall>im \<in> set (Images b). \<forall>i. tag (dock w) (staged_name b q im) = Some i \<longrightarrow> tag (dock w1) (canonical_name b im) = Some i) \<and>
       (HasArtifacts b \<longrightarrow> map_of (artifacts w1) (getArtifactsFilename b) =
          map_of (artifacts w) (getArtifactsFilenameForQualifier b q)) \<and>
       (\<forall>w2. rollbackStagedBuild dk p w1 = (Inr (), w2) \<longrightarrow> as_before tag (staging_files b q) w w2))"
proof -
  have q: "\<not> hadArtifact (new_promotion b q)" "\<not> installedArtifact (new_promotion b q)" "pr_build (new_promotion b q) = b"
    "canonicalImageIDs (new_promotion b q) = []" by (simp_all add: new_promotion_def)
  have snap: "restorable tag w F p0 wa \<and> \<not> hadArtifact p0 \<and> \<not> installedArtifact p0 \<and> artifacts wa = artifacts w \<and>
      tag (dock wa) = tag (dock w) \<and> fst ` set (canonicalImageIDs p0) = canonical_name b ` set (Images b)"
    if "snapshot_images dk (Images b) (new_promotion b q) w = (Inr p0, wa)" for p0 wa F
  proof -
    have "\<forall>(c, i) \<in> set (canonicalImageIDs (new_promotion b q)). i = snapshot_of (tag (dock w)) c"
      "distinct (map fst (canonicalImageIDs (new_promotion b q)))" using q by simp_all
    note sn = snapshot_ok [OF assms(1) that this]
    then have "remembers tag w p0" by (simp add: remembers_def)
    moreover have "files_back w F p0 wa" by (rule files_back_start) (use sn q in simp_all)
    ultimately show ?thesis using sn q by (simp add: restorable_def)
  qed
  have off: "restorable tag w F p0 wb \<and> artifacts wb = artifacts w"
    if "snapshot_images dk (Images b) (new_promotion b q) w = (Inr p0, wa)" "promote_images dk b q wa = (r', wb)" for p0 wa wb r' F
  proof -
    note sn = snap [OF that(1), of F]
    have a: "artifacts wb = artifacts w" using promote_images_artifacts [OF assms(1) that(2)] sn by simp
    have "tag (dock wb) n = tag (dock w) n" if "n \<notin> fst ` set (canonicalImageIDs p0)" for n
      using promote_images_off [OF assms(1) _ \<open>promote_images dk b q wa = (r', wb)\<close> [unfolded promote_images_def], of n] that sn
      by simp
    moreover have "files_back w F p0 wb" by (rule files_back_start) (use sn a in simp_all)
    ultimately show ?thesis using sn a by (simp add: restorable_def)
  qed
  show ?thesis
    using assms(3)
  proof (cases rule: promotion_steps)
    case (snapshot e)
    then show ?thesis using snapshot_frame [OF assms(1) snapshot(1)] by (simp add: as_before_def)
  next
    case (images p0 e wa)
    have "\<not> rollback_failed e \<Longrightarrow> as_before tag (staging_files b q) w w1"
      by (rule or_roll_back_undone [OF assms(1) images(3)]) (use off [OF images(1)] in auto)
    then show ?thesis using images(2) by auto
  next
    case (files p0 wa wb u)
    let ?p1 = "p0\<lparr>canonicalArtifact := getArtifactsFilename b, backupArtifact := backup_name b q\<rparr>"
    have r1: "restorable tag w (staging_files b q) ?p1 wb"
      using off [OF files(1,2), of "staging_files b q"] snap [OF files(1)]
      by (simp add: restorable_def files_back_start)
    have p: "promoted tag dk b q w r w1 \<and> (\<forall>p'. r = Inr p' \<longrightarrow> dock w1 = dock wb)"
      by (rule files_promoted [OF assms(1,2) r1 _ _ _ _ _ files(3) [unfolded Let_def [of ?p1]]])
        (use snap [OF files(1)] off [OF files(1,2)] in simp_all)
    have "tag (dock wb) (canonical_name b im) = Some i"
      if "im \<in> set (Images b)" "tag (dock w) (staged_name b q im) = Some i" for im i
    proof (rule promote_images_on [OF assms(1,2) files(2) [unfolded promote_images_def]])
      show "tag (dock wa) (staged_name b q x) = Some i" if "canonical_name b x = canonical_name b im" for x
        using \<open>tag (dock w) (staged_name b q im) = Some i\<close> snap [OF files(1)] staged_of_canonical [OF that] by simp
    qed (use that in simp)
    then show ?thesis using p by (auto simp: promoted_def split: sum.splits)
  qed
qed

text \<open>A daemon that only keeps image names: the identifier of an image is its content behind \<open>sha256:\<close>.\<close>

definition ex_id :: string where "ex_id = ''sha256:''"

definition ex_tag :: "(string \<times> string) list \<Rightarrow> string \<Rightarrow> string option" where
  "ex_tag k n = (if HasPrefix n ex_id then None else map_option ((@) ex_id) (map_of k n))"

definition ex_image_daemon :: "(string \<times> string) list daemon" where
  "ex_image_daemon = (let no = Rejected ''unsupported'' in \<lparr>
     ContainerCreate = (\<lambda>sp k. (Inl no, k)), ContainerStart = (\<lambda>c k. (Inl no, k)),
     ContainerStop = (\<lambda>c k. (Inl no, k)), ContainerRemove = (\<lambda>c k. (Inl NotFound, k)),
     ContainerInspect = (\<lambda>c k. (Inl no, k)), CopyFromContainer = (\<lambda>c k. (Inl no, k)),
     NetworkCreate = (\<lambda>n b k. (Inl no, k)), NetworkRemove = (\<lambda>n k. (Inl no, k)),
     ImageRemove = (\<lambda>n k. if ex_tag k n = None then (Inl NotFound, k) else (Inr (), without_file n k)),
     ImageInspect = (\<lambda>n k. (case ex_tag k n of None \<Rightarrow> Inl NotFound | Some i \<Rightarrow> Inr i, k)),
     ImageTag = (\<lambda>src tgt k.
       if HasPrefix tgt ex_id then (Inl no, k)
       else if HasPrefix src ex_id then (Inr (), put tgt (drop (length ex_id) src) k)
       else case map_of k src of None \<Rightarrow> (Inl NotFound, k) | Some i \<Rightarrow> (Inr (), put tgt i k)),
     ImageList = (\<lambda>k. (Inr (map (\<lambda>x. [fst x]) k), k)), ImageBuild = (\<lambda>b k. (Inl no, k)),
     ImagePull = (\<lambda>n k. (Inl no, k)), ImagePush = (\<lambda>n k. (Inl no, k)), Info = (\<lambda>k. (Inl no, k))\<rparr>)"

lemma ex_tag_put: "\<not> HasPrefix t ex_id \<Longrightarrow> ex_tag (put t i k) = (ex_tag k)(t := Some (ex_id @ i))"
  by (rule ext) (simp add: ex_tag_def)

lemma ex_tag_without: "ex_tag (without_file n k) = (ex_tag k)(n := None)"
  by (rule ext) (simp add: ex_tag_def map_of_without)

lemma ex_image_laws: "image_laws ex_image_daemon ex_tag"
proof -
  have ids: "\<forall>k n i. ex_tag k n = Some i \<longrightarrow> i \<noteq> [] \<and> (\<forall>k'. ex_tag k' i = None)"
    by (auto simp: ex_tag_def ex_id_def split: if_splits)
  have resolve: "(case ex_tag k src of Some i \<Rightarrow> i | None \<Rightarrow> src) = ex_id @ drop (length ex_id) src"
    if "HasPrefix src ex_id" for k :: "(string \<times> string) list" and src
    using that by (auto simp: ex_tag_def HasPrefix_iff)
  show ?thesis unfolding image_laws_def
    by (intro conjI ids; simp add: ex_image_daemon_def Let_def resolve ex_tag_put ex_tag_without split: option.splits)
      (auto simp: ex_tag_def fun_upd_idem split: if_splits)
qed

definition ex_image_world :: "(string \<times> string) list world" where
  "ex_image_world = \<lparr>wdb = \<lparr>tab = empty_tables, faults = []\<rparr>,
     dock = [(''c:1-h'', ''old''), (''c:'' @ ex_qualifier @ ''-1-h'', ''new'')],
     artifacts = [(''1.tar.gz'', ''a''), (''.'' @ ex_qualifier @ ''-1.tar.gz'', ''b'')],
     host_faults = [], randoms = [], diskQuotasEnabled = False, portLockHeld = False\<rparr>"

text \<open>Promoting and rolling back in one run, for the witness.\<close>

definition ex_promotion :: "bool \<times> (string \<times> string) list world \<times> (string \<times> string) list world" where
  "ex_promotion =
     (case promoteStagedBuild ex_image_daemon ex_build ex_qualifier ex_image_world of
        (Inr p, w1) \<Rightarrow> (case rollbackStagedBuild ex_image_daemon p w1 of
          (Inr _, w2) \<Rightarrow> (True, w1, w2) | (Inl _, w2) \<Rightarrow> (False, w1, w2))
      | (Inl _, w1) \<Rightarrow> (False, w1, w1))"

theorem promotion_is_undone_witness:
  "\<exists>w1 w2. ex_promotion = (True, w1, w2) \<and> ex_tag (dock w1) ''c:1-h'' = Some ''sha256:new'' \<and>
     as_before ex_tag (staging_files ex_build ex_qualifier) ex_image_world w2"
proof -
  have q: "isUpdateQualifier ex_qualifier" by code_simp
  have t: "fst ex_promotion \<and> ex_tag (dock (fst (snd ex_promotion))) ''c:1-h'' = Some ''sha256:new''" by code_simp
  obtain r w1 where p: "promoteStagedBuild ex_image_daemon ex_build ex_qualifier ex_image_world = (r, w1)" by fastforce
  obtain pr w2 u where s: "r = Inr pr" "rollbackStagedBuild ex_image_daemon pr w1 = (Inr u, w2)"
    "ex_promotion = (True, w1, w2)"
    using t p by (auto simp: ex_promotion_def split: sum.splits prod.splits)
  have "as_before ex_tag (staging_files ex_build ex_qualifier) ex_image_world w2"
    using promotion_is_undone [OF ex_image_laws q p] s(1,2) by simp
  moreover have "ex_tag (dock w1) ''c:1-h'' = Some ''sha256:new''" using t unfolding s(3) by simp
  ultimately show ?thesis using s(3) by blast
qed

section \<open>Cleanup after an interrupted update\<close>

lemma untag_keeps:
  assumes "image_laws dk tag" "n \<noteq> name"
  shows "maintains (\<lambda>w. tag (dock w) n = x) (unless_missing (ImageRemove dk name))"
  unfolding maintains_def
proof (intro allI impI)
  fix w :: "'a world"
  assume w: "tag (dock w) n = x"
  obtain r w' where u: "unless_missing (ImageRemove dk name) w = (r, w')" by fastforce
  show "tag (dock (snd (unless_missing (ImageRemove dk name) w))) n = x"
    using unless_missing_untag [OF assms(1) u] u w assms(2) by (cases r) auto
qed

lemma untag_state:
  "image_laws dk tag \<Longrightarrow> n \<noteq> name \<Longrightarrow> tag (dock (snd (unless_missing (ImageRemove dk name) w))) n = tag (dock w) n"
  using untag_keeps [of dk tag n name] by (simp add: maintains_def)

lemma dock_remove_file: "dock (snd (remove_file name w)) = dock w"
  by (simp add: remove_file_def bnd_def host_call_def Let_def)

lemma remove_file_keeps: "n \<noteq> name \<Longrightarrow> map_of (artifacts (snd (remove_file name w))) n = map_of (artifacts w) n"
  by (simp add: remove_file_def bnd_def host_call_def Let_def map_of_without)

lemma artifacts_unless_missing: "artifacts (snd (unless_missing f w)) = artifacts w"
  by (auto simp: unless_missing_def bnd_def call_def split: prod.splits sum.splits docker_error.splits)

text \<open>Removing listed names leaves the others alone, one by one.\<close>

lemma removing_images_keeps:
  fixes v :: "'w world"
  assumes "image_laws dk tag"
  shows "n \<notin> set ts \<Longrightarrow> tag (dock (snd (each_collect (\<lambda>t. map_err f (unless_missing (ImageRemove dk t))) ts v))) n = tag (dock v) n"
    and "artifacts (snd (each_collect (\<lambda>t. map_err f (unless_missing (ImageRemove dk t))) ts v)) = artifacts v"
proof -
  show "artifacts (snd (each_collect (\<lambda>t. map_err f (unless_missing (ImageRemove dk t))) ts v)) = artifacts v"
    by (rule each_collect_preserves [of "\<lambda>w. artifacts w = artifacts v"]) (auto simp: artifacts_unless_missing)
  assume n: "n \<notin> set ts"
  show "tag (dock (snd (each_collect (\<lambda>t. map_err f (unless_missing (ImageRemove dk t))) ts v))) n = tag (dock v) n"
  proof (rule each_collect_preserves [of "\<lambda>w. tag (dock w) n = tag (dock v) n"])
    fix x and s :: "'w world"
    assume x: "x \<in> set ts" and s: "tag (dock s) n = tag (dock v) n"
    have "n \<noteq> x" using x n by auto
    then show "tag (dock (snd (map_err f (unless_missing (ImageRemove dk x)) s))) n = tag (dock v) n"
      using untag_state [OF assms] s by simp
  qed simp
qed

lemma removing_files_keeps:
  fixes v :: "'w world"
  shows "n \<notin> set ts \<Longrightarrow> map_of (artifacts (snd (each_collect (\<lambda>t. map_err f (remove_file t)) ts v))) n = map_of (artifacts v) n"
    and "dock (snd (each_collect (\<lambda>t. map_err f (remove_file t)) ts v)) = dock v"
proof -
  show "dock (snd (each_collect (\<lambda>t. map_err f (remove_file t)) ts v)) = dock v"
    by (rule each_collect_preserves [of "\<lambda>w. dock w = dock v"]) (auto simp: dock_remove_file)
  assume n: "n \<notin> set ts"
  show "map_of (artifacts (snd (each_collect (\<lambda>t. map_err f (remove_file t)) ts v))) n = map_of (artifacts v) n"
  proof (rule each_collect_preserves [of "\<lambda>w. map_of (artifacts w) n = map_of (artifacts v) n"])
    fix x and s :: "'w world"
    assume x: "x \<in> set ts" and s: "map_of (artifacts s) n = map_of (artifacts v) n"
    have "n \<noteq> x" using x n by auto
    then show "map_of (artifacts (snd (map_err f (remove_file x) s))) n = map_of (artifacts v) n"
      using s by (simp add: remove_file_keeps)
  qed simp
qed

lemma cleanup_images_keeps:
  assumes "image_laws dk tag" "cleanup_images dk c ids w = (es, w1)"
  shows "(\<not> staged_for ids (stagedImageBuildID n c) \<longrightarrow> tag (dock w1) n = tag (dock w) n) \<and> artifacts w1 = artifacts w"
proof -
  obtain r v where v: "must (ImageList dk) w = (r, v)" by fastforce
  have "dock v = snd (ImageList dk (dock w))" "artifacts v = artifacts w"
    using v by (auto simp: must_def bnd_def call_def split: prod.splits sum.splits)
  then have a: "tag (dock v) = tag (dock w)" "artifacts v = artifacts w" using list_law [OF assms(1)] by simp_all
  show ?thesis
  proof (cases r)
    case (Inl e)
    then show ?thesis using assms(2) v a by (simp add: cleanup_images_def)
  next
    case (Inr items)
    let ?ts = "once (filter (\<lambda>t. staged_for ids (stagedImageBuildID t c)) (concat items))"
    have "w1 = snd (each_collect (\<lambda>t. map_err (Wrap ''remove orphaned staged image'') (unless_missing (ImageRemove dk t))) ?ts v)"
      using assms(2) v Inr by (simp add: cleanup_images_def)
    then show ?thesis using a by (simp add: removing_images_keeps [OF assms(1)] once_def)
  qed
qed

lemma cleanup_artifacts_keeps:
  assumes "cleanup_artifacts ids w1 = (es, w2)"
  shows "dock w2 = dock w1 \<and> (\<not> staged_for ids (stagedArtifactBuildID n) \<longrightarrow> map_of (artifacts w2) n = map_of (artifacts w1) n)"
proof -
  obtain r v where v: "host_call ''list staged artifacts'' w1 = (r, v)" by fastforce
  have a: "dock v = dock w1" "artifacts v = artifacts w1" using v by (auto simp: host_call_def Let_def split: if_splits)
  show ?thesis
  proof (cases r)
    case (Inl e)
    then show ?thesis using assms v a by (simp add: cleanup_artifacts_def)
  next
    case (Inr u)
    let ?ts = "filter (\<lambda>name. staged_for ids (stagedArtifactBuildID name)) (sort (remdups (map fst (artifacts v))))"
    have "w2 = snd (each_collect (\<lambda>t. map_err (Wrap ''remove orphaned staged artifacts'') (remove_file t)) ?ts v)"
      using assms v Inr by (simp add: cleanup_artifacts_def)
    then show ?thesis using a by (simp add: removing_files_keeps)
  qed
qed

text \<open>
  C31. Recovery never touches a build in use. Whatever fails, the cleanup after an interrupted update
  removes only names of images and artifact files that are read as staged names of one of the given
  builds of the challenge: every other image name, in particular every canonical one, names what it
  named, and every other artifact file, in particular every canonical one, has its content.
\<close>

theorem cleanup_only_staged:
  fixes w :: "'w world"
  assumes "image_laws dk tag" "cleanupInterruptedBuildResources dk c ids w = (r, w')"
  shows "(\<forall>n. \<not> staged_for ids (stagedImageBuildID n c) \<longrightarrow> tag (dock w') n = tag (dock w) n) \<and>
    (\<forall>n. \<not> staged_for ids (stagedArtifactBuildID n) \<longrightarrow> map_of (artifacts w') n = map_of (artifacts w) n) \<and>
    (\<forall>b h. tag (dock w') (buildImageName c b h []) = tag (dock w) (buildImageName c b h []) \<and>
      map_of (artifacts w') (getArtifactsFilename b) = map_of (artifacts w) (getArtifactsFilename b))"
proof -
  obtain es w1 where w1: "cleanup_images dk c ids w = (es, w1)" by fastforce
  obtain es' w2 where w2: "cleanup_artifacts ids w1 = (es', w2)" by fastforce
  have "w' = (if ids = [] then w else w2)"
    using assms(2) w1 w2 by (auto simp: cleanupInterruptedBuildResources_def split: if_splits)
  then have k: "(\<not> staged_for ids (stagedImageBuildID n c) \<longrightarrow> tag (dock w') n = tag (dock w) n) \<and>
      (\<not> staged_for ids (stagedArtifactBuildID n) \<longrightarrow> map_of (artifacts w') n = map_of (artifacts w) n)" for n
    using cleanup_images_keeps [OF assms(1) w1, of n] cleanup_artifacts_keeps [OF w2, of n] by simp
  then show ?thesis by (simp add: canonical_image_not_staged canonical_file_not_staged staged_for_def)
qed

theorem cleanup_only_staged_witness:
  "\<exists>w'. cleanupInterruptedBuildResources ex_image_daemon ''c'' [1] ex_image_world = (Inr (), w') \<and>
     length (dock w') = 1 \<and> map_of (artifacts w') ''1.tar.gz'' = Some ''a''"
proof -
  let ?c = "cleanupInterruptedBuildResources ex_image_daemon ''c'' [1] ex_image_world"
  have r: "fst ?c = Inr () \<and> length (dock (snd ?c)) = 1" by code_simp
  have n: "getArtifactsFilename ex_build = ''1.tar.gz''" by code_simp
  have a: "map_of (artifacts ex_image_world) ''1.tar.gz'' = Some ''a''" by (simp add: ex_image_world_def)
  obtain w' where c: "?c = (Inr (), w')" using r by (metis prod.collapse)
  have "map_of (artifacts w') (getArtifactsFilename ex_build) = map_of (artifacts ex_image_world) (getArtifactsFilename ex_build)"
    using cleanup_only_staged [OF ex_image_laws c] by blast
  then show ?thesis using c r n a by simp
qed

end
