(* ===== verification/Changes.thy ===== *)
theory Changes
  imports Loading Images
begin

text \<open>
  \<open>DetectChanges\<close> of \<open>cmgr/api.go\<close>: the challenges of a directory are compared with the stored ones. What
  the operations of the manager read besides the database and the daemon is one record, the site.
\<close>

record site =
  st_mgr :: mgr
  st_loaders :: loaders
  st_disk :: disk
  st_kind :: "string \<Rightarrow> file_kind option"
  st_cwd :: string
  st_chalDir :: string
  st_tar :: tar_format
  st_codec :: codec
  st_auth :: string

definition find_challenge :: "site \<Rightarrow> ChallengeId \<Rightarrow> (db, ChallengeMetadata) act" where
  "find_challenge st c = lookupChallengeMetadata (sha256 (st_mgr st)) (parseProfile (st_mgr st)) c"

definition safe_to_refresh :: "site \<Rightarrow> ChallengeMetadata \<Rightarrow> db \<Rightarrow> bool \<times> db" where
  "safe_to_refresh st md = safeToRefresh (sha256 (st_mgr st)) (parseProfile (st_mgr st)) md"

definition digest_changed :: "string \<Rightarrow> string \<Rightarrow> bool" where
  "digest_changed old new \<longleftrightarrow> old = [] \<or> old \<noteq> new"

definition no_updates :: ChallengeUpdates where
  "no_updates = \<lparr>Added = [], Refreshed = [], Updated = [], Removed = [], Unmodified = [], cu_Errors = []\<rparr>"

definition no_longer_there :: "site \<Rightarrow> string \<Rightarrow> ChallengeMetadata \<Rightarrow> bool" where
  "no_longer_there st fp cur \<longleftrightarrow> pathInDirectory (Path cur) fp \<or> \<not> pathInDirectory (Path cur) (st_chalDir st)"

text \<open>One stored challenge, \<open>new\<close> the one found with its identifier.\<close>

definition compare_one :: "site \<Rightarrow> ChallengeMetadata \<Rightarrow> ChallengeMetadata \<Rightarrow> ChallengeUpdates \<Rightarrow> db \<Rightarrow> ChallengeUpdates \<times> db" where
  "compare_one st cur new cu d =
     (case find_challenge st (ch_Id cur) d of
        (Inl e, d1) \<Rightarrow> (cu\<lparr>cu_Errors := cu_Errors cu @ [e]\<rparr>, d1)
      | (Inr current, d1) \<Rightarrow>
        let sourceChanged = digest_changed (SourceDigest cur) (SourceDigest new);
            metadataChanged = digest_changed (MetadataDigest cur) (MetadataDigest new);
            solvescriptChanged = (SolveScript cur \<noteq> SolveScript new);
            seccompChanged = (\<not> seccompPoliciesEqual (ch_Options current) (ch_Options new)) in
        if \<not> sourceChanged \<and> \<not> metadataChanged \<and> \<not> solvescriptChanged \<and> \<not> seccompChanged
        then (cu\<lparr>Unmodified := Unmodified cu @ [cur]\<rparr>, d1)
        else case (if \<not> sourceChanged \<and> \<not> seccompChanged then safe_to_refresh st new d1 else (False, d1)) of
          (True, d2) \<Rightarrow> (cu\<lparr>Refreshed := Refreshed cu @ [new]\<rparr>, d2)
        | (False, d2) \<Rightarrow> (cu\<lparr>Updated := Updated cu @ [new]\<rparr>, d2))"

text \<open>The loop over the stored challenges; each one found is taken out of \<open>found\<close>.\<close>

fun compare_all :: "site \<Rightarrow> string \<Rightarrow> ChallengeMetadata list \<Rightarrow> found_challenges \<Rightarrow> ChallengeUpdates \<Rightarrow> db \<Rightarrow>
    (found_challenges \<times> ChallengeUpdates) \<times> db" where
  "compare_all st fp [] found cu d = ((found, cu), d)"
| "compare_all st fp (cur # rest) found cu d =
     (case map_of found (ch_Id cur) of
        None \<Rightarrow> compare_all st fp rest found
          (if no_longer_there st fp cur then cu\<lparr>Removed := Removed cu @ [cur]\<rparr> else cu) d
      | Some new \<Rightarrow>
        (case compare_one st cur new cu d of
           (cu', d') \<Rightarrow> compare_all st fp rest (filter (\<lambda>(i, _). i \<noteq> ch_Id cur) found) cu' d'))"

definition DetectChanges :: "site \<Rightarrow> string \<Rightarrow> db \<Rightarrow> ChallengeUpdates \<times> db" where
  "DetectChanges st fp d =
     (case normalizeDirPath (st_kind st) (st_cwd st) (st_chalDir st) (if fp = [] then st_chalDir st else fp) of
        Inl e \<Rightarrow> (no_updates\<lparr>cu_Errors := [e]\<rparr>, d)
      | Inr dir \<Rightarrow>
        (case inventoryChallenges (st_mgr st) (st_loaders st) (st_disk st) dir of
           (found, errs) \<Rightarrow>
           (case listChallenges d of
              (Inl e, d1) \<Rightarrow> (no_updates\<lparr>cu_Errors := errs @ [e]\<rparr>, d1)
            | (Inr stored, d1) \<Rightarrow>
              (case compare_all st dir stored found no_updates d1 of
                 ((rest, cu), d2) \<Rightarrow> (cu\<lparr>Added := map snd rest, cu_Errors := cu_Errors cu @ errs\<rparr>, d2)))))"

section \<open>What it finds\<close>

text \<open>Operations that leave the database alone when nothing fails.\<close>

definition steady :: "(db \<Rightarrow> 'r \<times> db) \<Rightarrow> bool" where
  "steady m \<longleftrightarrow> (\<forall>d. faults d = [] \<longrightarrow> snd (m d) = d)"

lemma steadyD: "steady m \<Longrightarrow> faults d = [] \<Longrightarrow> m d = (fst (m d), d)"
  by (simp add: steady_def prod_eq_iff)

named_theorems steady_intros "operations that leave the database alone"

lemma steady_basic [steady_intros]: "steady (ret x)" "steady (raise e)" "steady (query f)" "steady (report y)"
  by (simp_all add: steady_def query_def report_def tick_def fail_next_def)

lemma steady_bnd [steady_intros]: "steady m \<Longrightarrow> (\<And>x. steady (f x)) \<Longrightarrow> steady (bnd m f)"
  unfolding steady_def by (simp add: bnd_def split: prod.splits sum.splits) (metis snd_conv)

lemma steady_list [steady_intros]: "steady m \<Longrightarrow> (\<And>x xs. steady (f x xs)) \<Longrightarrow> steady (case l of [] \<Rightarrow> m | x # xs \<Rightarrow> f x xs)"
  by (cases l) simp_all

lemma steady_sum [steady_intros]: "(\<And>x. steady (f x)) \<Longrightarrow> (\<And>y. steady (g y)) \<Longrightarrow> steady (case l of Inl x \<Rightarrow> f x | Inr y \<Rightarrow> g y)"
  by (cases l) simp_all

lemma steady_read [steady_intros]:
  assumes "steady m"
  shows "steady (readTransaction m)"
  unfolding steady_def
proof (intro allI impI)
  fix d :: db
  assume d: "faults d = []"
  then have report: "report () d = (Inr (), d)" by (simp add: report_def query_def tick_def fail_next_def)
  obtain r where "m d = (r, d)" using steadyD [OF assms d] by blast
  then show "snd (readTransaction m d) = d"
    by (cases r) (simp_all add: readTransaction_def report)
qed

lemma steady_lookup [steady_intros]: "steady (lookupChallengeMetadata hash parse c)"
  unfolding lookupChallengeMetadata_def by (intro steady_intros)

lemma steady_safe: "steady (safe_to_refresh st md)"
  unfolding steady_def
proof (intro allI impI)
  fix d :: db
  assume "faults d = []"
  then obtain r where "lookupChallengeMetadata (sha256 (st_mgr st)) (parseProfile (st_mgr st)) (ch_Id md) d = (r, d)"
    using steadyD [OF steady_lookup] by blast
  then show "snd (safe_to_refresh st md d) = d"
    by (cases r) (simp_all add: safe_to_refresh_def safeToRefresh_def)
qed

lemma steady_list_challenges: "faults d = [] \<Longrightarrow> listChallenges d = (Inr (map summary (sort_key cr_id (challenges (tab d)))), d)"
  by (simp add: listChallenges_def query_def fail_next_def tick_def)

text \<open>The class a stored challenge falls in, as a function of what is stored and found.\<close>

datatype verdict = IsUnmodified | IsRefreshed | IsUpdated | IsRemoved | IsElsewhere | IsUnreadable err

definition verdict_of :: "site \<Rightarrow> string \<Rightarrow> found_challenges \<Rightarrow> db \<Rightarrow> ChallengeMetadata \<Rightarrow> verdict" where
  "verdict_of st fp found d cur =
     (case map_of found (ch_Id cur) of
        None \<Rightarrow> if no_longer_there st fp cur then IsRemoved else IsElsewhere
      | Some new \<Rightarrow>
        (case fst (find_challenge st (ch_Id cur) d) of
           Inl e \<Rightarrow> IsUnreadable e
         | Inr current \<Rightarrow>
           if digest_changed (SourceDigest cur) (SourceDigest new) \<or>
              \<not> seccompPoliciesEqual (ch_Options current) (ch_Options new) then IsUpdated
           else if \<not> digest_changed (MetadataDigest cur) (MetadataDigest new) \<and> SolveScript cur = SolveScript new
             then IsUnmodified
           else if fst (safe_to_refresh st new d) then IsRefreshed else IsUpdated))"

definition with_verdict :: "(verdict \<Rightarrow> bool) \<Rightarrow> site \<Rightarrow> string \<Rightarrow> found_challenges \<Rightarrow> db \<Rightarrow> ChallengeMetadata list \<Rightarrow> ChallengeMetadata list" where
  "with_verdict P st fp found d = filter (\<lambda>c. P (verdict_of st fp found d c))"

definition found_for :: "found_challenges \<Rightarrow> ChallengeMetadata \<Rightarrow> ChallengeMetadata" where
  "found_for found c = the (map_of found (ch_Id c))"

fun error_of :: "verdict \<Rightarrow> err list" where
  "error_of (IsUnreadable e) = [e]"
| "error_of _ = []"

definition sorted_into :: "site \<Rightarrow> string \<Rightarrow> found_challenges \<Rightarrow> db \<Rightarrow> ChallengeMetadata list \<Rightarrow> ChallengeUpdates \<Rightarrow> ChallengeUpdates" where
  "sorted_into st fp found d stored cu = cu\<lparr>
     Refreshed := Refreshed cu @ map (found_for found) (with_verdict (\<lambda>v. v = IsRefreshed) st fp found d stored),
     Updated := Updated cu @ map (found_for found) (with_verdict (\<lambda>v. v = IsUpdated) st fp found d stored),
     Removed := Removed cu @ with_verdict (\<lambda>v. v = IsRemoved) st fp found d stored,
     Unmodified := Unmodified cu @ with_verdict (\<lambda>v. v = IsUnmodified) st fp found d stored,
     cu_Errors := cu_Errors cu @ concat (map (error_of \<circ> verdict_of st fp found d) stored)\<rparr>"

lemma compare_one_verdict:
  assumes "faults d = []" "map_of found (ch_Id cur) = Some new"
  shows "compare_one st cur new cu d = (sorted_into st fp found d [cur] cu, d)"
proof -
  obtain r where look: "find_challenge st (ch_Id cur) d = (r, d)"
    using steadyD [OF steady_lookup assms(1)] unfolding find_challenge_def by blast
  obtain b where safe: "safe_to_refresh st new d = (b, d)"
    using steadyD [OF steady_safe assms(1)] by blast
  show ?thesis
    using look safe assms(2)
    by (auto simp: compare_one_def sorted_into_def with_verdict_def verdict_of_def found_for_def Let_def
        split: sum.splits bool.splits)
qed

lemma verdict_without:
  "ch_Id c \<noteq> i \<Longrightarrow> verdict_of st fp (filter (\<lambda>(j, _). j \<noteq> i) found) d c = verdict_of st fp found d c"
proof -
  assume "ch_Id c \<noteq> i"
  then have "map_of (filter (\<lambda>(j, _). j \<noteq> i) found) (ch_Id c) = map_of found (ch_Id c)"
    by (induction found) auto
  then show ?thesis by (simp add: verdict_of_def)
qed

lemma found_without: "ch_Id c \<noteq> i \<Longrightarrow> found_for (filter (\<lambda>(j, _). j \<noteq> i) found) c = found_for found c"
  by (induction found) (auto simp: found_for_def)

lemma sorted_without:
  assumes "i \<notin> ch_Id ` set stored"
  shows "sorted_into st fp (filter (\<lambda>(j, _). j \<noteq> i) found) d stored cu = sorted_into st fp found d stored cu"
proof -
  have other: "ch_Id c \<noteq> i" if "c \<in> set stored" for c using assms that by auto
  have "with_verdict P st fp (filter (\<lambda>(j, _). j \<noteq> i) found) d stored = with_verdict P st fp found d stored" for P
    unfolding with_verdict_def using verdict_without [OF other] by (intro filter_cong) simp_all
  moreover have "map (found_for (filter (\<lambda>(j, _). j \<noteq> i) found)) (with_verdict P st fp found d stored) =
      map (found_for found) (with_verdict P st fp found d stored)" for P
    using found_without [OF other] by (simp add: with_verdict_def)
  moreover have "map (error_of \<circ> verdict_of st fp (filter (\<lambda>(j, _). j \<noteq> i) found) d) stored =
      map (error_of \<circ> verdict_of st fp found d) stored"
    using verdict_without [OF other] by simp
  ultimately show ?thesis by (simp only: sorted_into_def)
qed

lemma sorted_Cons: "sorted_into st fp found d (c # cs) cu = sorted_into st fp found d cs (sorted_into st fp found d [c] cu)"
  by (simp add: sorted_into_def with_verdict_def)

lemma compare_all_sorts:
  assumes "faults d = []" "distinct (map ch_Id stored)"
  shows "compare_all st fp stored found cu d =
    ((filter (\<lambda>(i, _). i \<notin> ch_Id ` set stored) found, sorted_into st fp found d stored cu), d)"
  using assms(2)
proof (induction stored arbitrary: found cu)
  case Nil
  then show ?case by (simp add: sorted_into_def with_verdict_def)
next
  case (Cons c stored)
  let ?rest = "filter (\<lambda>(i, _). i \<noteq> ch_Id c) found"
  have rest: "filter (\<lambda>(i, _). i \<notin> ch_Id ` set stored) ?rest = filter (\<lambda>(i, _). i \<notin> ch_Id ` set (c # stored)) found"
    by (auto intro!: filter_cong)
  show ?case
  proof (cases "map_of found (ch_Id c)")
    case None
    then have "ch_Id c \<notin> fst ` set found" by (simp add: map_of_eq_None_iff)
    then have same: "?rest = found" by (intro filter_True) force
    have "sorted_into st fp found d [c] cu = (if no_longer_there st fp c then cu\<lparr>Removed := Removed cu @ [c]\<rparr> else cu)"
      using None by (simp add: sorted_into_def with_verdict_def verdict_of_def)
    then show ?thesis
      using Cons None rest same sorted_Cons [of st fp found d c stored cu] by simp
  next
    case (Some new)
    have "compare_one st c new cu d = (sorted_into st fp found d [c] cu, d)"
      by (rule compare_one_verdict [OF assms(1) Some])
    then show ?thesis
      using Cons Some rest sorted_without [of "ch_Id c" stored] sorted_Cons [of st fp found d c stored cu] by simp
  qed
qed

definition stored_challenges :: "tables \<Rightarrow> ChallengeMetadata list" where
  "stored_challenges t = map summary (sort_key cr_id (challenges t))"

lemma stored_distinct: "constraints t \<Longrightarrow> distinct (map ch_Id (stored_challenges t))"
proof -
  assume "constraints t"
  then have "distinct (map cr_id (challenges t))" by (simp add: constraints_def challenge_constraints_def)
  moreover have "map ch_Id (stored_challenges t) = map cr_id (sort_key cr_id (challenges t))"
    by (simp add: stored_challenges_def summary_def row_meta_def)
  moreover have "distinct (map cr_id (sort_key cr_id rs)) = distinct (map cr_id rs)" for rs :: "challenge_row list"
    by (metis distinct_map distinct_sort inj_on_cong set_sort)
  ultimately show "distinct (map ch_Id (stored_challenges t))" by simp
qed


text \<open>A site with an empty challenge directory, for the witnesses.\<close>

definition ex_site :: site where
  "ex_site = \<lparr>st_mgr = ex_parsers,
     st_loaders = \<lparr>ld_json = \<lparr>Unmarshal = (\<lambda>_. None), MarshalIndent = (\<lambda>_. [])\<rparr>,
       ld_markdown = \<lparr>Convert = Some, DecodeOptions = (\<lambda>_. (no_challenge_options, True))\<rparr>, DecodeChallenge = (\<lambda>_. None),
       ld_crc = (\<lambda>_. 0), ld_files = [], ld_resolver = (\<lambda>_. Inr)\<rparr>,
     st_disk = \<lparr>tree_at = (\<lambda>_. Some (Node \<lparr>fi_Name = ''c'', fi_Size = 0, fi_Mode = 0x800001ED\<rparr> None None (Some []))),
       look_at = (\<lambda>_. \<lparr>stat_of = (\<lambda>_. None), open_of = (\<lambda>_. None)\<rparr>), link_at = Some\<rparr>,
     st_kind = (\<lambda>_. Some Directory), st_cwd = ''/'', st_chalDir = ''/c'', st_tar = (\<lambda>_. []),
     st_codec = \<lparr>Untar = (\<lambda>_. \<lparr>gzip_ok = False, entries = [], ends = False, closes = False\<rparr>), Targz = (\<lambda>_. []),
       LookupJson = (\<lambda>_. None), TrailingJson = (\<lambda>_. False)\<rparr>, st_auth = []\<rparr>"

lemma ex_site_paths:
  "pathInDirectory ''/c'' ''/c''" "\<not> pathInDirectory [] ''/c''" "Abs_path ''/'' ''/c'' = ''/c''"
  by code_simp+

lemma ex_site_inventory:
  "normalizeDirPath (st_kind ex_site) (st_cwd ex_site) (st_chalDir ex_site) (if [] = [] then st_chalDir ex_site else []) = Inr ''/c''"
  "inventoryChallenges (st_mgr ex_site) (st_loaders ex_site) (st_disk ex_site) ''/c'' = ([], [])"
  by (simp_all add: normalizeDirPath_def ex_site_def ex_site_paths inventoryChallenges_def Walk_def findChallenges_def
      hidden_def ex_tree_modes)


end
