(* ===== verification/Builds.thy ===== *)
theory Builds
  imports Changes
begin

text \<open>
  Building a challenge, from \<open>cmgr/docker.go\<close>: \<open>executeBuild\<close> makes the images of one build and reads
  its flag, lookups and artifacts out of them, \<open>generateBuilds\<close> makes and records a list of builds,
  \<open>freezeBaseImage\<close> pushes the base image. The build lock and the slots that bound the number of
  concurrent builds order operations of different threads; a single operation passes through them.
\<close>

section \<open>Images of a build\<close>

definition base_image :: "mgr \<Rightarrow> ChallengeMetadata \<Rightarrow> string" where
  "base_image m c = challengeRegistry m @ ''/'' @ challengeToFreezeName (ch_Id c) @ '':'' @ challengeSourceVersion c"

text \<open>A base image in the registry seeds the cache; failing to pull it is no error.\<close>

definition pull_base :: "'w daemon \<Rightarrow> string \<Rightarrow> ('w world, string list) act" where
  "pull_base dk name =
     bnd (call (ImagePull dk name)) (\<lambda>r.
     case r of
       Inl _ \<Rightarrow> ret []
     | Inr p \<Rightarrow> (case consumeDockerProgress p ''base image pull'' of Inl _ \<Rightarrow> ret [] | Inr _ \<Rightarrow> ret [name]))"

definition host_image :: "ChallengeMetadata \<Rightarrow> string \<Rightarrow> Image" where
  "host_image c host = \<lparr>im_Id = 0, im_Host = host,
     im_Ports = map (\<lambda>(_, e). Itoa (pi_Port e) @ ''/tcp'') (filter (\<lambda>(_, e). pi_Host e = host) (PortMap c)), im_Build = 0\<rparr>"

definition build_options :: "site \<Rightarrow> BuildMetadata \<Rightarrow> string list \<Rightarrow> string \<Rightarrow> string \<Rightarrow> string \<Rightarrow> image_build" where
  "build_options st b cache name target context =
     \<lparr>ib_Args = [(''FLAG_FORMAT'', Format b), (''SEED'', Itoa (Seed b)), (''FLAG'', makeFlag (sha256 (st_mgr st)) b)],
      ib_CacheFrom = cache, ib_Tags = [name], ib_Target = target, ib_NoCache = False, ib_PullParent = False,
      ib_Context = context\<rparr>"

text \<open>The context file is shut before the outcome of the build is looked at.\<close>

definition built :: "docker_error + progress \<Rightarrow> err + unit \<Rightarrow> err + progress" where
  "built r shut =
     (case r of
        Inl e \<Rightarrow> Inl (docker_err e)
      | Inr p \<Rightarrow> (case shut of Inl e \<Rightarrow> Inl (Wrap ''could not close build context'' e) | Inr _ \<Rightarrow> Inr p))"

text \<open>The loop over the hosts: the images so far, the names offered to the cache, the image to read from.\<close>

fun build_hosts :: "'w daemon \<Rightarrow> site \<Rightarrow> ChallengeMetadata \<Rightarrow> BuildMetadata \<Rightarrow> string \<Rightarrow> string \<Rightarrow> HostInfo list \<Rightarrow>
    Image list \<Rightarrow> string list \<Rightarrow> string \<Rightarrow> ('w world, Image list \<times> string) act" where
  "build_hosts dk st c b context qualifier [] ims cache buildImage = ret (ims, buildImage)"
| "build_hosts dk st c b context qualifier (h # hs) ims cache buildImage =
     (let name = buildImageName (ch_Id c) b (hi_Name h) qualifier;
          buildImage' = (if hi_Name h = ''builder'' \<or> (hi_Name h = ''challenge'' \<and> buildImage = []) then name else buildImage) in
      bnd (host_call ''open build context'') (\<lambda>_.
      bnd (call (ImageBuild dk (build_options st b cache name (hi_Target h) context))) (\<lambda>r.
      bnd (attempt (host_call ''close'')) (\<lambda>shut.
      bnd (lift_sum (built r shut)) (\<lambda>p.
      bnd (lift_sum (consumeDockerProgress p ''challenge image build'')) (\<lambda>_.
      build_hosts dk st c b context qualifier hs (ims @ [host_image c (hi_Name h)]) (cache @ [name]) buildImage'))))))"

section \<open>Output of a build\<close>

record build_output =
  bo_lookups :: "(string \<times> string) list"
  bo_tweaks :: "string list"
  bo_flag :: string
  bo_files :: "string list"
  bo_metadata :: bool
  bo_artifacts :: bool

definition no_output :: build_output where
  "no_output = \<lparr>bo_lookups = [], bo_tweaks = [], bo_flag = [], bo_files = [], bo_metadata = False, bo_artifacts = False\<rparr>"

definition maxBuildMetadataBytes :: int where "maxBuildMetadataBytes = 1024 * 1024"

definition read_metadata :: "codec \<Rightarrow> string \<Rightarrow> build_output \<Rightarrow> err + build_output" where
  "read_metadata cd bytes bo =
     (if int (length bytes) > maxBuildMetadataBytes then Inl (Plain ''build metadata exceeds its maximum size'')
      else case LookupJson cd bytes of
        None \<Rightarrow> Inl (Plain ''could not decode build metadata JSON file'')
      | Some lookups \<Rightarrow>
        if TrailingJson cd bytes then Inl (Plain ''build metadata contains trailing JSON data'')
        else case map_of lookups ''flag'' of
          None \<Rightarrow> Inl (Plain ''build metadata missing the flag'')
        | Some flag \<Rightarrow>
          sbind (consumeBuildSeccompTweaks (filter (\<lambda>kv. fst kv \<noteq> ''flag'') lookups)) (\<lambda>(tweaks, rest).
          Inr (bo\<lparr>bo_lookups := rest, bo_tweaks := tweaks, bo_flag := flag\<rparr>)))"

definition read_artifacts :: "site \<Rightarrow> string \<Rightarrow> string \<Rightarrow> build_output \<Rightarrow> ('w world, build_output) act" where
  "read_artifacts st file bytes bo =
     bnd (cacheArtifacts (st_codec st) (policy (st_mgr st)) bytes file) (\<lambda>files.
     bnd (if files = [] then map_err (Wrap ''could not remove empty artifact archive'') (remove_file file) else ret ()) (\<lambda>_.
     ret (bo\<lparr>bo_files := files\<rparr>)))"

fun read_output :: "site \<Rightarrow> string \<Rightarrow> (string \<times> string) list \<Rightarrow> bool \<Rightarrow> build_output \<Rightarrow> ('w world, build_output) act" where
  "read_output st file [] ended bo = (if ended then ret bo else raise (Plain ''could not read metadata file''))"
| "read_output st file ((name, bytes) # rest) ended bo =
     (if name = ''challenge/metadata.json'' then
        (if bo_metadata bo then raise (Plain ''build output contains metadata.json more than once'')
         else bnd (lift_sum (read_metadata (st_codec st) bytes (bo\<lparr>bo_metadata := True\<rparr>))) (read_output st file rest ended))
      else if name = ''challenge/artifacts.tar.gz'' then
        (if bo_artifacts bo then raise (Plain ''build output contains artifacts.tar.gz more than once'')
         else bnd (read_artifacts st file bytes (bo\<lparr>bo_artifacts := True\<rparr>)) (read_output st file rest ended))
      else read_output st file rest ended bo)"

definition maxFlagBytes :: "managerPolicy \<Rightarrow> int" where
  "maxFlagBytes pol = (if MaxSolverFlagBytes pol = 0 then 4 * 1024 else MaxSolverFlagBytes pol)"

definition check_flag :: "managerPolicy \<Rightarrow> string \<Rightarrow> err + unit" where
  "check_flag pol flag =
     (if flag = [] then Inl (Plain ''flag missing in metadata.json'')
      else if int (length flag) > maxFlagBytes pol then Inl (Plain ''build flag is too large'') else Inr ())"

text \<open>Steps whose errors are ignored.\<close>

definition quietly :: "('s, 'a) act \<Rightarrow> ('s, unit) act" where
  "quietly m = bnd (attempt m) (\<lambda>_. ret ())"

text \<open>A build whose references do not fit is taken back.\<close>

definition accept_build :: "'w daemon \<Rightarrow> ChallengeMetadata \<Rightarrow> BuildMetadata \<Rightarrow> string \<Rightarrow> string list \<Rightarrow> ('w world, BuildMetadata) act" where
  "accept_build dk c b qualifier files =
     (case validateBuild c b files of
        Inr _ \<Rightarrow> ret b
      | Inl e \<Rightarrow>
        bnd (quietly (remove_file (getArtifactsFilenameForQualifier b qualifier))) (\<lambda>_.
        bnd (each (\<lambda>im. quietly (call (ImageRemove dk (buildImageName (bd_Challenge b) b (im_Host im) qualifier)))) (Images b)) (\<lambda>_.
        raise e)))"

definition extract_build :: "'w daemon \<Rightarrow> site \<Rightarrow> ChallengeMetadata \<Rightarrow> BuildMetadata \<Rightarrow> string \<Rightarrow> Image list \<Rightarrow> string \<Rightarrow>
    ('w world, BuildMetadata) act" where
  "extract_build dk st c b qualifier ims cid =
     bnd (must (CopyFromContainer dk cid)) (\<lambda>(tar, ended).
     bnd (read_output st (getArtifactsFilenameForQualifier b qualifier) tar ended no_output) (\<lambda>out.
     bnd (lift_sum (check_flag (policy (st_mgr st)) (bo_flag out))) (\<lambda>_.
     accept_build dk c (b\<lparr>Flag := bo_flag out, LookupData := bo_lookups out, RequiredSeccompTweaks := bo_tweaks out, Images := ims, HasArtifacts := (bo_files out \<noteq> [])\<rparr>)
       qualifier (bo_files out))))"

text \<open>
  The container that the output is read from is retired before it is used, so a crash leaves it to the
  next start; the deferred removal runs on every path and only logs its errors.
\<close>

definition with_temporary :: "'w daemon \<Rightarrow> string \<Rightarrow> container_spec \<Rightarrow> (string \<Rightarrow> ('w world, 'a) act) \<Rightarrow> ('w world, 'a) act" where
  "with_temporary dk what sp body =
     bnd (must (ContainerCreate dk sp)) (\<lambda>cid w.
     case in_db (retireContainer cid) w of
       (Inl e, w1) \<Rightarrow>
         bnd (attempt (must (ContainerRemove dk cid))) (\<lambda>r.
         raise (Join (Wrap (''could not track temporary '' @ what @ '' container'') e #
           (case r of Inl e' \<Rightarrow> [e'] | Inr _ \<Rightarrow> [])))) w1
     | (Inr _, w1) \<Rightarrow>
         bnd (attempt (body cid)) (\<lambda>r.
         bnd (quietly (removeRetiredContainerIDs dk [cid])) (\<lambda>_. lift_sum r)) w1)"

definition with_build_container :: "'w daemon \<Rightarrow> string \<Rightarrow> (string \<Rightarrow> ('w world, 'a) act) \<Rightarrow> ('w world, 'a) act" where
  "with_build_container dk im = with_temporary dk ''build'' (blank_spec\<lparr>cs_Image := im\<rparr>)"

definition executeBuild :: "'w daemon \<Rightarrow> site \<Rightarrow> ChallengeMetadata \<Rightarrow> BuildMetadata \<Rightarrow> string \<Rightarrow> string \<Rightarrow> ('w world, BuildMetadata) act" where
  "executeBuild dk st c b context qualifier =
     bnd (pull_base dk (base_image (st_mgr st) c)) (\<lambda>cache.
     bnd (build_hosts dk st c b context qualifier (Hosts c) [] cache []) (\<lambda>(ims, buildImage).
     if buildImage = [] then raise (Plain ''aborting because no build image identified'')
     else with_build_container dk buildImage (extract_build dk st c b qualifier ims)))"

section \<open>Lists of builds\<close>

definition lookup_challenge :: "site \<Rightarrow> ChallengeId \<Rightarrow> ('w world, ChallengeMetadata) act" where
  "lookup_challenge st c = in_db (find_challenge st c)"

definition detect :: "site \<Rightarrow> string \<Rightarrow> ('w world, ChallengeUpdates) act" where
  "detect st fp = in_db (\<lambda>d. case DetectChanges st fp d of (cu, d') \<Rightarrow> (Inr cu, d'))"

definition build_context_of :: "site \<Rightarrow> ChallengeMetadata \<Rightarrow> ('w world, string) act" where
  "build_context_of st c =
     createBuildContext (ld_json (st_loaders st)) (st_tar st) (ld_files (st_loaders st)) (policy (st_mgr st))
       (tree_at (st_disk st) (Dir (Path c))) c (GetDockerfile (ld_files (st_loaders st)) (ChallengeType c))"

text \<open>The row of a build: a new one, or one that may have been completed by somebody else.\<close>

definition claim_build :: "BuildMetadata \<Rightarrow> ('w world, BuildMetadata) act" where
  "claim_build b =
     (if bd_Id b = 0 then in_db (openBuild b)
      else bnd (in_db (lookupBuildMetadata (bd_Id b))) (\<lambda>persisted.
        ret (if Flag persisted \<noteq> [] then persisted\<lparr>InstanceCount := InstanceCount b\<rparr> else b)))"

text \<open>What is left of a failed build is removed; errors of that are joined.\<close>

definition abandon_build :: "'w daemon \<Rightarrow> ChallengeMetadata \<Rightarrow> BuildMetadata \<Rightarrow> string \<Rightarrow> err \<Rightarrow> ('w world, 'a) act" where
  "abandon_build dk c b what e =
     bnd (attempt (discardStagedBuild dk c b [])) (\<lambda>r1.
     let e1 = (case r1 of Inl e' \<Rightarrow> Join [e, e'] | Inr _ \<Rightarrow> e) in
     bnd (attempt (in_db (removeBuildMetadata (bd_Id b)))) (\<lambda>r2.
     raise (case r2 of Inl e' \<Rightarrow> Join [e1, Wrap what e'] | Inr _ \<Rightarrow> e1)))"

definition generate_one :: "'w daemon \<Rightarrow> site \<Rightarrow> ChallengeMetadata \<Rightarrow> string \<Rightarrow> BuildMetadata \<Rightarrow> ('w world, BuildMetadata) act" where
  "generate_one dk st c context b =
     (if Flag b \<noteq> [] then ret b
      else
      bnd (claim_build b) (\<lambda>b1.
      if Flag b1 \<noteq> [] then ret b1
      else
      bnd (attempt (executeBuild dk st c b1 context [])) (\<lambda>r.
      case r of
        Inl e \<Rightarrow> abandon_build dk c b1 ''could not remove failed build metadata'' e
      | Inr b2 \<Rightarrow>
        bnd (attempt (in_db (finalizeBuild b2))) (\<lambda>r'.
        case r' of
          Inl e \<Rightarrow> abandon_build dk c b2 ''could not remove unfinalized build metadata'' e
        | Inr b3 \<Rightarrow> ret b3))))"

definition generateBuilds :: "'w daemon \<Rightarrow> site \<Rightarrow> BuildMetadata list \<Rightarrow> ('w world, BuildMetadata list) act" where
  "generateBuilds dk st bs =
     (if bs = [] \<or> list_all (\<lambda>b. Flag b \<noteq> []) bs then ret bs
      else
      bnd (lookup_challenge st (bd_Challenge (hd bs))) (\<lambda>c.
      bnd (detect st (Dir (Path c))) (\<lambda>cu.
      if cu_Errors cu \<noteq> [] then raise (Plain ''errors detected in directory'')
      else if ch_Id c \<notin> ch_Id ` set (Unmodified cu) then raise (Plain ''has changed since last update'')
      else
      bnd (build_context_of st c) (\<lambda>context. collect (generate_one dk st c context) bs))))"

section \<open>Freezing\<close>

definition freezeBaseImage :: "'w daemon \<Rightarrow> site \<Rightarrow> ChallengeId \<Rightarrow> bool \<Rightarrow> ('w world, unit) act" where
  "freezeBaseImage dk st challenge force =
     bnd (lookup_challenge st challenge) (\<lambda>c.
     let name = base_image (st_mgr st) c in
     bnd (build_context_of st c) (\<lambda>context.
     bnd (host_call ''open build context'') (\<lambda>_.
     bnd (must (ImageBuild dk \<lparr>ib_Args = [], ib_CacheFrom = [], ib_Tags = [name], ib_Target = ''base'', ib_NoCache = force,
       ib_PullParent = force, ib_Context = context\<rparr>)) (\<lambda>p.
     bnd (lift_sum (consumeDockerProgress p ''base image build'')) (\<lambda>_.
     bnd (must (ImagePush dk name)) (\<lambda>q.
     lift_sum (consumeDockerProgress q ''base image push'')))))))"

section \<open>What an accepted build is\<close>

definition same_files :: "(string \<times> string) list \<Rightarrow> 'w world \<Rightarrow> bool" where
  "same_files fs w \<longleftrightarrow> artifacts w = fs"

lemma same_files_steps [maintains_intros]:
  "maintains (same_files fs) (in_db m1)" "maintains (same_files fs) (call k)" "maintains (same_files fs) (host_call what)"
  by (auto simp: maintains_def same_files_def host_call_def Let_def)

lemma same_files_docker [maintains_intros]:
  "maintains (same_files fs) (must f)" "maintains (same_files fs) (unless_missing g)"
  unfolding must_def unless_missing_def by (intro maintains_intros)+

lemma same_files_quietly [maintains_intros]: "maintains P m \<Longrightarrow> maintains P (quietly m)"
  unfolding quietly_def by (intro maintains_intros)

lemma same_files_retired [maintains_intros]: "maintains (same_files fs) (removeRetiredContainerIDs dk cs)"
  unfolding removeRetiredContainerIDs_def by (intro maintains_intros)

text \<open>The artifacts read so far, as the file that holds them.\<close>

definition holds_output :: "codec \<Rightarrow> managerPolicy \<Rightarrow> string \<Rightarrow> string list \<Rightarrow> 'w world \<Rightarrow> bool" where
  "holds_output cd pol file files w \<longleftrightarrow>
     (files \<noteq> [] \<longrightarrow> (\<exists>out. map_of (artifacts w) file = Some (Targz cd out) \<and> archive_ok (artifactLimits pol) out \<and> files = published out))"

lemma read_metadata_files: "read_metadata cd bytes bo = Inr bo' \<Longrightarrow> bo_files bo' = bo_files bo \<and> bo_artifacts bo' = bo_artifacts bo"
  by (auto simp: read_metadata_def sbind_Inr_iff split: if_splits option.splits)

lemma read_artifacts_holds:
  assumes "read_artifacts st file bytes bo w = (Inr bo', w')" "\<not> HasPrefix file temp_prefix"
    "0 \<le> MaxArtifactFiles (policy (st_mgr st))" "0 \<le> MaxArtifactBytes (policy (st_mgr st))"
  shows "holds_output (st_codec st) (policy (st_mgr st)) file (bo_files bo') w'"
proof -
  obtain files w1 where c: "cacheArtifacts (st_codec st) (policy (st_mgr st)) bytes file w = (Inr files, w1)"
    and rest: "bnd (if files = [] then map_err (Wrap ''could not remove empty artifact archive'') (remove_file file) else ret ())
      (\<lambda>_. ret (bo\<lparr>bo_files := files\<rparr>)) w1 = (Inr bo', w')"
    using assms(1) unfolding read_artifacts_def by (auto elim: bnd_InrE)
  note stored = cacheArtifacts_stores [OF c assms(3,4,2)]
  show ?thesis
  proof (cases "files = []")
    case True
    then show ?thesis using rest by (auto simp: holds_output_def elim!: bnd_InrE)
  next
    case False
    then have "bo' = bo\<lparr>bo_files := files\<rparr>" "w' = w1" using rest by simp_all
    then show ?thesis using stored by (simp add: holds_output_def)
  qed
qed

lemma lift_sum_Inr [simp]: "lift_sum r w = (Inr x, w') \<longleftrightarrow> r = Inr x \<and> w' = w"
  by (cases r) (auto simp: lift_sum_def)

lemma read_output_holds:
  assumes "read_output st fn tar ended bo w = (Inr out, w')" "\<not> HasPrefix fn temp_prefix"
    "0 \<le> MaxArtifactFiles (policy (st_mgr st))" "0 \<le> MaxArtifactBytes (policy (st_mgr st))"
    "holds_output (st_codec st) (policy (st_mgr st)) fn (bo_files bo) w" "\<not> bo_artifacts bo \<longrightarrow> bo_files bo = []"
  shows "holds_output (st_codec st) (policy (st_mgr st)) fn (bo_files out) w'"
  using assms
proof (induction st fn tar ended bo arbitrary: w rule: read_output.induct)
  case (1 st fn ended bo)
  then show ?case by (auto split: if_splits)
next
  case (2 st fn name bytes rest ended bo)
  show ?case
  proof (cases "name = ''challenge/metadata.json''")
    case True
    then obtain bo1 where bo1: "\<not> bo_metadata bo" "read_metadata (st_codec st) bytes (bo\<lparr>bo_metadata := True\<rparr>) = Inr bo1"
      "read_output st fn rest ended bo1 w = (Inr out, w')"
      using "2.prems"(1) by (auto split: if_splits elim!: bnd_InrE)
    then show ?thesis
      using "2.IH"(1) [OF True bo1(1) bo1(3)] "2.prems" read_metadata_files [OF bo1(2)] by simp
  next
    case no_meta: False
    show ?thesis
    proof (cases "name = ''challenge/artifacts.tar.gz''")
      case True
      then obtain bo1 w1 where bo1: "\<not> bo_artifacts bo" "read_artifacts st fn bytes (bo\<lparr>bo_artifacts := True\<rparr>) w = (Inr bo1, w1)"
        "read_output st fn rest ended bo1 w1 = (Inr out, w')"
        using "2.prems"(1) no_meta by (auto split: if_splits elim!: bnd_InrE)
      have "bo_artifacts bo1" using bo1(2) by (auto simp: read_artifacts_def elim!: bnd_InrE)
      then show ?thesis
        using "2.IH"(2) [OF no_meta True bo1(1) bo1(3)] read_artifacts_holds [OF bo1(2)] "2.prems" by simp
    next
      case False
      then show ?thesis using "2.IH"(3) [OF no_meta False] "2.prems" no_meta by simp
    qed
  qed
qed

lemma build_hosts_images:
  assumes "build_hosts dk st c b context qualifier hs ims cache im w = (Inr (ims', im'), w')"
  shows "map im_Host ims' = map im_Host ims @ map hi_Name hs"
  using assms
proof (induction dk st c b "context" qualifier hs ims cache im arbitrary: w rule: build_hosts.induct)
  case (2 dk st c b ctx qualifier h hs ims cache buildImage)
  then show ?case
    by (auto simp: Let_def host_image_def elim!: bnd_InrE)
qed simp

lemma artifact_name_not_temp:
  assumes "qualifier = [] \<or> isUpdateQualifier qualifier"
  shows "\<not> HasPrefix (getArtifactsFilenameForQualifier b qualifier) temp_prefix"
proof (cases "qualifier = []")
  case True
  then show ?thesis by (simp add: getArtifactsFilenameForQualifier_def getArtifactsFilename_def Itoa_lead temp_prefix_def)
next
  case False
  then have "isUpdateQualifier qualifier" using assms by simp
  then show ?thesis using False
    by (auto simp: getArtifactsFilenameForQualifier_def temp_prefix_def isUpdateQualifier_def stagedBuildQualifierPrefix_def HasPrefix_iff)
qed

text \<open>What a build that was made from a challenge owes to it.\<close>

definition complete_build :: "site \<Rightarrow> ChallengeMetadata \<Rightarrow> BuildMetadata \<Rightarrow> string \<Rightarrow> 'w world \<Rightarrow> bool" where
  "complete_build st c b file w \<longleftrightarrow>
     Flag b \<noteq> [] \<and> int (length (Flag b)) \<le> maxFlagBytes (policy (st_mgr st)) \<and>
     map im_Host (Images b) = map hi_Name (Hosts c) \<and>
     referenced lookupRe c = set (map fst (LookupData b)) \<and>
     (if HasArtifacts b
      then \<exists>out. map_of (artifacts w) file = Some (Targz (st_codec st) out) \<and>
        archive_ok (artifactLimits (policy (st_mgr st))) out \<and> published out \<noteq> [] \<and> referenced urlRe c = set (published out)
      else referenced urlRe c = {})"

lemma extract_build_complete:
  assumes "extract_build dk st c b qualifier ims cid w = (Inr b', w')" "qualifier = [] \<or> isUpdateQualifier qualifier"
    "0 \<le> MaxArtifactFiles (policy (st_mgr st))" "0 \<le> MaxArtifactBytes (policy (st_mgr st))"
    "map im_Host ims = map hi_Name (Hosts c)"
  shows "bd_Id b' = bd_Id b \<and> complete_build st c b' (getArtifactsFilenameForQualifier b qualifier) w'"
proof -
  let ?file = "getArtifactsFilenameForQualifier b qualifier"
  obtain tar ended w1 out w2 where
    out: "read_output st ?file tar ended no_output w1 = (Inr out, w2)" and
    flag: "check_flag (policy (st_mgr st)) (bo_flag out) = Inr ()" and
    acc: "accept_build dk c (b\<lparr>Flag := bo_flag out, LookupData := bo_lookups out, RequiredSeccompTweaks := bo_tweaks out,
      Images := ims, HasArtifacts := (bo_files out \<noteq> [])\<rparr>) qualifier (bo_files out) w2 = (Inr b', w')"
    using assms(1) unfolding extract_build_def by (auto elim!: bnd_InrE)
  have h: "holds_output (st_codec st) (policy (st_mgr st)) ?file (bo_files out) w2"
    by (rule read_output_holds [OF out artifact_name_not_temp [OF assms(2)] assms(3,4)]) (simp_all add: no_output_def holds_output_def)
  from acc have v: "validateBuild c b' (bo_files out) = Inr ()" and b': "w' = w2"
    "b' = b\<lparr>Flag := bo_flag out, LookupData := bo_lookups out, RequiredSeccompTweaks := bo_tweaks out,
      Images := ims, HasArtifacts := (bo_files out \<noteq> [])\<rparr>"
    by (auto simp: accept_build_def split: sum.splits elim!: bnd_InrE)
  have f: "Flag b' = bo_flag out" "Images b' = ims" "HasArtifacts b' \<longleftrightarrow> bo_files out \<noteq> []" "bd_Id b' = bd_Id b"
    unfolding b'(2) by simp_all
  show ?thesis
    using h v flag assms(5) unfolding complete_build_def f b'(1) validateBuild_iff holds_output_def
    by (auto simp: check_flag_def split: if_splits)
qed

lemma with_temporary_result:
  assumes "with_temporary dk what sp body w = (Inr x, w')"
  shows "\<exists>cid w1 w2. body cid w1 = (Inr x, w2) \<and> artifacts w' = artifacts w2"
proof -
  obtain cid w0 w1 w2 u where b: "body cid w1 = (Inr x, w2)" "quietly (removeRetiredContainerIDs dk [cid]) w2 = (u, w')"
    using assms unfolding with_temporary_def
    by (auto simp: attempt_def elim!: bnd_InrE split: prod.splits sum.splits)
  have "maintains (same_files (artifacts w2)) (quietly (removeRetiredContainerIDs dk [cid]))" by (intro maintains_intros)
  from maintainsD [OF this _ b(2)] have "same_files (artifacts w2) w'" by (simp add: same_files_def)
  then show ?thesis using b by (auto simp: same_files_def)
qed

text \<open>
  C37. A build that is reported as made is complete. Its flag is there and keeps the bound, it has one
  image for each host of the challenge in their order, the texts of the challenge name exactly the lookups
  that the build defined and exactly the files that it published, and these are in a stored archive
  that keeps the limits of the policy.
\<close>

theorem executed_build_complete:
  assumes "executeBuild dk st c b context qualifier w = (Inr b', w')" "qualifier = [] \<or> isUpdateQualifier qualifier"
    "0 \<le> MaxArtifactFiles (policy (st_mgr st))" "0 \<le> MaxArtifactBytes (policy (st_mgr st))"
  shows "bd_Id b' = bd_Id b \<and> complete_build st c b' (getArtifactsFilenameForQualifier b qualifier) w'"
proof -
  obtain cache im ims w1 w2 where
    hosts: "build_hosts dk st c b context qualifier (Hosts c) [] cache [] w1 = (Inr (ims, im), w2)" and
    run: "with_build_container dk im (extract_build dk st c b qualifier ims) w2 = (Inr b', w')"
    using assms(1) unfolding executeBuild_def by (auto elim!: bnd_InrE split: if_splits)
  obtain cid w3 w4 where x: "extract_build dk st c b qualifier ims cid w3 = (Inr b', w4)" "artifacts w' = artifacts w4"
    using with_temporary_result [OF run [unfolded with_build_container_def]] by blast
  have "map im_Host ims = map hi_Name (Hosts c)" using build_hosts_images [OF hosts] by simp
  from extract_build_complete [OF x(1) assms(2-4) this] show ?thesis by (simp add: complete_build_def x(2))
qed

text \<open>A challenge with one host that publishes one file and one lookup, and a daemon that builds it, for the witness.\<close>

definition ex_made_challenge :: ChallengeMetadata where
  "ex_made_challenge = ex_challenge_file\<lparr>Details := ''{{url('' @ in_dq ''a'' @ '')}} {{lookup('' @ in_dq ''k'' @ '')}}'',
     Hosts := [\<lparr>hi_Name = ''challenge'', hi_Target = []\<rparr>]\<rparr>"

definition ex_build_site :: site where
  "ex_build_site = ex_site\<lparr>
     st_mgr := ex_parsers\<lparr>policy := (policy ex_parsers)\<lparr>MaxArtifactFiles := 9, MaxArtifactBytes := 99, MaxArtifactFileBytes := 9\<rparr>\<rparr>,
     st_codec := ex_codec\<lparr>LookupJson := (\<lambda>_. Some [(''flag'', ''f''), (''k'', ''v'')])\<rparr>\<rparr>"

definition ex_builder :: "(string \<times> string) list daemon" where
  "ex_builder = ex_image_daemon\<lparr>
     ImageBuild := (\<lambda>b k. (Inr ([], True), put (hd (ib_Tags b)) ''new'' k)),
     ContainerCreate := (\<lambda>sp k. (Inr ''cid'', k)), ContainerRemove := (\<lambda>c k. (Inr (), k)),
     CopyFromContainer := (\<lambda>c k. (Inr ([(''challenge/metadata.json'', ''{}''), (''challenge/artifacts.tar.gz'', ''xy'')], True), k))\<rparr>"

definition ex_unmade :: BuildMetadata where "ex_unmade = ex_build\<lparr>Flag := []\<rparr>"

definition ex_host_images :: "Image list" where "ex_host_images = [host_image ex_made_challenge ''challenge'']"

definition ex_built_world :: "(string \<times> string) list world" where
  "ex_built_world = ex_image_world\<lparr>dock := put ''c:1-challenge'' ''new'' (dock ex_image_world)\<rparr>"

lemma ex_build_hosts:
  "build_hosts ex_builder ex_build_site ex_made_challenge ex_unmade [] [] (Hosts ex_made_challenge) [] [] [] ex_image_world =
     (Inr (ex_host_images, ''c:1-challenge''), ex_built_world)"
  by code_simp

lemma ex_no_base: "pull_base ex_builder n ex_image_world = (Inr [], ex_image_world)"
  by (simp add: pull_base_def ex_builder_def ex_image_daemon_def Let_def call_def bnd_def ret_def ex_image_world_def)

lemma quietly_quiet: "fst (quietly m w) = Inr ()"
  by (simp add: quietly_def attempt_def bnd_def ret_def split: prod.splits)

lemma with_build_container_runs:
  assumes "must (ContainerCreate dk (blank_spec\<lparr>cs_Image := im\<rparr>)) w = (Inr cid, w0)"
    "in_db (retireContainer cid) w0 = (Inr (), w1)" "fst (body cid w1) = Inr x"
  shows "fst (with_build_container dk im body w) = Inr x"
  using assms quietly_quiet [of "removeRetiredContainerIDs dk [cid]" "snd (body cid w1)"]
  by (cases "body cid w1") (auto simp: with_build_container_def with_temporary_def bnd_def attempt_def lift_sum_def ret_def split: prod.splits sum.splits)

theorem executed_build_complete_witness:
  "\<exists>b' w'. executeBuild ex_builder ex_build_site ex_made_challenge ex_unmade [] [] ex_image_world = (Inr b', w') \<and>
     complete_build ex_build_site ex_made_challenge b' ''1.tar.gz'' w'"
proof -
  let ?body = "extract_build ex_builder ex_build_site ex_made_challenge ex_unmade [] ex_host_images"
  let ?run = "executeBuild ex_builder ex_build_site ex_made_challenge ex_unmade [] [] ex_image_world"
  obtain w1 where w1: "in_db (retireContainer ''cid'') ex_built_world = (Inr (), w1)" "\<not> isl (fst (?body ''cid'' w1))"
  proof -
    have "fst (in_db (retireContainer ''cid'') ex_built_world) = Inr ()" by code_simp
    moreover have "\<not> isl (fst (?body ''cid'' (snd (in_db (retireContainer ''cid'') ex_built_world))))" by code_simp
    ultimately show thesis using that by (metis prod.collapse)
  qed
  have c: "must (ContainerCreate ex_builder (blank_spec\<lparr>cs_Image := ''c:1-challenge''\<rparr>)) ex_built_world = (Inr ''cid'', ex_built_world)"
    by code_simp
  obtain b' where "fst (?body ''cid'' w1) = Inr b'" using w1(2) by (cases "fst (?body ''cid'' w1)") auto
  note run = with_build_container_runs [where body = ?body, OF c w1(1) this]
  have "fst ?run = Inr b'" using run by (simp add: executeBuild_def bnd_def ex_no_base ex_build_hosts)
  then have r: "?run = (Inr b', snd ?run)" by (metis prod.collapse)
  have p: "0 \<le> MaxArtifactFiles (policy (st_mgr ex_build_site))" "0 \<le> MaxArtifactBytes (policy (st_mgr ex_build_site))" by code_simp+
  have "getArtifactsFilenameForQualifier ex_unmade [] = ''1.tar.gz''" by code_simp
  then show ?thesis using executed_build_complete [OF r _ p] r by auto
qed

end
