(* ===== verification/Frames.thy ===== *)
theory Frames
  imports Builds Tracking
begin

text \<open>
  What the operations leave alone. \<open>core\<close> is the part of the database that holds the definition of the
  challenges, and the builds. Everything that happens to instances, containers and networks leaves
  it alone; what happens to builds leaves the challenges alone. No fault and no behaviour of the daemon
  changes that.
\<close>

section \<open>The parts of the database\<close>

definition definitions_of :: "tables \<Rightarrow> _" where
  "definitions_of t = (challenges t, hints t, tags t, attributes t, hosts t, portNames t, networkOptions t, containerOptions t)"

definition core :: "tables \<Rightarrow> _" where
  "core t = (definitions_of t, builds t)"

text \<open>Predicates of tables that only look at one of the two.\<close>

definition of_core :: "(tables \<Rightarrow> bool) \<Rightarrow> bool" where
  "of_core Q \<longleftrightarrow> (\<forall>t t'. core t' = core t \<longrightarrow> Q t \<longrightarrow> Q t')"

definition of_definitions :: "(tables \<Rightarrow> bool) \<Rightarrow> bool" where
  "of_definitions Q \<longleftrightarrow> (\<forall>t t'. definitions_of t' = definitions_of t \<longrightarrow> Q t \<longrightarrow> Q t')"

lemma of_definitions_core: "of_definitions Q \<Longrightarrow> of_core Q"
  by (auto simp: of_definitions_def of_core_def core_def)

definition in_tables :: "(tables \<Rightarrow> bool) \<Rightarrow> db \<Rightarrow> bool" where
  "in_tables Q d \<longleftrightarrow> Q (tab d)"

definition holds :: "(tables \<Rightarrow> bool) \<Rightarrow> 'w world \<Rightarrow> bool" where
  "holds Q w \<longleftrightarrow> Q (tab (wdb w))"

text \<open>
  Predicates that survive what is done to the instances in \<open>S\<close>, and to containers and networks that are
  waiting for their removal; a new instance is one of \<open>S\<close>.
\<close>

definition withstands :: "(tables \<Rightarrow> bool) \<Rightarrow> InstanceId set \<Rightarrow> bool" where
  "withstands Q S \<longleftrightarrow>
     (\<forall>m. in_Id m \<in> S \<longrightarrow> maintains (in_tables Q) (finalizeInstance m) \<and> maintains (in_tables Q) (replaceInstanceRuntimeMetadata m)) \<and>
     (\<forall>i \<in> S. (\<forall>c. maintains (in_tables Q) (removeContainerMetadata i c)) \<and> maintains (in_tables Q) (removeInstancePorts i) \<and>
        maintains (in_tables Q) (removeInstanceMetadata i)) \<and>
     (\<forall>c. maintains (in_tables Q) (retireContainer c) \<and> maintains (in_tables Q) (forgetRetiredContainer c) \<and>
        maintains (in_tables Q) (retireNetwork c) \<and> maintains (in_tables Q) (forgetRetiredNetwork c)) \<and>
     (\<forall>m. maintains (in_tables Q) (openInstance m)) \<and>
     (\<forall>m d i d'. openInstance m d = (Inr i, d') \<longrightarrow> in_tables Q d \<longrightarrow> in_Id i \<in> S)"

definition holds_with :: "(tables \<Rightarrow> bool) \<Rightarrow> InstanceId set \<Rightarrow> 'w st \<Rightarrow> bool" where
  "holds_with Q S s \<longleftrightarrow> holds Q (fst s) \<and> in_Id (snd s) \<in> S"

section \<open>Statements\<close>

lemma in_tables_reads: "reads_only m \<Longrightarrow> maintains (in_tables Q) m"
  by (simp add: maintains_def in_tables_def reads_only_def)

lemma in_tables_basic [maintains_intros]: "maintains (in_tables Q) (query f)" "maintains (in_tables Q) (report x)"
  by (intro in_tables_reads reads_intros)+

lemma in_tables_exec: "(\<And>t. Q t \<Longrightarrow> Q (fst (f t))) \<Longrightarrow> maintains (in_tables Q) (exec f)"
  by (auto simp: maintains_def in_tables_def exec_def split: prod.splits) (metis fst_conv)

lemma in_tables_update: "(\<And>t. Q t \<Longrightarrow> Q (f t)) \<Longrightarrow> maintains (in_tables Q) (update f)"
  unfolding update_def by (rule in_tables_exec) simp

lemma in_tables_affecting: "(\<And>t. Q t \<Longrightarrow> Q (fst (f t))) \<Longrightarrow> maintains (in_tables Q) (affecting f)"
  unfolding affecting_def by (intro maintains_intros in_tables_exec)

lemma core_update: "of_core Q \<Longrightarrow> (\<And>t. core (f t) = core t) \<Longrightarrow> maintains (in_tables Q) (update f)"
  by (rule in_tables_update) (auto simp: of_core_def)

lemma core_exec: "of_core Q \<Longrightarrow> (\<And>t. core (fst (f t)) = core t) \<Longrightarrow> maintains (in_tables Q) (exec f)"
  by (rule in_tables_exec) (auto simp: of_core_def)

lemma definitions_update: "of_definitions Q \<Longrightarrow> (\<And>t. definitions_of (f t) = definitions_of t) \<Longrightarrow> maintains (in_tables Q) (update f)"
  by (rule in_tables_update) (auto simp: of_definitions_def)

lemma definitions_exec:
  "of_definitions Q \<Longrightarrow> (\<And>t. definitions_of (fst (f t)) = definitions_of t) \<Longrightarrow> maintains (in_tables Q) (exec f)"
  by (rule in_tables_exec) (auto simp: of_definitions_def)

lemma in_tables_transaction [maintains_intros]:
  assumes "maintains (in_tables Q) m"
  shows "maintains (in_tables Q) (withTransaction m)"
  using assms unfolding maintains_def in_tables_def withTransaction_def
  by (auto split: prod.splits sum.splits dest!: report_Inr report_Inl) (metis snd_conv)+

lemma in_tables_list [maintains_intros]:
  "maintains P m \<Longrightarrow> (\<And>x xs. maintains P (f x xs)) \<Longrightarrow> maintains P (case l of [] \<Rightarrow> m | x # xs \<Rightarrow> f x xs)"
  by (cases l) simp_all

lemmas core_parts = core_def definitions_of_def

lemma in_tables_instances:
  assumes "of_core Q"
  shows "maintains (in_tables Q) (openInstance i)" "maintains (in_tables Q) (finalizeInstance i)"
    "maintains (in_tables Q) (replaceInstanceRuntimeMetadata i)" "maintains (in_tables Q) (removeContainerMetadata n c)"
    "maintains (in_tables Q) (removeInstancePorts n)" "maintains (in_tables Q) (retireContainer c)"
    "maintains (in_tables Q) (forgetRetiredContainer c)" "maintains (in_tables Q) (retireNetwork s)"
    "maintains (in_tables Q) (forgetRetiredNetwork s)" "maintains (in_tables Q) (removeInstanceMetadata n)"
  unfolding openInstance_def finalizeInstance_def replaceInstanceRuntimeMetadata_def removeContainerMetadata_def removeInstancePorts_def
    retireContainer_def forgetRetiredContainer_def retireNetwork_def forgetRetiredNetwork_def removeInstanceMetadata_def track_container_def
  by (intro maintains_intros core_update core_exec assms;
      simp add: core_parts insert_port_def insert_container_def unretire_def retire_def clear_ports_def clear_containers_def
        delete_instance_def Let_def)+

lemma withstands_core: "of_core Q \<Longrightarrow> withstands Q UNIV"
  by (simp add: withstands_def in_tables_instances)

lemma withstands_steps [maintains_intros]:
  assumes "withstands Q S"
  shows "maintains (in_tables Q) (retireContainer c)" "maintains (in_tables Q) (forgetRetiredContainer c)"
    "maintains (in_tables Q) (retireNetwork s)" "maintains (in_tables Q) (forgetRetiredNetwork s)"
    "maintains (in_tables Q) (openInstance m)"
  using assms by (simp_all add: withstands_def)

lemma withstands_instance_steps [maintains_intros]:
  assumes "withstands Q S"
  shows "in_Id m \<in> S \<Longrightarrow> maintains (in_tables Q) (finalizeInstance m)"
    "in_Id m \<in> S \<Longrightarrow> maintains (in_tables Q) (replaceInstanceRuntimeMetadata m)"
    "i \<in> S \<Longrightarrow> maintains (in_tables Q) (removeContainerMetadata i c)"
    "i \<in> S \<Longrightarrow> maintains (in_tables Q) (removeInstancePorts i)"
    "i \<in> S \<Longrightarrow> maintains (in_tables Q) (removeInstanceMetadata i)"
  using assms by (simp_all add: withstands_def)

lemma opened: "withstands Q S \<Longrightarrow> openInstance m d = (Inr i, d') \<Longrightarrow> Q (tab d) \<Longrightarrow> in_Id i \<in> S"
  unfolding withstands_def in_tables_def by blast

lemma reads_pair: "(\<And>x y. reads_only (f x y)) \<Longrightarrow> reads_only (case p of (x, y) \<Rightarrow> f x y)"
  by (cases p) simp

lemma in_tables_reading [maintains_intros]:
  "maintains (in_tables Q) (lookupInstanceMetadata i)" "maintains (in_tables Q) (lookupBuildMetadata b)"
  "maintains (in_tables Q) (getBuildInstances b)" "maintains (in_tables Q) (getReversePortMap c)"
  "maintains (in_tables Q) (selectHostPort rng r n pref)" "maintains (in_tables Q) (lookupChallengeMetadata hash parse c)"
  unfolding lookupInstanceMetadata_def getBuildInstances_def getReversePortMap_def selectHostPort_def getFreePort_def usedPortSet_def
    lookupChallengeMetadata_def Let_def
  by (intro in_tables_reads reads_intros reads_case_sum reads_pair)+

lemma in_tables_insert_images:
  assumes "of_definitions Q"
  shows "maintains (in_tables Q) (insert_images b ims)"
proof (induction ims)
  case (Cons im ims)
  then show ?case unfolding insert_images.simps insert_image_with_ports_def
    by (intro maintains_intros definitions_update definitions_exec assms)
      (simp_all add: definitions_of_def insert_image_def insert_image_port_def Let_def)
qed (simp add: maintains_intros)

lemmas build_queries = openBuildQuery_def stageBuildQuery_def finalizeBuildQuery_def insert_lookup_def clear_lookups_def
  delete_images_def delete_build_def Let_def

lemma in_tables_builds [maintains_intros]:
  assumes "of_definitions Q"
  shows "maintains (in_tables Q) (openBuild b)" "maintains (in_tables Q) (stageBuild b)" "maintains (in_tables Q) (finalizeBuild b)"
    "maintains (in_tables Q) (removeBuildMetadata i)" "maintains (in_tables Q) (restore_previous b)"
proof -
  show f: "maintains (in_tables Q) (finalizeBuild b)"
    unfolding finalizeBuild_def affecting_def
    by (intro maintains_intros definitions_update definitions_exec in_tables_insert_images assms)
      (simp_all add: definitions_of_def build_queries)
  show "maintains (in_tables Q) (restore_previous b)"
    unfolding restore_previous_def by (intro maintains_intros definitions_update f assms) (simp add: definitions_of_def)
  show "maintains (in_tables Q) (openBuild b)" "maintains (in_tables Q) (stageBuild b)" "maintains (in_tables Q) (removeBuildMetadata i)"
    unfolding openBuild_def stageBuild_def removeBuildMetadata_def affecting_def Let_def
    by (intro maintains_intros definitions_update definitions_exec assms; simp add: definitions_of_def build_queries)+
qed

section \<open>Calls\<close>

lemma in_db_run: "in_db m w = (r, w') \<longleftrightarrow> (\<exists>d. m (wdb w) = (r, d) \<and> w' = w\<lparr>wdb := d\<rparr>)"
  by (auto simp: in_db_def split: prod.splits)

lemma holds_in_db [maintains_intros]: "maintains (in_tables Q) m \<Longrightarrow> maintains (holds Q) (in_db m)"
  by (simp add: maintains_def holds_def in_tables_def)

lemma holds_calls [maintains_intros]:
  "maintains (holds Q) (call f)" "maintains (holds Q) (host_call what)" "maintains (holds Q) draw"
  by (simp_all add: maintains_def holds_def host_call_def draw_def Let_def)

lemma holds_quiet_steps:
  "(\<And>w. wdb (snd (m w)) = wdb w) \<Longrightarrow> maintains (holds Q) m"
  by (simp add: maintains_def holds_def)

lemma holds_docker [maintains_intros]: "maintains (holds Q) (must f)" "maintains (holds Q) (unless_missing g)"
  unfolding must_def unless_missing_def by (intro maintains_intros)+

lemma holds_files [maintains_intros]:
  "maintains (holds Q) (stat_file n)" "maintains (holds Q) (remove_file n)" "maintains (holds Q) (rename_file n n')"
  unfolding stat_file_def remove_file_def rename_file_def
  by (intro maintains_intros holds_quiet_steps; simp split: option.split)+

lemma holds_each_collect [maintains_intros]:
  "(\<And>x. maintains P (f x)) \<Longrightarrow> maintains P (each_collect f xs)"
  unfolding maintains_def [of P "each_collect f xs"] by (simp add: maintains_collect)

lemma holds_with_steps [maintains_intros]:
  "maintains (holds Q) m \<Longrightarrow> maintains (holds_with Q S) (on_world m)"
  "(\<And>i. in_Id (g i) = in_Id i) \<Longrightarrow> maintains (holds_with Q S) (on_instance g)"
  "(\<And>i. in_Id i \<in> S \<Longrightarrow> maintains (holds_with Q S) (f i)) \<Longrightarrow> maintains (holds_with Q S) (with_instance f)"
  by (auto simp: maintains_def holds_with_def on_world_def on_instance_def with_instance_def split: prod.splits)

section \<open>Instances\<close>

lemma holds_publish [maintains_intros]: "maintains (holds Q) (publish_ports m rpm ip preferred host ps)"
proof (induction ps)
  case (Cons p ps)
  then show ?case unfolding publish_ports.simps by (intro maintains_intros)
qed (simp only: publish_ports.simps maintains_ret)

lemma holds_await [maintains_intros]: "maintains (holds Q) (await_ports dk cid expected n)"
proof (induction n)
  case (Suc n)
  then show ?case unfolding await_ports.simps by (intro maintains_intros)
qed (simp only: await_ports.simps maintains_ret)

lemma holds_container_steps [maintains_intros]:
  "maintains (holds Q) (create_container dk sp)" "maintains (holds Q) (spec_of dk m b opts net host pub)"
  "maintains (holds Q) (stopNetwork dk i)" "maintains (holds_with Q S) (startNetwork dk e)"
  unfolding create_container_def spec_of_def Let_def stopNetwork_def startNetwork_def
  by (intro maintains_intros holds_quiet_steps; simp)+

lemma holds_retired [maintains_intros]: "withstands Q S \<Longrightarrow> maintains (holds Q) (removeRetiredContainerIDs dk cs)"
  unfolding removeRetiredContainerIDs_def by (intro maintains_intros)

lemma holds_start_image [maintains_intros]:
  "withstands Q S \<Longrightarrow> maintains (holds_with Q S) (start_image dk m b opts preferred rpm ip im)"
  unfolding start_image_def by (intro maintains_intros) simp_all

lemma holds_start_body [maintains_intros]:
  "withstands Q S \<Longrightarrow> maintains (holds_with Q S) (start_body dk m b opts persist preferred rpm)"
  unfolding start_body_def by (intro maintains_intros)

text \<open>What a run leaves, for the operations that take the outcome of a run apart.\<close>

lemma leaves: "maintains P m \<Longrightarrow> P s \<Longrightarrow> P (snd (m s))"
  by (simp add: maintains_def)

lemma leaves_with:
  assumes "m (w, i) = (r, (w', i'))" "maintains (holds_with Q S) m" "holds Q w" "in_Id i \<in> S"
  shows "holds Q w'" "in_Id i' \<in> S"
  using maintainsD [OF assms(2) _ assms(1)] assms(3,4) by (simp_all add: holds_with_def)

lemma maintains_runI: "(\<And>s. P s \<Longrightarrow> P (snd (m s))) \<Longrightarrow> maintains P m"
  by (simp add: maintains_def)

lemma holds_deferred [maintains_intros]:
  assumes "withstands Q S"
  shows "maintains (holds_with Q S) (deferred_release dk seen r)"
proof (rule maintains_runI)
  fix s :: "'a st"
  let ?m = "on_world (removeRetiredContainerIDs dk (in_Containers (snd s)))"
  assume "holds_with Q S s"
  moreover have "maintains (holds_with Q S) ?m" using assms by (intro maintains_intros)
  ultimately show "holds_with Q S (snd (deferred_release dk seen r s))"
    using leaves [of "holds_with Q S" ?m s] by (cases "?m s"; cases "fst (?m s)") (auto simp: deferred_release_def)
qed

lemma holds_lock_flag [simp]: "holds_with Q S (w\<lparr>portLockHeld := l\<rparr>, i) = holds_with Q S (w, i)"
  by (simp add: holds_with_def holds_def)

lemma holds_start [maintains_intros]:
  assumes "withstands Q S"
  shows "maintains (holds_with Q S) (startContainersWithPersistence dk m b opts persist preferred)"
proof -
  have "maintains (holds_with Q S) (\<lambda>s. case start_body dk m b opts persist preferred rpm (case s of (w, i) \<Rightarrow> (w\<lparr>portLockHeld := True\<rparr>, i)) of
       (r, s1) \<Rightarrow> (case deferred_release dk None r s1 of (r', (w, i)) \<Rightarrow> (r', (w\<lparr>portLockHeld := False\<rparr>, i))))" for rpm
  proof (rule maintains_runI)
    fix s :: "'a st"
    assume s: "holds_with Q S s"
    obtain w i where wi: "s = (w, i)" by fastforce
    obtain r s1 where 1: "start_body dk m b opts persist preferred rpm (w\<lparr>portLockHeld := True\<rparr>, i) = (r, s1)" by (metis surj_pair)
    obtain r' w2 i2 where 2: "deferred_release dk None r s1 = (r', (w2, i2))" by (metis prod.collapse)
    have "holds_with Q S s1" using maintainsD [OF holds_start_body [OF assms] _ 1] s wi by simp
    from maintainsD [OF holds_deferred [OF assms] this 2] wi 1 2
    show "holds_with Q S (snd (case start_body dk m b opts persist preferred rpm (case s of (w, i) \<Rightarrow> (w\<lparr>portLockHeld := True\<rparr>, i)) of
       (r, s1) \<Rightarrow> (case deferred_release dk None r s1 of (r', (w, i)) \<Rightarrow> (r', (w\<lparr>portLockHeld := False\<rparr>, i)))))" by simp
  qed
  then show ?thesis
    unfolding startContainersWithPersistence_def using assms by (intro maintains_intros)
qed

lemma holds_stop_each:
  assumes "withstands Q S" "i \<in> S"
  shows "holds Q w \<Longrightarrow> holds Q (snd (stop_each dk i cs w))"
proof (induction cs arbitrary: w)
  case (Cons c cs)
  have "maintains (holds Q) (stop_one dk i c)" unfolding stop_one_def using assms by (intro maintains_intros)
  then have 1: "holds Q (snd (stop_one dk i c w))" using Cons.prems by (rule leaves)
  obtain r w1 where w1: "stop_one dk i c w = (r, w1)" by fastforce
  have "holds Q (snd (stop_each dk i cs w1))" using Cons.IH 1 w1 by simp
  then show ?case using w1 by (cases r) (auto split: prod.splits)
qed simp

lemma holds_stop_containers [maintains_intros]:
  assumes "withstands Q S"
  shows "maintains (holds_with Q S) (stopContainers dk)"
proof (rule maintains_runI)
  fix s :: "'a st"
  assume s: "holds_with Q S s"
  obtain w i where wi: "s = (w, i)" by fastforce
  then have i: "in_Id i \<in> S" using s by (simp add: holds_with_def)
  obtain es rem w1 where 1: "stop_each dk (in_Id i) (in_Containers i) w = ((es, rem), w1)" by (metis prod.collapse)
  obtain r w2 where 2: "in_db (removeInstancePorts (in_Id i)) w1 = (r, w2)" by fastforce
  have w1: "holds Q w1" using holds_stop_each [OF assms i, of w dk "in_Containers i"] s wi 1 by (simp add: holds_with_def)
  have "maintains (holds Q) (in_db (removeInstancePorts (in_Id i)))" using assms i by (intro maintains_intros)
  from maintainsD [OF this w1 2] w1 wi 1 2 i show "holds_with Q S (snd (stopContainers dk s))"
    by (cases r) (auto simp: stopContainers_def holds_with_def Let_def)
qed

lemma holds_undo: "withstands Q S \<Longrightarrow> maintains (holds_with Q S) (undo_new_instance dk)"
  unfolding undo_new_instance_def by (intro maintains_intros)

lemma holds_start_new: "withstands Q S \<Longrightarrow> maintains (holds_with Q S) (start_new dk m b)"
  unfolding start_new_def startContainers_def by (intro maintains_intros)

lemma holds_new_instance [maintains_intros]:
  assumes "withstands Q S"
  shows "maintains (holds Q) (newInstance dk m b)"
proof (rule maintains_runI)
  fix w :: "'a world"
  assume w: "holds Q w"
  obtain r0 w0 where 0: "in_db (openInstance (empty_instance (bd_Id b))) w = (r0, w0)" by (metis surj_pair)
  have "maintains (holds Q) (in_db (openInstance (empty_instance (bd_Id b))))" using assms by (intro maintains_intros)
  from maintainsD [OF this w 0] have w0: "holds Q w0" .
  show "holds Q (snd (newInstance dk m b w))"
  proof (cases r0)
    case (Inl e)
    then show ?thesis using 0 w0 by (simp add: newInstance_def bnd_def)
  next
    case (Inr i)
    obtain d where d: "openInstance (empty_instance (bd_Id b)) (wdb w) = (Inr i, d)" using 0 Inr by (auto simp: in_db_run)
    have i: "in_Id i \<in> S" by (rule opened [OF assms d]) (use w in \<open>simp add: holds_def\<close>)
    obtain r w1 i1 where 1: "start_new dk m b (w0, i) = (r, (w1, i1))" by (metis prod.collapse)
    note a1 = leaves_with [OF 1 holds_start_new [OF assms] w0 i]
    obtain r2 w2 i2 where 2: "undo_new_instance dk (w1, i1) = (r2, (w2, i2))" by (metis prod.collapse)
    note a2 = leaves_with [OF 2 holds_undo [OF assms] a1]
    show ?thesis using 0 1 2 a1 a2 Inr by (cases r; cases r2) (simp_all add: newInstance_def bnd_def)
  qed
qed

lemma holds_stop_instance [maintains_intros]:
  assumes "withstands Q S" "in_Id i \<in> S"
  shows "maintains (holds Q) (stopInstance dk i)"
proof (rule maintains_runI)
  fix w :: "'a world"
  assume w: "holds Q w"
  obtain r w1 i1 where 1: "stopContainers dk (w, i) = (r, (w1, i1))" by (metis prod.collapse)
  note a1 = leaves_with [OF 1 holds_stop_containers [OF assms(1)] w assms(2)]
  have "maintains (holds Q) (bnd (stopNetwork dk i1) (\<lambda>_. in_db (removeInstanceMetadata (in_Id i1))))"
    using assms(1) a1(2) by (intro maintains_intros)
  from leaves [OF this a1(1)] show "holds Q (snd (stopInstance dk i w))"
    using 1 a1 by (cases r) (simp_all add: stopInstance_def)
qed

section \<open>Cutover\<close>

lemma holds_resume [maintains_intros]: "maintains (holds Q) (resumeContainerProcesses dk cs)"
proof (rule maintains_runI)
  fix w :: "'a world"
  assume w: "holds Q w"
  have "maintains (holds Q) (each_collect (\<lambda>c. must (ContainerStart dk c)) cs)" by (intro maintains_intros)
  from leaves [OF this w] show "holds Q (snd (resumeContainerProcesses dk cs w))"
    by (cases "each_collect (\<lambda>c. must (ContainerStart dk c)) cs w") (simp add: resumeContainerProcesses_def)
qed

lemma holds_pause: "holds Q w \<Longrightarrow> holds Q (snd (pause_each dk cs ps w))"
proof (induction cs arbitrary: ps w)
  case (Cons c cs)
  have "maintains (holds Q) (must (ContainerStop dk c))" by (intro maintains_intros)
  from leaves [OF this Cons.prems] Cons.IH show ?case
    by (cases "must (ContainerStop dk c) w"; cases "fst (must (ContainerStop dk c) w)") auto
qed simp

lemma holds_prepare [maintains_intros]:
  assumes "withstands Q S" "in_Id current \<in> S"
  shows "maintains (holds Q) (prepareInstanceCutover dk m b current opts)"
proof (rule maintains_runI)
  fix w :: "'a world"
  assume w: "holds Q w"
  obtain paused e w1 where 1: "pauseContainerProcesses dk (in_Containers current) w = ((paused, e), w1)" by (metis surj_pair)
  have w1: "holds Q w1" using holds_pause [OF w] 1 by (metis pauseContainerProcesses_def snd_conv)
  show "holds Q (snd (prepareInstanceCutover dk m b current opts w))"
  proof (cases e)
    case (Some x)
    obtain r w2 where 2: "resumeContainerProcesses dk paused w1 = (r, w2)" by (metis surj_pair)
    then show ?thesis using 1 Some leaves [OF holds_resume w1, of dk paused]
      by (cases r) (simp_all add: prepareInstanceCutover_def)
  next
    case None
    let ?cand = "\<lparr>in_Id = in_Id current, in_Ports = [], in_Containers = [],
            in_LastSolved = in_LastSolved current, in_Build = in_Build current\<rparr>"
    obtain r w2 c where 2: "startContainersWithPersistence dk m b opts False (in_Ports current) (w1, ?cand) = (r, (w2, c))"
      by (metis surj_pair)
    have w2: "holds Q w2" by (rule leaves_with(1) [OF 2 holds_start [OF assms(1)] w1]) (use assms(2) in simp)
    obtain r3 w3 where 3: "removeRetiredContainerIDs dk (in_Containers c) w2 = (r3, w3)" by (metis surj_pair)
    have w3: "holds Q w3" using maintainsD [OF holds_retired [OF assms(1)] w2 3] .
    obtain r4 w4 where 4: "resumeContainerProcesses dk (in_Containers current) w3 = (r4, w4)" by (metis surj_pair)
    then show ?thesis using 1 2 3 w2 None maintainsD [OF holds_resume w3 4]
      by (cases r) (simp_all add: prepareInstanceCutover_def Let_def)
  qed
qed

lemma holds_cutover [maintains_intros]:
  assumes "withstands Q S"
  shows "in_Id (old_inst c) \<in> S \<Longrightarrow> maintains (holds Q) (rollbackInstanceCutover dk c)"
    "maintains (holds Q) (finishInstanceCutover dk c)"
proof -
  show "in_Id (old_inst c) \<in> S \<Longrightarrow> maintains (holds Q) (rollbackInstanceCutover dk c)"
    unfolding rollbackInstanceCutover_def using assms by (intro maintains_intros)
  show "maintains (holds Q) (finishInstanceCutover dk c)"
    unfolding finishInstanceCutover_def using assms by (intro maintains_intros)
qed

section \<open>Images and artifacts\<close>

lemma maintains_each_of: "(\<And>x. x \<in> set xs \<Longrightarrow> maintains P (f x)) \<Longrightarrow> maintains P (each_collect f xs)"
  by (rule maintains_runI, rule each_collect_preserves) (simp_all add: maintains_def)

lemma maintains_first_failed:
  assumes "\<And>m. m \<in> set ms \<Longrightarrow> maintains P m"
  shows "maintains P (first_failed ms)"
proof (rule maintains_runI)
  fix s
  assume s: "P s"
  have "maintains P (each_collect (\<lambda>m. m) ms)" using assms by (rule maintains_each_of)
  from leaves [OF this s] show "P (snd (first_failed ms s))"
    by (cases "each_collect (\<lambda>m. m) ms s") (simp add: first_failed_def)
qed

lemma maintains_join_of:
  assumes "\<And>x. x \<in> set xs \<Longrightarrow> maintains P (f x)"
  shows "maintains P (join_all f xs)"
proof (rule maintains_runI)
  fix s
  assume s: "P s"
  have "maintains P (each_collect f xs)" using assms by (rule maintains_each_of)
  from leaves [OF this s] show "P (snd (join_all f xs s))"
    by (cases "each_collect f xs s") (auto simp: join_all_def)
qed

lemma holds_promotion [maintains_intros]:
  "maintains (holds Q) (rollbackStagedBuild dk p)" "maintains (holds Q) (finishStagedBuild dk p)"
  "maintains (holds Q) (discardStagedBuild dk c b q)"
  unfolding rollbackStagedBuild_def finishStagedBuild_def discardStagedBuild_def restore_name_def
  by (intro maintains_first_failed maintains_join_of; auto intro!: maintains_intros split: if_splits)+

lemma holds_snapshot [maintains_intros]: "maintains (holds Q) (snapshot_images dk ims p)"
proof (induction ims arbitrary: p)
  case (Cons im ims)
  then show ?case unfolding snapshot_images.simps Let_def by (intro maintains_intros)
qed (simp only: snapshot_images.simps maintains_ret)

lemma holds_or_roll_back [maintains_intros]:
  assumes "maintains (holds Q) m"
  shows "maintains (holds Q) (or_roll_back dk p m)"
proof (rule maintains_runI)
  fix w :: "'a world"
  assume "holds Q w"
  from leaves [OF assms this] have "holds Q (snd (m w))" .
  then show "holds Q (snd (or_roll_back dk p m w))"
    using leaves [OF holds_promotion(1), of Q "snd (m w)" dk p]
    by (cases "m w"; cases "fst (m w)"; cases "rollbackStagedBuild dk p (snd (m w))"; cases "fst (rollbackStagedBuild dk p (snd (m w)))")
      (auto simp: or_roll_back_def)
qed

lemma holds_promote [maintains_intros]: "maintains (holds Q) (promoteStagedBuild dk b q)"
  unfolding promoteStagedBuild_def promote_images_def Let_def by (intro maintains_intros)

lemma holds_cleanup_images: "maintains (holds Q) (cleanup_images dk c ids)"
proof (rule maintains_runI)
  fix w :: "'a world"
  assume w: "holds Q w"
  obtain r w1 where 1: "must (ImageList dk) w = (r, w1)" by (metis surj_pair)
  have w1: "holds Q w1" using maintainsD [OF holds_docker(1) w 1] .
  have "maintains (holds Q) (each_collect (\<lambda>t. map_err f (unless_missing (ImageRemove dk t))) ts)" for f ts
    by (intro maintains_intros)
  from leaves [OF this w1] show "holds Q (snd (cleanup_images dk c ids w))"
    using 1 w1 by (cases r) (simp_all add: cleanup_images_def)
qed

lemma holds_cleanup_artifacts: "maintains (holds Q) (cleanup_artifacts ids)"
proof (rule maintains_runI)
  fix w :: "'a world"
  assume w: "holds Q w"
  obtain r w1 where 1: "host_call ''list staged artifacts'' w = (r, w1)" by (metis surj_pair)
  have w1: "holds Q w1" using maintainsD [OF holds_calls(2) w 1] .
  have "maintains (holds Q) (each_collect (\<lambda>t. map_err f (remove_file t)) ts)" for f ts
    by (intro maintains_intros)
  from leaves [OF this w1] show "holds Q (snd (cleanup_artifacts ids w))"
    using 1 w1 by (cases r) (simp_all add: cleanup_artifacts_def)
qed

lemma holds_cleanup [maintains_intros]: "maintains (holds Q) (cleanupInterruptedBuildResources dk c ids)"
proof (rule maintains_runI)
  fix w :: "'a world"
  assume w: "holds Q w"
  obtain es w1 where 1: "cleanup_images dk c ids w = (es, w1)" by (metis surj_pair)
  obtain es' w2 where 2: "cleanup_artifacts ids w1 = (es', w2)" by (metis surj_pair)
  have "holds Q w1" using maintainsD [OF holds_cleanup_images w 1] .
  from maintainsD [OF holds_cleanup_artifacts this 2] w show "holds Q (snd (cleanupInterruptedBuildResources dk c ids w))"
    using 1 2 by (simp add: cleanupInterruptedBuildResources_def)
qed

lemma holds_destroy [maintains_intros]: "of_definitions Q \<Longrightarrow> maintains (holds Q) (destroyImages dk b)"
  unfolding destroyImages_def by (intro maintains_intros)

section \<open>Builds\<close>

lemma holds_copy_entries: "maintains (holds Q) (copy_entries lims es e seen used files out)"
proof (induction es arbitrary: lims seen used files out)
  case (Cons x es)
  obtain h bytes where x: "x = (h, bytes)" by (cases x)
  show ?case unfolding x copy_entries.simps
    by (cases lims; cases "safeArchiveName (hd_Name h)") (auto intro!: maintains_intros Cons)
qed (simp add: maintains_intros)

lemma holds_write_archive [maintains_intros]: "maintains (holds Q) (write_archive cd pol source)"
  unfolding write_archive_def Let_def by (intro maintains_intros holds_copy_entries)

lemma holds_artifacts_field [simp]: "holds Q (w\<lparr>artifacts := x\<rparr>) = holds Q w"
  by (simp add: holds_def)

lemma holds_remove_quietly: "holds Q w \<Longrightarrow> holds Q (remove_quietly name w)"
  using leaves [OF holds_calls(2), of Q w "''remove''"]
  by (cases "host_call ''remove'' w"; cases "fst (host_call ''remove'' w)") (simp_all add: remove_quietly_def)

lemma holds_cache_artifacts [maintains_intros]: "maintains (holds Q) (cacheArtifacts cd pol source destination)"
  unfolding cacheArtifacts_def
proof (intro maintains_intros maintains_runI)
  fix r u and w :: "'a world"
  assume w: "holds Q w"
  let ?temp = "temp_name r (artifacts w)"
  obtain x w1 where 1: "write_archive cd pol source (w\<lparr>artifacts := put ?temp [] (artifacts w)\<rparr>) = (x, w1)" by (metis surj_pair)
  have "holds Q w1" by (rule maintainsD [OF holds_write_archive _ 1]) (use w in simp)
  then show "holds Q (snd (let temp = temp_name r (artifacts w) in
     case write_archive cd pol source (w\<lparr>artifacts := put temp [] (artifacts w)\<rparr>) of
       (Inl e, w1) \<Rightarrow> (Inl e, remove_quietly temp w1)
     | (Inr (files, out), w1) \<Rightarrow>
         (Inr files, w1\<lparr>artifacts := put destination (Targz cd out) (without_file temp (artifacts w1))\<rparr>)))"
    using 1 by (cases x) (auto simp: Let_def holds_remove_quietly split: prod.splits)
qed

lemma holds_read_output [maintains_intros]: "maintains (holds Q) (read_output st fn tar ended bo)"
proof (induction st fn tar ended bo rule: read_output.induct)
  case (2 st fn name bytes rest ended bo)
  show ?case unfolding read_output.simps read_artifacts_def
    by (intro maintains_intros "2.IH") simp_all
qed (simp add: maintains_intros)

lemma holds_build_hosts [maintains_intros]: "maintains (holds Q) (build_hosts dk st c b ctx q hs ims cache im)"
proof (induction hs arbitrary: ims cache im)
  case (Cons h hs)
  then show ?case unfolding build_hosts.simps Let_def by (intro maintains_intros)
qed (simp only: build_hosts.simps maintains_ret)

lemma maintains_quietly [maintains_intros]: "maintains P m \<Longrightarrow> maintains P (quietly m)"
  unfolding quietly_def by (intro maintains_intros)

lemma holds_with_temporary [maintains_intros]:
  assumes "withstands Q S" "\<And>cid. maintains (holds Q) (body cid)"
  shows "maintains (holds Q) (with_temporary dk what sp body)"
proof -
  have "holds Q w \<Longrightarrow> holds Q (snd (case in_db (retireContainer cid) w of
       (Inl e, w1) \<Rightarrow> bnd (attempt (must (ContainerRemove dk cid))) (\<lambda>r. raise (g e r)) w1
     | (Inr _, w1) \<Rightarrow> bnd (attempt (body cid)) (\<lambda>r.
         bnd (quietly (removeRetiredContainerIDs dk [cid])) (\<lambda>_. lift_sum r)) w1))" for cid g and w :: "'a world"
  proof -
    assume w: "holds Q w"
    have 1: "maintains (holds Q) (in_db (retireContainer cid))"
      "maintains (holds Q) (bnd (attempt (must (ContainerRemove dk cid))) (\<lambda>r. raise (g e r)))"
      "maintains (holds Q) (bnd (attempt (body cid)) (\<lambda>r. bnd (quietly (removeRetiredContainerIDs dk [cid])) (\<lambda>_. lift_sum r)))" for e
      using assms by - (intro maintains_intros; simp)+
    obtain r w1 where r: "in_db (retireContainer cid) w = (r, w1)" by (metis surj_pair)
    from maintainsD [OF 1(1) w r] leaves [OF 1(2)] leaves [OF 1(3)] show ?thesis unfolding r by (cases r) simp_all
  qed
  then show ?thesis unfolding with_temporary_def
    by (intro maintains_bnd holds_docker) (simp add: maintains_def)
qed

lemma holds_with_container [maintains_intros]:
  "withstands Q S \<Longrightarrow> (\<And>cid. maintains (holds Q) (body cid)) \<Longrightarrow> maintains (holds Q) (with_build_container dk im body)"
  unfolding with_build_container_def by (rule holds_with_temporary)

lemma holds_execute [maintains_intros]: "withstands Q S \<Longrightarrow> maintains (holds Q) (executeBuild dk st c b ctx q)"
  unfolding executeBuild_def pull_base_def extract_build_def accept_build_def by (intro maintains_intros)

lemma holds_context [maintains_intros]: "maintains (holds Q) (build_context_of st c)"
proof -
  have "maintains (holds Q) (\<lambda>w. case contextLimits pol of (maxFiles, maxBytes) \<Rightarrow>
     case dir of
       None \<Rightarrow> (Inl (Plain ''could not open challenge root''), w)
     | Some n \<Rightarrow>
       (case write_context js hdr files maxFiles (Dir (Path md)) n md dockerfile
          \<lparr>cx_written = [], cx_remaining = maxBytes, cx_limit = maxBytes, cx_entries = 0, cx_faults = host_faults w\<rparr> of
          (Inl e, s) \<Rightarrow> (Inl e, w\<lparr>host_faults := cx_faults s\<rparr>)
        | (Inr _, s) \<Rightarrow> (Inr (cx_written s), w\<lparr>host_faults := cx_faults s\<rparr>)))" for pol dir js hdr files md dockerfile
    by (rule holds_quiet_steps) (auto split: prod.splits option.splits sum.splits)
  then show ?thesis unfolding build_context_of_def createBuildContext_def by (intro maintains_intros)
qed

lemma holds_lookups [maintains_intros]:
  "maintains (holds Q) (lookup_challenge st i)" "maintains (holds Q) (preflightChallengeSeccomp dk c)"
  unfolding lookup_challenge_def find_challenge_def preflightChallengeSeccomp_def preflight_host_def
  by (intro maintains_intros)+

text \<open>The same for predicates of the core, which withstand whatever is done to any instance.\<close>

declare holds_new_instance [maintains_intros del] holds_stop_instance [maintains_intros del] holds_prepare [maintains_intros del]
  holds_cutover [maintains_intros del] holds_execute [maintains_intros del] holds_retired [maintains_intros del]

lemma core_operations [maintains_intros]:
  assumes "of_core Q"
  shows "maintains (holds Q) (newInstance dk m b)" "maintains (holds Q) (stopInstance dk i)"
    "maintains (holds Q) (prepareInstanceCutover dk m b i opts)" "maintains (holds Q) (rollbackInstanceCutover dk c)"
    "maintains (holds Q) (finishInstanceCutover dk c)" "maintains (holds Q) (executeBuild dk st md b ctx q)"
    "maintains (holds Q) (removeRetiredContainerIDs dk cs)"
proof -
  note w = withstands_core [OF assms]
  show "maintains (holds Q) (newInstance dk m b)" by (rule holds_new_instance [OF w])
  show "maintains (holds Q) (stopInstance dk i)" by (rule holds_stop_instance [OF w]) simp
  show "maintains (holds Q) (prepareInstanceCutover dk m b i opts)" by (rule holds_prepare [OF w]) simp
  show "maintains (holds Q) (rollbackInstanceCutover dk c)" by (rule holds_cutover(1) [OF w]) simp
  show "maintains (holds Q) (finishInstanceCutover dk c)" by (rule holds_cutover(2) [OF w])
  show "maintains (holds Q) (executeBuild dk st md b ctx q)" by (rule holds_execute [OF w])
  show "maintains (holds Q) (removeRetiredContainerIDs dk cs)" by (rule holds_retired [OF w])
qed

lemma holds_update_ends [maintains_intros]:
  assumes "of_definitions Q"
  shows "maintains (holds Q) (rollbackBuildUpdate dk u)" "maintains (holds Q) (finishBuildUpdate dk u)"
  unfolding rollbackBuildUpdate_def finishBuildUpdate_def Let_def
  using of_definitions_core [OF assms] assms
  by (intro maintains_each_of; auto intro!: maintains_intros split: if_splits)+

lemma holds_freeze: "of_core Q \<Longrightarrow> maintains (holds Q) (freezeBaseImage dk st c force)"
  unfolding freezeBaseImage_def Let_def by (intro maintains_intros)

end
