(* ===== verification/Updating.thy ===== *)
theory Updating
  imports Frames
begin

text \<open>
  Updating challenges: \<open>updateChallengesInternal\<close> of \<open>cmgr/database_challenges.go\<close> and \<open>Update\<close> of
  \<open>cmgr/api.go\<close>. The metadata is stored first, with an empty source digest while builds are being
  remade; every build of the challenge is then made anew beside the old one, promoted and cut over; a
  failure rolls all of them back and restores the metadata of before.
\<close>

section \<open>Steps that clean up after themselves\<close>

text \<open>A step; after its failure the cleanup runs and its errors follow the first.\<close>

definition or_fail :: "('w world, 'a) act \<Rightarrow> ('w world \<Rightarrow> err list \<times> 'w world) \<Rightarrow>
    ('a \<Rightarrow> 'w world \<Rightarrow> (err list + 'b) \<times> 'w world) \<Rightarrow> 'w world \<Rightarrow> (err list + 'b) \<times> 'w world" where
  "or_fail m cleanup k w =
     (case m w of
        (Inl e, w1) \<Rightarrow> (case cleanup w1 of (es, w2) \<Rightarrow> (Inl (e # es), w2))
      | (Inr x, w1) \<Rightarrow> k x w1)"

definition no_cleanup :: "'w world \<Rightarrow> err list \<times> 'w world" where
  "no_cleanup w = ([], w)"

definition discarding :: "'w daemon \<Rightarrow> ChallengeMetadata \<Rightarrow> BuildMetadata \<Rightarrow> string \<Rightarrow> 'w world \<Rightarrow> err list \<times> 'w world" where
  "discarding dk md b qualifier w = (case discardStagedBuild dk md b qualifier w of (r, w') \<Rightarrow> (errors_of [r], w'))"

section \<open>One build\<close>

fun hex_of :: "nat \<Rightarrow> nat \<Rightarrow> string" where
  "hex_of 0 n = []"
| "hex_of (Suc k) n = hex_of k (n div 16) @ [hex_digit (n mod 16)]"

text \<open>Sixteen random bytes in hexadecimal; the number drawn stands for the bytes.\<close>

definition randomIdentifier :: "('w world, string) act" where
  "randomIdentifier =
     bnd (host_call ''could not generate random identifier'') (\<lambda>_. bnd draw (\<lambda>r. ret (hex_of 32 r)))"

text \<open>The instances of a build are cut over one after the other; the first failure undoes the update.\<close>

fun prepare_cutovers :: "'w daemon \<Rightarrow> mgr \<Rightarrow> (string \<times> ContainerOptions) list \<Rightarrow> stagedBuildUpdate \<Rightarrow> InstanceId list \<Rightarrow>
    'w world \<Rightarrow> (err list + stagedBuildUpdate) \<times> 'w world" where
  "prepare_cutovers dk m opts u [] w = (Inr u, w)"
| "prepare_cutovers dk m opts u (i # is) w =
     or_fail (bnd (in_db (lookupInstanceMetadata i)) (\<lambda>inst. prepareInstanceCutover dk m (up_candidate u) inst opts))
       (rollbackBuildUpdate dk u)
       (\<lambda>c. prepare_cutovers dk m opts (u\<lparr>up_cutovers := up_cutovers u @ [c]\<rparr>) is) w"

definition update_build :: "'w daemon \<Rightarrow> site \<Rightarrow> ChallengeMetadata \<Rightarrow> string \<Rightarrow> BuildId \<Rightarrow>
    'w world \<Rightarrow> (err list + stagedBuildUpdate) \<times> 'w world" where
  "update_build dk st md context buildId =
     or_fail (in_db (lookupBuildMetadata buildId)) no_cleanup (\<lambda>build.
     or_fail randomIdentifier no_cleanup (\<lambda>suffix.
     let qualifier = stagedBuildQualifierPrefix @ suffix; candidate = build\<lparr>Flag := []\<rparr> in
     or_fail (executeBuild dk st md candidate context qualifier) (discarding dk md candidate qualifier) (\<lambda>made.
     or_fail (promoteStagedBuild dk made qualifier) (discarding dk md made qualifier) (\<lambda>promotion.
     let u = \<lparr>up_metadata = md, up_previous = build, up_candidate = made, up_qualifier = qualifier,
       up_promotion = promotion, up_cutovers = []\<rparr> in
     or_fail (in_db (finalizeBuild made)) (rollbackBuildUpdate dk u) (\<lambda>final.
     let u' = u\<lparr>up_candidate := final\<rparr> in
     or_fail (in_db (getBuildInstances (bd_Id final))) (rollbackBuildUpdate dk u')
       (prepare_cutovers dk (st_mgr st) (Overrides (ch_Options md)) u'))))))"

section \<open>All builds of a challenge\<close>

text \<open>A loop over steps that each report a list of errors.\<close>

fun gather :: "('a \<Rightarrow> 's \<Rightarrow> err list \<times> 's) \<Rightarrow> 'a list \<Rightarrow> 's \<Rightarrow> err list \<times> 's" where
  "gather f [] w = ([], w)"
| "gather f (u # us) w = (case f u w of (es, w1) \<Rightarrow> case gather f us w1 of (es', w2) \<Rightarrow> (es @ es', w2))"

fun update_builds :: "'w daemon \<Rightarrow> site \<Rightarrow> ChallengeMetadata \<Rightarrow> string \<Rightarrow> BuildId list \<Rightarrow> stagedBuildUpdate list \<Rightarrow>
    'w world \<Rightarrow> (err list + stagedBuildUpdate list) \<times> 'w world" where
  "update_builds dk st md context [] completed w = (Inr completed, w)"
| "update_builds dk st md context (i # is) completed w =
     (case update_build dk st md context i w of
        (Inl es, w1) \<Rightarrow> (case gather (rollbackBuildUpdate dk) (rev completed) w1 of (es', w2) \<Rightarrow> (Inl (es @ es'), w2))
      | (Inr u, w1) \<Rightarrow> update_builds dk st md context is (completed @ [u]) w1)"

definition challenge_builds :: "ChallengeId \<Rightarrow> (db, BuildId list) act" where
  "challenge_builds c = query (\<lambda>t. map br_id (filter (\<lambda>b. br_challenge b = c) (builds t)))"

text \<open>Storing metadata: the metadata of before is looked up, the seccomp options are checked on the daemon.\<close>

definition store_metadata :: "'w daemon \<Rightarrow> site \<Rightarrow> bool \<Rightarrow> bool \<Rightarrow> ChallengeMetadata \<Rightarrow> ('w world, ChallengeMetadata) act" where
  "store_metadata dk st rebuild preflight md =
     bnd (lookup_challenge st (ch_Id md)) (\<lambda>previous.
     bnd (if preflight then preflightChallengeSeccomp dk md else ret ()) (\<lambda>_.
     bnd (map_err (Wrap ''could not update challenge'')
       (in_db (replaceChallengeMetadata (if rebuild then md\<lparr>SourceDigest := []\<rparr> else md)))) (\<lambda>_. ret previous)))"

text \<open>The recursive call with \<open>rebuild\<close> and \<open>preflight\<close> off that restores the metadata of before.\<close>

definition restore_metadata :: "'w daemon \<Rightarrow> site \<Rightarrow> ChallengeMetadata \<Rightarrow> 'w world \<Rightarrow> err list \<times> 'w world" where
  "restore_metadata dk st previous w =
     (case store_metadata dk st False False previous w of (r, w') \<Rightarrow> (errors_of [r], w'))"

text \<open>Cleaning up what interrupted updates have left, then the metadata with its source digest.\<close>

definition complete_update :: "'w daemon \<Rightarrow> ChallengeMetadata \<Rightarrow> BuildId list \<Rightarrow> 'w world \<Rightarrow> err list \<times> 'w world" where
  "complete_update dk md buildIds w =
     (case bnd (map_err (Wrap ''could not clean interrupted update resources'')
            (cleanupInterruptedBuildResources dk (ch_Id md) buildIds)) (\<lambda>_.
          map_err (Wrap ''could not complete update'') (in_db (replaceChallengeMetadata md))) w of
        (r, w') \<Rightarrow> (errors_of [r], w'))"

text \<open>The builds to make anew, and the context they are made from if there is any.\<close>

definition start_rebuild :: "site \<Rightarrow> ChallengeMetadata \<Rightarrow> ('w world, BuildId list \<times> string) act" where
  "start_rebuild st md = bnd (in_db (challenge_builds (ch_Id md))) (\<lambda>ids.
     if ids = [] then ret (ids, []) else bnd (build_context_of st md) (\<lambda>context. ret (ids, context)))"

definition rebuild_challenge :: "'w daemon \<Rightarrow> site \<Rightarrow> ChallengeMetadata \<Rightarrow> ChallengeMetadata \<Rightarrow> 'w world \<Rightarrow> err list \<times> 'w world" where
  "rebuild_challenge dk st previous md w =
     (case start_rebuild st md w of
        (Inl e, w1) \<Rightarrow> (case restore_metadata dk st previous w1 of (es, w2) \<Rightarrow> (e # es, w2))
      | (Inr (ids, context), w1) \<Rightarrow>
        (case update_builds dk st md context ids [] w1 of
           (Inl es, w2) \<Rightarrow> (case restore_metadata dk st previous w2 of (es', w3) \<Rightarrow> (es @ es', w3))
         | (Inr completed, w2) \<Rightarrow>
           (case gather (finishBuildUpdate dk) completed w2 of
              (es, w3) \<Rightarrow> if es \<noteq> [] then (es, w3) else complete_update dk md ids w3)))"

definition update_challenge :: "'w daemon \<Rightarrow> site \<Rightarrow> bool \<Rightarrow> bool \<Rightarrow> ChallengeMetadata \<Rightarrow> 'w world \<Rightarrow> err list \<times> 'w world" where
  "update_challenge dk st rebuild preflight md w =
     (case store_metadata dk st rebuild preflight md w of
        (Inl e, w1) \<Rightarrow> ([e], w1)
      | (Inr previous, w1) \<Rightarrow> if rebuild then rebuild_challenge dk st previous md w1 else ([], w1))"

fun updateChallengesInternal :: "'w daemon \<Rightarrow> site \<Rightarrow> bool \<Rightarrow> bool \<Rightarrow> ChallengeMetadata list \<Rightarrow> 'w world \<Rightarrow> err list \<times> 'w world" where
  "updateChallengesInternal dk st rebuild preflight [] w = ([], w)"
| "updateChallengesInternal dk st rebuild preflight (md # mds) w =
     (case update_challenge dk st rebuild preflight md w of (es, w1) \<Rightarrow>
      case updateChallengesInternal dk st rebuild preflight mds w1 of (es', w2) \<Rightarrow> (es @ es', w2))"

definition updateChallenges :: "'w daemon \<Rightarrow> site \<Rightarrow> bool \<Rightarrow> ChallengeMetadata list \<Rightarrow> 'w world \<Rightarrow> err list \<times> 'w world" where
  "updateChallenges dk st rebuild = updateChallengesInternal dk st rebuild True"

section \<open>Update\<close>

text \<open>The body of \<open>Update\<close>, which runs under the exclusive operation lock.\<close>

definition Update :: "'w daemon \<Rightarrow> site \<Rightarrow> string \<Rightarrow> 'w world \<Rightarrow> ChallengeUpdates \<times> 'w world" where
  "Update dk st fp w =
     (case DetectChanges st fp (wdb w) of (cu, d0) \<Rightarrow>
      case addChallenges (Added cu) d0 of ((added, errs), d1) \<Rightarrow>
      case updateChallenges dk st False (Refreshed cu) (w\<lparr>wdb := d1\<rparr>) of (errs2, w2) \<Rightarrow>
      case updateChallenges dk st True (Updated cu) w2 of (errs3, w3) \<Rightarrow>
      let cu' = cu\<lparr>Added := added, cu_Errors := cu_Errors cu @ errs @ errs2 @ errs3\<rparr> in
      if cu_Errors cu' \<noteq> [] then (cu', w3)
      else case in_db (removeChallenges (Removed cu)) w3 of
        (Inl e, w4) \<Rightarrow> (cu'\<lparr>cu_Errors := [e]\<rparr>, w4)
      | (Inr _, w4) \<Rightarrow> (cu', w4))"

section \<open>The mark of an incomplete update\<close>

definition row_of_challenge :: "ChallengeId \<Rightarrow> tables \<Rightarrow> challenge_row list" where
  "row_of_challenge c t = filter (\<lambda>r. cr_id r = c) (challenges t)"

lemma definitions_observers [maintains_intros]:
  "of_definitions (\<lambda>t. view c t = v)" "of_definitions (\<lambda>t. row_of_challenge c t = rs)"
  by (simp_all add: of_definitions_def definitions_of_def view_def row_of_challenge_def)

lemma found_row:
  assumes "lookupChallengeMetadata hash parse c d = (Inr m, d')"
  shows "\<exists>rs. row_of_challenge c (tab d) = challenge_row_of m # rs" "ch_Id m = c"
proof -
  obtain d0 d9 d1 rows k where b: "tab d0 = tab d" and 1: "query (row_of_challenge c) d0 = (Inr rows, d1)"
    and rest: "(case rows of [] \<Rightarrow> raise (unknownChallengeIdError c) | r # _ \<Rightarrow> k r) d1 = (Inr m, d9)"
    and k: "\<And>r d2 m d3. k r d2 = (Inr m, d3) \<Longrightarrow> challenge_row_of m = r"
  proof -
    let ?k = "\<lambda>r. bnd (query (\<lambda>t. map snd (sort_key fst (of_challenge c (hints t))))) (\<lambda>hs.
        bnd (query (\<lambda>t. of_challenge c (tags t))) (\<lambda>ts.
        bnd (query (\<lambda>t. map (\<lambda>(n, i, g). \<lparr>hi_Name = n, hi_Target = g\<rparr>)
          (sort_key (\<lambda>(n, i, g). i) (of_challenge c (hosts t))))) (\<lambda>hosts.
        bnd (query (\<lambda>t. map (\<lambda>(n, h, p). (n, \<lparr>pi_Host = h, pi_Port = p\<rparr>)) (of_challenge c (portNames t)))) (\<lambda>ports.
        bnd (query (\<lambda>t. of_challenge c (attributes t))) (\<lambda>attrs.
        bnd (query (\<lambda>t. case map_of (networkOptions t) c of Some e \<Rightarrow> e | None \<Rightarrow> False)) (\<lambda>egress.
        bnd (query (\<lambda>t. of_challenge c (containerOptions t))) (\<lambda>copts.
        case load_overrides hash parse copts of
          Inl e \<Rightarrow> raise e
        | Inr overrides \<Rightarrow>
          ret ((row_meta r)\<lparr>Hints := hs, Tags := ts, Hosts := hosts, PortMap := ports, Attributes := attrs,
            ch_Options := \<lparr>co_Network = \<lparr>AllowEgress = egress\<rparr>,
              co_Container = (case map_of overrides [] of Some o' \<Rightarrow> o' | None \<Rightarrow> no_options),
              Overrides = overrides\<rparr>\<rparr>))))))))"
    have "challenge_row_of m = r" if "?k r d2 = (Inr m, d3)" for r d2 m d3
      using that by (auto simp: challenge_row_of_def row_meta_def split: sum.splits elim!: bnd_InrE)
    then show thesis
      using assms that [of _ _ _ ?k] unfolding lookupChallengeMetadata_def row_of_challenge_def
      by (elim readTransaction_Inr bnd_InrE) blast
  qed
  obtain r rs where rows: "rows = r # rs" using rest by (cases rows) auto
  then have r: "row_of_challenge c (tab d) = r # rs" using query_Inr [OF 1] b by simp
  have m: "challenge_row_of m = r" using rest rows k by auto
  show "\<exists>rs. row_of_challenge c (tab d) = challenge_row_of m # rs" using r m by simp
  have "r \<in> set (row_of_challenge c (tab d))" using r by simp
  then have "cr_id r = c" by (simp add: row_of_challenge_def)
  then show "ch_Id m = c" using m by (auto simp: challenge_row_of_def)
qed

lemma replace_fails: "replaceChallengeMetadata m d = (Inl e, d') \<Longrightarrow> tab d' = tab d"
  unfolding replaceChallengeMetadata_def by (rule withTransaction_Inl)

text \<open>Storing metadata sets the view of the challenge or changes nothing, and the metadata of before names the row of before.\<close>

lemma store_metadata_effect:
  assumes "store_metadata dk st rebuild preflight md w = (r, w')"
  shows "case r of
      Inl e \<Rightarrow> definitions_of (tab (wdb w')) = definitions_of (tab (wdb w))
    | Inr previous \<Rightarrow> row_of_challenge (ch_Id md) (tab (wdb w)) = [challenge_row_of previous] \<and> ch_Id previous = ch_Id md \<and>
        (\<forall>c. view c (tab (wdb w')) = (if c = ch_Id md then new_view (if rebuild then md\<lparr>SourceDigest := []\<rparr> else md)
          else view c (tab (wdb w))))"
proof -
  let ?stored = "if rebuild then md\<lparr>SourceDigest := []\<rparr> else md"
  have pre: "maintains (holds Q) (if preflight then preflightChallengeSeccomp dk md else ret ())" for Q
    by (intro maintains_intros)
  obtain r1 w1 where 1: "lookup_challenge st (ch_Id md) w = (r1, w1)" by (metis surj_pair)
  have t1: "tab (wdb w1) = tab (wdb w)"
    using maintainsD [OF holds_lookups(1) [of "\<lambda>t. t = tab (wdb w)"] _ 1] by (simp add: holds_def)
  obtain r2 w2 where 2: "(if preflight then preflightChallengeSeccomp dk md else ret ()) w1 = (r2, w2)" by (metis surj_pair)
  have t2: "tab (wdb w2) = tab (wdb w)"
    using maintainsD [OF pre [of "\<lambda>t. t = tab (wdb w)"] _ 2] t1 by (simp add: holds_def)
  obtain r3 w3 where 3: "in_db (replaceChallengeMetadata ?stored) w2 = (r3, w3)" by (metis surj_pair)
  then obtain d where d: "replaceChallengeMetadata ?stored (wdb w2) = (r3, d)" "w3 = w2\<lparr>wdb := d\<rparr>" by (auto simp: in_db_run)
  consider (look) e where "r1 = Inl e" "r = Inl e" "w' = w1"
    | (check) p e where "r1 = Inr p" "r2 = Inl e" "r = Inl e" "w' = w2"
    | (store) p u e e' where "r1 = Inr p" "r2 = Inr u" "r3 = Inl e" "r = Inl e'" "w' = w3"
    | (ok) p u u' where "r1 = Inr p" "r2 = Inr u" "r3 = Inr u'" "r = Inr p" "w' = w3"
    using assms 1 2 3 unfolding store_metadata_def
    by (cases r1; cases r2; cases r3) (auto simp: bnd_def map_err_def)
  then show ?thesis
  proof cases
    case store
    then show ?thesis using replace_fails d t2 by simp
  next
    case ok
    have id: "ch_Id ?stored = ch_Id md" by simp
    have "lookupChallengeMetadata (sha256 (st_mgr st)) (parseProfile (st_mgr st)) (ch_Id md) (wdb w) = (Inr p, wdb w1)"
      using 1 ok by (auto simp: lookup_challenge_def find_challenge_def in_db_run)
    note found = found_row [OF this]
    have v: "replaceChallengeMetadata ?stored (wdb w2) = (Inr u', d)" using d ok by simp
    have "length (row_of_challenge (ch_Id md) (tab (wdb w))) = 1"
      using replaceChallenge_effect(2) [OF v] t2 id by (simp add: row_of_challenge_def)
    moreover have "view c (tab d) = (if c = ch_Id md then new_view ?stored else view c (tab (wdb w)))" for c
      using replace_view [OF v, of c] t2 id by simp
    ultimately show ?thesis using found ok d by (auto simp: length_Suc_conv)
  qed (use t1 t2 in simp_all)
qed

lemma restore_metadata_effect:
  assumes "restore_metadata dk st previous w = (es, w')"
  shows "(row_of_challenge (ch_Id previous) (tab (wdb w')) = row_of_challenge (ch_Id previous) (tab (wdb w)) \<or>
      row_of_challenge (ch_Id previous) (tab (wdb w')) = [challenge_row_of previous]) \<and>
    (\<forall>c. c \<noteq> ch_Id previous \<longrightarrow> view c (tab (wdb w')) = view c (tab (wdb w)))"
proof -
  obtain r where r: "store_metadata dk st False False previous w = (r, w')"
    using assms by (auto simp: restore_metadata_def split: prod.splits)
  show ?thesis
  proof (cases r)
    case (Inl e)
    then show ?thesis using store_metadata_effect [OF r] by (simp add: definitions_of_def row_of_challenge_def view_def)
  next
    case (Inr p)
    then have v: "view c (tab (wdb w')) = (if c = ch_Id previous then new_view previous else view c (tab (wdb w)))" for c
      using store_metadata_effect [OF r] by auto
    have "row_of_challenge (ch_Id previous) (tab (wdb w')) = fst (view (ch_Id previous) (tab (wdb w')))"
      by (simp add: row_of_challenge_def view_def)
    then show ?thesis using v by (simp add: new_view_def)
  qed
qed

section \<open>What updating builds leaves alone\<close>

lemma maintains_or_fail [maintains_intros]:
  assumes "maintains P m" "maintains P cleanup" "\<And>x. maintains P (k x)"
  shows "maintains P (or_fail m cleanup k)"
proof (rule maintains_runI)
  fix s
  assume "P s"
  obtain r s1 where 1: "m s = (r, s1)" by (metis surj_pair)
  have "P s1" using maintainsD [OF assms(1) \<open>P s\<close> 1] .
  with leaves [OF assms(2) this] leaves [OF assms(3) this] show "P (snd (or_fail m cleanup k s))"
    by (cases r; cases "cleanup s1") (simp_all add: or_fail_def 1)
qed

lemma holds_ends [maintains_intros]:
  "maintains (holds Q) no_cleanup" "maintains (holds Q) (discarding dk md b q)" "maintains (holds Q) randomIdentifier"
proof -
  show "maintains (holds Q) (discarding dk md b q)"
  proof (rule maintains_runI)
    fix w :: "'b world"
    assume w: "holds Q w"
    have "maintains (holds Q) (discardStagedBuild dk md b q)" by (intro maintains_intros)
    from leaves [OF this w] show "holds Q (snd (discarding dk md b q w))"
      by (cases "discardStagedBuild dk md b q w") (simp add: discarding_def)
  qed
  show "maintains (holds Q) no_cleanup" by (simp add: maintains_def no_cleanup_def)
  show "maintains (holds Q) randomIdentifier" unfolding randomIdentifier_def by (intro maintains_intros)
qed

lemma holds_prepare_cutovers [maintains_intros]:
  assumes "of_definitions Q"
  shows "maintains (holds Q) (prepare_cutovers dk m opts u is)"
proof (induction "is" arbitrary: u)
  case Nil
  then show ?case by (simp add: maintains_def)
next
  case (Cons i "is")
  have "maintains (holds Q) (or_fail (bnd (in_db (lookupInstanceMetadata i)) (\<lambda>inst. prepareInstanceCutover dk m (up_candidate u) inst opts))
       (rollbackBuildUpdate dk u) (\<lambda>c. prepare_cutovers dk m opts (u\<lparr>up_cutovers := up_cutovers u @ [c]\<rparr>) is))"
    by (intro maintains_intros assms of_definitions_core Cons)
  then show ?case by (simp add: maintains_def)
qed

lemma holds_update_build: "of_definitions Q \<Longrightarrow> maintains (holds Q) (update_build dk st md ctx i)"
  unfolding update_build_def Let_def by (intro maintains_intros of_definitions_core)

lemma maintains_gather:
  assumes "\<And>u. maintains P (f u)"
  shows "maintains P (gather f us)"
proof (rule maintains_runI)
  show "P s \<Longrightarrow> P (snd (gather f us s))" for s
  proof (induction us arbitrary: s)
    case (Cons u us)
    obtain es s1 where 1: "f u s = (es, s1)" by (metis surj_pair)
    have "P s1" using maintainsD [OF assms Cons.prems 1] .
    from Cons.IH [OF this] 1 show ?case by (cases "gather f us s1") simp
  qed simp
qed

lemma holds_update_builds: 
  assumes "of_definitions Q"
  shows "holds Q w \<Longrightarrow> holds Q (snd (update_builds dk st md ctx is completed w))"
proof (induction "is" arbitrary: completed w)
  case (Cons i "is")
  obtain r w1 where 1: "update_build dk st md ctx i w = (r, w1)" by (metis surj_pair)
  have w1: "holds Q w1" using maintainsD [OF holds_update_build [OF assms] Cons.prems 1] .
  have "maintains (holds Q) (gather (rollbackBuildUpdate dk) (rev completed))"
    by (intro maintains_gather maintains_intros assms)
  from leaves [OF this w1] Cons.IH [OF w1] 1 show ?case
    by (cases r; cases "gather (rollbackBuildUpdate dk) (rev completed) w1") simp_all
qed simp

lemma holds_complete:
  assumes "maintains (holds Q) (in_db (replaceChallengeMetadata md) :: ('w world, unit) act)"
  shows "maintains (holds Q) (complete_update dk md ids :: 'w world \<Rightarrow> err list \<times> 'w world)"
proof (rule maintains_runI)
  fix w :: "'w world"
  assume w: "holds Q w"
  have "maintains (holds Q) (bnd (map_err (Wrap ''could not clean interrupted update resources'')
            (cleanupInterruptedBuildResources dk (ch_Id md) ids)) (\<lambda>_.
          map_err (Wrap ''could not complete update'') (in_db (replaceChallengeMetadata md))))"
    by (intro maintains_intros assms)
  from leaves [OF this w] show "holds Q (snd (complete_update dk md ids w))"
    by (auto simp: complete_update_def split: prod.split)
qed

section \<open>Every build is remade\<close>

text \<open>The builds in \<open>S\<close> have a flag; the identifiers and challenges of the rows are \<open>K\<close>.\<close>

definition made :: "BuildId set \<Rightarrow> (BuildId \<times> ChallengeId) list \<Rightarrow> tables \<Rightarrow> bool" where
  "made S K t \<longleftrightarrow> (\<forall>r \<in> set (builds t). br_id r \<in> S \<longrightarrow> br_flag r \<noteq> []) \<and> map (\<lambda>r. (br_id r, br_challenge r)) (builds t) = K"

lemma of_core_made [maintains_intros]: "of_core (made S K)"
  by (simp add: of_core_def core_def made_def)

lemma executed_flag:
  assumes "executeBuild dk st c b ctx q w = (Inr b', w')"
  shows "bd_Id b' = bd_Id b \<and> Flag b' \<noteq> []"
proof -
  obtain cache im ims w1 w2 where run: "with_build_container dk im (extract_build dk st c b q ims) w2 = (Inr b', w')"
    using assms(1) unfolding executeBuild_def by (auto elim!: bnd_InrE split: if_splits)
  obtain cid w3 w4 where x: "extract_build dk st c b q ims cid w3 = (Inr b', w4)"
    using with_temporary_result [OF run [unfolded with_build_container_def]] by blast
  then show ?thesis unfolding extract_build_def
    by (auto simp: accept_build_def check_flag_def split: sum.splits if_splits elim!: bnd_InrE)
qed

lemma found_build:
  assumes "lookupBuildMetadata i d = (Inr b, d')"
  shows "bd_Id b = i" "\<exists>r \<in> set (builds (tab d)). br_id r = i \<and> br_flag r = Flag b \<and> br_challenge r = bd_Challenge b"
proof -
  obtain d0 d9 rows d1 where 0: "tab d0 = tab d" and 1: "query (\<lambda>t. filter (\<lambda>r. br_id r = i) (builds t)) d0 = (Inr rows, d1)"
    and rest: "(case rows of
        [] \<Rightarrow> raise (unknownBuildIdError i)
      | r # _ \<Rightarrow>
        bnd (query (build_lookups i)) (\<lambda>lookups.
        bnd (query (build_images i)) (\<lambda>is d.
          case load_ports is d of
            ((Some e, _), d') \<Rightarrow> (Inl e, d')
          | ((None, ims), d') \<Rightarrow> (Inr (meta_of r lookups ims), d')))) d1 = (Inr b, d9)"
    using assms unfolding lookupBuildMetadata_def by (elim readTransaction_Inr bnd_InrE) blast
  obtain r rs where rows: "rows = r # rs" using rest by (cases rows) auto
  then have "r \<in> set (filter (\<lambda>r. br_id r = i) (builds (tab d)))" using query_Inr [OF 1] 0 by (metis list.set_intros(1))
  then have r: "r \<in> set (builds (tab d))" "br_id r = i" by simp_all
  have "bd_Id b = br_id r \<and> Flag b = br_flag r \<and> bd_Challenge b = br_challenge r"
    using rest rows by (auto simp: meta_of_def split: prod.splits option.splits elim!: bnd_InrE)
  then show "bd_Id b = i" "\<exists>r \<in> set (builds (tab d)). br_id r = i \<and> br_flag r = Flag b \<and> br_challenge r = bd_Challenge b" using r by auto
qed

lemma finalize_made:
  assumes "finalizeBuild b d = (Inr b', d')" "Flag b \<noteq> []" "made S K (tab d)"
  shows "made (insert (bd_Id b) S) K (tab d')" "bd_Id b' = bd_Id b"
proof -
  note e = finalizeBuild_effect [OF assms(1)]
  show "made (insert (bd_Id b) S) K (tab d')"
    using assms(2,3) unfolding made_def e(1) finalizeBuildQuery_def update_rows_def by (auto simp: comp_def)
  show "bd_Id b' = bd_Id b" using e(7) by (metis BuildMetadata.simps(1) BuildMetadata.surjective BuildMetadata.update_convs(7))
qed

lemma or_fail_Inr:
  "or_fail m cleanup k w = (Inr y, w') \<longleftrightarrow> (\<exists>x w1. m w = (Inr x, w1) \<and> k x w1 = (Inr y, w'))"
  by (auto simp: or_fail_def split: prod.splits sum.splits)

lemma prepare_cutovers_made:
  "prepare_cutovers dk m opts u is w = (Inr u', w') \<Longrightarrow> of_core Q \<Longrightarrow> holds Q w \<Longrightarrow> holds Q w'"
proof (induction "is" arbitrary: u w)
  case (Cons i "is")
  obtain c w1 where 1: "bnd (in_db (lookupInstanceMetadata i)) (\<lambda>inst. prepareInstanceCutover dk m (up_candidate u) inst opts) w = (Inr c, w1)"
    and 2: "prepare_cutovers dk m opts (u\<lparr>up_cutovers := up_cutovers u @ [c]\<rparr>) is w1 = (Inr u', w')"
    using Cons.prems(1) by (auto simp: or_fail_Inr)
  have "maintains (holds Q) (bnd (in_db (lookupInstanceMetadata i)) (\<lambda>inst. prepareInstanceCutover dk m (up_candidate u) inst opts))"
    using Cons.prems(2) by (intro maintains_intros)
  from maintainsD [OF this Cons.prems(3) 1] show ?case by (rule Cons.IH [OF 2 Cons.prems(2)])
qed simp

lemma update_build_made:
  assumes "update_build dk st md ctx i w = (Inr u, w')" "holds (made S K) w"
  shows "holds (made (insert i S) K) w'"
proof -
  obtain b w1 suffix w2 b1 w3 p w4 b2 w5 "is" w6 u' where
    1: "in_db (lookupBuildMetadata i) w = (Inr b, w1)" and
    2: "randomIdentifier w1 = (Inr suffix, w2)" and
    3: "executeBuild dk st md (b\<lparr>Flag := []\<rparr>) ctx (stagedBuildQualifierPrefix @ suffix) w2 = (Inr b1, w3)" and
    4: "promoteStagedBuild dk b1 (stagedBuildQualifierPrefix @ suffix) w3 = (Inr p, w4)" and
    5: "in_db (finalizeBuild b1) w4 = (Inr b2, w5)" and
    6: "in_db (getBuildInstances (bd_Id b2)) w5 = (Inr is, w6)" and
    7: "prepare_cutovers dk (st_mgr st) (Overrides (ch_Options md)) u' is w6 = (Inr u, w')"
    using assms(1) by (auto simp: update_build_def or_fail_Inr Let_def)
  have m: "maintains (holds (made S K)) (in_db (lookupBuildMetadata i) :: ('a world, BuildMetadata) act)"
    "maintains (holds (made S K)) (executeBuild dk st md (b\<lparr>Flag := []\<rparr>) ctx (stagedBuildQualifierPrefix @ suffix))"
    "maintains (holds (made (insert i S) K)) (in_db (getBuildInstances (bd_Id b2)) :: ('a world, InstanceId list) act)"
    by (intro maintains_intros)+
  have w4: "holds (made S K) w4"
    using maintainsD [OF m(1) assms(2) 1] maintainsD [OF holds_ends(3) _ 2] maintainsD [OF m(2) _ 3] maintainsD [OF holds_promote _ 4] by blast
  have "bd_Id b = i" using 1 found_build(1) by (auto simp: in_db_run)
  then have id: "bd_Id b1 = i" "Flag b1 \<noteq> []" using executed_flag [OF 3] by auto
  have w5: "holds (made (insert i S) K) w5"
    using 5 finalize_made(1) [of b1 "wdb w4" b2 _ S K] id w4 by (auto simp: in_db_run holds_def)
  have "holds (made (insert i S) K) w6" using maintainsD [OF m(3) w5 6] .
  then show ?thesis using prepare_cutovers_made [OF 7 of_core_made] by blast
qed

lemma update_builds_made:
  "update_builds dk st md ctx is completed w = (Inr us, w') \<Longrightarrow> holds (made S K) w \<Longrightarrow> holds (made (S \<union> set is) K) w'"
proof (induction "is" arbitrary: completed S w)
  case (Cons i "is")
  obtain u w1 where 1: "update_build dk st md ctx i w = (Inr u, w1)" and
    2: "update_builds dk st md ctx is (completed @ [u]) w1 = (Inr us, w')"
    using Cons.prems(1) by (auto split: prod.splits sum.splits)
  from Cons.IH [OF 2 update_build_made [OF 1 Cons.prems(2)]] show ?case by simp
qed simp

lemma replace_builds: "maintains (holds (made S K)) (in_db (replaceChallengeMetadata md))"
proof -
  have "builds (tab (snd (replaceChallengeMetadata md d))) = builds (tab d)" for d
  proof -
    obtain r d' where 1: "replaceChallengeMetadata md d = (r, d')" by (metis surj_pair)
    then show ?thesis using replace_fails [of md d _ d'] replaceChallenge_effect(1) [of md d _ d']
      by (cases r) (auto simp: put_relations_def cleared_def Let_def)
  qed
  then show ?thesis by (simp add: maintains_def holds_def made_def)
qed

text \<open>The metadata that an update in progress is stored with.\<close>

definition in_progress :: "ChallengeMetadata \<Rightarrow> ChallengeMetadata" where
  "in_progress md = md\<lparr>SourceDigest := []\<rparr>"

definition others_kept :: "ChallengeId \<Rightarrow> tables \<Rightarrow> tables \<Rightarrow> bool" where
  "others_kept c t t' \<longleftrightarrow> (\<forall>c'. c' \<noteq> c \<longrightarrow> view c' t' = view c' t)"

lemma of_definitions_progress: "of_definitions (\<lambda>t'. row_of_challenge c t' = rs \<and> others_kept c t t')"
  by (auto simp: of_definitions_def definitions_of_def view_def row_of_challenge_def others_kept_def)

lemma complete_update_effect:
  assumes "complete_update dk md ids w = (es, w')"
  shows "if es = [] then view (ch_Id md) (tab (wdb w')) = new_view md \<and> others_kept (ch_Id md) (tab (wdb w)) (tab (wdb w'))
    else definitions_of (tab (wdb w')) = definitions_of (tab (wdb w))"
proof -
  obtain r1 w1 where 1: "cleanupInterruptedBuildResources dk (ch_Id md) ids w = (r1, w1)" by (metis surj_pair)
  have t1: "tab (wdb w1) = tab (wdb w)"
    using maintainsD [OF holds_cleanup [of "\<lambda>t. t = tab (wdb w)"] _ 1] by (simp add: holds_def)
  obtain r2 d where 2: "replaceChallengeMetadata md (wdb w1) = (r2, d)" by (metis surj_pair)
  show ?thesis
  proof (cases r1)
    case (Inl e)
    then have "es \<noteq> []" "w' = w1" using assms 1 by (auto simp: complete_update_def bnd_def map_err_def errors_of_def)
    then show ?thesis using t1 by simp
  next
    case Inr1: (Inr u)
    show ?thesis
    proof (cases r2)
      case (Inl e)
      then have "es \<noteq> []" "tab (wdb w') = tab d"
        using assms 1 2 Inr1 by (auto simp: complete_update_def bnd_def map_err_def errors_of_def in_db_def)
      then show ?thesis using replace_fails 2 Inl t1 by simp
    next
      case (Inr v)
      then have "es = []" "tab (wdb w') = tab d"
        using assms 1 2 Inr1 by (auto simp: complete_update_def bnd_def map_err_def errors_of_def in_db_def)
      then show ?thesis using replace_view [OF 2 [unfolded Inr]] t1 by (simp add: others_kept_def)
    qed
  qed
qed

definition all_built :: "ChallengeId \<Rightarrow> tables \<Rightarrow> bool" where
  "all_built c t \<longleftrightarrow> (\<forall>b \<in> set (builds t). br_challenge b = c \<longrightarrow> br_flag b \<noteq> [])"

lemma made_all_built:
  assumes "made (set (map br_id (filter (\<lambda>b. br_challenge b = c) (builds t)))) (map (\<lambda>r. (br_id r, br_challenge r)) (builds t)) t'"
  shows "all_built c t'"
  unfolding all_built_def
proof (intro ballI impI)
  fix b
  assume b: "b \<in> set (builds t')" "br_challenge b = c"
  have "(br_id b, c) \<in> set (map (\<lambda>r. (br_id r, br_challenge r)) (builds t'))" using b by force
  also have "map (\<lambda>r. (br_id r, br_challenge r)) (builds t') = map (\<lambda>r. (br_id r, br_challenge r)) (builds t)"
    using assms by (simp add: made_def)
  finally have "br_id b \<in> set (map br_id (filter (\<lambda>b. br_challenge b = c) (builds t)))" by force
  then show "br_flag b \<noteq> []" using assms b(1) by (simp add: made_def)
qed

lemma holds_finish:
  assumes "of_core Q"
  shows "maintains (holds Q) (gather (finishBuildUpdate dk) us)"
proof (rule maintains_gather)
  fix u
  show "maintains (holds Q) (finishBuildUpdate dk u)"
    unfolding finishBuildUpdate_def Let_def using assms
    by (intro maintains_each_of) (auto intro!: maintains_intros split: if_splits)
qed

lemma or_fail_Inl: "or_fail m cleanup k w = (Inl es, w') \<Longrightarrow> (\<And>x w1. k x w1 = (Inl es, w') \<Longrightarrow> es \<noteq> []) \<Longrightarrow> es \<noteq> []"
  by (auto simp: or_fail_def split: prod.splits sum.splits)

lemma prepare_cutovers_fails: "prepare_cutovers dk m opts u is w = (Inl es, w') \<Longrightarrow> es \<noteq> []"
proof (induction "is" arbitrary: u w)
  case (Cons i "is")
  show ?case by (rule or_fail_Inl [OF Cons.prems [unfolded prepare_cutovers.simps]]) (rule Cons.IH)
qed simp

lemma update_build_fails: "update_build dk st md ctx i w = (Inl es, w') \<Longrightarrow> es \<noteq> []"
  unfolding update_build_def Let_def by (erule or_fail_Inl)+ (rule prepare_cutovers_fails)

lemma update_builds_fails: "update_builds dk st md ctx is completed w = (Inl es, w') \<Longrightarrow> es \<noteq> []"
proof (induction "is" arbitrary: completed w)
  case (Cons i "is")
  then show ?case by (auto dest: update_build_fails split: prod.splits sum.splits)
qed simp

lemma start_rebuild_effect:
  assumes "start_rebuild st md w = (r, w')"
  shows "tab (wdb w') = tab (wdb w)"
    "r = Inr (ids, ctx) \<Longrightarrow> ids = map br_id (filter (\<lambda>b. br_challenge b = ch_Id md) (builds (tab (wdb w))))"
proof -
  have "maintains (holds (\<lambda>t. t = tab (wdb w))) (start_rebuild st md)"
    unfolding start_rebuild_def challenge_builds_def by (intro maintains_intros)
  from maintainsD [OF this _ assms] show "tab (wdb w') = tab (wdb w)" by (simp add: holds_def)
  show "r = Inr (ids, ctx) \<Longrightarrow> ids = map br_id (filter (\<lambda>b. br_challenge b = ch_Id md) (builds (tab (wdb w))))"
    using assms unfolding start_rebuild_def challenge_builds_def
    by (auto simp: in_db_run dest!: query_Inr split: if_splits elim!: bnd_InrE)
qed

lemma rebuild_effect:
  assumes "rebuild_challenge dk st previous md w = (es, w')" "ch_Id previous = ch_Id md"
  shows "if es = [] then view (ch_Id md) (tab (wdb w')) = new_view md \<and> others_kept (ch_Id md) (tab (wdb w)) (tab (wdb w')) \<and>
      all_built (ch_Id md) (tab (wdb w'))
    else (row_of_challenge (ch_Id md) (tab (wdb w')) = row_of_challenge (ch_Id md) (tab (wdb w)) \<or>
        row_of_challenge (ch_Id md) (tab (wdb w')) = [challenge_row_of previous]) \<and>
      others_kept (ch_Id md) (tab (wdb w)) (tab (wdb w'))"
proof -
  let ?c = "ch_Id md" and ?t = "tab (wdb w)"
  let ?Q = "\<lambda>t'. row_of_challenge ?c t' = row_of_challenge ?c ?t \<and> others_kept ?c ?t t'"
  have restored: "?thesis" if "restore_metadata dk st previous wx = (es', w')" "holds ?Q wx" "es \<noteq> []" for wx es'
    using restore_metadata_effect [OF that(1)] that(2,3) assms(2) by (auto simp: holds_def others_kept_def)
  obtain r1 w1 where 1: "start_rebuild st md w = (r1, w1)" by (metis surj_pair)
  note t1 = start_rebuild_effect [OF 1]
  have q1: "holds ?Q w1" using t1(1) by (simp add: holds_def others_kept_def)
  show ?thesis
  proof (cases r1)
    case (Inl e)
    then show ?thesis using assms(1) 1 restored q1
      by (auto simp: rebuild_challenge_def split: prod.splits)
  next
    case (Inr x)
    then obtain ids ctx where r1: "r1 = Inr (ids, ctx)" by (cases x) auto
    obtain r2 w2 where 2: "update_builds dk st md ctx ids [] w1 = (r2, w2)" by (metis surj_pair)
    have q2: "holds ?Q w2" using holds_update_builds [OF of_definitions_progress q1] 2 by (metis snd_conv)
    show ?thesis
    proof (cases r2)
      case (Inl es1)
      have "es1 \<noteq> []" using update_builds_fails 2 Inl by metis
      then show ?thesis using assms(1) 1 r1 2 Inl restored q2
        by (auto simp: rebuild_challenge_def split: prod.splits)
    next
      case (Inr us)
      obtain es3 w3 where 3: "gather (finishBuildUpdate dk) us w2 = (es3, w3)" by (metis surj_pair)
      have q3: "holds ?Q w3" using maintainsD [OF holds_finish [OF of_definitions_core [OF of_definitions_progress]] q2 3] .
      have run: "(if es3 \<noteq> [] then (es3, w3) else complete_update dk md ids w3) = (es, w')"
        using assms(1) 1 r1 2 Inr 3 by (simp add: rebuild_challenge_def)
      let ?M = "made (set ids) (map (\<lambda>r. (br_id r, br_challenge r)) (builds ?t))"
      have "holds (made {} (map (\<lambda>r. (br_id r, br_challenge r)) (builds ?t))) w1" using t1(1) by (simp add: holds_def made_def)
      from update_builds_made [OF 2 [unfolded Inr] this] have "holds ?M w2" by simp
      then have m3: "holds ?M w3" using maintainsD [OF holds_finish [OF of_core_made] _ 3] by blast
      have m: "holds ?M w'" using m3 leaves [OF holds_complete [OF replace_builds] m3, of dk md ids] run
        by (auto split: if_splits)
      show ?thesis
      proof (cases "es3 = []")
        case True
        then have c: "complete_update dk md ids w3 = (es, w')" using run by simp
        have "all_built ?c (tab (wdb w'))" using made_all_built m t1(2) [OF r1] by (simp add: holds_def)
        then show ?thesis using complete_update_effect [OF c] q3
          by (auto simp: holds_def others_kept_def definitions_of_def row_of_challenge_def view_def split: if_splits)
      next
        case False
        then show ?thesis using run q3 by (simp add: holds_def)
      qed
    qed
  qed
qed

text \<open>
  C38. An update is never taken for complete when it is not. An update of a challenge that reports no
  error has stored the new metadata and made every build of the challenge. One that reports an error, at
  whatever step, leaves the challenge's row as it was before or with an empty source digest, the mark
  that makes the next update rebuild it. Every other challenge stays as it was.
\<close>

theorem incomplete_update_is_marked:
  assumes "update_challenge dk st True preflight md w = (errs, w')"
  shows "(if errs = [] then view (ch_Id md) (tab (wdb w')) = new_view md \<and> all_built (ch_Id md) (tab (wdb w'))
      else row_of_challenge (ch_Id md) (tab (wdb w')) \<in>
        {row_of_challenge (ch_Id md) (tab (wdb w)), [challenge_row_of (in_progress md)]}) \<and>
    others_kept (ch_Id md) (tab (wdb w)) (tab (wdb w'))"
proof -
  obtain r w1 where 1: "store_metadata dk st True preflight md w = (r, w1)" by (metis surj_pair)
  note e1 = store_metadata_effect [OF 1]
  show ?thesis
  proof (cases r)
    case (Inl e)
    then have "errs \<noteq> []" "w' = w1" using assms 1 by (auto simp: update_challenge_def)
    then show ?thesis using e1 Inl by (simp add: definitions_of_def row_of_challenge_def others_kept_def view_def)
  next
    case (Inr previous)
    then have rb: "rebuild_challenge dk st previous md w1 = (errs, w')" using assms 1 by (simp add: update_challenge_def)
    have id: "ch_Id previous = ch_Id md" "row_of_challenge (ch_Id md) (tab (wdb w)) = [challenge_row_of previous]"
      and v: "\<And>c. view c (tab (wdb w1)) = (if c = ch_Id md then new_view (in_progress md) else view c (tab (wdb w)))"
      using e1 Inr by (simp_all add: in_progress_def)
    have "row_of_challenge (ch_Id md) (tab (wdb w1)) = fst (view (ch_Id md) (tab (wdb w1)))"
      by (simp add: row_of_challenge_def view_def)
    then have "row_of_challenge (ch_Id md) (tab (wdb w1)) = [challenge_row_of (in_progress md)]"
      using v by (simp add: new_view_def)
    then show ?thesis using rebuild_effect [OF rb id(1)] id(2) v by (auto simp: others_kept_def)
  qed
qed

definition ex_update_world :: "(string \<times> string) list world" where
  "ex_update_world = ex_image_world\<lparr>wdb := ex_db\<lparr>tab := empty_tables\<lparr>challenges := [ex_challenge]\<rparr>\<rparr>\<rparr>"

definition ex_new_metadata :: ChallengeMetadata where
  "ex_new_metadata = (row_meta ex_challenge)\<lparr>Description := ''new'', SourceDigest := ''e''\<rparr>"

theorem incomplete_update_is_marked_witness:
  "\<exists>w'. update_challenge ex_image_daemon ex_site True True ex_new_metadata ex_update_world = ([], w') \<and>
     row_of_challenge ''c'' (tab (wdb w')) = [ex_challenge\<lparr>cr_description := ''new'', cr_sourcedigest := ''e''\<rparr>]"
proof -
  let ?u = "update_challenge ex_image_daemon ex_site True True ex_new_metadata ex_update_world"
  have "fst ?u = []" by code_simp
  then have u: "?u = ([], snd ?u)" by (metis prod.collapse)
  have c: "ch_Id ex_new_metadata = ''c''" "challenge_row_of ex_new_metadata = ex_challenge\<lparr>cr_description := ''new'', cr_sourcedigest := ''e''\<rparr>"
    by code_simp+
  have "view ''c'' (tab (wdb (snd ?u))) = new_view ex_new_metadata"
    using incomplete_update_is_marked [OF u] c by simp
  moreover have "row_of_challenge ''c'' t = fst (view ''c'' t)" for t by (simp add: row_of_challenge_def view_def)
  ultimately have "row_of_challenge ''c'' (tab (wdb (snd ?u))) = [challenge_row_of ex_new_metadata]" by (simp add: new_view_def)
  then show ?thesis using u c by metis
qed

end
