(* ===== verification/Schemas.thy ===== *)
theory Schemas
  imports Updating
begin

text \<open>
  The operations on builds, instances and schemas of \<open>cmgr/api.go\<close>. Each takes the operation lock
  first and releases it last; the lock is the component of that name, and the definitions below are what runs
  under it. \<open>schemaMu\<close> orders the operations on schemas of one process. A Go map of
  challenges is the list of its pairs in the order a loop takes them.
\<close>

section \<open>Validation\<close>

definition maxFlagFormatBytes :: nat where "maxFlagFormatBytes = 128"

text \<open>\<open>strings.Count\<close> of a text that is not empty: occurrences that do not overlap, from the left.\<close>

function Count :: "string \<Rightarrow> string \<Rightarrow> nat" where
  "Count s p = (if p = [] \<or> s = [] then 0
     else if HasPrefix s p then Suc (Count (drop (length p) s) p) else Count (tl s) p)"
  by auto
termination by (relation "measure (length \<circ> fst)") auto

declare Count.simps [simp del]

definition validateFlagFormat :: "string \<Rightarrow> err + unit" where
  "validateFlagFormat format =
     (if length format > maxFlagFormatBytes then Inl (Plain ''flag format is too long'')
      else if Count format ''%s'' \<noteq> 1 then Inl (Plain ''flag format must contain exactly one literal placeholder'')
      else if Count format ''%'' \<noteq> 1 then Inl (Plain ''flag format cannot contain other directives'')
      else Inr ())"

fun validate_seeds :: "int list \<Rightarrow> int list \<Rightarrow> err + unit" where
  "validate_seeds seen [] = Inr ()"
| "validate_seeds seen (s # ss) =
     (if s \<in> set seen then Inl (Plain ''seed is specified more than once'') else validate_seeds (s # seen) ss)"

definition validateSeeds :: "int list \<Rightarrow> err + unit" where
  "validateSeeds = validate_seeds []"

definition manualSchemaPrefix :: string where "manualSchemaPrefix = ''manual-''"

fun validate_challenges :: "(ChallengeId \<times> BuildSpecification) list \<Rightarrow> err + unit" where
  "validate_challenges [] = Inr ()"
| "validate_challenges ((c, spec) # rest) =
     (if bs_InstanceCount spec < DYNAMIC_INSTANCES then Inl (Plain ''challenge has invalid instance_count'')
      else case validateSeeds (Seeds spec) of
        Inl e \<Rightarrow> Inl (Wrap ''challenge'' e)
      | Inr _ \<Rightarrow> validate_challenges rest)"

text \<open>A null schema, which the HTTP interface can pass on, is None.\<close>

definition validateSchemaDefinition :: "Schema option \<Rightarrow> err + unit" where
  "validateSchemaDefinition schema =
     (case schema of
        None \<Rightarrow> Inl (Plain ''schema definition cannot be null'')
      | Some s \<Rightarrow>
        if sm_Name s = [] then Inl (Plain ''schema name cannot be empty'')
        else if HasPrefix (sm_Name s) manualSchemaPrefix then Inl (Plain ''schema names with this prefix are reserved'')
        else sbind (validateFlagFormat (FlagFormat s)) (\<lambda>_. validate_challenges (Challenges s)))"

fun validate_limits :: "managerPolicy \<Rightarrow> (ChallengeId \<times> BuildSpecification) list \<Rightarrow> err + unit" where
  "validate_limits pol [] = Inr ()"
| "validate_limits pol ((c, spec) # rest) =
     (case validateSeedLimit pol (length (Seeds spec)) of
        Inl e \<Rightarrow> Inl (invalidInput (Wrap ''challenge'' e))
      | Inr _ \<Rightarrow> validate_limits pol rest)"

section \<open>Manual builds\<close>

definition MaxRequestBytes_of :: "managerPolicy \<Rightarrow> int" where
  "MaxRequestBytes_of pol = (if MaxRequestBytes pol > 0 then MaxRequestBytes pol else 1024 * 1024)"

definition new_build :: "string \<Rightarrow> ChallengeId \<Rightarrow> string \<Rightarrow> int \<Rightarrow> int \<Rightarrow> BuildMetadata" where
  "new_build format challenge schema cnt seed = \<lparr>bd_Id = 0, Flag = [], LookupData = [], RequiredSeccompTweaks = [], Seed = seed,
     Format = format, Images = [], HasArtifacts = False, bd_LastSolved = 0, bd_Challenge = challenge, Instances = [],
     bd_Schema = schema, InstanceCount = cnt\<rparr>"

definition as_input :: "err + 'a \<Rightarrow> ('s, 'a) act" where
  "as_input r = lift_sum (case r of Inl e \<Rightarrow> Inl (invalidInput e) | Inr x \<Rightarrow> Inr x)"

text \<open>What a failed manual build leaves is destroyed; the schema record goes if nothing is left.\<close>

definition undo_manual :: "'w daemon \<Rightarrow> string \<Rightarrow> 'w world \<Rightarrow> err list \<times> 'w world" where
  "undo_manual dk schema w =
     (case in_db (getSchemaBuilds schema) w of
        (r, w1) \<Rightarrow>
          (case (case r of Inl e \<Rightarrow> ([e], w1) | Inr ids \<Rightarrow> each_collect (destroyImages dk) ids w1) of
             (es, w2) \<Rightarrow> (case in_db (deleteSchemaRecordIfEmpty schema) w2 of (r', w3) \<Rightarrow> (es @ errors_of [r'], w3))))"

definition Build :: "'w daemon \<Rightarrow> site \<Rightarrow> ChallengeId \<Rightarrow> int list \<Rightarrow> string \<Rightarrow> ('w world, BuildMetadata list) act" where
  "Build dk st challenge seeds format =
     bnd (as_input (if seeds = [] then Inl (Plain ''at least one seed is required'') else Inr ())) (\<lambda>_.
     bnd (as_input (validateFlagFormat format)) (\<lambda>_.
     bnd (as_input (validateSeeds seeds)) (\<lambda>_.
     bnd (as_input (validateSeedLimit (policy (st_mgr st)) (length seeds))) (\<lambda>_.
     bnd randomIdentifier (\<lambda>suffix.
     let schema = manualSchemaPrefix @ suffix in
     bnd (in_db (createSchemaRecord schema True)) (\<lambda>_ w.
     case generateBuilds dk st (map (new_build format challenge schema (-1)) seeds) w of
       (Inr bs, w1) \<Rightarrow> (Inr bs, w1)
     | (Inl e, w1) \<Rightarrow> (case undo_manual dk schema w1 of (es, w2) \<Rightarrow> (Inl (Join (e # es)), w2))))))))"

definition Start :: "'w daemon \<Rightarrow> site \<Rightarrow> BuildId \<Rightarrow> ('w world, InstanceId) act" where
  "Start dk st build =
     bnd (in_db (lookupBuildMetadata build)) (\<lambda>b.
     if InstanceCount b \<noteq> DYNAMIC_INSTANCES then raise (ConflictError (Plain ''locked build''))
     else newInstance dk (st_mgr st) b)"

definition Stop :: "'w daemon \<Rightarrow> InstanceId \<Rightarrow> ('w world, unit) act" where
  "Stop dk instance =
     bnd (in_db (lookupInstanceMetadata instance)) (\<lambda>i.
     bnd (in_db (lookupBuildMetadata (in_Build i))) (\<lambda>b.
     if InstanceCount b \<noteq> DYNAMIC_INSTANCES then raise (ConflictError (Plain ''locked build''))
     else stopInstance dk i))"

definition Destroy :: "'w daemon \<Rightarrow> BuildId \<Rightarrow> ('w world, unit) act" where
  "Destroy dk build =
     bnd (in_db (lookupBuildMetadata build)) (\<lambda>b.
     bnd (in_db (schemaIsManual (bd_Schema b))) (\<lambda>manual.
     if \<not> manual then raise (ConflictError (Plain ''locked build''))
     else
     bnd (destroyImages dk build) (\<lambda>_. in_db (deleteSchemaRecordIfEmpty (bd_Schema b)))))"

section \<open>Convergence of a schema\<close>

definition wanted :: "Schema \<Rightarrow> BuildMetadata list list" where
  "wanted s = map (\<lambda>(challenge, spec). map (new_build (FlagFormat s) challenge (sm_Name s) (bs_InstanceCount spec)) (Seeds spec))
     (Challenges s)"

text \<open>The builds of the schema, staged first and then all made.\<close>

definition stage_all :: "'w daemon \<Rightarrow> site \<Rightarrow> Schema \<Rightarrow> ('w world, BuildMetadata list) act" where
  "stage_all dk st s =
     bnd (collect (collect (\<lambda>b. in_db (stageBuild b))) (wanted s)) (\<lambda>groups.
     bnd (collect (generateBuilds dk st) groups) (\<lambda>groups'. ret (concat groups')))"

fun start_missing :: "'w daemon \<Rightarrow> mgr \<Rightarrow> BuildMetadata \<Rightarrow> nat \<Rightarrow> InstanceId list \<Rightarrow>
    'w world \<Rightarrow> (err option \<times> InstanceId list) \<times> 'w world" where
  "start_missing dk m b 0 created w = ((None, created), w)"
| "start_missing dk m b (Suc n) created w =
     (case newInstance dk m b w of
        (Inl e, w1) \<Rightarrow> ((Some e, created), w1)
      | (Inr i, w1) \<Rightarrow> start_missing dk m b n (created @ [i]) w1)"

fun scale_up :: "'w daemon \<Rightarrow> mgr \<Rightarrow> BuildMetadata list \<Rightarrow> InstanceId list \<Rightarrow>
    'w world \<Rightarrow> (err option \<times> InstanceId list) \<times> 'w world" where
  "scale_up dk m [] created w = ((None, created), w)"
| "scale_up dk m (b # bs) created w =
     (if InstanceCount b = DYNAMIC_INSTANCES then scale_up dk m bs created w
      else case in_db (getBuildInstances (bd_Id b)) w of
        (Inl e, w1) \<Rightarrow> ((Some e, created), w1)
      | (Inr is, w1) \<Rightarrow>
        (case start_missing dk m b (nat (InstanceCount b) - length is) created w1 of
           ((Some e, created'), w2) \<Rightarrow> ((Some e, created'), w2)
         | ((None, created'), w2) \<Rightarrow> scale_up dk m bs created' w2))"

definition failBeforeActivation :: "'w daemon \<Rightarrow> InstanceId list \<Rightarrow> err \<Rightarrow> 'w world \<Rightarrow> err list \<times> 'w world" where
  "failBeforeActivation dk created e w =
     (case each_collect (\<lambda>i. bnd (in_db (lookupInstanceMetadata i)) (\<lambda>inst.
          map_err (Wrap ''could not roll back staged instance'') (stopInstance dk inst))) (rev created) w of
        (es, w') \<Rightarrow> (e # es, w'))"

definition cleanupSchemaResources :: "'w daemon \<Rightarrow> string \<Rightarrow> ('w world, unit) act" where
  "cleanupSchemaResources dk name =
     bnd (in_db (removedSchemaInstances name)) (\<lambda>is.
     bnd (each (\<lambda>i. bnd (in_db (lookupInstanceMetadata i)) (stopInstance dk)) is) (\<lambda>_.
     bnd (in_db (removedSchemaBuilds name)) (each (destroyImages dk))))"

definition reduce_one :: "'w daemon \<Rightarrow> BuildMetadata \<Rightarrow> 'w world \<Rightarrow> err list \<times> 'w world" where
  "reduce_one dk b w =
     (if InstanceCount b = DYNAMIC_INSTANCES then ([], w)
      else case in_db (getBuildInstances (bd_Id b)) w of
        (Inl e, w1) \<Rightarrow> ([e], w1)
      | (Inr is, w1) \<Rightarrow>
        each_collect (\<lambda>i. bnd (in_db (lookupInstanceMetadata i)) (stopInstance dk)) (drop (nat (InstanceCount b)) is) w1)"

definition targets_of :: "BuildMetadata list \<Rightarrow> (BuildId \<times> int) list" where
  "targets_of state = fold (\<lambda>b. put (bd_Id b) (InstanceCount b)) state []"

text \<open>What changes nothing of the active definition: staging, making builds, starting what is missing.\<close>

definition before_activation :: "'w daemon \<Rightarrow> site \<Rightarrow> Schema \<Rightarrow> 'w world \<Rightarrow> (err list + BuildMetadata list \<times> InstanceId list) \<times> 'w world" where
  "before_activation dk st s w =
     (case stage_all dk st s w of
        (Inl e, w1) \<Rightarrow> (case failBeforeActivation dk [] e w1 of (es, w2) \<Rightarrow> (Inl es, w2))
      | (Inr state, w1) \<Rightarrow>
        (case scale_up dk (st_mgr st) state [] w1 of
           ((Some e, created), w2) \<Rightarrow> (case failBeforeActivation dk created e w2 of (es, w3) \<Rightarrow> (Inl es, w3))
         | ((None, created), w2) \<Rightarrow> (Inr (state, created), w2)))"

definition after_activation :: "'w daemon \<Rightarrow> Schema \<Rightarrow> BuildMetadata list \<Rightarrow> 'w world \<Rightarrow> err list \<times> 'w world" where
  "after_activation dk s state w =
     (case cleanupSchemaResources dk (sm_Name s) w of
        (r, w1) \<Rightarrow> (case gather (reduce_one dk) state w1 of (es, w2) \<Rightarrow> (errors_of [r] @ es, w2)))"

definition convergeSchema :: "'w daemon \<Rightarrow> site \<Rightarrow> Schema \<Rightarrow> 'w world \<Rightarrow> err list \<times> 'w world" where
  "convergeSchema dk st s w =
     (case in_db (schemaExists (sm_Name s)) w of
        (Inl e, w1) \<Rightarrow> ([e], w1)
      | (Inr found, w1) \<Rightarrow>
        if \<not> found then ([unknownSchemaIdError (sm_Name s)], w1)
        else
        (case before_activation dk st s w1 of
           (Inl es, w2) \<Rightarrow> (es, w2)
         | (Inr (state, created), w2) \<Rightarrow>
           (case in_db (activateSchemaBuilds (sm_Name s) (targets_of state)) w2 of
              (Inl e, w3) \<Rightarrow> failBeforeActivation dk created e w3
            | (Inr _, w3) \<Rightarrow> after_activation dk s state w3)))"

section \<open>Operations on schemas\<close>

definition check_schema :: "managerPolicy \<Rightarrow> Schema option \<Rightarrow> err + Schema" where
  "check_schema pol schema =
     (case validateSchemaDefinition schema of
        Inl e \<Rightarrow> Inl (invalidInput e)
      | Inr _ \<Rightarrow> (case schema of
          None \<Rightarrow> Inl (Plain ''nil schema'')
        | Some s \<Rightarrow> (case validate_limits pol (Challenges s) of Inl e \<Rightarrow> Inl e | Inr _ \<Rightarrow> Inr s)))"

definition active_builds :: "string \<Rightarrow> (db, nat) act" where
  "active_builds name = query (\<lambda>t. length (filter (\<lambda>b. br_schema b = name \<and> br_instancecount b \<noteq> LOCKED) (builds t)))"

text \<open>A schema whose creation failed is removed unless it has become active.\<close>

definition withdraw_schema :: "'w daemon \<Rightarrow> string \<Rightarrow> ('w world, unit) act" where
  "withdraw_schema dk name =
     bnd (in_db (active_builds name)) (\<lambda>n.
     if n \<noteq> 0 then ret ()
     else bnd (cleanupSchemaResources dk name) (\<lambda>_. in_db (deleteSchemaRecord name)))"

definition CreateSchema :: "'w daemon \<Rightarrow> site \<Rightarrow> Schema option \<Rightarrow> 'w world \<Rightarrow> err list \<times> 'w world" where
  "CreateSchema dk st schema w =
     (case check_schema (policy (st_mgr st)) schema of
        Inl e \<Rightarrow> ([e], w)
      | Inr s \<Rightarrow>
        (case bnd (in_db (schemaExists (sm_Name s))) (\<lambda>found.
              if found then raise (ConflictError (Plain ''schema already exists''))
              else in_db (createSchemaRecord (sm_Name s) False)) w of
           (Inl e, w1) \<Rightarrow> ([e], w1)
         | (Inr _, w1) \<Rightarrow>
           (case convergeSchema dk st s w1 of
              (es, w2) \<Rightarrow>
                if es = [] then ([], w2)
                else (case withdraw_schema dk (sm_Name s) w2 of (r, w3) \<Rightarrow> (es @ errors_of [r], w3)))))"

definition UpdateSchema :: "'w daemon \<Rightarrow> site \<Rightarrow> Schema option \<Rightarrow> 'w world \<Rightarrow> err list \<times> 'w world" where
  "UpdateSchema dk st schema w =
     (case check_schema (policy (st_mgr st)) schema of
        Inl e \<Rightarrow> ([e], w)
      | Inr s \<Rightarrow>
        (case in_db (schemaExists (sm_Name s)) w of
           (Inl e, w1) \<Rightarrow> ([e], w1)
         | (Inr found, w1) \<Rightarrow>
           if \<not> found then ([unknownSchemaIdError (sm_Name s)], w1) else convergeSchema dk st s w1))"

definition DeleteSchema :: "'w daemon \<Rightarrow> string \<Rightarrow> ('w world, unit) act" where
  "DeleteSchema dk name =
     bnd (in_db (schemaIsManual name)) (\<lambda>manual.
     if manual then raise (ConflictError (Plain ''schema is owned by manual builds''))
     else
     bnd (in_db (lockSchema name)) (\<lambda>_.
     bnd (cleanupSchemaResources dk name) (\<lambda>_. in_db (deleteSchemaRecord name))))"

section \<open>Reports\<close>

definition full_build :: "BuildId \<Rightarrow> (db, BuildMetadata) act" where
  "full_build i =
     bnd (lookupBuildMetadata i) (\<lambda>b.
     bnd (getBuildInstances (bd_Id b)) (\<lambda>is.
     bnd (collect lookupInstanceMetadata is) (\<lambda>insts. ret (b\<lparr>Instances := insts\<rparr>))))"

text \<open>The builds come in the order of their challenges; a challenge is closed when the next one begins.\<close>

fun group_builds :: "site \<Rightarrow> BuildId list \<Rightarrow> ChallengeMetadata list \<Rightarrow> ChallengeMetadata option \<Rightarrow> (db, ChallengeMetadata list) act" where
  "group_builds st [] closed_ones open_one = ret (closed_ones @ (case open_one of None \<Rightarrow> [] | Some c \<Rightarrow> [c]))"
| "group_builds st (i # is) closed_ones open_one =
     bnd (full_build i) (\<lambda>b.
     case open_one of
       Some c \<Rightarrow>
         if ch_Id c = bd_Challenge b
         then group_builds st is closed_ones (Some (c\<lparr>ch_Builds := ch_Builds c @ [b]\<rparr>))
         else bnd (find_challenge st (bd_Challenge b)) (\<lambda>c'.
           group_builds st is (closed_ones @ [c]) (Some (c'\<lparr>ch_Builds := [b]\<rparr>)))
     | None \<Rightarrow> bnd (find_challenge st (bd_Challenge b)) (\<lambda>c'.
           group_builds st is closed_ones (Some (c'\<lparr>ch_Builds := [b]\<rparr>))))"

definition GetSchemaState :: "site \<Rightarrow> string \<Rightarrow> (db, ChallengeMetadata list) act" where
  "GetSchemaState st name =
     bnd (schemaExists name) (\<lambda>found.
     if \<not> found then raise (unknownSchemaIdError name)
     else bnd (getSchemaBuilds name) (\<lambda>is. group_builds st is [] None))"

fun pick_challenges :: "ChallengeMetadata list \<Rightarrow> ChallengeId list \<Rightarrow> err + ChallengeMetadata list" where
  "pick_challenges known [] = Inr []"
| "pick_challenges known (c # cs) =
     (case map_of (rev (map (\<lambda>m. (ch_Id m, m)) known)) c of
        None \<Rightarrow> Inl (Plain ''could not find challenge'')
      | Some m \<Rightarrow> (case pick_challenges known cs of Inl e \<Rightarrow> Inl e | Inr ms \<Rightarrow> Inr (m # ms)))"

text \<open>The error of \<open>dumpState\<close> is only looked at when no challenges are asked for.\<close>

definition DumpState :: "site \<Rightarrow> ChallengeId list \<Rightarrow> (db, ChallengeMetadata list) act" where
  "DumpState st ids d =
     (case dumpState (sha256 (st_mgr st)) (parseProfile (st_mgr st)) d of
        (r, d') \<Rightarrow>
          if ids = [] then (r, d')
          else (pick_challenges (case r of Inl _ \<Rightarrow> [] | Inr all \<Rightarrow> all) ids, d'))"

text \<open>So a database that fails is reported as a challenge that does not exist.\<close>

lemma dump_masks_database_error:
  "dumpState (sha256 (st_mgr st)) (parseProfile (st_mgr st)) d = (Inl e, d') \<Longrightarrow> ids \<noteq> [] \<Longrightarrow>
   DumpState st ids d = (Inl (Plain ''could not find challenge''), d')"
  by (cases ids) (simp_all add: DumpState_def)

text \<open>The body of \<open>Freeze\<close>; \<open>force\<close> only decides on the build options, the registry is never asked.\<close>

definition Freeze :: "'w daemon \<Rightarrow> site \<Rightarrow> ChallengeId \<Rightarrow> bool \<Rightarrow> ('w world, unit) act" where
  "Freeze dk st challenge force = freezeBaseImage dk st challenge force"

end
