(* ===== verification/Convergence.thy ===== *)
theory Convergence
  imports Schemas
begin

text \<open>
  What a schema that is converging leaves alone until it is activated: the builds that are complete,
  and the instances that run, with their containers and ports.
\<close>

section \<open>Running instances\<close>

definition running_in :: "InstanceId set \<Rightarrow> tables \<Rightarrow> _" where
  "running_in I t = (filter (\<lambda>r. nr_id r \<in> I) (instances t), filter (\<lambda>r. fst r \<in> I) (containers t),
     filter (\<lambda>r. fst r \<in> I) (portAssignments t))"

definition instance_ids :: "tables \<Rightarrow> InstanceId set" where
  "instance_ids t = nr_id ` set (instances t)"

definition serving :: "tables \<Rightarrow> tables \<Rightarrow> bool" where
  "serving t0 t \<longleftrightarrow> running_in (instance_ids t0) t = running_in (instance_ids t0) t0"

lemma serving_ids: "serving t0 t \<Longrightarrow> instance_ids t0 \<subseteq> instance_ids t"
proof
  fix i
  assume s: "serving t0 t" and "i \<in> instance_ids t0"
  then obtain r where r: "r \<in> set (filter (\<lambda>r. nr_id r \<in> instance_ids t0) (instances t0))" "nr_id r = i"
    by (auto simp: instance_ids_def)
  moreover have "filter (\<lambda>r. nr_id r \<in> instance_ids t0) (instances t0) = filter (\<lambda>r. nr_id r \<in> instance_ids t0) (instances t)"
    using s by (simp add: serving_def running_in_def)
  ultimately have "r \<in> set (filter (\<lambda>r. nr_id r \<in> instance_ids t0) (instances t))" by simp
  then have "r \<in> set (instances t)" by simp
  then show "i \<in> instance_ids t" using r(2) by (auto simp: instance_ids_def)
qed

lemma serving_refl: "serving t t"
  by (simp add: serving_def)

lemma serving_update: "(\<And>t. running_in (instance_ids t0) (f t) = running_in (instance_ids t0) t) \<Longrightarrow>
    maintains (in_tables (serving t0)) (update f)"
  by (rule in_tables_update) (simp add: serving_def)

lemma serving_exec: "(\<And>t. running_in (instance_ids t0) (fst (f t)) = running_in (instance_ids t0) t) \<Longrightarrow>
    maintains (in_tables (serving t0)) (exec f)"
  by (rule in_tables_exec) (simp add: serving_def)

lemma open_serving:
  "serving t0 t \<Longrightarrow> next_id (map nr_id (instances t)) \<notin> instance_ids t0"
proof
  assume s: "serving t0 t" and "next_id (map nr_id (instances t)) \<in> instance_ids t0"
  then have "next_id (map nr_id (instances t)) \<in> set (map nr_id (instances t))"
    using serving_ids [OF s] by (auto simp: instance_ids_def)
  from next_id_fresh [OF this] show False by simp
qed

lemma filter_others: "j \<notin> I \<Longrightarrow> filter (\<lambda>r. k r \<in> I) (filter (\<lambda>r. k r \<noteq> j) xs) = filter (\<lambda>r. k r \<in> I) xs"
  by (induction xs) auto

lemma filter_other_pair: "i \<notin> I \<Longrightarrow> filter (\<lambda>r. fst r \<in> I) (filter (\<lambda>r. r \<noteq> (i, c)) xs) = filter (\<lambda>r. fst r \<in> I) xs"
  by (induction xs) auto

lemma serving_retired:
  "maintains (in_tables (serving t0)) (retireContainer c)" "maintains (in_tables (serving t0)) (forgetRetiredContainer c)"
  "maintains (in_tables (serving t0)) (retireNetwork c)" "maintains (in_tables (serving t0)) (forgetRetiredNetwork c)"
  unfolding retireContainer_def forgetRetiredContainer_def retireNetwork_def forgetRetiredNetwork_def
  by (rule serving_update; simp add: running_in_def retire_def unretire_def)+

lemma serving_open: "maintains (in_tables (serving t0)) (openInstance m)"
proof -
  have "serving t0 t \<Longrightarrow> serving t0 (t\<lparr>instances := instances t @
      [\<lparr>nr_id = next_id (map nr_id (instances t)), nr_lastsolved = l, nr_build = b\<rparr>]\<rparr>)" for t l b
    using open_serving [of t0 t] by (simp add: serving_def running_in_def)
  then show ?thesis unfolding openInstance_def by (intro maintains_intros in_tables_exec) (simp add: Let_def)
qed

lemma serving_opened: "openInstance m d = (Inr i, d') \<Longrightarrow> serving t0 (tab d) \<Longrightarrow> in_Id i \<notin> instance_ids t0"
  using open_serving [of t0 "tab d"]
  by (auto simp: openInstance_def Let_def dest!: exec_Inr report_Inr elim!: bnd_InrE)

lemma serving_others:
  assumes "i \<notin> instance_ids t0"
  shows "maintains (in_tables (serving t0)) (removeContainerMetadata i c)" "maintains (in_tables (serving t0)) (removeInstancePorts i)"
    "maintains (in_tables (serving t0)) (removeInstanceMetadata i)"
  unfolding removeContainerMetadata_def removeInstancePorts_def removeInstanceMetadata_def
  by (intro maintains_intros serving_update;
      simp add: running_in_def clear_ports_def delete_instance_def filter_others filter_other_pair assms del: filter_filter)+

lemma serving_finalized:
  assumes "in_Id m \<notin> instance_ids t0"
  shows "maintains (in_tables (serving t0)) (finalizeInstance m)" "maintains (in_tables (serving t0)) (replaceInstanceRuntimeMetadata m)"
  unfolding finalizeInstance_def replaceInstanceRuntimeMetadata_def track_container_def
  by (intro maintains_intros serving_update;
      simp add: running_in_def insert_port_def unretire_def insert_container_def clear_ports_def clear_containers_def retire_def
        filter_others assms del: filter_filter)+

lemma serving_withstands: "withstands (serving t0) (- instance_ids t0)"
  by (auto simp: withstands_def serving_retired serving_open serving_others serving_finalized in_tables_def dest: serving_opened)

lemma running_in_fields [simp]:
  "running_in I (t\<lparr>builds := b\<rparr>) = running_in I t" "running_in I (t\<lparr>images := im\<rparr>) = running_in I t"
  "running_in I (t\<lparr>imagePorts := ip\<rparr>) = running_in I t" "running_in I (t\<lparr>lookupData := l\<rparr>) = running_in I t"
  by (simp_all add: running_in_def)

lemma serving_insert_images: "maintains (in_tables (serving t0)) (insert_images b ims)"
proof (induction ims)
  case (Cons im ims)
  then show ?case unfolding insert_images.simps insert_image_with_ports_def
    by (intro maintains_intros serving_update serving_exec)
      (simp_all add: insert_image_def insert_image_port_def Let_def)
qed (simp add: maintains_intros)

lemma serving_builds:
  "maintains (in_tables (serving t0)) (openBuild b)" "maintains (in_tables (serving t0)) (stageBuild b)"
  "maintains (in_tables (serving t0)) (finalizeBuild b)" "maintains (in_tables (serving t0)) (removeBuildMetadata i)"
  unfolding openBuild_def stageBuild_def finalizeBuild_def removeBuildMetadata_def affecting_def Let_def
  by (intro maintains_intros serving_update serving_exec serving_insert_images; simp add: build_queries)+

section \<open>Complete builds\<close>

text \<open>Rows with distinct positive keys, among them those of \<open>fs\<close>.\<close>

definition keeps_rows :: "('a \<Rightarrow> int) \<Rightarrow> 'a set \<Rightarrow> 'a list \<Rightarrow> bool" where
  "keeps_rows k fs rows \<longleftrightarrow> fs \<subseteq> set rows \<and> distinct (map k rows) \<and> (\<forall>i \<in> set (map k rows). 0 < i)"

lemma next_id_positive: "0 < next_id ids"
proof -
  have "k \<le> fold max ids k" for k :: int by (induction ids arbitrary: k) (auto intro: order_trans [OF max.cobounded2])
  from this [of 0] show ?thesis by (simp add: next_id_def)
qed

lemma next_id_new: "next_id ids \<notin> set ids"
  using next_id_fresh [of "next_id ids" ids] by auto

lemma keeps_rows_insert: "keeps_rows k fs rows \<Longrightarrow> k r = next_id (map k rows) \<Longrightarrow> keeps_rows k fs (rows @ [r])"
  using next_id_new [of "map k rows"] by (auto simp: keeps_rows_def next_id_positive)

lemma keeps_rows_update:
  assumes "keeps_rows k fs rows" "\<And>f. f \<in> fs \<Longrightarrow> k f \<noteq> i" "\<And>r. k (g r) = k r"
  shows "keeps_rows k fs (update_rows (\<lambda>r. k r = i) g rows)"
proof -
  have "map k (update_rows (\<lambda>r. k r = i) g rows) = map k rows" using assms(3) by (simp add: update_rows_def)
  moreover have "f \<in> set (update_rows (\<lambda>r. k r = i) g rows)" if "f \<in> fs" for f
  proof -
    have "f = (if k f = i then g f else f)" "f \<in> set rows" using assms(1,2) that by (auto simp: keeps_rows_def)
    then show ?thesis unfolding update_rows_def set_map by (rule image_eqI)
  qed
  ultimately show ?thesis using assms(1) by (auto simp: keeps_rows_def)
qed

lemma keeps_rows_filter:
  assumes "keeps_rows k fs rows" "\<And>f. f \<in> fs \<Longrightarrow> k f \<noteq> i"
  shows "keeps_rows k fs (filter (\<lambda>r. k r \<noteq> i) rows)"
  using assms by (auto simp: keeps_rows_def distinct_map_filter)

definition complete_rows :: "tables \<Rightarrow> build_row set" where
  "complete_rows t = {r \<in> set (builds t). br_flag r \<noteq> []}"

definition kept :: "tables \<Rightarrow> tables \<Rightarrow> bool" where
  "kept t0 t \<longleftrightarrow> keeps_rows br_id (complete_rows t0) (builds t)"

text \<open>The row of build \<open>i\<close> has no flag yet.\<close>

definition pending :: "BuildId \<Rightarrow> tables \<Rightarrow> bool" where
  "pending i t \<longleftrightarrow> i \<notin> br_id ` complete_rows t"

lemma of_core_kept: "of_core (kept t0)" "of_core (\<lambda>t. kept t0 t \<and> pending i t)"
  by (simp_all add: of_core_def core_def kept_def pending_def complete_rows_def)

lemma kept_stage: "kept t0 t \<Longrightarrow> kept t0 (stageBuildQuery b t)"
  by (simp add: kept_def stageBuildQuery_def keeps_rows_insert row_of_def)

lemma kept_stageBuild: "maintains (in_tables (kept t0)) (stageBuild b)"
  unfolding stageBuild_def Let_def by (intro maintains_intros in_tables_update kept_stage)

lemma kept_other:
  assumes "kept t0 t" "pending i t" "f \<in> complete_rows t0"
  shows "br_id f \<noteq> i"
proof -
  have "f \<in> complete_rows t" using assms(1,3) unfolding kept_def keeps_rows_def complete_rows_def by blast
  then show ?thesis using assms(2) unfolding pending_def by blast
qed

lemma kept_finalize_rows:
  assumes "kept t0 t" "pending (bd_Id b) t"
  shows "kept t0 (t\<lparr>builds := builds (fst (finalizeBuildQuery b t))\<rparr>)"
  using keeps_rows_update [OF assms(1) [unfolded kept_def] kept_other [OF assms]]
  by (simp add: kept_def finalizeBuildQuery_def)

lemma kept_delete:
  assumes "kept t0 t" "pending i t"
  shows "kept t0 (delete_build i t)"
  using keeps_rows_filter [OF assms(1) [unfolded kept_def] kept_other [OF assms]]
  by (simp add: kept_def delete_build_def Let_def)

lemma finalize_fails: "finalizeBuild b d = (Inl e, d') \<Longrightarrow> tab d' = tab d"
  unfolding finalizeBuild_def by (rule withTransaction_Inl)

lemma kept_finalizeBuild:
  assumes "finalizeBuild b d = (r, d')" "kept t0 (tab d)" "pending (bd_Id b) (tab d)"
  shows "kept t0 (tab d')" "isl r \<Longrightarrow> pending (bd_Id b) (tab d')"
proof -
  show "kept t0 (tab d')"
  proof (cases r)
    case (Inl e)
    then show ?thesis using finalize_fails assms by simp
  next
    case (Inr b')
    have "builds (tab d') = builds ((tab d)\<lparr>builds := builds (fst (finalizeBuildQuery b (tab d)))\<rparr>)"
      using finalizeBuild_effect(1) [OF assms(1) [unfolded Inr]] by simp
    then show ?thesis using kept_finalize_rows [OF assms(2,3)] by (simp add: kept_def)
  qed
  show "isl r \<Longrightarrow> pending (bd_Id b) (tab d')" using finalize_fails assms by (cases r) auto
qed

lemma remove_fails: "removeBuildMetadata i d = (Inl e, d') \<Longrightarrow> tab d' = tab d"
  unfolding removeBuildMetadata_def by (rule withTransaction_Inl)

lemma kept_remove:
  assumes "kept t0 (tab d)" "pending i (tab d)"
  shows "kept t0 (tab (snd (removeBuildMetadata i d)))"
proof -
  obtain r d' where 1: "removeBuildMetadata i d = (r, d')" by (metis surj_pair)
  show ?thesis
  proof (cases r)
    case (Inl e)
    then have "tab d' = tab d" using 1 remove_fails by simp
    then show ?thesis using 1 assms by simp
  next
    case (Inr u)
    have "tab d' = delete_build i (tab d)"
      using 1 [unfolded Inr removeBuildMetadata_def]
      by (elim withTransaction_Inr bnd_InrE) (auto dest!: affecting_Inr split: if_splits)
    then show ?thesis using 1 kept_delete assms by simp
  qed
qed

section \<open>Making the builds of a schema\<close>

text \<open>What convergence owes to what was there before it began.\<close>

definition preserved :: "tables \<Rightarrow> tables \<Rightarrow> bool" where
  "preserved t0 t \<longleftrightarrow> kept t0 t \<and> serving t0 t"

lemma holds_preserved: "holds (preserved t0) w \<longleftrightarrow> holds (kept t0) w \<and> holds (serving t0) w"
  by (simp add: holds_def preserved_def)

lemma maintains_preserved:
  "maintains (holds (kept t0)) m \<Longrightarrow> maintains (holds (serving t0)) m \<Longrightarrow> maintains (holds (preserved t0)) m"
  by (simp add: maintains_def holds_preserved)

lemma found_flag:
  assumes "lookupBuildMetadata i d = (Inr b, d')" "kept t0 (tab d)" "Flag b = []"
  shows "pending i (tab d)"
proof -
  obtain r where r: "r \<in> set (builds (tab d))" "br_id r = i" "br_flag r = []" using found_build(2) [OF assms(1)] assms(3) by auto
  have "inj_on br_id (set (builds (tab d)))" using assms(2) by (simp add: kept_def keeps_rows_def distinct_map)
  then have "x = r" if "x \<in> set (builds (tab d))" "br_id x = i" for x
    using inj_onD [of br_id "set (builds (tab d))" x r] that r(1,2) by simp
  then show ?thesis using r(3) unfolding pending_def complete_rows_def by fastforce
qed

lemma abandon_kept:
  assumes "abandon_build dk c b what e w = (r, w')" "holds (kept t0) w" "holds (pending (bd_Id b)) w"
  shows "holds (kept t0) w'" "isl r"
proof -
  obtain r1 w1 where 1: "discardStagedBuild dk c b [] w = (r1, w1)" by (metis surj_pair)
  have w1: "holds (kept t0) w1" "holds (pending (bd_Id b)) w1"
    using maintainsD [OF holds_promotion(3) assms(2) 1] maintainsD [OF holds_promotion(3) assms(3) 1] by blast+
  obtain r2 w2 where 2: "in_db (removeBuildMetadata (bd_Id b)) w1 = (r2, w2)" by (metis surj_pair)
  have "holds (kept t0) w2" using kept_remove [of t0 "wdb w1" "bd_Id b"] w1 2 by (auto simp: holds_def in_db_def split: prod.splits)
  moreover have "w' = w2 \<and> isl r" using assms(1) 1 2 by (auto simp: abandon_build_def bnd_def attempt_def Let_def)
  ultimately show "holds (kept t0) w'" "isl r" by simp_all
qed

lemma claimed:
  assumes "claim_build b w = (r, w1)" "holds (kept t0) w" "0 < bd_Id b" "Flag b = []"
  shows "holds (kept t0) w1" "r = Inr b1 \<Longrightarrow> Flag b1 = [] \<Longrightarrow> b1 = b \<and> holds (pending (bd_Id b)) w1"
proof -
  have eq: "claim_build b = bnd (in_db (lookupBuildMetadata (bd_Id b))) (\<lambda>persisted.
      ret (if Flag persisted \<noteq> [] then persisted\<lparr>InstanceCount := InstanceCount b\<rparr> else b))"
    using assms(3) by (simp add: claim_build_def)
  have m: "maintains (holds Q) (claim_build b)" for Q unfolding eq by (intro maintains_intros)
  show "holds (kept t0) w1" by (rule maintainsD [OF m assms(2,1)])
  assume r: "r = Inr b1" "Flag b1 = []"
  obtain p where p: "in_db (lookupBuildMetadata (bd_Id b)) w = (Inr p, w1)"
    "b1 = (if Flag p \<noteq> [] then p\<lparr>InstanceCount := InstanceCount b\<rparr> else b)"
    using assms(1) r(1) unfolding eq by (auto elim!: bnd_InrE)
  have f: "Flag p = []" "b1 = b" using p(2) r(2) by (auto split: if_splits)
  have "pending (bd_Id b) (tab (wdb w))"
    using p(1) found_flag [of "bd_Id b" "wdb w" p _ t0] assms(2) f(1) by (auto simp: in_db_run holds_def)
  then have "holds (pending (bd_Id b)) w1" using maintainsD [OF m _ assms(1)] by (simp add: holds_def [of _ w])
  then show "b1 = b \<and> holds (pending (bd_Id b)) w1" using f by simp
qed

lemma of_core_pending: "of_core (pending i)"
  by (simp add: of_core_def core_def pending_def complete_rows_def)

lemma make_one_kept:
  assumes "bnd (attempt (executeBuild dk st c b ctx [])) (\<lambda>r.
      case r of
        Inl e \<Rightarrow> abandon_build dk c b what e
      | Inr b2 \<Rightarrow>
        bnd (attempt (in_db (finalizeBuild b2))) (\<lambda>r'.
        case r' of
          Inl e \<Rightarrow> abandon_build dk c b2 what' e
        | Inr b3 \<Rightarrow> ret b3)) w = (r, w')" "holds (kept t0) w" "holds (pending (bd_Id b)) w"
  shows "holds (kept t0) w'" "r = Inr b' \<Longrightarrow> Flag b' \<noteq> []"
proof -
  obtain r1 w1 where 1: "executeBuild dk st c b ctx [] w = (r1, w1)" by (metis surj_pair)
  have w1: "holds (kept t0) w1" "holds (pending (bd_Id b)) w1"
    using maintainsD [OF core_operations(6) [OF of_core_kept(1)] assms(2) 1]
      maintainsD [OF core_operations(6) [OF of_core_pending] assms(3) 1] by blast+
  have "holds (kept t0) w' \<and> (r = Inr b' \<longrightarrow> Flag b' \<noteq> [])"
  proof (cases r1)
    case (Inl e)
    then have "abandon_build dk c b what e w1 = (r, w')" using assms(1) 1 by (simp add: bnd_def attempt_def)
    from abandon_kept [OF this w1] show ?thesis by auto
  next
    case (Inr b2)
    have b2: "bd_Id b2 = bd_Id b" "Flag b2 \<noteq> []" using executed_flag 1 Inr by blast+
    obtain r2 w2 where 2: "in_db (finalizeBuild b2) w1 = (r2, w2)" by (metis surj_pair)
    then obtain d where d: "finalizeBuild b2 (wdb w1) = (r2, d)" "w2 = w1\<lparr>wdb := d\<rparr>" by (auto simp: in_db_run)
    note k = kept_finalizeBuild [OF d(1), of t0] 
    have w2: "holds (kept t0) w2" "isl r2 \<Longrightarrow> holds (pending (bd_Id b2)) w2"
      using k w1 b2(1) d(2) by (simp_all add: holds_def)
    show ?thesis
    proof (cases r2)
      case e: (Inl e)
      then have "abandon_build dk c b2 what' e w2 = (r, w')" using assms(1) 1 Inr 2 by (simp add: bnd_def attempt_def)
      from abandon_kept [OF this w2(1)] w2(2) e show ?thesis by auto
    next
      case b3: (Inr b3)
      then have "r = Inr b3" "w' = w2" using assms(1) 1 Inr 2 by (simp_all add: bnd_def attempt_def)
      moreover have "Flag b3 = Flag b2"
        using finalizeBuild_effect(7) [OF d(1) [unfolded b3]] by (metis BuildMetadata.select_convs(2) BuildMetadata.surjective BuildMetadata.update_convs(7))
      ultimately show ?thesis using w2 b2 by auto
    qed
  qed
  then show "holds (kept t0) w'" "r = Inr b' \<Longrightarrow> Flag b' \<noteq> []" by auto
qed

lemma generate_one_kept:
  assumes "generate_one dk st c ctx b w = (r, w')" "holds (kept t0) w" "0 < bd_Id b"
  shows "holds (kept t0) w'" "r = Inr b' \<Longrightarrow> Flag b' \<noteq> []"
proof -
  have "holds (kept t0) w' \<and> (r = Inr b' \<longrightarrow> Flag b' \<noteq> [])"
  proof (cases "Flag b = []")
    case False
    then show ?thesis using assms by (auto simp: generate_one_def)
  next
    case True
    obtain r1 w1 where 1: "claim_build b w = (r1, w1)" by (metis surj_pair)
    note cl = claimed [OF 1 assms(2,3) True]
    show ?thesis
    proof (cases r1)
      case (Inl e)
      then show ?thesis using assms(1) 1 True cl(1) by (auto simp: generate_one_def bnd_def)
    next
      case (Inr b1)
      show ?thesis
      proof (cases "Flag b1 = []")
        case False
        then show ?thesis using assms(1) 1 True Inr cl(1) by (auto simp: generate_one_def bnd_def)
      next
        case b1: True
        have p: "b1 = b" "holds (pending (bd_Id b)) w1" using cl(2) [OF Inr b1] by auto
        show ?thesis using assms(1) make_one_kept [OF _ cl(1), of dk st c b ctx] 1 True Inr p
          by (simp add: generate_one_def bnd_Inr [of _ _ b1 w1]) blast
      qed
    qed
  qed
  then show "holds (kept t0) w'" "r = Inr b' \<Longrightarrow> Flag b' \<noteq> []" by auto
qed

lemma serving_retires: "maintains (holds (serving t0)) (removeRetiredContainerIDs dk cs)"
  by (rule holds_retired [OF serving_withstands])

lemma serving_generate_one: "maintains (holds (serving t0)) (generate_one dk st c ctx b)"
  unfolding generate_one_def claim_build_def abandon_build_def Let_def
  by (intro maintains_intros serving_builds holds_execute [OF serving_withstands])

lemma find_reads: "find_challenge st c d = (r, d') \<Longrightarrow> tab d' = tab d"
  using maintainsD [OF in_tables_reading(6) [of "\<lambda>t. t = tab d"], of d] by (auto simp: find_challenge_def in_tables_def)

lemma safe_reads:
  assumes "safe_to_refresh st md d = (q, d')"
  shows "tab d' = tab d"
proof -
  obtain r d1 where "find_challenge st (ch_Id md) d = (r, d1)" by (metis surj_pair)
  moreover from this have "d' = d1"
    using assms by (cases r) (simp_all add: safe_to_refresh_def safeToRefresh_def find_challenge_def)
  ultimately show ?thesis using find_reads by simp
qed

lemma compare_one_reads: "tab (snd (compare_one st cur new cu d)) = tab d"
proof -
  obtain r d1 where 1: "find_challenge st (ch_Id cur) d = (r, d1)" by (metis surj_pair)
  have t1: "tab d1 = tab d" using find_reads [OF 1] .
  obtain q d2 where 2: "safe_to_refresh st new d1 = (q, d2)" by (metis surj_pair)
  have t2: "tab d2 = tab d" using safe_reads [OF 2] t1 by simp
  have "tab (snd (case (if P then safe_to_refresh st new d1 else (False, d1)) of (True, d2) \<Rightarrow> (x, d2) | (False, d2) \<Rightarrow> (y, d2))) = tab d"
    for P and x y :: ChallengeUpdates using 2 t1 t2 by (cases P; cases q) simp_all
  then show ?thesis using 1 t1 by (cases r) (simp_all add: compare_one_def Let_def)
qed

lemma compare_all_reads: "tab (snd (compare_all st p cs found cu d)) = tab d"
proof (induction cs arbitrary: found cu d)
  case (Cons c cs)
  show ?case
  proof (cases "map_of found (ch_Id c)")
    case (Some new)
    obtain cu' d' where "compare_one st c new cu d = (cu', d')" by (metis surj_pair)
    then show ?thesis using Some Cons compare_one_reads [of st c new cu d] by simp
  qed (use Cons in simp)
qed simp

lemma detect_reads: "tab (snd (DetectChanges st fp d)) = tab d"
proof (cases "normalizeDirPath (st_kind st) (st_cwd st) (st_chalDir st) (if fp = [] then st_chalDir st else fp)")
  case (Inr dir)
  obtain found errs where i: "inventoryChallenges (st_mgr st) (st_loaders st) (st_disk st) dir = (found, errs)" by (metis surj_pair)
  obtain r d1 where l: "listChallenges d = (r, d1)" by (metis surj_pair)
  have t1: "tab d1 = tab d" using query_tab [of _ d] l by (metis listChallenges_def snd_conv)
  show ?thesis
  proof (cases r)
    case stored: (Inr stored)
    obtain rest cu d2 where "compare_all st dir stored found no_updates d1 = ((rest, cu), d2)" by (metis surj_pair)
    then show ?thesis using compare_all_reads [of st dir stored found no_updates d1] Inr i l t1 stored
      by (simp add: DetectChanges_def)
  qed (use Inr i l t1 in \<open>simp add: DetectChanges_def\<close>)
qed (simp add: DetectChanges_def)

lemma holds_detect [maintains_intros]: "maintains (holds Q) (detect st fp)"
proof -
  have "maintains (in_tables Q) (\<lambda>d. case DetectChanges st fp d of (cu, d') \<Rightarrow> (Inr cu, d'))"
    by (rule maintains_runI) (use detect_reads [of st fp] in \<open>simp add: in_tables_def case_prod_beta\<close>)
  then show ?thesis unfolding detect_def by (rule holds_in_db)
qed

lemma collect_runs:
  assumes "collect f xs w = (r, w')" "P w" "list_all A xs"
    and step: "\<And>x w r w'. f x w = (r, w') \<Longrightarrow> P w \<Longrightarrow> A x \<Longrightarrow> P w' \<and> (\<forall>y. r = Inr y \<longrightarrow> B y)"
  shows "P w' \<and> (\<forall>ys. r = Inr ys \<longrightarrow> list_all B ys)"
  using assms(1-3)
proof (induction xs arbitrary: w r w')
  case (Cons x xs)
  obtain r1 w1 where 1: "f x w = (r1, w1)" by (metis surj_pair)
  have s: "P w1" "\<And>y. r1 = Inr y \<Longrightarrow> B y" using step [OF 1] Cons.prems(2,3) by auto
  show ?case
  proof (cases r1)
    case (Inl e)
    then show ?thesis using Cons.prems(1) 1 s by (auto simp: bnd_def)
  next
    case (Inr y)
    obtain r2 w2 where 2: "collect f xs w1 = (r2, w2)" by (metis surj_pair)
    have "P w2 \<and> (\<forall>ys. r2 = Inr ys \<longrightarrow> list_all B ys)" using Cons.IH [OF 2 s(1)] Cons.prems(3) by simp
    then show ?thesis using Cons.prems(1) 1 2 Inr s(2) by (cases r2) (auto simp: bnd_def)
  qed
qed simp

lemma generateBuilds_kept:
  assumes "generateBuilds dk st bs w = (r, w')" "holds (kept t0) w" "list_all (\<lambda>b. 0 < bd_Id b) bs"
  shows "holds (kept t0) w'" "r = Inr bs' \<Longrightarrow> list_all (\<lambda>b. Flag b \<noteq> []) bs'"
proof -
  have "holds (kept t0) w' \<and> (r = Inr bs' \<longrightarrow> list_all (\<lambda>b. Flag b \<noteq> []) bs')"
  proof (cases "bs = [] \<or> list_all (\<lambda>b. Flag b \<noteq> []) bs")
    case True
    then show ?thesis using assms by (auto simp: generateBuilds_def)
  next
    case False
    let ?check = "\<lambda>c cu. if cu_Errors cu \<noteq> [] then raise (Plain ''errors detected in directory'')
      else if ch_Id c \<notin> ch_Id ` set (Unmodified cu) then raise (Plain ''has changed since last update'')
      else bnd (build_context_of st c) (\<lambda>context. collect (generate_one dk st c context) bs)"
    have eq: "generateBuilds dk st bs = bnd (lookup_challenge st (bd_Challenge (hd bs))) (\<lambda>c. bnd (detect st (Dir (Path c))) (?check c))"
      using False by (auto simp: generateBuilds_def)
    have step: "holds (kept t0) w' \<and> (r = Inr bs' \<longrightarrow> list_all (\<lambda>b. Flag b \<noteq> []) bs')"
      if "collect (generate_one dk st c ctx) bs w1 = (r, w')" "holds (kept t0) w1" for c ctx w1
    proof -
      have "holds (kept t0) w' \<and> (\<forall>ys. r = Inr ys \<longrightarrow> list_all (\<lambda>b. Flag b \<noteq> []) ys)"
        by (rule collect_runs [where P = "holds (kept t0)" and A = "\<lambda>b. 0 < bd_Id b", OF that assms(3)]) (use generate_one_kept in blast)
      then show ?thesis by blast
    qed
    obtain r1 w1 where 1: "lookup_challenge st (bd_Challenge (hd bs)) w = (r1, w1)" by (metis surj_pair)
    have w1: "holds (kept t0) w1" using maintainsD [OF holds_lookups(1) assms(2) 1] .
    show ?thesis
    proof (cases r1)
      case (Inl e)
      then show ?thesis using assms(1) 1 w1 unfolding eq by (auto simp: bnd_def)
    next
      case c: (Inr c)
      obtain r2 w2 where 2: "detect st (Dir (Path c)) w1 = (r2, w2)" by (metis surj_pair)
      have w2: "holds (kept t0) w2" using maintainsD [OF holds_detect w1 2] .
      show ?thesis
      proof (cases r2)
        case (Inl e)
        then show ?thesis using assms(1) 1 2 c w2 unfolding eq by (auto simp: bnd_def)
      next
        case cu: (Inr cu)
        then have run: "?check c cu w2 = (r, w')" using assms(1) 1 2 c unfolding eq by (simp add: bnd_Inr)
        obtain r3 w3 where 3: "build_context_of st c w2 = (r3, w3)" by (metis surj_pair)
        have w3: "holds (kept t0) w3" using maintainsD [OF holds_context w2 3] .
        show ?thesis using run w2 w3 3 step
          by (cases r3) (auto simp: bnd_def split: if_splits)
      qed
    qed
  qed
  then show "holds (kept t0) w'" "r = Inr bs' \<Longrightarrow> list_all (\<lambda>b. Flag b \<noteq> []) bs'" by auto
qed

lemma maintains_collect_each [maintains_intros]:
  assumes "\<And>x. maintains P (f x)"
  shows "maintains P (collect f xs)"
proof (induction xs)
  case (Cons x xs)
  then show ?case unfolding collect.simps by (intro maintains_intros assms)
qed (simp only: collect.simps maintains_ret)

lemma serving_generateBuilds: "maintains (holds (serving t0)) (generateBuilds dk st bs)"
  unfolding generateBuilds_def by (intro maintains_intros serving_generate_one)

lemma staged:
  assumes "in_db (stageBuild b) w = (r, w')" "holds (kept t0) w"
  shows "holds (kept t0) w'" "r = Inr b' \<Longrightarrow> 0 < bd_Id b'"
proof -
  show "holds (kept t0) w'" by (rule maintainsD [OF holds_in_db [OF kept_stageBuild] assms(2,1)])
  assume r: "r = Inr b'"
  obtain d where d: "stageBuild b (wdb w) = (Inr b', d)" using assms(1) r by (auto simp: in_db_run)
  obtain d1 rows d2 x d3 where
    1: "update (stageBuildQuery (b\<lparr>InstanceCount := LOCKED\<rparr>)) (wdb w) = (Inr (), d1)" and
    2: "query (\<lambda>t. filter (\<lambda>r. build_key r = meta_key b) (builds t)) d1 = (Inr rows, d2)" and
    3: "(case rows of [] \<Rightarrow> raise no_rows | r # _ \<Rightarrow> ret r) d2 = (Inr x, d3)" and
    4: "(let b' = b\<lparr>bd_Id := br_id x, Flag := br_flag x, HasArtifacts := br_hasartifacts x, bd_LastSolved := br_lastsolved x\<rparr> in
     if br_flag x \<noteq> []
     then bnd (lookupBuildMetadata (br_id x)) (\<lambda>p. ret (p\<lparr>InstanceCount := InstanceCount b\<rparr>))
     else ret b') d3 = (Inr b', d)"
    using d unfolding stageBuild_def by (auto elim!: bnd_InrE)
  have "kept t0 (tab d1)" using update_Inr [OF 1] kept_stage assms(2) by (simp add: holds_def)
  moreover obtain xs where "rows = x # xs" using 3 by (cases rows) auto
  then have "x \<in> set (filter (\<lambda>r. build_key r = meta_key b) (builds (tab d1)))" using query_Inr [OF 2] by (metis list.set_intros(1))
  ultimately have "0 < br_id x" by (simp add: kept_def keeps_rows_def)
  moreover have "bd_Id b' = br_id x"
    using 4 found_build(1) [of "br_id x" d3] by (auto simp: Let_def split: if_splits elim!: bnd_InrE)
  ultimately show "0 < bd_Id b'" by simp
qed

lemma list_all_trivial: "list_all (\<lambda>_. True) xs"
  by (simp add: list_all_iff)

lemma stage_all_kept:
  assumes "stage_all dk st s w = (r, w')" "holds (preserved t0) w"
  shows "holds (preserved t0) w'" "r = Inr state \<Longrightarrow> list_all (\<lambda>b. Flag b \<noteq> []) state"
proof -
  have w: "holds (kept t0) w" "holds (serving t0) w" using assms(2) by (simp_all add: holds_preserved)
  have "maintains (holds (serving t0)) (stage_all dk st s)"
    unfolding stage_all_def by (intro maintains_intros serving_builds serving_generateBuilds)
  from maintainsD [OF this w(2) assms(1)] have sv: "holds (serving t0) w'" .
  let ?stage = "\<lambda>b. in_db (stageBuild b) :: ('a world, BuildMetadata) act"
  obtain r1 w1 where 1: "collect (collect ?stage) (wanted s) w = (r1, w1)" by (metis surj_pair)
  have inner: "holds (kept t0) w' \<and> (\<forall>ys. r = Inr ys \<longrightarrow> list_all (\<lambda>b. 0 < bd_Id b) ys)"
    if "collect ?stage bs v = (r, w')" "holds (kept t0) v" for bs v r w'
    by (rule collect_runs [where P = "holds (kept t0)" and A = "\<lambda>_. True", OF that list_all_trivial]) (use staged in blast)
  have a1: "holds (kept t0) w1 \<and> (\<forall>ys. r1 = Inr ys \<longrightarrow> list_all (list_all (\<lambda>b. 0 < bd_Id b)) ys)"
    by (rule collect_runs [where P = "holds (kept t0)" and A = "\<lambda>_. True", OF 1 w(1) list_all_trivial]) (use inner in blast)
  have k: "holds (kept t0) w' \<and> (r = Inr state \<longrightarrow> list_all (\<lambda>b. Flag b \<noteq> []) state)"
  proof (cases r1)
    case (Inl e)
    then show ?thesis using assms(1) 1 a1 by (auto simp: stage_all_def bnd_def)
  next
    case (Inr groups)
    obtain r2 w2 where 2: "collect (generateBuilds dk st) groups w1 = (r2, w2)" by (metis surj_pair)
    have w1: "holds (kept t0) w1" "list_all (list_all (\<lambda>b. 0 < bd_Id b)) groups" using a1 Inr by simp_all
    have gen: "holds (kept t0) v' \<and> (\<forall>y. q = Inr y \<longrightarrow> list_all (\<lambda>b. Flag b \<noteq> []) y)"
      if "generateBuilds dk st bs v = (q, v')" "holds (kept t0) v" "list_all (\<lambda>b. 0 < bd_Id b) bs" for bs v q and v' :: "'a world"
      using generateBuilds_kept [OF that] by simp
    have "holds (kept t0) w2 \<and> (\<forall>ys. r2 = Inr ys \<longrightarrow> list_all (list_all (\<lambda>b. Flag b \<noteq> [])) ys)"
      by (rule collect_runs [where P = "holds (kept t0)" and A = "list_all (\<lambda>b. 0 < bd_Id b)", OF 2 w1 gen])
    then show ?thesis using assms(1) 1 2 Inr
      by (cases r2) (auto simp: stage_all_def bnd_def list_all_iff)
  qed
  then show "holds (preserved t0) w'" "r = Inr state \<Longrightarrow> list_all (\<lambda>b. Flag b \<noteq> []) state" using sv by (simp_all add: holds_preserved)
qed

lemma preserved_newInstance: "maintains (holds (preserved t0)) (newInstance dk m b)"
  by (intro maintains_preserved core_operations of_core_kept holds_new_instance [OF serving_withstands])

lemma newInstance_new:
  assumes "newInstance dk m b w = (Inr i, w')" "holds (serving t0) w"
  shows "i \<notin> instance_ids t0"
proof -
  obtain x w1 where 1: "in_db (openInstance (empty_instance (bd_Id b))) w = (Inr x, w1)" and "i = in_Id x"
    using assms(1) unfolding newInstance_def by (elim bnd_InrE) (auto split: prod.splits sum.splits)
  then show ?thesis using assms(2) serving_opened [of _ "wdb w" x _ t0] by (auto simp: in_db_run holds_def)
qed

lemma start_missing_preserved:
  "start_missing dk m b n created w = ((e, created'), w') \<Longrightarrow> holds (preserved t0) w \<Longrightarrow> set created \<subseteq> - instance_ids t0 \<Longrightarrow>
   holds (preserved t0) w' \<and> set created' \<subseteq> - instance_ids t0"
proof (induction n arbitrary: created w)
  case (Suc n)
  obtain r w1 where 1: "newInstance dk m b w = (r, w1)" by (metis surj_pair)
  have w1: "holds (preserved t0) w1" using maintainsD [OF preserved_newInstance Suc.prems(2) 1] .
  show ?case
  proof (cases r)
    case (Inr i)
    have "i \<notin> instance_ids t0" using newInstance_new 1 Inr Suc.prems(2) holds_preserved by blast
    then show ?thesis using Suc.IH [OF _ w1, of "created @ [i]"] Suc.prems(1,3) 1 Inr by simp
  qed (use Suc.prems 1 w1 in auto)
qed simp

lemma scale_up_preserved:
  "scale_up dk m bs created w = ((e, created'), w') \<Longrightarrow> holds (preserved t0) w \<Longrightarrow> set created \<subseteq> - instance_ids t0 \<Longrightarrow>
   holds (preserved t0) w' \<and> set created' \<subseteq> - instance_ids t0"
proof (induction bs arbitrary: created w)
  case (Cons b bs)
  show ?case
  proof (cases "InstanceCount b = DYNAMIC_INSTANCES")
    case True
    then show ?thesis using Cons by simp
  next
    case False
    obtain r w1 where 1: "in_db (getBuildInstances (bd_Id b)) w = (r, w1)" by (metis surj_pair)
    have w1: "holds (preserved t0) w1" using maintainsD [OF holds_in_db [OF in_tables_reading(3)] Cons.prems(2) 1] .
    show ?thesis
    proof (cases r)
      case (Inl x)
      then show ?thesis using Cons.prems 1 False w1 by simp
    next
      case (Inr "is")
      obtain e2 created2 w2 where 2: "start_missing dk m b (nat (InstanceCount b) - length is) created w1 = ((e2, created2), w2)"
        by (metis surj_pair)
      note w2 = start_missing_preserved [OF 2 w1 Cons.prems(3)]
      show ?thesis
      proof (cases e2)
        case None
        then have "scale_up dk m bs created2 w2 = ((e, created'), w')" using Cons.prems(1) 1 2 False Inr by simp
        then show ?thesis using Cons.IH w2 by blast
      next
        case (Some x)
        then show ?thesis using Cons.prems(1) 1 2 False Inr w2 by simp
      qed
    qed
  qed
qed simp

lemma failBeforeActivation_preserved:
  assumes "holds (preserved t0) w" "set created \<subseteq> - instance_ids t0"
  shows "holds (preserved t0) (snd (failBeforeActivation dk created e w))"
proof -
  have stop: "maintains (holds (preserved t0)) (bnd (in_db (lookupInstanceMetadata i)) (\<lambda>inst. map_err g (stopInstance dk inst)))"
    if "i \<notin> instance_ids t0" for i g
  proof (rule maintains_preserved)
    show "maintains (holds (kept t0)) (bnd (in_db (lookupInstanceMetadata i)) (\<lambda>inst. map_err g (stopInstance dk inst)))"
      using of_core_kept(1) by (intro maintains_intros)
    show "maintains (holds (serving t0)) (bnd (in_db (lookupInstanceMetadata i)) (\<lambda>inst. map_err g (stopInstance dk inst)))"
    proof (rule maintains_runI)
      fix v :: "'a world"
      assume v: "holds (serving t0) v"
      obtain r v1 where 1: "in_db (lookupInstanceMetadata i) v = (r, v1)" by (metis surj_pair)
      have v1: "holds (serving t0) v1" using maintainsD [OF holds_in_db [OF in_tables_reading(1)] v 1] .
      show "holds (serving t0) (snd (bnd (in_db (lookupInstanceMetadata i)) (\<lambda>inst. map_err g (stopInstance dk inst)) v))"
      proof (cases r)
        case (Inr x)
        have "in_Id x = i" using 1 Inr lookupInstance_Inr(1) by (auto simp: in_db_run)
        then have "maintains (holds (serving t0)) (map_err g (stopInstance dk x))"
          using that by (intro maintains_map_err holds_stop_instance [OF serving_withstands]) simp
        from leaves [OF this v1] show ?thesis using 1 Inr by (simp add: bnd_Inr)
      qed (use 1 v1 in \<open>simp add: bnd_def\<close>)
    qed
  qed
  have "holds (preserved t0) (snd (each_collect (\<lambda>i. bnd (in_db (lookupInstanceMetadata i)) (\<lambda>inst.
          map_err (Wrap ''could not roll back staged instance'') (stopInstance dk inst))) (rev created) w))"
    by (rule each_collect_preserves) (use assms stop in \<open>auto simp: maintains_def\<close>)
  then show ?thesis by (simp add: failBeforeActivation_def case_prod_beta)
qed

lemma before_activation_preserved:
  assumes "before_activation dk st s w = (r, w')" "holds (preserved t0) w"
  shows "holds (preserved t0) w'"
    "r = Inr (state, created) \<Longrightarrow> list_all (\<lambda>b. Flag b \<noteq> []) state \<and> set created \<subseteq> - instance_ids t0"
proof -
  obtain r1 w1 where 1: "stage_all dk st s w = (r1, w1)" by (metis surj_pair)
  note s1 = stage_all_kept [OF 1 assms(2)]
  have "holds (preserved t0) w' \<and> (r = Inr (state, created) \<longrightarrow> list_all (\<lambda>b. Flag b \<noteq> []) state \<and> set created \<subseteq> - instance_ids t0)"
  proof (cases r1)
    case (Inl e)
    then show ?thesis using assms(1) 1 failBeforeActivation_preserved [OF s1(1), of "[]" dk e]
      by (auto simp: before_activation_def split: prod.splits)
  next
    case (Inr built)
    obtain e created2 w2 where 2: "scale_up dk (st_mgr st) built [] w1 = ((e, created2), w2)" by (metis surj_pair)
    note s2 = scale_up_preserved [OF 2 s1(1), simplified]
    show ?thesis
    proof (cases e)
      case None
      then show ?thesis using assms(1) 1 2 Inr s1(2) s2 by (auto simp: before_activation_def)
    next
      case (Some x)
      obtain es w3 where 3: "failBeforeActivation dk created2 x w2 = (es, w3)" by (metis surj_pair)
      then show ?thesis using assms(1) 1 2 Inr Some s2 failBeforeActivation_preserved [of t0 w2 created2 dk x]
        by (auto simp: before_activation_def)
    qed
  qed
  then show "holds (preserved t0) w'"
    "r = Inr (state, created) \<Longrightarrow> list_all (\<lambda>b. Flag b \<noteq> []) state \<and> set created \<subseteq> - instance_ids t0" by blast+
qed

section \<open>A failed convergence\<close>

lemma preserved_refl:
  assumes "constraints t" "\<forall>i \<in> br_id ` set (builds t). 0 < i"
  shows "preserved t t"
  using assms by (auto simp: preserved_def kept_def keeps_rows_def complete_rows_def serving_refl constraint_defs)

lemma activation_fails:
  assumes "in_db (activateSchemaBuilds n ts) w = (Inl e, w')" "holds Q w"
  shows "holds Q w'"
proof -
  obtain d where "activateSchemaBuilds n ts (wdb w) = (Inl e, d)" and w': "w' = w\<lparr>wdb := d\<rparr>"
    using assms(1) by (auto simp: in_db_run)
  from withTransaction_Inl [OF this(1) [unfolded activateSchemaBuilds_def]] show ?thesis using assms(2) w' by (simp add: holds_def)
qed

text \<open>
  C39. A convergence that fails before its builds are activated costs nothing that serves. Either every
  build that was complete still has its row, unchanged, and every instance that ran still has its row, its
  containers and its ports; or every build of the new
  definition was complete when the database activated them, in one transaction and with all the above still in
  place, and only what follows the activation has removed anything.
\<close>

theorem failed_convergence_preserves:
  assumes "convergeSchema dk st s w = (es, w')" "constraints (tab (wdb w))"
    "\<forall>i \<in> br_id ` set (builds (tab (wdb w))). 0 < i"
  shows "preserved (tab (wdb w)) (tab (wdb w')) \<or>
    (\<exists>state created w1 w2 w3. in_db (schemaExists (sm_Name s)) w = (Inr True, w1) \<and>
       before_activation dk st s w1 = (Inr (state, created), w2) \<and>
       preserved (tab (wdb w)) (tab (wdb w2)) \<and> list_all (\<lambda>b. Flag b \<noteq> []) state \<and>
       in_db (activateSchemaBuilds (sm_Name s) (targets_of state)) w2 = (Inr (), w3) \<and>
       after_activation dk s state w3 = (es, w'))"
proof -
  let ?P = "holds (preserved (tab (wdb w)))"
  obtain r1 w1 where 1: "in_db (schemaExists (sm_Name s)) w = (r1, w1)" by (metis surj_pair)
  have "tab (wdb w1) = tab (wdb w)"
    using 1 query_tab [of _ "wdb w"] by (auto simp: in_db_run schemaExists_def query_def split: if_splits)
  then have w1: "?P w1" using preserved_refl [OF assms(2,3)] by (simp add: holds_def)
  show ?thesis
  proof (cases "r1 = Inr True")
    case False
    then have "w' = w1" using assms(1) 1 by (auto simp: convergeSchema_def split: sum.splits if_splits)
    then show ?thesis using w1 by (simp add: holds_def)
  next
    case True
    obtain r2 w2 where 2: "before_activation dk st s w1 = (r2, w2)" by (metis surj_pair)
    note p2 = before_activation_preserved [OF 2 w1]
    show ?thesis
    proof (cases r2)
      case (Inl e)
      then show ?thesis using assms(1) 1 2 True p2(1) by (simp add: convergeSchema_def holds_def)
    next
      case (Inr x)
      then obtain state created where x: "r2 = Inr (state, created)" by (cases x) auto
      obtain r3 w3 where 3: "in_db (activateSchemaBuilds (sm_Name s) (targets_of state)) w2 = (r3, w3)" by (metis surj_pair)
      show ?thesis
      proof (cases r3)
        case (Inl e)
        then have "failBeforeActivation dk created e w3 = (es, w')" using assms(1) 1 2 3 True x by (simp add: convergeSchema_def)
        then show ?thesis
          using failBeforeActivation_preserved [OF activation_fails [OF 3 [unfolded Inl] p2(1)], of created dk e] p2(2) [OF x]
          by (simp add: holds_def)
      next
        case (Inr u)
        then have u: "r3 = Inr ()" by simp
        then have "after_activation dk s state w3 = (es, w')" using assms(1) 1 2 3 True x by (simp add: convergeSchema_def)
        then show ?thesis using 1 2 3 True x u p2(1) p2(2) [OF x] unfolding holds_def by blast
      qed
    qed
  qed
qed

text \<open>A new definition that names a challenge the database does not have, beside a build that is complete and runs.\<close>

definition ex_schema_world :: "(string \<times> string) list world" where
  "ex_schema_world = ex_image_world\<lparr>wdb := ex_instance_db\<lparr>tab := (tab ex_instance_db)\<lparr>
     builds := [(ex_row 1 ''s'' 1 2)\<lparr>br_flag := ''flag''\<rparr>, ex_row 2 ''s'' 2 2]\<rparr>\<rparr>\<rparr>"

definition ex_schema :: Schema where
  "ex_schema = \<lparr>sm_Name = ''s'', FlagFormat = ''%s'', Challenges = [(''x'', \<lparr>Seeds = [1], bs_InstanceCount = 1\<rparr>)]\<rparr>"

lemma ex_staging_fails:
  "isl (fst (in_db (stageBuild (new_build ''%s'' ''x'' ''s'' 1 1)) (snd (in_db (schemaExists ''s'') ex_schema_world))))"
  by code_simp

lemma stage_all_fails:
  assumes "wanted s = (b # bs) # bss" "isl (fst (in_db (stageBuild b) w))"
  shows "isl (fst (stage_all dk st s w))"
  using assms by (cases "in_db (stageBuild b) w") (auto simp: stage_all_def bnd_def split: sum.splits)

lemma before_activation_fails:
  "isl (fst (stage_all dk st s w)) \<Longrightarrow> isl (fst (before_activation dk st s w))"
  by (auto simp: before_activation_def split: prod.splits sum.splits)

theorem failed_convergence_preserves_witness:
  "\<exists>es w'. convergeSchema ex_image_daemon ex_site ex_schema ex_schema_world = (es, w') \<and>
     (ex_row 1 ''s'' 1 2)\<lparr>br_flag := ''flag''\<rparr> \<in> set (builds (tab (wdb w'))) \<and> serving (tab (wdb ex_schema_world)) (tab (wdb w'))"
proof -
  let ?c = "convergeSchema ex_image_daemon ex_site ex_schema ex_schema_world"
  let ?w1 = "snd (in_db (schemaExists ''s'') ex_schema_world)"
  have k: "constraints (tab (wdb ex_schema_world))" by code_simp
  have p: "\<forall>i \<in> br_id ` set (builds (tab (wdb ex_schema_world))). 0 < i"
    by (auto simp: ex_schema_world_def ex_row_def)
  have n: "sm_Name ex_schema = ''s''" "wanted ex_schema = [[new_build ''%s'' ''x'' ''s'' 1 1]]"
    by (simp_all add: ex_schema_def wanted_def)
  have "isl (fst (before_activation ex_image_daemon ex_site ex_schema ?w1))"
    by (intro before_activation_fails stage_all_fails [OF n(2)] ex_staging_fails)
  then have "preserved (tab (wdb ex_schema_world)) (tab (wdb (snd ?c)))"
    using failed_convergence_preserves [OF prod.collapse [symmetric] k p, of ex_image_daemon ex_site ex_schema]
    unfolding n(1) by (elim disjE exE conjE) simp_all
  moreover have "(ex_row 1 ''s'' 1 2)\<lparr>br_flag := ''flag''\<rparr> \<in> complete_rows (tab (wdb ex_schema_world))"
    by (simp add: complete_rows_def ex_schema_world_def)
  ultimately have "(ex_row 1 ''s'' 1 2)\<lparr>br_flag := ''flag''\<rparr> \<in> set (builds (tab (wdb (snd ?c))))"
    "serving (tab (wdb ex_schema_world)) (tab (wdb (snd ?c)))"
    unfolding preserved_def kept_def keeps_rows_def by blast+
  then show ?thesis by (intro exI [of _ "fst ?c"] exI [of _ "snd ?c"] conjI prod.collapse [symmetric])
qed

end
