(* ===== verification/Solver.thy ===== *)
theory Solver
  imports Updating
begin

text \<open>
  Checking an instance with the solver of its challenge, \<open>cmgr/solver_framework.go\<close>: the context of
  the solver image, the run of the solver container beside the instance, and the flag it leaves. The calls of
  Docker that only the solver makes, the clock and two encoders of other packages are parameters.
\<close>

section \<open>Interface\<close>

text \<open>What \<open>select\<close> sees first: the error channel (which may close without an error), the result, the deadline.\<close>

datatype wait_outcome = WaitFailed "err option" | WaitEnded | WaitTimedOut err

text \<open>
  \<open>CopyFlag\<close> is the archive of \<open>/solve/flag\<close>: entries with their bytes, None where reading fails, and whether
  the archive ends properly. Logs that cannot be read to their end are None.
\<close>

record 'w solver_calls =
  ContainerWait :: "string \<Rightarrow> 'w \<Rightarrow> wait_outcome \<times> 'w"
  ContainerLogs :: "string \<Rightarrow> 'w \<Rightarrow> (docker_error + string option) \<times> 'w"
  CopyFlag :: "string \<Rightarrow> 'w \<Rightarrow> (docker_error + (tar_header \<times> string option) list \<times> bool) \<times> 'w"
  unix_time :: "'w \<Rightarrow> int"
  marshal_lookups :: "(string \<times> string) list \<Rightarrow> string"
  header_blocks :: "tar_header \<Rightarrow> string"

section \<open>The context\<close>

text \<open>The two limits are added as 64-bit numbers.\<close>

definition solveContextBytes :: "managerPolicy \<Rightarrow> int" where
  "solveContextBytes pol =
     (let total = sint (word_of_int (MaxBuildContextBytes pol + MaxArtifactBytes pol) :: 64 word) in
      if total = 0 then 7 * 1024 * 1024 * 1024 else total)"

text \<open>Entries are written like those of a build context; only the wording of the errors differs.\<close>

definition solverVisitor :: "tar_format \<Rightarrow> int \<Rightarrow> string \<Rightarrow> build_context visitor" where
  "solverVisitor hdr maxEntries solveDir path n listed s =
     (let after = (if \<not> listed then Halt (Plain ''readdir'') else Next) in
      if path = solveDir then (after, s)
      else case bnd (accountEntry maxEntries) (\<lambda>_.
          case Rel solveDir path of None \<Rightarrow> raise (Plain ''relative path'') | Some r \<Rightarrow> add_node hdr r n) s of
        (Inl e, s') \<Rightarrow> (Halt e, s')
      | (Inr _, s') \<Rightarrow> (after, s'))"

definition customDocker :: "node \<Rightarrow> bool" where
  "customDocker dir = (file_named dir ''Dockerfile'' \<noteq> None)"

fun copy_stored :: "(tar_header \<Rightarrow> string) \<Rightarrow> tar_entry list \<Rightarrow> bool \<Rightarrow> (build_context, unit) act" where
  "copy_stored blocks [] ended = (if ended then ret () else raise (Plain ''could not read artifacts''))"
| "copy_stored blocks ((h, bytes) # rest) ended =
     bnd (boundedWrite (blocks h)) (\<lambda>_.
     bnd (if Typeflag h = TypeDir then ret ()
          else if int (length bytes) < hd_Size h
          then bnd (boundedWrite bytes) (\<lambda>_. raise (Plain ''unexpected EOF''))
          else bnd (boundedWrite (take (nat (hd_Size h)) bytes)) (\<lambda>_. boundedWrite (padding (nat (hd_Size h))))) (\<lambda>_.
     copy_stored blocks rest ended))"

definition copy_artifacts :: "(tar_header \<Rightarrow> string) \<Rightarrow> tar_stream option \<Rightarrow> (build_context, unit) act" where
  "copy_artifacts blocks stored =
     (case stored of
        None \<Rightarrow> raise (Plain ''open artifacts'')
      | Some ts \<Rightarrow>
        if \<not> gzip_ok ts then raise (Plain ''gzip'')
        else bnd (copy_stored blocks (entries ts) (ends ts)) (\<lambda>_. if closes ts then ret () else raise (Plain ''gzip'')))"

definition write_solve_context :: "site \<Rightarrow> 'w solver_calls \<Rightarrow> int \<Rightarrow> string \<Rightarrow> node \<Rightarrow> BuildMetadata \<Rightarrow> tar_stream option \<Rightarrow>
    (build_context, unit) act" where
  "write_solve_context st sc maxEntries solveDir dir b stored =
     bnd (\<lambda>s. case Walk (solverVisitor (st_tar st) maxEntries solveDir) solveDir dir s of
            (Some e, s') \<Rightarrow> (Inl e, s') | (None, s') \<Rightarrow> (Inr (), s')) (\<lambda>_.
     bnd (if customDocker dir then ret ()
          else writeBuildContextFile (st_tar st) ''Dockerfile'' 420
            (case GetDockerfile (ld_files (st_loaders st)) ''solver'' of None \<Rightarrow> [] | Some d \<Rightarrow> d)) (\<lambda>_.
     bnd (if HasArtifacts b then copy_artifacts (header_blocks sc) stored else ret ()) (\<lambda>_.
     bnd (if LookupData b = [] then ret ()
          else writeBuildContextFile (st_tar st) ''metadata.json'' 420 (marshal_lookups sc (LookupData b))) (\<lambda>_.
     boundedWrite (replicate 1024 nul)))))"

definition createSolveContext :: "site \<Rightarrow> 'w solver_calls \<Rightarrow> BuildMetadata \<Rightarrow> ('w world, string) act" where
  "createSolveContext st sc b =
     bnd (lookup_challenge st (bd_Challenge b)) (\<lambda>c w.
     let solveDir = Join_path (Dir (Path c)) ''solver''; limit = solveContextBytes (policy (st_mgr st)) in
     case tree_at (st_disk st) solveDir of
       None \<Rightarrow> (Inl (Plain ''open solver directory''), w)
     | Some n \<Rightarrow>
       (case write_solve_context st sc (fst (contextLimits (policy (st_mgr st)))) solveDir n b
            (map_option (Untar (st_codec st)) (map_of (artifacts w) (getArtifactsFilename b)))
            \<lparr>cx_written = [], cx_remaining = limit, cx_limit = limit, cx_entries = 0, cx_faults = host_faults w\<rparr> of
          (Inl e, s) \<Rightarrow> (Inl e, w\<lparr>host_faults := cx_faults s\<rparr>)
        | (Inr _, s) \<Rightarrow> (Inr (cx_written s), w\<lparr>host_faults := cx_faults s\<rparr>)))"

section \<open>The run\<close>

definition solver_image :: "BuildMetadata \<Rightarrow> string" where
  "solver_image b = bd_Challenge b @ ''/solver:'' @ Itoa (bd_Id b)"

text \<open>
  The context is produced while Docker reads it; a failure there closes the pipe with its error, which is
  then the error of the request.
\<close>

definition build_solver :: "'w daemon \<Rightarrow> site \<Rightarrow> 'w solver_calls \<Rightarrow> BuildMetadata \<Rightarrow> ('w world, unit) act" where
  "build_solver dk st sc b =
     bnd (createSolveContext st sc b) (\<lambda>context.
     bnd (must (ImageBuild dk \<lparr>ib_Args = [], ib_CacheFrom = [], ib_Tags = [solver_image b], ib_Target = [], ib_NoCache = False,
       ib_PullParent = False, ib_Context = context\<rparr>)) (\<lambda>p.
     lift_sum (consumeDockerProgress p ''solver image build'')))"

definition solver_spec :: "InstanceMetadata \<Rightarrow> BuildMetadata \<Rightarrow> container_spec" where
  "solver_spec i b = blank_spec\<lparr>cs_Image := solver_image b, cs_Hostname := ''solve'', cs_Network := getNetworkName i,
     cs_Aliases := [''solver'']\<rparr>"

definition await_solver :: "'w solver_calls \<Rightarrow> string \<Rightarrow> ('w world, unit) act" where
  "await_solver sc cid w =
     (case ContainerWait sc cid (dock w) of
        (r, k) \<Rightarrow> (case r of
            WaitFailed None \<Rightarrow> Inl (Plain ''Docker solver wait ended without a result'')
          | WaitFailed (Some e) \<Rightarrow> Inl e
          | WaitEnded \<Rightarrow> Inr ()
          | WaitTimedOut e \<Rightarrow> Inl (Wrap ''solver exceeded its time'' e), w\<lparr>dock := k\<rparr>))"

text \<open>A flag that cannot be copied: the logs are shown, and an error on the way to them takes its place.\<close>

definition no_flag_file :: "'w solver_calls \<Rightarrow> string \<Rightarrow> docker_error \<Rightarrow> ('w world, 'a) act" where
  "no_flag_file sc cid e =
     bnd (call (ContainerLogs sc cid)) (\<lambda>r. case r of
       Inl e' \<Rightarrow> raise (docker_err e')
     | Inr None \<Rightarrow> raise (Plain ''could not read logs'')
     | Inr (Some _) \<Rightarrow> raise (docker_err e))"

text \<open>Only the first entry is looked at.\<close>

definition read_flag :: "managerPolicy \<Rightarrow> (tar_header \<times> string option) list \<Rightarrow> bool \<Rightarrow> err + string" where
  "read_flag pol es ended =
     (case es of
        [] \<Rightarrow> Inl (if ended then Plain ''failed to process flag results properly'' else Plain ''could not read solver flag archive'')
      | (h, content) # _ \<Rightarrow>
        if \<not> is_regular h then Inl (Plain ''solver flag output is not a regular file'')
        else if hd_Size h < 0 \<or> hd_Size h > maxFlagBytes pol then Inl (Plain ''solver flag output is too large'')
        else case content of
          None \<Rightarrow> Inl (Plain ''could not read flag file'')
        | Some bytes \<Rightarrow>
          if int (length bytes) > maxFlagBytes pol then Inl (Plain ''solver flag output is too large'')
          else Inr (TrimSpace bytes))"

definition judge :: "'w solver_calls \<Rightarrow> InstanceMetadata \<Rightarrow> BuildMetadata \<Rightarrow> string \<Rightarrow> ('w world, unit) act" where
  "judge sc i b flag w =
     (if flag = Flag b then in_db (recordSolve (i\<lparr>in_LastSolved := unix_time sc (dock w)\<rparr>)) w
      else raise (Plain ''solve script returned incorrect flag'') w)"

definition check_solution :: "'w daemon \<Rightarrow> site \<Rightarrow> 'w solver_calls \<Rightarrow> InstanceMetadata \<Rightarrow> BuildMetadata \<Rightarrow> string \<Rightarrow> ('w world, unit) act" where
  "check_solution dk st sc i b cid =
     bnd (must (ContainerStart dk cid)) (\<lambda>_.
     bnd (await_solver sc cid) (\<lambda>_.
     bnd (call (CopyFlag sc cid)) (\<lambda>r.
     case r of
       Inl e \<Rightarrow> no_flag_file sc cid e
     | Inr (es, ended) \<Rightarrow> bnd (lift_sum (read_flag (policy (st_mgr st)) es ended)) (judge sc i b))))"

definition runSolver :: "'w daemon \<Rightarrow> site \<Rightarrow> 'w solver_calls \<Rightarrow> InstanceId \<Rightarrow> ('w world, unit) act" where
  "runSolver dk st sc n =
     bnd (in_db (lookupInstanceMetadata n)) (\<lambda>i.
     bnd (in_db (lookupBuildMetadata (in_Build i))) (\<lambda>b.
     bnd (lookup_challenge st (bd_Challenge b)) (\<lambda>c.
     if \<not> SolveScript c then raise (Plain ''no solve script'')
     else
     bnd (build_solver dk st sc b) (\<lambda>_.
     bnd (attempt (with_temporary dk ''solver'' (solver_spec i b) (check_solution dk st sc i b))) (\<lambda>r.
     bnd (quietly (call (ImageRemove dk (solver_image b)))) (\<lambda>_. lift_sum r))))))"

definition CheckInstance :: "'w daemon \<Rightarrow> site \<Rightarrow> 'w solver_calls \<Rightarrow> InstanceId \<Rightarrow> ('w world, unit) act" where
  "CheckInstance dk st sc n = runSolver dk st sc n"

section \<open>What a solver can bring about\<close>

text \<open>A solver container left the flag, in a regular file that keeps the bound.\<close>

definition submitted :: "'w solver_calls \<Rightarrow> managerPolicy \<Rightarrow> string \<Rightarrow> bool" where
  "submitted sc pol flag \<longleftrightarrow> (\<exists>cid k k' h bytes rest ended.
     CopyFlag sc cid k = (Inr ((h, Some bytes) # rest, ended), k') \<and> is_regular h \<and> 0 \<le> hd_Size h \<and> hd_Size h \<le> maxFlagBytes pol \<and>
     int (length bytes) \<le> maxFlagBytes pol \<and> TrimSpace bytes = flag)"

definition solve_rows :: "tables \<Rightarrow> instance_row list \<times> build_row list" where
  "solve_rows t = (instances t, builds t)"

definition with_solve :: "InstanceId \<Rightarrow> BuildId \<Rightarrow> int \<Rightarrow> instance_row list \<times> build_row list \<Rightarrow> instance_row list \<times> build_row list" where
  "with_solve n b now = (\<lambda>(is, bs).
     (update_rows (\<lambda>r. nr_id r = n \<and> nr_lastsolved r < now) (\<lambda>r. r\<lparr>nr_lastsolved := now\<rparr>) is,
      update_rows (\<lambda>r. br_id r = b \<and> br_lastsolved r < now) (\<lambda>r. r\<lparr>br_lastsolved := now\<rparr>) bs))"

text \<open>What became of the rows in a step for instance \<open>i\<close> of build \<open>b\<close>.\<close>

definition solving :: "'w solver_calls \<Rightarrow> managerPolicy \<Rightarrow> InstanceMetadata \<Rightarrow> BuildMetadata \<Rightarrow> err + unit \<Rightarrow> tables \<Rightarrow> tables \<Rightarrow> bool" where
  "solving sc pol i b r t t' \<longleftrightarrow>
     (case r of
        Inl _ \<Rightarrow> solve_rows t' = solve_rows t
      | Inr _ \<Rightarrow> submitted sc pol (Flag b) \<and> (\<exists>now. solve_rows t' = with_solve (in_Id i) (in_Build i) now (solve_rows t)))"

abbreviation same_rows :: "tables \<Rightarrow> 'w world \<Rightarrow> bool" where
  "same_rows t \<equiv> holds (\<lambda>t'. solve_rows t' = solve_rows t)"

lemma same_rows_self: "same_rows (tab (wdb w)) w"
  by (simp add: holds_def)

lemma same_rows_trans:
  "same_rows (tab (wdb w)) w1 \<Longrightarrow> solving sc pol i b r (tab (wdb w1)) t \<Longrightarrow> solving sc pol i b r (tab (wdb w)) t"
  by (simp add: holds_def solving_def split: sum.splits)

lemma solving_same: "same_rows (tab (wdb w)) w' \<Longrightarrow> solving sc pol i b (Inl e) (tab (wdb w)) (tab (wdb w'))"
  by (simp add: holds_def solving_def)

lemma solving_then: "solving sc pol i b r t (tab (wdb w)) \<Longrightarrow> same_rows (tab (wdb w)) w' \<Longrightarrow> solving sc pol i b r t (tab (wdb w'))"
  by (simp add: holds_def solving_def split: sum.splits)

lemma solve_rows_fields [simp]:
  "solve_rows (t\<lparr>retiredContainers := x\<rparr>) = solve_rows t"
  by (simp add: solve_rows_def)

lemma same_rows_retired [maintains_intros]:
  "maintains (in_tables (\<lambda>t'. solve_rows t' = R)) (retireContainer c)"
  "maintains (in_tables (\<lambda>t'. solve_rows t' = R)) (forgetRetiredContainer c)"
  unfolding retireContainer_def forgetRetiredContainer_def
  by (rule in_tables_update; simp add: solve_rows_def retire_def unretire_def)+

lemma same_rows_removed [maintains_intros]:
  "maintains (holds (\<lambda>t'. solve_rows t' = R)) (removeRetiredContainerIDs dk cs)"
  unfolding removeRetiredContainerIDs_def by (intro maintains_intros)

lemma same_rows_context [maintains_intros]: "maintains (holds Q) (createSolveContext st sc b)"
  unfolding createSolveContext_def Let_def
  by (intro maintains_intros holds_quiet_steps) (auto split: option.splits prod.splits sum.splits)

lemma same_rows_build [maintains_intros]: "maintains (holds Q) (build_solver dk st sc b)"
  unfolding build_solver_def by (intro maintains_intros)

lemma same_rows_await [maintains_intros]: "maintains (holds Q) (await_solver sc cid)"
  by (rule holds_quiet_steps) (simp add: await_solver_def split: prod.splits)

text \<open>Steps before and after.\<close>

lemma solving_bnd:
  assumes "bnd m f w = (r, w')" "maintains (holds (\<lambda>t'. solve_rows t' = solve_rows (tab (wdb w)))) m"
    "\<And>x w1. m w = (Inr x, w1) \<Longrightarrow> f x w1 = (r, w') \<Longrightarrow> solving sc pol i b r (tab (wdb w1)) (tab (wdb w'))"
  shows "solving sc pol i b r (tab (wdb w)) (tab (wdb w'))"
proof -
  obtain q w1 where m: "m w = (q, w1)" by (metis surj_pair)
  have w1: "same_rows (tab (wdb w)) w1" using maintainsD [OF assms(2) same_rows_self m] .
  show ?thesis
  proof (cases q)
    case (Inl e)
    then show ?thesis using assms(1) m solving_same [OF w1] by (auto simp: bnd_def)
  next
    case (Inr x)
    then have "f x w1 = (r, w')" using assms(1) m by (simp add: bnd_def)
    then show ?thesis using same_rows_trans [OF w1] assms(3) m Inr by blast
  qed
qed

lemma solving_recorded:
  assumes "in_db (recordSolve (i\<lparr>in_LastSolved := now\<rparr>)) w = (r, w')" "submitted sc pol (Flag b)"
  shows "solving sc pol i b r (tab (wdb w)) (tab (wdb w'))"
proof -
  obtain d where d: "recordSolve (i\<lparr>in_LastSolved := now\<rparr>) (wdb w) = (r, d)" "tab (wdb w') = tab d"
    using assms(1) by (auto simp: in_db_run)
  show ?thesis
  proof (cases r)
    case (Inl e)
    then show ?thesis using withTransaction_Inl d unfolding recordSolve_def solving_def by fastforce
  next
    case (Inr u)
    obtain d1 d2 where 1: "tab d1 = tab (wdb w)" "tab d = tab d2" and body:
      "bnd (map_err (Wrap ''could not record instance solve'')
          (update (\<lambda>t. t\<lparr>instances := update_rows (\<lambda>r. nr_id r = in_Id i \<and> nr_lastsolved r < now)
            (\<lambda>r. r\<lparr>nr_lastsolved := now\<rparr>) (instances t)\<rparr>)))
        (\<lambda>_. map_err (Wrap ''could not record build solve'')
          (update (\<lambda>t. t\<lparr>builds := update_rows (\<lambda>r. br_id r = in_Build i \<and> br_lastsolved r < now)
            (\<lambda>r. r\<lparr>br_lastsolved := now\<rparr>) (builds t)\<rparr>))) d1 = (Inr u, d2)"
      using d(1) [unfolded Inr recordSolve_def] by (elim withTransaction_Inr) simp
    from body have "solve_rows (tab d2) = with_solve (in_Id i) (in_Build i) now (solve_rows (tab d1))"
      by (elim bnd_InrE) (auto dest!: update_Inr simp: map_err_Inr_iff solve_rows_def with_solve_def)
    then show ?thesis using 1 d(2) assms(2) Inr by (auto simp: solving_def)
  qed
qed

lemma read_flag_submitted:
  assumes "read_flag pol es ended = Inr flag" "CopyFlag sc cid k = (Inr (es, ended), k')"
  shows "submitted sc pol flag"
proof -
  obtain h bytes rest where "es = (h, Some bytes) # rest" "is_regular h" "0 \<le> hd_Size h" "hd_Size h \<le> maxFlagBytes pol"
    "int (length bytes) \<le> maxFlagBytes pol" "TrimSpace bytes = flag"
    using assms(1) by (auto simp: read_flag_def split: list.splits option.splits if_splits)
  then show ?thesis using assms(2) unfolding submitted_def by blast
qed

lemma judge_solving:
  assumes "judge sc i b flag w = (r, w')" "submitted sc pol flag"
  shows "solving sc pol i b r (tab (wdb w)) (tab (wdb w'))"
proof (cases "flag = Flag b")
  case True
  then show ?thesis using assms by (intro solving_recorded) (simp_all add: judge_def)
next
  case False
  then show ?thesis using assms(1) solving_same [OF same_rows_self] by (auto simp: judge_def raise_def)
qed

lemma check_solution_solving:
  assumes "check_solution dk st sc i b cid w = (r, w')"
  shows "solving sc (policy (st_mgr st)) i b r (tab (wdb w)) (tab (wdb w'))"
  using assms unfolding check_solution_def
proof (rule solving_bnd, goal_cases)
  case (2 x w1)
  show ?case using 2(2)
  proof (rule solving_bnd, goal_cases)
    case (2 x w1)
    show ?case using 2(2)
    proof (rule solving_bnd, goal_cases)
      case (2 x w2)
      note run = 2
      show ?case
      proof (cases x)
        case (Inl e)
        have "maintains (same_rows (tab (wdb w2))) (no_flag_file sc cid e :: ('a world, unit) act)" unfolding no_flag_file_def
          by (intro maintains_intros)
        from maintainsD [OF this same_rows_self] have "same_rows (tab (wdb w2)) w'" using run(2) Inl by simp
        moreover have "isl r" using run(2) Inl
          by (auto simp: no_flag_file_def bnd_def call_def raise_def split: prod.splits sum.splits option.splits)
        ultimately show ?thesis using solving_same by (cases r) auto
      next
        case (Inr p)
        obtain es ended where p: "p = (es, ended)" by (metis surj_pair)
        obtain k k' where c: "CopyFlag sc cid k = (Inr (es, ended), k')"
          using run(1) Inr p by (auto simp: call_def split: prod.splits)
        have "bnd (lift_sum (read_flag (policy (st_mgr st)) es ended)) (judge sc i b) w2 = (r, w')" using run(2) Inr p by simp
        then show ?thesis
        proof (rule solving_bnd, goal_cases)
          case (2 flag w3)
          then have "read_flag (policy (st_mgr st)) es ended = Inr flag"
            by (cases "read_flag (policy (st_mgr st)) es ended") (simp_all add: lift_sum_def)
          from judge_solving [OF 2(2) read_flag_submitted [OF this c]] show ?case .
        qed (rule maintains_intros)
      qed
    qed (rule maintains_intros)
  qed (rule maintains_intros)
qed (rule maintains_intros)

lemma with_temporary_solving:
  assumes "with_temporary dk what sp body w = (r, w')"
    "\<And>cid w1 r1 w2. body cid w1 = (r1, w2) \<Longrightarrow> solving sc pol i b r1 (tab (wdb w1)) (tab (wdb w2))"
  shows "solving sc pol i b r (tab (wdb w)) (tab (wdb w'))"
  using assms(1) unfolding with_temporary_def
proof (rule solving_bnd, goal_cases)
  case (2 cid w0)
  obtain q w1 where 1: "in_db (retireContainer cid) w0 = (q, w1)" by (metis surj_pair)
  have "maintains (same_rows (tab (wdb w0))) (in_db (retireContainer cid))" by (intro maintains_intros)
  from maintainsD [OF this same_rows_self 1] have w1: "same_rows (tab (wdb w0)) w1" .
  show ?case
  proof (cases q)
    case (Inl e)
    let ?m = "bnd (attempt (must (ContainerRemove dk cid))) (\<lambda>r. raise (Join (Wrap (''could not track temporary '' @ what @ '' container'') e #
           (case r of Inl e' \<Rightarrow> [e'] | Inr _ \<Rightarrow> []))) :: ('a world, unit) act)"
    have run: "?m w1 = (r, w')" using 2(2) 1 Inl by simp
    have "maintains (same_rows (tab (wdb w0))) ?m" by (intro maintains_intros)
    from maintainsD [OF this w1 run] have "same_rows (tab (wdb w0)) w'" .
    moreover have "isl r" using run by (auto simp: bnd_def attempt_def split: prod.splits)
    ultimately show ?thesis using solving_same by (cases r) auto
  next
    case (Inr u)
    obtain r2 w2 where b: "body cid w1 = (r2, w2)" by (metis surj_pair)
    obtain u3 w3 where 3: "quietly (removeRetiredContainerIDs dk [cid]) w2 = (u3, w3)" by (metis surj_pair)
    have u3: "u3 = Inr ()" using quietly_quiet [of "removeRetiredContainerIDs dk [cid]" w2] 3 by simp
    have a: "attempt (body cid) w1 = (Inr r2, w2)" by (simp add: attempt_def b)
    have "lift_sum r2 w3 = (r, w')" using 2(2) unfolding 1 Inr by (simp add: bnd_def a 3 u3)
    then have "w' = w3" "r = r2" by (cases r2; simp add: lift_sum_def)+
    moreover have "maintains (same_rows (tab (wdb w2))) (quietly (removeRetiredContainerIDs dk [cid]))" by (intro maintains_intros)
    note maintainsD [OF this same_rows_self 3]
    ultimately show ?thesis using same_rows_trans [OF w1] solving_then [OF assms(2) [OF b]] by blast
  qed
qed (rule maintains_intros)

lemma run_solving:
  assumes "bnd (build_solver dk st sc b) (\<lambda>_.
      bnd (attempt (with_temporary dk ''solver'' sp (check_solution dk st sc i b))) (\<lambda>r.
      bnd (quietly (call (ImageRemove dk im))) (\<lambda>_. lift_sum r))) w = (r, w')"
  shows "solving sc (policy (st_mgr st)) i b r (tab (wdb w)) (tab (wdb w'))"
  using assms
proof (rule solving_bnd, goal_cases)
  case (2 u w1)
  obtain r2 w2 where 3: "with_temporary dk ''solver'' sp (check_solution dk st sc i b) w1 = (r2, w2)" by (metis surj_pair)
  have s: "solving sc (policy (st_mgr st)) i b r2 (tab (wdb w1)) (tab (wdb w2))"
    by (rule with_temporary_solving [OF 3 check_solution_solving])
  obtain u3 w3 where 4: "quietly (call (ImageRemove dk im)) w2 = (u3, w3)" by (metis surj_pair)
  have "lift_sum r2 w3 = (r, w')"
    using 2(2) quietly_quiet [of "call (ImageRemove dk im)" w2] by (simp add: bnd_def attempt_def 3 4)
  then have "w' = w3" "r = r2" by (cases r2; simp add: lift_sum_def)+
  moreover have "maintains (same_rows (tab (wdb w2))) (quietly (call (ImageRemove dk im)))" by (intro maintains_intros)
  note maintainsD [OF this same_rows_self 4]
  ultimately show ?case using solving_then [OF s] by blast
qed (rule maintains_intros)

lemma found_challenge:
  assumes "lookupChallengeMetadata hash parse c d = (Inr m, d')"
  shows "\<exists>ch \<in> set (challenges (tab d)). cr_id ch = c \<and> cr_solvescript ch = SolveScript m"
proof -
  obtain rs where "row_of_challenge c (tab d) = challenge_row_of m # rs" using found_row(1) [OF assms] by blast
  then have "challenge_row_of m \<in> set (row_of_challenge c (tab d))" by simp
  then show ?thesis
    by (intro bexI [of _ "challenge_row_of m"]) (auto simp: row_of_challenge_def, simp_all add: challenge_row_of_def)
qed

text \<open>
  C40. A solve is recorded for the flag only. A check of an instance that fails, at whatever step, records
  no solve. One that succeeds found the instance, its build and its challenge with a solve script, read
  the flag of that very build from a regular file within the bound that a solver container left, and moved
  the time of the last solve forward for that instance and that build, and for no other.
\<close>

theorem solve_needs_the_flag:
  assumes "runSolver dk st sc n w = (r, w')"
  shows "case r of
      Inl _ \<Rightarrow> solve_rows (tab (wdb w')) = solve_rows (tab (wdb w))
    | Inr _ \<Rightarrow> \<exists>nr \<in> set (instances (tab (wdb w))). \<exists>br \<in> set (builds (tab (wdb w))). \<exists>ch \<in> set (challenges (tab (wdb w))).
        nr_id nr = n \<and> nr_build nr = br_id br \<and> br_challenge br = cr_id ch \<and> cr_solvescript ch \<and>
        submitted sc (policy (st_mgr st)) (br_flag br) \<and>
        (\<exists>now. solve_rows (tab (wdb w')) = with_solve n (br_id br) now (solve_rows (tab (wdb w))))"
proof -
  obtain r1 w1 where 1: "in_db (lookupInstanceMetadata n) w = (r1, w1)" by (metis surj_pair)
  have t1: "tab (wdb w1) = tab (wdb w)"
    using maintainsD [OF holds_in_db [OF in_tables_reading(1)], of "\<lambda>t. t = tab (wdb w)" w n] 1 by (simp add: holds_def)
  show ?thesis
  proof (cases r1)
    case (Inl e)
    then show ?thesis using assms 1 t1 by (auto simp: runSolver_def bnd_def)
  next
    case i: (Inr i)
    obtain nr where nr: "in_Id i = n" "nr \<in> set (instances (tab (wdb w)))" "nr_id nr = n" "nr_build nr = in_Build i"
      using 1 i lookupInstance_Inr(1,4) by (fastforce simp: in_db_run)
    obtain r2 w2 where 2: "in_db (lookupBuildMetadata (in_Build i)) w1 = (r2, w2)" by (metis surj_pair)
    have t2: "tab (wdb w2) = tab (wdb w)"
      using maintainsD [OF holds_in_db [OF in_tables_reading(2)], of "\<lambda>t. t = tab (wdb w)" w1 "in_Build i"] 2 t1 by (simp add: holds_def)
    show ?thesis
    proof (cases r2)
      case (Inl e)
      then show ?thesis using assms 1 2 i t2 by (auto simp: runSolver_def bnd_def)
    next
      case b: (Inr b)
      obtain br where br: "br \<in> set (builds (tab (wdb w)))" "br_id br = in_Build i" "br_flag br = Flag b" "br_challenge br = bd_Challenge b"
        using 2 b t1 found_build(2) by (fastforce simp: in_db_run)
      obtain r3 w3 where 3: "lookup_challenge st (bd_Challenge b) w2 = (r3, w3)" by (metis surj_pair)
      have t3: "tab (wdb w3) = tab (wdb w)"
        using maintainsD [OF holds_lookups(1), of "\<lambda>t. t = tab (wdb w)" w2] 3 t2 by (simp add: holds_def)
      let ?run = "\<lambda>c. if \<not> SolveScript c then raise (Plain ''no solve script'') else
        bnd (build_solver dk st sc b) (\<lambda>_.
        bnd (attempt (with_temporary dk ''solver'' (solver_spec i b) (check_solution dk st sc i b))) (\<lambda>r.
        bnd (quietly (call (ImageRemove dk (solver_image b)))) (\<lambda>_. lift_sum r)))"
      show ?thesis
      proof (cases r3)
        case (Inl e)
        then show ?thesis using assms 1 2 3 i b t3 by (auto simp: runSolver_def bnd_def)
      next
        case c: (Inr c)
        obtain ch where ch: "ch \<in> set (challenges (tab (wdb w)))" "cr_id ch = bd_Challenge b" "cr_solvescript ch = SolveScript c"
          using 3 c t2 found_challenge by (fastforce simp: lookup_challenge_def find_challenge_def in_db_run)
        have run: "?run c w3 = (r, w')" using assms 1 2 3 i b c by (simp add: runSolver_def bnd_Inr)
        show ?thesis
        proof (cases "SolveScript c")
          case False
          then show ?thesis using run t3 by (auto simp: raise_def)
        next
          case True
          have "solving sc (policy (st_mgr st)) i b r (tab (wdb w3)) (tab (wdb w'))"
            using run True by (intro run_solving) simp
          then show ?thesis using nr br ch True t3 unfolding solving_def
            by (cases r) (simp, simp only: sum.case, intro bexI [of _ nr] bexI [of _ br] bexI [of _ ch], simp_all)
        qed
      qed
    qed
  qed
qed

text \<open>A challenge with a solver, an instance of a build with the flag, and a solver that finds it.\<close>

definition ex_flag_header :: tar_header where
  "ex_flag_header = \<lparr>hd_Name = ''flag'', Typeflag = TypeReg, hd_Size = 5, Mode = 420, Linkname = [], Uid = 0, Gid = 0, Uname = [],
     Gname = [], PAXRecords = [], Xattrs = [], ModTime = 0\<rparr>"

definition ex_solver_calls :: "(string \<times> string) list solver_calls" where
  "ex_solver_calls = \<lparr>ContainerWait = (\<lambda>c k. (WaitEnded, k)), ContainerLogs = (\<lambda>c k. (Inr None, k)),
     CopyFlag = (\<lambda>c k. (Inr ([(ex_flag_header, Some (''flag'' @ [CHR 0x0A]))], True), k)),
     unix_time = (\<lambda>_. 7), marshal_lookups = (\<lambda>_. []), header_blocks = (\<lambda>_. [])\<rparr>"

definition ex_solver_daemon :: "(string \<times> string) list daemon" where
  "ex_solver_daemon = ex_builder\<lparr>ContainerStart := (\<lambda>c k. (Inr (), k))\<rparr>"

definition ex_solver_world :: "(string \<times> string) list world" where
  "ex_solver_world = ex_image_world\<lparr>wdb := \<lparr>tab = empty_tables\<lparr>challenges := [ex_challenge\<lparr>cr_solvescript := True\<rparr>],
     schemas := [(''s'', False)], builds := [(ex_row 1 ''s'' 1 2)\<lparr>br_flag := ''flag''\<rparr>],
     instances := [\<lparr>nr_id = 1, nr_lastsolved = 0, nr_build = 1\<rparr>]\<rparr>, faults = []\<rparr>\<rparr>"

theorem solve_needs_the_flag_witness:
  "\<exists>w'. runSolver ex_solver_daemon ex_site ex_solver_calls 1 ex_solver_world = (Inr (), w') \<and>
     submitted ex_solver_calls (policy (st_mgr ex_site)) ''flag''"
proof -
  let ?run = "runSolver ex_solver_daemon ex_site ex_solver_calls 1 ex_solver_world"
  have "fst ?run = Inr ()" by code_simp
  then have r: "?run = (Inr (), snd ?run)" by (metis prod.collapse)
  obtain br where "br \<in> set (builds (tab (wdb ex_solver_world)))" "submitted ex_solver_calls (policy (st_mgr ex_site)) (br_flag br)"
    using solve_needs_the_flag [OF r] by (simp only: sum.case) blast
  moreover from this(1) have "br_flag br = ''flag''" by (simp add: ex_solver_world_def)
  ultimately show ?thesis using r by auto
qed

end
