(* ===== verification/Migration.thy ===== *)
theory Migration
  imports Daemon
begin

text \<open>
  The database at startup, \<open>cmgr/database.go\<close>: its initialisation, the migrations of older versions, the check
  of the current schema, the copy made before a migration and the latch file that blocks the next
  startup when a migration did not end. A database file has a version, its tables with their columns, its
  indexes and its rows; rows have the fields of the current version, so a column that is missing
  has no meaning until it is added and filled. The engine (\<open>sql\<close>) and the calls of the operating system
  may fail at any point.
\<close>

section \<open>Database files\<close>

record database_file =
  user_version :: int
  table_columns :: "(string \<times> string list) list"
  index_names :: "string list"
  stored_rows :: tables

record sqlite =
  db_file :: database_file
  troubles :: "bool list"

text \<open>One call of the engine. It fails by itself or because the statement does not apply.\<close>

definition sql :: "(database_file \<Rightarrow> (database_file \<times> 'a) option) \<Rightarrow> (sqlite, 'a) act" where
  "sql f s =
     (let s' = s\<lparr>troubles := tl (troubles s)\<rparr> in
      if troubles s \<noteq> [] \<and> hd (troubles s) then (Inl db_error, s')
      else case f (db_file s) of None \<Rightarrow> (Inl db_error, s') | Some (d, x) \<Rightarrow> (Inr x, s'\<lparr>db_file := d\<rparr>))"

definition ask :: "(database_file \<Rightarrow> 'a) \<Rightarrow> (sqlite, 'a) act" where
  "ask f = sql (\<lambda>d. Some (d, f d))"

definition change :: "(database_file \<Rightarrow> database_file) \<Rightarrow> (sqlite, unit) act" where
  "change f = sql (\<lambda>d. Some (f d, ()))"

text \<open>\<open>withTransaction\<close> on a database file: the file is as before unless body and commit succeed.\<close>

definition in_txn :: "(sqlite, 'a) act \<Rightarrow> (sqlite, 'a) act" where
  "in_txn body s =
     (case ask (\<lambda>_. ()) s of
        (Inl e, s1) \<Rightarrow> (Inl (Wrap ''could not begin transaction'' e), s1)
      | (Inr _, s1) \<Rightarrow>
        (case body s1 of
           (Inl e, s2) \<Rightarrow>
             (case ask (\<lambda>_. ()) s2 of
                (Inl e', s3) \<Rightarrow> (Inl (Join [e, Wrap ''could not roll back transaction'' e']), s3\<lparr>db_file := db_file s\<rparr>)
              | (Inr _, s3) \<Rightarrow> (Inl e, s3\<lparr>db_file := db_file s\<rparr>))
         | (Inr x, s2) \<Rightarrow>
             (case ask (\<lambda>_. ()) s2 of
                (Inl e, s3) \<Rightarrow> (Inl (Wrap ''could not commit transaction'' e), s3\<lparr>db_file := db_file s\<rparr>)
              | (Inr _, s3) \<Rightarrow> (Inr x, s3))))"

definition setDatabaseVersion :: "int \<Rightarrow> (sqlite, unit) act" where
  "setDatabaseVersion version =
     map_err (Wrap ''could not set database version'') (change (\<lambda>d. d\<lparr>user_version := version\<rparr>))"

section \<open>Tables, columns and indexes\<close>

definition currentDatabaseVersion :: int where "currentDatabaseVersion = 2"

definition currentDatabaseColumns :: "(string \<times> string list) list" where
  "currentDatabaseColumns = [
     (''challenges'', [''id'', ''name'', ''namespace'', ''challengetype'', ''description'', ''details'', ''sourcechecksum'',
        ''metadatachecksum'', ''sourcedigest'', ''metadatadigest'', ''path'', ''solvescript'', ''templatable'', ''maxusers'',
        ''category'', ''points'']),
     (''hints'', [''challenge'', ''idx'', ''hint'']),
     (''tags'', [''challenge'', ''tag'']),
     (''attributes'', [''challenge'', ''key'', ''value'']),
     (''hosts'', [''challenge'', ''name'', ''idx'', ''target'']),
     (''portNames'', [''challenge'', ''name'', ''host'', ''port'']),
     (''schemas'', [''name'', ''manual'']),
     (''builds'', [''id'', ''flag'', ''format'', ''seed'', ''hasartifacts'', ''lastsolved'', ''challenge'', ''schema'',
        ''instancecount'', ''requiredseccomptweaks'']),
     (''images'', [''id'', ''build'', ''host'']),
     (''imagePorts'', [''image'', ''port'']),
     (''lookupData'', [''build'', ''key'', ''value'']),
     (''instances'', [''id'', ''lastsolved'', ''build'']),
     (''portAssignments'', [''instance'', ''name'', ''port'']),
     (''containers'', [''instance'', ''id'']),
     (''retiredContainers'', [''id'']),
     (''retiredNetworks'', [''name'']),
     (''networkOptions'', [''challenge'', ''allowegress'']),
     (''containerOptions'', [''challenge'', ''host'', ''init'', ''cpus'', ''memory'', ''ulimits'', ''pidslimit'',
        ''readonlyrootfs'', ''droppedcaps'', ''nonewprivileges'', ''diskquota'', ''cgroupparent'', ''seccomp''])]"

text \<open>An index with its table and, for a unique one, the rows it admits.\<close>

type_synonym index_spec = "string \<times> string \<times> (tables \<Rightarrow> bool)"

definition databaseV1Indexes :: "index_spec list" where
  "databaseV1Indexes = [
     (''hostsOrderIndex'', ''hosts'', \<lambda>t. distinct (map (\<lambda>(c, n, i, g). (c, i)) (hosts t))),
     (''portNamesNameIndex'', ''portNames'', \<lambda>t. distinct (map (\<lambda>(c, n, h, p). (c, n)) (portNames t))),
     (''portNamesEndpointIndex'', ''portNames'', \<lambda>t. distinct (map (\<lambda>(c, n, h, p). (c, h, p)) (portNames t))),
     (''imagesHostIndex'', ''images'', \<lambda>t. distinct (map (\<lambda>i. (ir_build i, ir_host i)) (images t))),
     (''imagePortsPortIndex'', ''imagePorts'', \<lambda>t. distinct (imagePorts t)),
     (''lookupDataKeyIndex'', ''lookupData'', \<lambda>t. distinct (map (\<lambda>(b, k, v). (b, k)) (lookupData t))),
     (''portAssignmentsNameIndex'', ''portAssignments'', \<lambda>t. distinct (map (\<lambda>(i, n, p). (i, n)) (portAssignments t))),
     (''portAssignmentsPortIndex'', ''portAssignments'', \<lambda>t. distinct (map (\<lambda>(i, n, p). p) (portAssignments t))),
     (''containerOptionsHostIndex'', ''containerOptions'', \<lambda>t. distinct (map (\<lambda>(c, h, opt). (c, h)) (containerOptions t)))]"

definition plainIndexes :: "index_spec list" where
  "plainIndexes = [(''tagIndex'', ''tags'', \<lambda>_. True), (''attributeIndex'', ''attributes'', \<lambda>_. True),
     (''hostsIndex'', ''hosts'', \<lambda>_. True), (''schemaIndex'', ''builds'', \<lambda>_. True)]"

definition currentDatabaseIndexes :: "string list" where
  "currentDatabaseIndexes = [''tagIndex'', ''attributeIndex'', ''hostsIndex'', ''hostsOrderIndex'', ''portNamesNameIndex'',
     ''portNamesEndpointIndex'', ''schemaIndex'', ''imagesHostIndex'', ''imagePortsPortIndex'', ''lookupDataKeyIndex'',
     ''portAssignmentsNameIndex'', ''portAssignmentsPortIndex'', ''containerOptionsHostIndex'']"

definition has_table :: "database_file \<Rightarrow> string \<Rightarrow> bool" where
  "has_table d name \<longleftrightarrow> name \<in> set (map fst (table_columns d))"

definition columns_of :: "database_file \<Rightarrow> string \<Rightarrow> string list" where
  "columns_of d name = (case map_of (table_columns d) name of None \<Rightarrow> [] | Some cs \<Rightarrow> cs)"

text \<open>\<open>CREATE TABLE IF NOT EXISTS\<close>; a new table is empty.\<close>

definition create_table :: "string \<Rightarrow> (tables \<Rightarrow> tables) \<Rightarrow> database_file \<Rightarrow> database_file" where
  "create_table name clear d =
     (if has_table d name then d
      else d\<lparr>table_columns := table_columns d @ [(name, columns_of \<lparr>user_version = 0, table_columns = currentDatabaseColumns,
          index_names = [], stored_rows = empty_tables\<rparr> name)], stored_rows := clear (stored_rows d)\<rparr>)"

text \<open>\<open>CREATE [UNIQUE] INDEX IF NOT EXISTS\<close>.\<close>

definition create_index :: "index_spec \<Rightarrow> database_file \<Rightarrow> (database_file \<times> unit) option" where
  "create_index ix d =
     (case ix of (name, on_table, admits) \<Rightarrow>
      if name \<in> set (index_names d) then Some (d, ())
      else if has_table d on_table \<and> admits (stored_rows d) then Some (d\<lparr>index_names := index_names d @ [name]\<rparr>, ())
      else None)"

section \<open>The current schema\<close>

definition schemaTables :: "(string \<times> (tables \<Rightarrow> tables)) list" where
  "schemaTables = [(''challenges'', \<lambda>t. t\<lparr>challenges := []\<rparr>), (''hints'', \<lambda>t. t\<lparr>hints := []\<rparr>), (''tags'', \<lambda>t. t\<lparr>tags := []\<rparr>),
     (''attributes'', \<lambda>t. t\<lparr>attributes := []\<rparr>), (''hosts'', \<lambda>t. t\<lparr>hosts := []\<rparr>), (''portNames'', \<lambda>t. t\<lparr>portNames := []\<rparr>),
     (''schemas'', \<lambda>t. t\<lparr>schemas := []\<rparr>), (''builds'', \<lambda>t. t\<lparr>builds := []\<rparr>), (''images'', \<lambda>t. t\<lparr>images := []\<rparr>),
     (''imagePorts'', \<lambda>t. t\<lparr>imagePorts := []\<rparr>), (''lookupData'', \<lambda>t. t\<lparr>lookupData := []\<rparr>),
     (''instances'', \<lambda>t. t\<lparr>instances := []\<rparr>), (''portAssignments'', \<lambda>t. t\<lparr>portAssignments := []\<rparr>),
     (''containers'', \<lambda>t. t\<lparr>containers := []\<rparr>), (''retiredContainers'', \<lambda>t. t\<lparr>retiredContainers := []\<rparr>),
     (''retiredNetworks'', \<lambda>t. t\<lparr>retiredNetworks := []\<rparr>), (''networkOptions'', \<lambda>t. t\<lparr>networkOptions := []\<rparr>),
     (''containerOptions'', \<lambda>t. t\<lparr>containerOptions := []\<rparr>)]"

text \<open>The statements of \<open>schemaQuery\<close>, the tables before the indexes.\<close>

definition createCurrentDatabaseSchema :: "(sqlite, unit) act" where
  "createCurrentDatabaseSchema = in_txn
     (bnd (map_err (Wrap ''could not create database schema'')
        (bnd (each (\<lambda>(name, clear). change (create_table name clear)) schemaTables) (\<lambda>_.
         each (\<lambda>ix. sql (create_index ix)) (plainIndexes @ databaseV1Indexes))))
      (\<lambda>_. setDatabaseVersion currentDatabaseVersion))"

text \<open>The \<open>FOREIGN KEY\<close> clauses of \<open>schemaQuery\<close>.\<close>

definition foreign_keys :: "tables \<Rightarrow> bool" where
  "foreign_keys t \<longleftrightarrow>
     (let known = set (map cr_id (challenges t)); made = set (map br_id (builds t)); running = set (map nr_id (instances t)) in
      list_all (\<lambda>(c, _). c \<in> known) (hints t) \<and> list_all (\<lambda>(c, _). c \<in> known) (tags t) \<and>
      list_all (\<lambda>(c, _). c \<in> known) (attributes t) \<and> list_all (\<lambda>(c, _). c \<in> known) (hosts t) \<and>
      list_all (\<lambda>(c, n, h, p). c \<in> known \<and> (c, h) \<in> set (map (\<lambda>(c, n, i, g). (c, n)) (hosts t))) (portNames t) \<and>
      list_all (\<lambda>b. br_challenge b \<in> known) (builds t) \<and>
      list_all (\<lambda>i. ir_build i \<in> made) (images t) \<and>
      list_all (\<lambda>(i, _). i \<in> set (map ir_id (images t))) (imagePorts t) \<and> list_all (\<lambda>(b, _). b \<in> made) (lookupData t) \<and>
      list_all (\<lambda>i. nr_build i \<in> made) (instances t) \<and>
      list_all (\<lambda>(i, _). i \<in> running) (portAssignments t) \<and> list_all (\<lambda>(i, _). i \<in> running) (containers t) \<and>
      list_all (\<lambda>(c, _). c \<in> known) (networkOptions t) \<and> list_all (\<lambda>(c, _). c \<in> known) (containerOptions t))"

definition currentDatabaseInvariants :: "(string \<times> (tables \<Rightarrow> bool)) list" where
  "currentDatabaseInvariants = [
     (''every build belongs to a defined schema'', \<lambda>t. list_all (\<lambda>b. br_schema b \<in> set (map fst (schemas t))) (builds t)),
     (''every challenge has network options'', \<lambda>t. list_all (\<lambda>c. cr_id c \<in> set (map fst (networkOptions t))) (challenges t)),
     (''active containers are not pending cleanup'', \<lambda>t. list_all (\<lambda>(i, c). c \<notin> set (retiredContainers t)) (containers t))]"

definition check_table :: "string \<times> string list \<Rightarrow> (sqlite, unit) act" where
  "check_table tc = (case tc of (name, required) \<Rightarrow>
     bnd (map_err (Wrap ''could not inspect table'') (ask (\<lambda>d. length (filter (\<lambda>x. fst x = name) (table_columns d))))) (\<lambda>n.
     if n \<noteq> 1 then raise (Plain ''database is missing required table'')
     else
     bnd (map_err (Wrap ''could not inspect columns'') (ask (\<lambda>d. columns_of d name))) (\<lambda>present.
     if list_all (\<lambda>c. c \<in> set present) required then ret () else raise (Plain ''database is missing required column''))))"

definition check_index :: "string \<Rightarrow> (sqlite, unit) act" where
  "check_index name =
     bnd (map_err (Wrap ''could not inspect index'') (ask (\<lambda>d. length (filter (\<lambda>x. x = name) (index_names d))))) (\<lambda>n.
     if n \<noteq> 1 then raise (Plain ''database is missing required index'') else ret ())"

definition check_rows :: "string \<Rightarrow> (tables \<Rightarrow> bool) \<Rightarrow> (sqlite, unit) act" where
  "check_rows what ok =
     bnd (map_err (Wrap what) (ask (\<lambda>d. ok (stored_rows d)))) (\<lambda>b. if b then ret () else raise (Plain what))"

definition validateCurrentDatabaseSchema :: "(sqlite, unit) act" where
  "validateCurrentDatabaseSchema =
     bnd (each check_table currentDatabaseColumns) (\<lambda>_.
     bnd (each check_index currentDatabaseIndexes) (\<lambda>_.
     bnd (check_rows ''database contains foreign-key violations'' foreign_keys) (\<lambda>_.
     each (\<lambda>(what, ok). check_rows what ok) currentDatabaseInvariants)))"

section \<open>Migrations\<close>

definition v0_tables :: "string list" where
  "v0_tables = [''challenges'', ''hints'', ''tags'', ''attributes'', ''hosts'', ''portNames'', ''builds'', ''images'', ''imagePorts'',
     ''lookupData'', ''instances'', ''portAssignments'', ''containers'', ''containerOptions'']"

definition validateDatabaseV0Schema :: "(sqlite, unit) act" where
  "validateDatabaseV0Schema =
     bnd (map_err (Wrap ''could not inspect version 0 database tables'')
       (ask (\<lambda>d. length (filter (\<lambda>x. fst x \<in> set v0_tables) (table_columns d))))) (\<lambda>n.
     if n \<noteq> 14 then raise (Plain ''unsupported version 0 database schema'') else ret ())"

text \<open>\<open>ALTER TABLE ... ADD COLUMN ... DEFAULT\<close>: every row gets the default.\<close>

definition add_column :: "string \<Rightarrow> string \<Rightarrow> (tables \<Rightarrow> tables) \<Rightarrow> database_file \<Rightarrow> (database_file \<times> unit) option" where
  "add_column table column fill d =
     (if \<not> has_table d table then None
      else Some (d\<lparr>table_columns := map (\<lambda>(n, cs). (n, if n = table then cs @ [column] else cs)) (table_columns d),
        stored_rows := fill (stored_rows d)\<rparr>, ()))"

definition addDatabaseColumnIfMissing :: "string \<Rightarrow> string \<Rightarrow> (tables \<Rightarrow> tables) \<Rightarrow> (sqlite, unit) act" where
  "addDatabaseColumnIfMissing table column fill =
     bnd (map_err (Wrap ''could not inspect column'') (ask (\<lambda>d. length (filter (\<lambda>c. c = column) (columns_of d table))))) (\<lambda>n.
     if n = 0 then map_err (Wrap ''could not add column'') (sql (add_column table column fill))
     else if n = 1 then ret ()
     else raise (Plain ''invalid version 0 database schema''))"

text \<open>Of equal rows the one with the smallest rowid stays.\<close>

definition first_rows :: "'a list \<Rightarrow> 'a list" where
  "first_rows xs = rev (remdups (rev xs))"

definition databaseV0ToV1DuplicateCleanup :: "(tables \<Rightarrow> tables) list" where
  "databaseV0ToV1DuplicateCleanup = [\<lambda>t. t\<lparr>portNames := first_rows (portNames t)\<rparr>, \<lambda>t. t\<lparr>imagePorts := first_rows (imagePorts t)\<rparr>,
     \<lambda>t. t\<lparr>lookupData := first_rows (lookupData t)\<rparr>, \<lambda>t. t\<lparr>portAssignments := first_rows (portAssignments t)\<rparr>,
     \<lambda>t. t\<lparr>containerOptions := first_rows (containerOptions t)\<rparr>]"

definition databaseV1ConflictChecks :: "(string \<times> (tables \<Rightarrow> bool)) list" where
  "databaseV1ConflictChecks = [
     (''unique host ordering per challenge'', \<lambda>t. distinct (map (\<lambda>(c, n, i, g). (c, i)) (hosts t))),
     (''unique published-port names per challenge'', \<lambda>t. distinct (map (\<lambda>(c, n, h, p). (c, n)) (portNames t))),
     (''unique published endpoints per challenge'', \<lambda>t. distinct (map (\<lambda>(c, n, h, p). (c, h, p)) (portNames t))),
     (''one image per build host'', \<lambda>t. distinct (map (\<lambda>i. (ir_build i, ir_host i)) (images t))),
     (''unique lookup-data keys per build'', \<lambda>t. distinct (map (\<lambda>(b, k, v). (b, k)) (lookupData t))),
     (''unique assigned-port names per instance'', \<lambda>t. distinct (map (\<lambda>(i, n, p). (i, n)) (portAssignments t))),
     (''globally unique assigned ports'', \<lambda>t. distinct (map (\<lambda>(i, n, p). p) (portAssignments t))),
     (''one container-options row per challenge host'', \<lambda>t. distinct (map (\<lambda>(c, h, opt). (c, h)) (containerOptions t)))]"

definition rejectDatabaseV1Conflicts :: "(sqlite, unit) act" where
  "rejectDatabaseV1Conflicts = each (\<lambda>(what, ok). check_rows what ok) databaseV1ConflictChecks"

definition change_rows :: "(tables \<Rightarrow> tables) \<Rightarrow> (sqlite, unit) act" where
  "change_rows f = change (\<lambda>d. d\<lparr>stored_rows := f (stored_rows d)\<rparr>)"

definition migrateDatabaseV0ToV1 :: "(sqlite, unit) act" where
  "migrateDatabaseV0ToV1 =
     bnd validateDatabaseV0Schema (\<lambda>_.
     bnd (addDatabaseColumnIfMissing ''containerOptions'' ''seccomp''
       (\<lambda>t. t\<lparr>containerOptions := map (\<lambda>(c, h, opt). (c, h, opt\<lparr>do_Seccomp := None\<rparr>)) (containerOptions t)\<rparr>)) (\<lambda>_.
     bnd (addDatabaseColumnIfMissing ''builds'' ''requiredseccomptweaks''
       (\<lambda>t. t\<lparr>builds := map (\<lambda>b. b\<lparr>br_tweaks := []\<rparr>) (builds t)\<rparr>)) (\<lambda>_.
     bnd (map_err (Wrap ''could not remove exact duplicate rows'') (each change_rows databaseV0ToV1DuplicateCleanup)) (\<lambda>_.
     bnd rejectDatabaseV1Conflicts (\<lambda>_.
     map_err (Wrap ''could not create version 1 database indexes'') (each (\<lambda>ix. sql (create_index ix)) databaseV1Indexes))))))"

text \<open>\<open>INSERT OR IGNORE\<close> of the schemas that the builds name, and of the network options.\<close>

definition add_schemas :: "tables \<Rightarrow> tables" where
  "add_schemas t = t\<lparr>schemas := schemas t @ map (\<lambda>n. (n, take 7 n = ''manual-''))
     (filter (\<lambda>n. n \<notin> set (map fst (schemas t))) (first_rows (map br_schema (builds t))))\<rparr>"

definition add_network_options :: "tables \<Rightarrow> tables" where
  "add_network_options t = t\<lparr>networkOptions := networkOptions t @ map (\<lambda>c. (c, False))
     (filter (\<lambda>c. c \<notin> set (map fst (networkOptions t))) (map cr_id (challenges t)))\<rparr>"

text \<open>The statements of \<open>databaseV1ToV2Query\<close>.\<close>

definition databaseV1ToV2 :: "(database_file \<Rightarrow> database_file) list" where
  "databaseV1ToV2 = [create_table ''schemas'' (\<lambda>t. t\<lparr>schemas := []\<rparr>), \<lambda>d. d\<lparr>stored_rows := add_schemas (stored_rows d)\<rparr>,
     create_table ''networkOptions'' (\<lambda>t. t\<lparr>networkOptions := []\<rparr>), \<lambda>d. d\<lparr>stored_rows := add_network_options (stored_rows d)\<rparr>,
     create_table ''retiredContainers'' (\<lambda>t. t\<lparr>retiredContainers := []\<rparr>),
     create_table ''retiredNetworks'' (\<lambda>t. t\<lparr>retiredNetworks := []\<rparr>)]"

definition migrateDatabaseV1ToV2 :: "(sqlite, unit) act" where
  "migrateDatabaseV1ToV2 =
     bnd (addDatabaseColumnIfMissing ''challenges'' ''sourcedigest''
       (\<lambda>t. t\<lparr>challenges := map (\<lambda>c. c\<lparr>cr_sourcedigest := []\<rparr>) (challenges t)\<rparr>)) (\<lambda>_.
     bnd (addDatabaseColumnIfMissing ''challenges'' ''metadatadigest''
       (\<lambda>t. t\<lparr>challenges := map (\<lambda>c. c\<lparr>cr_metadatadigest := []\<rparr>) (challenges t)\<rparr>)) (\<lambda>_.
     map_err (Wrap ''could not create version 2 database objects'') (each change databaseV1ToV2)))"

definition databaseMigrations :: "int \<Rightarrow> (int \<times> (sqlite, unit) act) option" where
  "databaseMigrations version =
     (if version = 0 then Some (1, migrateDatabaseV0ToV1)
      else if version = 1 then Some (2, migrateDatabaseV1ToV2) else None)"

function migrateDatabase :: "int \<Rightarrow> (sqlite, unit) act" where
  "migrateDatabase version =
     (if version < currentDatabaseVersion then
        (case databaseMigrations version of
           None \<Rightarrow> raise (Plain ''no valid database migration'')
         | Some (to, apply_one) \<Rightarrow>
           if to \<le> version then raise (Plain ''no valid database migration'')
           else bnd (in_txn (bnd (map_err (Wrap ''could not migrate database'') apply_one) (\<lambda>_. setDatabaseVersion to)))
             (\<lambda>_. migrateDatabase to))
      else ret ())"
  by auto
termination by (relation "measure (\<lambda>v. nat (currentDatabaseVersion - v))") (auto simp: currentDatabaseVersion_def)

declare migrateDatabase.simps [simp del]

section \<open>Deciding what to do\<close>

text \<open>Tables whose name is not \<open>LIKE 'sqlite_%'\<close>.\<close>

definition own_table :: "string \<Rightarrow> bool" where
  "own_table n \<longleftrightarrow> \<not> (7 \<le> length n \<and> ToLower (take 6 n) = ''sqlite'')"

definition table_count :: "database_file \<Rightarrow> nat" where
  "table_count d = length (filter (\<lambda>x. own_table (fst x)) (table_columns d))"

definition databaseMigrationRequired :: "(sqlite, bool \<times> int) act" where
  "databaseMigrationRequired =
     bnd (map_err (Wrap ''could not read database version'') (ask user_version)) (\<lambda>version.
     bnd (map_err (Wrap ''could not inspect database tables'') (ask table_count)) (\<lambda>n.
     ret (n \<noteq> 0 \<and> version < currentDatabaseVersion, version)))"

definition ensureDatabaseSchemaWithChanges :: "bool \<Rightarrow> (sqlite, unit) act" where
  "ensureDatabaseSchemaWithChanges allowChanges =
     bnd (map_err (Wrap ''could not read database version'') (ask user_version)) (\<lambda>version.
     if version > currentDatabaseVersion then raise (Plain ''database version is newer than supported'')
     else
     bnd (map_err (Wrap ''could not inspect database tables'') (ask table_count)) (\<lambda>n.
     if n = 0 then
       (if version \<noteq> 0 then raise (Plain ''the database contains no tables'')
        else if \<not> allowChanges then raise (Plain ''database initialization requires exclusive startup access'')
        else bnd createCurrentDatabaseSchema (\<lambda>_. validateCurrentDatabaseSchema))
     else if version = currentDatabaseVersion then validateCurrentDatabaseSchema
     else if \<not> allowChanges then raise (Plain ''database migration requires exclusive startup access'')
     else bnd (migrateDatabase version) (\<lambda>_. validateCurrentDatabaseSchema)))"

section \<open>The latch and the copy\<close>

record databaseMigrationLatch =
  lt_State :: string
  lt_FromVersion :: int
  lt_ToVersion :: int
  lt_StartedAt :: string
  lt_FailedAt :: string
  lt_BackupPath :: string
  lt_Error :: string

text \<open>What a path leads to; \<open>Unfinished\<close> is a file whose bytes are not, or not all, what was meant.\<close>

datatype stored = Latch databaseMigrationLatch | Snapshot database_file | Unfinished | NotRegular

record startup =
  engine :: sqlite
  disk :: "string \<rightharpoonup> stored"
  io_troubles :: "bool list"

definition in_engine :: "(sqlite, 'a) act \<Rightarrow> (startup, 'a) act" where
  "in_engine m w = (case m (engine w) of (r, s) \<Rightarrow> (r, w\<lparr>engine := s\<rparr>))"

text \<open>A call of the operating system on the disk; it fails by itself or where it does not apply.\<close>

definition os_call :: "string \<Rightarrow> ((string \<rightharpoonup> stored) \<Rightarrow> (string \<rightharpoonup> stored) option) \<Rightarrow> (startup, unit) act" where
  "os_call what f w =
     (let w' = w\<lparr>io_troubles := tl (io_troubles w)\<rparr> in
      if io_troubles w \<noteq> [] \<and> hd (io_troubles w) then (Inl (Plain what), w')
      else case f (disk w) of None \<Rightarrow> (Inl (Plain what), w') | Some dk \<Rightarrow> (Inr (), w'\<lparr>disk := dk\<rparr>))"

definition os_flush :: "string \<Rightarrow> (startup, unit) act" where
  "os_flush what = os_call what Some"

definition os_remove :: "string \<Rightarrow> (startup, unit) act" where
  "os_remove path = os_call ''remove'' (\<lambda>dk. if dk path = None then None else Some (dk(path := None)))"

text \<open>All steps run and their errors are joined.\<close>

definition all_of :: "(startup, unit) act list \<Rightarrow> (startup, unit) act" where
  "all_of ms = join_all (\<lambda>m. m) ms"

definition databaseMigrationBackupPath :: "string \<Rightarrow> int \<Rightarrow> string \<Rightarrow> string" where
  "databaseMigrationBackupPath dbPath fromVersion stamp =
     dbPath @ ''.pre-migration-v'' @ Itoa fromVersion @ ''-to-v'' @ Itoa currentDatabaseVersion @ ''-'' @ stamp @ ''.bak''"

definition databaseMigrationLatchPath :: "string \<Rightarrow> string" where
  "databaseMigrationLatchPath dbPath =
     (if dbPath = [] \<or> dbPath = '':memory:'' then [] else dbPath @ ''.cmgr-migration-latch'')"

definition syncParentDirectory :: "(startup, unit) act" where
  "syncParentDirectory = bnd (os_flush ''open directory'') (\<lambda>_. all_of [os_flush ''sync'', os_flush ''close''])"

definition checkDatabaseMigrationLatch :: "string \<Rightarrow> (startup, unit) act" where
  "checkDatabaseMigrationLatch path w =
     (if path = [] then (Inr (), w)
      else if disk w path = None \<and> \<not> (io_troubles w \<noteq> [] \<and> hd (io_troubles w)) then (Inr (), w\<lparr>io_troubles := tl (io_troubles w)\<rparr>)
      else (Inl (if io_troubles w \<noteq> [] \<and> hd (io_troubles w) then Plain ''could not inspect database migration latch''
          else if disk w path = Some NotRegular then Plain ''database migration latch is not a regular file''
          else Plain ''database migration is blocked''), w\<lparr>io_troubles := tl (io_troubles w)\<rparr>))"

text \<open>Opening for writing: a new file, or an existing regular one that is truncated. There is no file without a name.\<close>

definition open_latch :: "string \<Rightarrow> bool \<Rightarrow> (startup, unit) act" where
  "open_latch path new =
     os_call ''could not open database migration latch'' (\<lambda>dk.
       if path = [] then None
       else if new then (if dk path = None then Some (dk(path \<mapsto> Unfinished)) else None)
       else case dk path of None \<Rightarrow> None | Some NotRegular \<Rightarrow> None | Some _ \<Rightarrow> Some (dk(path \<mapsto> Unfinished)))"

definition writeDatabaseMigrationLatch :: "string \<Rightarrow> databaseMigrationLatch \<Rightarrow> bool \<Rightarrow> (startup, unit) act" where
  "writeDatabaseMigrationLatch path latch new =
     bnd (open_latch path new) (\<lambda>_.
     bnd (map_err (Wrap ''could not write database migration latch'')
       (all_of [os_call ''write'' (\<lambda>dk. Some (dk(path \<mapsto> Latch latch))), os_flush ''sync'', os_flush ''close''])) (\<lambda>_.
     map_err (Wrap ''could not sync database migration latch'') syncParentDirectory))"

definition databaseMigrationLatchErrorMax :: nat where "databaseMigrationLatchErrorMax = 4096"

text \<open>What the program is given: the resolved path, the clock, the text of an error, the engine's settings.\<close>

record surroundings =
  canonicalPath :: "err + string"
  startedAt :: string
  failedAt :: string
  stamp :: string
  error_text :: "err \<Rightarrow> string"
  regularDatabase :: bool
  fkeysEnforced :: bool
  busyTimeoutMS :: int

definition recordDatabaseMigrationFailure :: "surroundings \<Rightarrow> string \<Rightarrow> databaseMigrationLatch \<Rightarrow> err \<Rightarrow> (startup, 'a) act" where
  "recordDatabaseMigrationFailure env path latch e =
     bnd (attempt (writeDatabaseMigrationLatch path (latch\<lparr>lt_State := ''failed'', lt_FailedAt := failedAt env,
         lt_Error := take databaseMigrationLatchErrorMax (error_text env e)\<rparr>) False)) (\<lambda>r.
     raise (case r of Inl e' \<Rightarrow> Join [e, Wrap ''could not record database migration failure'' e'] | Inr _ \<Rightarrow> e))"

definition removeDatabaseMigrationLatch :: "string \<Rightarrow> (startup, unit) act" where
  "removeDatabaseMigrationLatch path =
     bnd (map_err (Wrap ''could not remove database migration latch'') (os_remove path)) (\<lambda>_.
     map_err (Wrap ''could not sync removal of database migration latch'') syncParentDirectory)"

text \<open>\<open>VACUUM INTO\<close> copies the database into the empty file that was reserved.\<close>

definition vacuum_into :: "string \<Rightarrow> (startup, unit) act" where
  "vacuum_into path =
     bnd (in_engine (ask (\<lambda>d. d))) (\<lambda>d. os_call ''vacuum'' (\<lambda>dk.
       if dk path = Some Unfinished then Some (dk(path \<mapsto> Snapshot d)) else None))"

definition or_remove :: "string \<Rightarrow> (startup, unit) act \<Rightarrow> (startup, unit) act" where
  "or_remove path m =
     bnd (attempt m) (\<lambda>r. case r of
       Inl e \<Rightarrow> bnd (attempt (os_remove path)) (\<lambda>_. raise e)
     | Inr _ \<Rightarrow> ret ())"

text \<open>The copy is made private; an error of the removal after a failure is told too.\<close>

definition secure_copy :: "string \<Rightarrow> (startup, unit) act" where
  "secure_copy staging =
     bnd (attempt (os_flush ''chmod'')) (\<lambda>r. case r of
       Inl e \<Rightarrow> bnd (attempt (os_remove staging)) (\<lambda>r'.
         raise (Wrap ''could not secure database backup'' (case r' of
           Inl e' \<Rightarrow> Join [e, Wrap ''could not remove incomplete backup'' e'] | Inr _ \<Rightarrow> e)))
     | Inr _ \<Rightarrow> ret ())"

definition publish_backup :: "string \<Rightarrow> string \<Rightarrow> (startup, unit) act" where
  "publish_backup staging backup =
     os_call ''could not publish database backup'' (\<lambda>dk. if dk backup = None then Some (dk(backup := dk staging)) else None)"

definition copy_database :: "string \<Rightarrow> (startup, string) act" where
  "copy_database backup =
     (let staging = backup @ ''.tmp'' in
      bnd (os_call ''could not reserve pre-migration database backup''
        (\<lambda>dk. if dk staging = None then Some (dk(staging \<mapsto> Unfinished)) else None)) (\<lambda>_.
      bnd (or_remove staging (map_err (Wrap ''could not prepare pre-migration database backup'') (os_flush ''close''))) (\<lambda>_.
      bnd (or_remove staging (map_err (Wrap ''could not create pre-migration database backup'') (vacuum_into staging))) (\<lambda>_.
      bnd (secure_copy staging) (\<lambda>_.
      bnd (or_remove staging (map_err (Wrap ''could not sync database backup'')
        (bnd (os_flush ''open'') (\<lambda>_. all_of [os_flush ''sync'', os_flush ''close''])))) (\<lambda>_.
      bnd (or_remove staging (publish_backup staging backup)) (\<lambda>_.
      bnd (map_err (Wrap ''could not sync published database backup'') syncParentDirectory) (\<lambda>_.
      bnd (map_err (Wrap ''could not remove staged database backup'') (os_remove staging)) (\<lambda>_.
      bnd (map_err (Wrap ''could not sync database backup directory'') syncParentDirectory) (\<lambda>_.
      ret backup))))))))))"

definition backupDatabaseBeforeMigration :: "surroundings \<Rightarrow> string \<Rightarrow> (startup, string) act" where
  "backupDatabaseBeforeMigration env dbPath =
     bnd (in_engine (map_err (Wrap ''could not read database version before backup'') (ask user_version))) (\<lambda>version.
     bnd (in_engine (map_err (Wrap ''could not inspect database before backup'') (ask table_count))) (\<lambda>n.
     if n = 0 \<or> version \<ge> currentDatabaseVersion then ret []
     else if dbPath = [] \<or> dbPath = '':memory:'' then ret []
     else
     bnd (map_err (Wrap ''could not inspect database file before backup'') (os_flush ''stat'')) (\<lambda>_.
     if \<not> regularDatabase env then raise (Plain ''database path is not a regular file'')
     else copy_database (databaseMigrationBackupPath dbPath version (stamp env)))))"

section \<open>Startup\<close>

definition sqliteBusyTimeoutMS :: int where "sqliteBusyTimeoutMS = 5000"

definition check_engine :: "surroundings \<Rightarrow> (startup, unit) act" where
  "check_engine env =
     bnd (os_flush ''open database'') (\<lambda>_.
     bnd (in_engine (ask (\<lambda>_. ()))) (\<lambda>_.
     if \<not> fkeysEnforced env then raise (Plain ''foreign keys not enabled'')
     else
     bnd (in_engine (ask (\<lambda>_. ()))) (\<lambda>_.
     if busyTimeoutMS env \<noteq> sqliteBusyTimeoutMS then raise (Plain ''unexpected SQLite busy timeout'') else ret ())))"

definition new_latch :: "surroundings \<Rightarrow> string \<Rightarrow> int \<Rightarrow> databaseMigrationLatch" where
  "new_latch env dbPath version = \<lparr>lt_State = ''attempting'', lt_FromVersion = version, lt_ToVersion = currentDatabaseVersion,
     lt_StartedAt = startedAt env, lt_FailedAt = [], lt_BackupPath = databaseMigrationBackupPath dbPath version (stamp env),
     lt_Error = []\<rparr>"

text \<open>A step of a migration; when it fails the latch says so.\<close>

definition or_record :: "surroundings \<Rightarrow> string \<Rightarrow> databaseMigrationLatch \<Rightarrow> (startup, 'a) act \<Rightarrow> (startup, 'a) act" where
  "or_record env latchPath latch m =
     bnd (attempt m) (\<lambda>r. case r of
       Inl e \<Rightarrow> recordDatabaseMigrationFailure env latchPath latch e
     | Inr x \<Rightarrow> ret x)"

definition migrate_latched :: "surroundings \<Rightarrow> string \<Rightarrow> string \<Rightarrow> int \<Rightarrow> (startup, unit) act" where
  "migrate_latched env dbPath latchPath version =
     (let latch = new_latch env dbPath version in
      bnd (writeDatabaseMigrationLatch latchPath latch True) (\<lambda>_.
      bnd (or_record env latchPath latch (backupDatabaseBeforeMigration env dbPath)) (\<lambda>_.
      bnd (or_record env latchPath latch (in_engine (ensureDatabaseSchemaWithChanges True))) (\<lambda>_.
      removeDatabaseMigrationLatch latchPath))))"

definition initDatabaseWithSchemaChanges :: "surroundings \<Rightarrow> bool \<Rightarrow> (startup, unit) act" where
  "initDatabaseWithSchemaChanges env allowChanges =
     bnd (lift_sum (canonicalPath env)) (\<lambda>dbPath.
     let latchPath = databaseMigrationLatchPath dbPath in
     bnd (checkDatabaseMigrationLatch latchPath) (\<lambda>_.
     bnd (check_engine env) (\<lambda>_.
     bnd (in_engine databaseMigrationRequired) (\<lambda>(required, version).
     if allowChanges \<and> required then migrate_latched env dbPath latchPath version
     else in_engine (ensureDatabaseSchemaWithChanges allowChanges)))))"

definition initDatabase :: "surroundings \<Rightarrow> (startup, unit) act" where
  "initDatabase env = initDatabaseWithSchemaChanges env True"

section \<open>Startup leaves a way back\<close>

lemma ask_run: "ask f s = (r, s') \<Longrightarrow> db_file s' = db_file s \<and> (\<forall>x. r = Inr x \<longrightarrow> x = f (db_file s))"
  by (auto simp: ask_def sql_def Let_def split: if_splits option.splits prod.splits)

definition at_file :: "database_file \<Rightarrow> sqlite \<Rightarrow> bool" where
  "at_file d s \<longleftrightarrow> db_file s = d"

lemma at_file_ask [maintains_intros]: "maintains (at_file d) (ask f)"
  using ask_run by (metis maintains_def at_file_def prod.collapse)

lemma maintains_each_in: "(\<And>x. x \<in> set xs \<Longrightarrow> maintains P (f x)) \<Longrightarrow> maintains P (each f xs)"
  by (induction xs) (auto intro!: maintains_intros)

lemma at_file_checks [maintains_intros]:
  "maintains (at_file d) (check_table tc)" "maintains (at_file d) (check_index n)" "maintains (at_file d) (check_rows what ok)"
  by (cases tc) (auto simp: check_table_def check_index_def check_rows_def intro!: maintains_intros)

lemma at_file_validate [maintains_intros]: "maintains (at_file d) validateCurrentDatabaseSchema"
  unfolding validateCurrentDatabaseSchema_def by (intro maintains_intros)

lemma at_file_required [maintains_intros]: "maintains (at_file d) databaseMigrationRequired"
  unfolding databaseMigrationRequired_def by (intro maintains_intros)

text \<open>What the check of the schema finds out.\<close>

definition current :: "database_file \<Rightarrow> bool" where
  "current d \<longleftrightarrow> user_version d = currentDatabaseVersion \<and>
     list_all (\<lambda>(n, cs). length (filter (\<lambda>x. fst x = n) (table_columns d)) = 1 \<and> set cs \<subseteq> set (columns_of d n)) currentDatabaseColumns \<and>
     list_all (\<lambda>n. length (filter (\<lambda>x. x = n) (index_names d)) = 1) currentDatabaseIndexes \<and>
     foreign_keys (stored_rows d) \<and> list_all (\<lambda>(what, ok). ok (stored_rows d)) currentDatabaseInvariants"

lemma same_file: "maintains (at_file (db_file s)) m \<Longrightarrow> m s = (r, s') \<Longrightarrow> db_file s' = db_file s"
  using maintainsD [of "at_file (db_file s)" m s r s'] by (simp add: at_file_def)

lemma each_checks:
  assumes "each f xs s = (Inr u, s')" "at_file d s" "\<And>x. maintains (at_file d) (f x)"
    "\<And>x s1 u s2. f x s1 = (Inr u, s2) \<Longrightarrow> at_file d s1 \<Longrightarrow> P x"
  shows "list_all P xs"
  using assms(1,2)
proof (induction xs arbitrary: s)
  case (Cons x xs)
  obtain s1 v where 1: "f x s = (Inr v, s1)" "each f xs s1 = (Inr u, s')" using Cons.prems(1) by (auto elim!: bnd_InrE)
  have "at_file d s1" using maintainsD [OF assms(3) Cons.prems(2) 1(1)] .
  then show ?case using Cons.IH [OF 1(2)] assms(4) [OF 1(1) Cons.prems(2)] by simp
qed simp

lemma ask_Inr: "ask f s = (Inr x, s') \<Longrightarrow> at_file d s \<Longrightarrow> x = f d \<and> at_file d s'"
  using ask_run [of f s "Inr x" s'] by (simp add: at_file_def)

lemma check_table_Inr:
  "check_table (n, cs) s = (Inr u, s') \<Longrightarrow> at_file d s \<Longrightarrow>
   length (filter (\<lambda>x. fst x = n) (table_columns d)) = 1 \<and> set cs \<subseteq> set (columns_of d n)"
  unfolding check_table_def
  by (auto simp: map_err_Inr_iff list_all_iff elim!: bnd_InrE dest!: ask_Inr [of _ s _ _ d] split: if_splits) (auto dest: ask_Inr)

lemma check_index_Inr: "check_index n s = (Inr u, s') \<Longrightarrow> at_file d s \<Longrightarrow> length (filter (\<lambda>x. x = n) (index_names d)) = 1"
  unfolding check_index_def by (auto simp: map_err_Inr_iff elim!: bnd_InrE dest!: ask_Inr split: if_splits)

lemma check_rows_Inr: "check_rows what ok s = (Inr u, s') \<Longrightarrow> at_file d s \<Longrightarrow> ok (stored_rows d)"
  unfolding check_rows_def by (auto simp: map_err_Inr_iff elim!: bnd_InrE dest!: ask_Inr split: if_splits)

lemma validate_Inr:
  assumes "validateCurrentDatabaseSchema s = (Inr u, s')" "user_version (db_file s) = currentDatabaseVersion"
  shows "current (db_file s)"
proof -
  let ?d = "db_file s"
  have d: "at_file ?d s" by (simp add: at_file_def)
  obtain u1 s1 u2 s2 u3 s3 where v: "each check_table currentDatabaseColumns s = (Inr u1, s1)"
    "each check_index currentDatabaseIndexes s1 = (Inr u2, s2)"
    "check_rows ''database contains foreign-key violations'' foreign_keys s2 = (Inr u3, s3)"
    "each (\<lambda>(what, ok). check_rows what ok) currentDatabaseInvariants s3 = (Inr u, s')"
    using assms(1) unfolding validateCurrentDatabaseSchema_def by (elim bnd_InrE)
  have keep: "maintains (at_file ?d) (each check_table currentDatabaseColumns)"
    "maintains (at_file ?d) (each check_index currentDatabaseIndexes)" by (intro maintains_intros)+
  have s1: "at_file ?d s1" by (rule maintainsD [OF keep(1) d v(1)])
  have s2: "at_file ?d s2" by (rule maintainsD [OF keep(2) s1 v(2)])
  have s3: "at_file ?d s3" by (rule maintainsD [OF at_file_checks(3) s2 v(3)])
  have "list_all (\<lambda>(n, cs). length (filter (\<lambda>x. fst x = n) (table_columns ?d)) = 1 \<and> set cs \<subseteq> set (columns_of ?d n)) currentDatabaseColumns"
    by (rule each_checks [OF v(1) d]) (auto intro: maintains_intros dest: check_table_Inr)
  moreover have "list_all (\<lambda>n. length (filter (\<lambda>x. x = n) (index_names ?d)) = 1) currentDatabaseIndexes"
    by (rule each_checks [OF v(2) s1]) (auto intro: maintains_intros dest: check_index_Inr)
  moreover have "list_all (\<lambda>(what, ok). ok (stored_rows ?d)) currentDatabaseInvariants"
    by (rule each_checks [OF v(4) s3]) (auto intro: maintains_intros dest: check_rows_Inr)
  ultimately show ?thesis using assms(2) check_rows_Inr [OF v(3) s2] by (simp add: current_def)
qed

lemma in_txn_Inl: "in_txn body s = (Inl e, s') \<Longrightarrow> db_file s' = db_file s"
  using ask_run [of "\<lambda>_. ()" s] by (fastforce simp: in_txn_def split: prod.splits sum.splits)

lemma in_txn_Inr:
  assumes "in_txn body s = (Inr x, s')"
  obtains s1 s2 where "body s1 = (Inr x, s2)" "db_file s1 = db_file s" "db_file s' = db_file s2"
proof -
  obtain u s1 s2 where 1: "ask (\<lambda>_. ()) s = (Inr u, s1)" "body s1 = (Inr x, s2)" "ask (\<lambda>_. ()) s2 = (Inr u, s')"
    using assms by (auto simp: in_txn_def split: prod.splits sum.splits)
  show thesis using that [OF 1(2)] ask_run [OF 1(1)] ask_run [OF 1(3)] by simp
qed

lemma change_Inr: "change f s = (Inr u, s') \<Longrightarrow> db_file s' = f (db_file s)"
  by (auto simp: change_def sql_def Let_def split: if_splits)

lemma set_version_Inr: "setDatabaseVersion v s = (Inr u, s') \<Longrightarrow> db_file s' = (db_file s)\<lparr>user_version := v\<rparr>"
  unfolding setDatabaseVersion_def by (auto simp: map_err_Inr_iff dest: change_Inr)

lemma txn_version:
  assumes "in_txn (bnd m (\<lambda>_. setDatabaseVersion v)) s = (Inr u, s')"
  shows "user_version (db_file s') = v"
proof -
  obtain s1 s2 where "bnd m (\<lambda>_. setDatabaseVersion v) s1 = (Inr u, s2)" "db_file s' = db_file s2"
    using assms by (rule in_txn_Inr)
  then show ?thesis by (auto elim!: bnd_InrE dest: set_version_Inr)
qed

lemma created_version: "createCurrentDatabaseSchema s = (Inr u, s') \<Longrightarrow> user_version (db_file s') = currentDatabaseVersion"
  unfolding createCurrentDatabaseSchema_def by (rule txn_version)

lemma migrated_version:
  "migrateDatabase v s = (Inr u, s') \<Longrightarrow> v < currentDatabaseVersion \<Longrightarrow> user_version (db_file s') = currentDatabaseVersion"
proof (induction v arbitrary: s rule: migrateDatabase.induct)
  case (1 v)
  obtain to m where m: "databaseMigrations v = Some (to, m)"
  proof (cases "databaseMigrations v")
    case None
    then show ?thesis using "1.prems" by (subst (asm) migrateDatabase.simps) simp
  next
    case (Some a)
    then show ?thesis using that by (cases a) simp
  qed
  then have m: "databaseMigrations v = Some (to, m)" "\<not> to \<le> v" "to \<le> currentDatabaseVersion"
    by (auto simp: databaseMigrations_def currentDatabaseVersion_def split: if_splits)
  obtain u1 s1 where 1: "in_txn (bnd (map_err (Wrap ''could not migrate database'') m) (\<lambda>_. setDatabaseVersion to)) s = (Inr u1, s1)"
    and 2: "migrateDatabase to s1 = (Inr u, s')"
    using "1.prems" m by (subst (asm) migrateDatabase.simps) (auto elim!: bnd_InrE)
  show ?case
  proof (cases "to < currentDatabaseVersion")
    case True
    then show ?thesis using "1.IH" [OF "1.prems"(2) m(1) refl m(2) 2] by simp
  next
    case False
    then have "s' = s1" using 2 by (subst (asm) migrateDatabase.simps) simp
    then show ?thesis using txn_version [OF 1] False m(3) by simp
  qed
qed

lemma ensure_parts:
  assumes "ensureDatabaseSchemaWithChanges allow s = (r, s')"
  shows "r = Inr u \<Longrightarrow> current (db_file s')"
    "db_file s' = db_file s \<or> allow \<and> user_version (db_file s) < currentDatabaseVersion \<and> table_count (db_file s) \<noteq> 0 \<or>
     allow \<and> table_count (db_file s) = 0 \<and> user_version (db_file s) = 0"
proof -
  let ?d = "db_file s"
  obtain q s1 where 1: "map_err (Wrap ''could not read database version'') (ask user_version) s = (q, s1)" by (metis surj_pair)
  have d1: "db_file s1 = ?d" by (rule same_file [OF maintains_map_err 1]) (rule at_file_ask)
  obtain q' s2 where 2: "map_err (Wrap ''could not inspect database tables'') (ask table_count) s1 = (q', s2)" by (metis surj_pair)
  have "db_file s2 = db_file s1" by (rule same_file [OF maintains_map_err 2]) (rule at_file_ask)
  then have d2: "db_file s2 = ?d" using d1 by simp
  have q: "q = Inr v \<Longrightarrow> v = user_version ?d" "q' = Inr n \<Longrightarrow> n = table_count ?d" for v n
    using 1 2 d1 by (auto simp: map_err_Inr_iff dest!: ask_run)
  have validated: "current (db_file s')" "db_file s' = db_file t"
    if "validateCurrentDatabaseSchema t = (Inr u, s')" "user_version (db_file t) = currentDatabaseVersion" for t u
    using validate_Inr [OF that] same_file [OF at_file_validate that(1)] by simp_all
  have unchanged: "db_file s' = db_file t" if "validateCurrentDatabaseSchema t = (r, s')" for t
    by (rule same_file [OF at_file_validate that])
  show "current (db_file s')" if "r = Inr u"
  proof -
    have run: "q = Inr (user_version ?d)" "q' = Inr (table_count ?d)"
      using assms that 1 2 q unfolding ensureDatabaseSchemaWithChanges_def by (auto elim!: bnd_InrE split: if_splits)
    have go: "bnd (map_err (Wrap ''could not read database version'') (ask user_version)) f s = f (user_version ?d) s1"
      "bnd (map_err (Wrap ''could not inspect database tables'') (ask table_count)) g s1 = g (table_count ?d) s2"
      for f g :: "_ \<Rightarrow> (sqlite, unit) act" by (simp_all add: bnd_def 1 2 run)
    have "validateCurrentDatabaseSchema s2 = (Inr u, s') \<and> user_version ?d = currentDatabaseVersion \<or>
      (\<exists>t. createCurrentDatabaseSchema s2 = (Inr (), t) \<and> validateCurrentDatabaseSchema t = (Inr u, s')) \<or>
      (\<exists>t. user_version ?d < currentDatabaseVersion \<and> migrateDatabase (user_version ?d) s2 = (Inr (), t) \<and>
        validateCurrentDatabaseSchema t = (Inr u, s'))"
      using assms that unfolding ensureDatabaseSchemaWithChanges_def
      by (auto simp: go elim!: bnd_InrE split: if_splits)
    then show ?thesis
    proof (elim disjE exE conjE)
      assume v: "validateCurrentDatabaseSchema s2 = (Inr u, s')" "user_version ?d = currentDatabaseVersion"
      then show ?thesis using validated(1) [OF v(1)] d2 by simp
    next
      fix t assume "createCurrentDatabaseSchema s2 = (Inr (), t)" and v: "validateCurrentDatabaseSchema t = (Inr u, s')"
      then show ?thesis using validated(1) [OF v] created_version by blast
    next
      fix t assume "user_version ?d < currentDatabaseVersion" "migrateDatabase (user_version ?d) s2 = (Inr (), t)"
        and v: "validateCurrentDatabaseSchema t = (Inr u, s')"
      then show ?thesis using validated(1) [OF v] migrated_version by blast
    qed
  qed
  show "db_file s' = db_file s \<or> allow \<and> user_version (db_file s) < currentDatabaseVersion \<and> table_count (db_file s) \<noteq> 0 \<or>
     allow \<and> table_count (db_file s) = 0 \<and> user_version (db_file s) = 0"
    using assms d1 d2 q unchanged unfolding ensureDatabaseSchemaWithChanges_def
    by (cases q; cases q') (auto simp: bnd_def [of "map_err _ _"] 1 2 split: if_splits)
qed

text \<open>Predicates of the database file and the disk, and the steps that keep them.\<close>

definition on_start :: "(database_file \<Rightarrow> (string \<rightharpoonup> stored) \<Rightarrow> bool) \<Rightarrow> startup \<Rightarrow> bool" where
  "on_start Q w \<longleftrightarrow> Q (db_file (engine w)) (disk w)"

lemma keeps_os_call:
  "(\<And>d dk dk'. Q d dk \<Longrightarrow> f dk = Some dk' \<Longrightarrow> Q d dk') \<Longrightarrow> maintains (on_start Q) (os_call what f)"
  by (auto simp: maintains_def on_start_def os_call_def Let_def split: option.splits)

lemma keeps_flush [maintains_intros]: "maintains (on_start Q) (os_flush what)"
  unfolding os_flush_def by (rule keeps_os_call) simp

lemma keeps_engine [maintains_intros]: "(\<And>d. maintains (at_file d) m) \<Longrightarrow> maintains (on_start Q) (in_engine m)"
proof -
  assume m: "\<And>d. maintains (at_file d) m"
  have "on_start Q w \<Longrightarrow> on_start Q (snd (in_engine m w))" for w
  proof -
    obtain r s where r: "m (engine w) = (r, s)" by (metis surj_pair)
    show "on_start Q w \<Longrightarrow> on_start Q (snd (in_engine m w))"
      using same_file [OF m r] by (simp add: on_start_def in_engine_def r)
  qed
  then show ?thesis by (simp add: maintains_def)
qed

lemma keeps_all_of:
  "(\<And>m. m \<in> set ms \<Longrightarrow> maintains P m) \<Longrightarrow> maintains P (all_of ms)"
  using each_collect_preserves [of P _ ms "\<lambda>m. m"]
  by (auto simp: maintains_def all_of_def join_all_def split: prod.splits) (metis snd_conv)

lemma keeps_sync [maintains_intros]: "maintains (on_start Q) syncParentDirectory"
  unfolding syncParentDirectory_def by (intro maintains_intros keeps_all_of) (auto intro: maintains_intros)

lemma keeps_or_remove:
  "maintains P m \<Longrightarrow> maintains P (os_remove path) \<Longrightarrow> maintains P (or_remove path m)"
  unfolding or_remove_def by (intro maintains_intros)

text \<open>What holds after a step that succeeds.\<close>

definition yields :: "('s \<Rightarrow> bool) \<Rightarrow> ('s, 'a) act \<Rightarrow> ('s \<Rightarrow> bool) \<Rightarrow> bool" where
  "yields P m Q \<longleftrightarrow> (\<forall>s x s'. P s \<longrightarrow> m s = (Inr x, s') \<longrightarrow> Q s')"

lemma yields_bnd: "yields P m R \<Longrightarrow> (\<And>x. yields R (f x) Q) \<Longrightarrow> yields P (bnd m f) Q"
  unfolding yields_def by (blast elim!: bnd_InrE)

lemma yields_same: "maintains P m \<Longrightarrow> yields P m P"
  by (auto simp: yields_def dest: maintainsD)

lemma yields_map_err: "yields P m Q \<Longrightarrow> yields P (map_err g m) Q"
  by (auto simp: yields_def map_err_Inr_iff)

lemma yields_or_remove: "yields P m Q \<Longrightarrow> yields P (or_remove path m) Q"
  by (fastforce simp: yields_def or_remove_def attempt_def bnd_def split: prod.splits sum.splits)

lemma yields_os_call:
  "(\<And>d dk dk'. P d dk \<Longrightarrow> f dk = Some dk' \<Longrightarrow> Q d dk') \<Longrightarrow> yields (on_start P) (os_call what f) (on_start Q)"
  by (auto simp: yields_def on_start_def os_call_def Let_def split: if_splits option.splits)

lemma yields_raise: "yields P (raise e) Q"
  by (simp add: yields_def)

text \<open>
  What stays: files other than the latch and the copy being made are as they were (\<open>dk0\<close>) where there were any,
  and once there is a latch it stays.
\<close>

definition guarded :: "string \<Rightarrow> string \<Rightarrow> (string \<rightharpoonup> stored) \<Rightarrow> (string \<rightharpoonup> stored) \<Rightarrow> bool" where
  "guarded latch staging dk0 dk \<longleftrightarrow> dk latch \<noteq> None \<and> (\<forall>x. x \<notin> {latch, staging} \<longrightarrow> dk0 x \<noteq> None \<longrightarrow> dk x = dk0 x)"

definition backup_of :: "string \<Rightarrow> database_file \<Rightarrow> string \<Rightarrow> string" where
  "backup_of p d st = databaseMigrationBackupPath p (user_version d) st"

lemma names_differ:
  "databaseMigrationBackupPath p v st @ ''.tmp'' \<noteq> databaseMigrationBackupPath p v st"
  "databaseMigrationLatchPath p \<noteq> databaseMigrationBackupPath p v st"
  "databaseMigrationLatchPath p \<noteq> databaseMigrationBackupPath p v st @ ''.tmp''"
proof -
  have b: "last (databaseMigrationBackupPath p v st) = CHR ''k''" "databaseMigrationBackupPath p v st \<noteq> []"
    by (simp_all add: databaseMigrationBackupPath_def)
  have l: "databaseMigrationLatchPath p = [] \<or> last (databaseMigrationLatchPath p) = CHR ''h''"
    by (simp add: databaseMigrationLatchPath_def)
  show "databaseMigrationBackupPath p v st @ ''.tmp'' \<noteq> databaseMigrationBackupPath p v st" by simp
  show "databaseMigrationLatchPath p \<noteq> databaseMigrationBackupPath p v st" using b l by auto
  show "databaseMigrationLatchPath p \<noteq> databaseMigrationBackupPath p v st @ ''.tmp''"
  proof
    assume "databaseMigrationLatchPath p = databaseMigrationBackupPath p v st @ ''.tmp''"
    then have "last (databaseMigrationLatchPath p) = CHR ''p''" "databaseMigrationLatchPath p \<noteq> []" by simp_all
    then show False using l by simp
  qed
qed

lemma keeps_guarded_remove:
  "latch \<noteq> staging \<Longrightarrow> maintains (on_start (\<lambda>d dk. P d \<and> guarded latch staging dk0 dk)) (os_remove staging)"
  unfolding os_remove_def by (rule keeps_os_call) (auto simp: guarded_def split: if_splits)

lemma keeps_vacuum:
  assumes "\<And>d dk d'. Q d dk \<Longrightarrow> dk path \<noteq> None \<Longrightarrow> Q d (dk(path \<mapsto> Snapshot d'))"
  shows "maintains (on_start Q) (vacuum_into path)"
  unfolding vacuum_into_def
  by (intro maintains_intros keeps_os_call) (auto split: if_splits intro: assms)

lemma keeps_copy:
  assumes "latch \<noteq> backup @ ''.tmp''" "latch \<noteq> backup"
  shows "maintains (on_start (\<lambda>d dk. d = d0 \<and> guarded latch (backup @ ''.tmp'') dk0 dk)) (copy_database backup)"
  unfolding copy_database_def secure_copy_def publish_backup_def Let_def
  by (intro maintains_intros keeps_or_remove keeps_os_call keeps_vacuum keeps_guarded_remove [where P = "\<lambda>d. d = d0"] keeps_all_of)
    (use assms in \<open>auto simp: guarded_def split: if_splits intro: maintains_intros\<close>)

lemma keeps_write_latch:
  assumes "\<And>d dk v. Q d dk \<Longrightarrow> Q d (dk(latch \<mapsto> v))"
  shows "maintains (on_start Q) (writeDatabaseMigrationLatch latch lt new)"
  unfolding writeDatabaseMigrationLatch_def open_latch_def
  by (intro maintains_intros keeps_os_call keeps_all_of)
    (auto intro!: keeps_os_call assms intro: maintains_intros split: if_splits option.splits stored.splits)

lemma keeps_recorded:
  assumes "\<And>d dk v. Q d dk \<Longrightarrow> Q d (dk(latch \<mapsto> v))"
  shows "maintains (on_start Q) (recordDatabaseMigrationFailure env latch lt e)"
  unfolding recordDatabaseMigrationFailure_def by (intro maintains_intros keeps_write_latch assms)

lemma yields_latch:
  assumes "\<And>d dk v. Q d dk \<Longrightarrow> Q d (dk(latch \<mapsto> v))"
  shows "yields (on_start Q) (writeDatabaseMigrationLatch latch lt True) (on_start (\<lambda>d dk. Q d dk \<and> dk latch \<noteq> None))"
  unfolding writeDatabaseMigrationLatch_def
proof (rule yields_bnd)
  show "yields (on_start Q) (open_latch latch True) (on_start (\<lambda>d dk. Q d dk \<and> dk latch \<noteq> None))"
    unfolding open_latch_def by (rule yields_os_call) (auto split: if_splits intro: assms)
  show "yields (on_start (\<lambda>d dk. Q d dk \<and> dk latch \<noteq> None))
      (bnd (map_err (Wrap ''could not write database migration latch'')
         (all_of [os_call ''write'' (\<lambda>dk. Some (dk(latch \<mapsto> Latch lt))), os_flush ''sync'', os_flush ''close'']))
       (\<lambda>_. map_err (Wrap ''could not sync database migration latch'') syncParentDirectory))
      (on_start (\<lambda>d dk. Q d dk \<and> dk latch \<noteq> None))"
    by (rule yields_same) (intro maintains_intros keeps_all_of, auto intro!: keeps_os_call assms intro: maintains_intros)
qed

lemma yields_vacuum:
  "yields (on_start (\<lambda>d dk. d = d0)) (vacuum_into path) (on_start (\<lambda>d dk. d = d0 \<and> dk path = Some (Snapshot d0)))"
  by (auto simp: yields_def vacuum_into_def on_start_def in_engine_def os_call_def Let_def
      elim!: bnd_InrE dest!: ask_run split: prod.splits if_splits option.splits)

lemma yields_secure: "yields P (os_flush ''chmod'') Q \<Longrightarrow> yields P (secure_copy staging) Q"
  by (fastforce simp: yields_def secure_copy_def attempt_def bnd_def raise_def split: prod.splits sum.splits)

lemma yields_ret: "yields P (ret x) P"
  by (simp add: yields_def)

lemma yields_copy:
  "yields (on_start (\<lambda>d dk. d = d0)) (copy_database backup) (on_start (\<lambda>d dk. dk backup = Some (Snapshot d0)))"
proof -
  let ?st = "backup @ ''.tmp''"
  let ?P = "on_start (\<lambda>d dk. d = d0)" and ?V = "on_start (\<lambda>d dk. d = d0 \<and> dk ?st = Some (Snapshot d0))"
    and ?B = "on_start (\<lambda>d dk. dk backup = Some (Snapshot d0))"
  note flush = yields_same [OF keeps_flush]
  have res: "yields ?P (os_call ''could not reserve pre-migration database backup''
      (\<lambda>dk. if dk ?st = None then Some (dk(?st \<mapsto> Unfinished)) else None)) ?P" by (rule yields_os_call) simp
  have sync: "yields ?V (bnd (os_flush ''open'') (\<lambda>_. all_of [os_flush ''sync'', os_flush ''close''])) ?V"
    by (rule yields_same) (intro maintains_intros keeps_all_of, auto intro: maintains_intros)
  have pub: "yields ?V (publish_backup ?st backup) ?B"
    unfolding publish_backup_def by (rule yields_os_call) (auto split: if_splits)
  have parent: "yields ?B syncParentDirectory ?B" by (rule yields_same) (rule keeps_sync)
  have rm: "yields ?B (os_remove ?st) ?B"
    unfolding os_remove_def by (rule yields_os_call) (auto split: if_splits)
  show ?thesis unfolding copy_database_def Let_def
    by (rule yields_bnd, rule res, rule yields_bnd, rule yields_or_remove, rule yields_map_err, rule flush,
        rule yields_bnd, rule yields_or_remove, rule yields_map_err, rule yields_vacuum,
        rule yields_bnd, rule yields_secure, rule flush,
        rule yields_bnd, rule yields_or_remove, rule yields_map_err, rule sync,
        rule yields_bnd, rule yields_or_remove, rule pub,
        rule yields_bnd, rule yields_map_err, rule parent, rule yields_bnd, rule yields_map_err, rule rm,
        rule yields_bnd, rule yields_map_err, rule parent, rule yields_ret)
qed

text \<open>The copy of a database that needs a migration.\<close>

lemma backup_run:
  assumes "backupDatabaseBeforeMigration env p w = (r, w')" "table_count d0 \<noteq> 0" "user_version d0 < currentDatabaseVersion"
    "p \<noteq> []" "p \<noteq> '':memory:''" "b = backup_of p d0 (stamp env)" "latch \<noteq> b @ ''.tmp''" "latch \<noteq> b"
    "on_start (\<lambda>d dk. d = d0 \<and> guarded latch (b @ ''.tmp'') dk0 dk) w"
  shows "on_start (\<lambda>d dk. d = d0 \<and> guarded latch (b @ ''.tmp'') dk0 dk) w'"
    "r = Inr x \<Longrightarrow> disk w' b = Some (Snapshot d0)"
proof -
  let ?K = "on_start (\<lambda>d dk. d = d0 \<and> guarded latch (b @ ''.tmp'') dk0 dk)"
  let ?rest = "bnd (map_err (Wrap ''could not inspect database file before backup'') (os_flush ''stat'')) (\<lambda>_.
     if \<not> regularDatabase env then raise (Plain ''database path is not a regular file'') else copy_database b)"
  have k: "maintains ?K ?rest" by (intro maintains_intros keeps_copy assms(7,8))
  have y: "yields ?K ?rest (on_start (\<lambda>d dk. dk b = Some (Snapshot d0)))"
  proof (rule yields_bnd [OF yields_map_err [OF yields_same [OF keeps_flush]]])
    fix x
    have "yields ?K (copy_database b) (on_start (\<lambda>d dk. dk b = Some (Snapshot d0)))"
      using yields_copy [of d0 b] by (auto simp: yields_def on_start_def)
    then show "yields ?K (if \<not> regularDatabase env then raise (Plain ''database path is not a regular file'') else copy_database b)
       (on_start (\<lambda>d dk. dk b = Some (Snapshot d0)))" by (simp add: yields_raise)
  qed
  have kf: "maintains ?K (in_engine (map_err g (ask f)))" for f g by (intro maintains_intros)
  obtain q1 w1 where 1: "in_engine (map_err (Wrap ''could not read database version before backup'') (ask user_version)) w = (q1, w1)"
    by (metis surj_pair)
  have w1: "?K w1" by (rule maintainsD [OF kf assms(9) 1])
  obtain q2 w2 where 2: "in_engine (map_err (Wrap ''could not inspect database before backup'') (ask table_count)) w1 = (q2, w2)"
    by (metis surj_pair)
  have w2: "?K w2" by (rule maintainsD [OF kf w1 2])
  have asked: "v = f d0" if "in_engine (map_err g (ask f)) u = (Inr v, u')" "?K u" for f g v u u'
    using that by (auto simp: in_engine_def map_err_Inr_iff on_start_def dest!: ask_run split: prod.splits)
  have "?K w' \<and> (r = Inr x \<longrightarrow> disk w' b = Some (Snapshot d0))"
  proof (cases q1)
    case (Inl e)
    then show ?thesis using assms(1) 1 w1 by (auto simp: backupDatabaseBeforeMigration_def bnd_def)
  next
    case v: (Inr v)
    show ?thesis
    proof (cases q2)
      case (Inl e)
      then show ?thesis using assms(1) 1 2 v w2 by (auto simp: backupDatabaseBeforeMigration_def bnd_def)
    next
      case n: (Inr n)
      have "v = user_version d0" "n = table_count d0" using asked [OF 1 [unfolded v] assms(9)] asked [OF 2 [unfolded n] w1] by simp_all
      then have run: "?rest w2 = (r, w')"
        using assms(1-6) 1 2 v n
        by (cases "regularDatabase env") (simp_all add: backupDatabaseBeforeMigration_def bnd_def [of "in_engine _"] backup_of_def)
      have "?K w'" by (rule maintainsD [OF k w2 run])
      moreover have "r = Inr x \<longrightarrow> disk w' b = Some (Snapshot d0)" using y w2 run unfolding yields_def on_start_def by blast
      ultimately show ?thesis by blast
    qed
  qed
  then show "?K w'" "r = Inr x \<Longrightarrow> disk w' b = Some (Snapshot d0)" by blast+
qed

lemma or_record_cases:
  assumes "or_record env latch lt m w = (r, w')"
  obtains x where "m w = (r, w')" "r = Inr x"
  | e w1 where "m w = (Inl e, w1)" "recordDatabaseMigrationFailure env latch lt e w1 = (r, w')" "isl r"
proof -
  obtain q w1 where q: "m w = (q, w1)" by (metis surj_pair)
  show thesis
  proof (cases q)
    case (Inl e)
    then have rec: "recordDatabaseMigrationFailure env latch lt e w1 = (r, w')"
      using assms q by (simp add: or_record_def bnd_def attempt_def)
    then have "isl r" by (auto simp: recordDatabaseMigrationFailure_def bnd_def attempt_def raise_def split: prod.splits)
    then show thesis using that(2) q Inl rec by blast
  next
    case (Inr x)
    then show thesis using that(1) assms q by (simp add: or_record_def bnd_def attempt_def)
  qed
qed

text \<open>The database before and after a startup, with the copy and the latch in the directory.\<close>

definition recoverable :: "string \<Rightarrow> string \<Rightarrow> startup \<Rightarrow> startup \<Rightarrow> bool" where
  "recoverable latch backup w w' \<longleftrightarrow>
     (let d = db_file (engine w); d' = db_file (engine w') in
      d' = d \<or> table_count d = 0 \<and> user_version d = 0 \<or>
      disk w' backup = Some (Snapshot d) \<and> (disk w' latch \<noteq> None \<or> current d'))"

definition others_intact :: "string \<Rightarrow> string \<Rightarrow> startup \<Rightarrow> startup \<Rightarrow> bool" where
  "others_intact latch staging w w' \<longleftrightarrow> (\<forall>x. x \<notin> {latch, staging} \<longrightarrow> disk w x \<noteq> None \<longrightarrow> disk w' x = disk w x)"

lemma migrate_latched_effect:
  assumes "migrate_latched env p (databaseMigrationLatchPath p) (user_version d) w = (r, w')" "db_file (engine w) = d"
    "table_count d \<noteq> 0" "user_version d < currentDatabaseVersion"
    "b = backup_of p d (stamp env)" "latch = databaseMigrationLatchPath p"
  shows "recoverable latch b w w' \<and> others_intact latch (b @ ''.tmp'') w w' \<and> (r = Inr () \<longrightarrow> current (db_file (engine w')))"
proof -
  let ?lt = "new_latch env p (user_version d)" and ?st = "b @ ''.tmp''"
  let ?Q = "\<lambda>d' dk. d' = d \<and> (\<forall>x. x \<noteq> latch \<longrightarrow> dk x = disk w x)"
  let ?K = "\<lambda>d' dk. d' = d \<and> guarded latch ?st (disk w) dk"
  let ?B = "\<lambda>d' dk. dk b = Some (Snapshot d) \<and> guarded latch ?st (disk w) dk"
  have names: "latch \<noteq> ?st" "latch \<noteq> b" using names_differ assms(5,6) by (simp_all add: backup_of_def)
  have up: "\<And>d' dk v. ?Q d' dk \<Longrightarrow> ?Q d' (dk(latch \<mapsto> v))" "\<And>d' dk v. ?K d' dk \<Longrightarrow> ?K d' (dk(latch \<mapsto> v))"
    "\<And>d' dk v. ?B d' dk \<Longrightarrow> ?B d' (dk(latch \<mapsto> v))" using names by (auto simp: guarded_def)
  obtain r1 w1 where 1: "writeDatabaseMigrationLatch latch ?lt True w = (r1, w1)" by (metis surj_pair)
  have w: "on_start ?Q w" using assms(2) by (simp add: on_start_def)
  have w1: "on_start ?Q w1" by (rule maintainsD [OF keeps_write_latch [where Q = ?Q, OF up(1)] w 1])
  have fin: "recoverable latch b w v \<and> others_intact latch ?st w v" if "on_start ?K v \<or> on_start ?B v" for v
    using that assms(2) by (auto simp: on_start_def recoverable_def others_intact_def guarded_def Let_def)
  show ?thesis
  proof (cases r1)
    case (Inl e)
    then have "r = Inl e" "w' = w1" using assms(1,6) 1 by (auto simp: migrate_latched_def bnd_def Let_def)
    then show ?thesis using w1 assms(2) by (auto simp: on_start_def recoverable_def others_intact_def Let_def)
  next
    case r1: (Inr u1)
    have k1: "on_start ?K w1"
    proof -
      have "on_start (\<lambda>d' dk. ?Q d' dk \<and> dk latch \<noteq> None) w1"
        using yields_latch [where Q = ?Q, OF up(1)] w 1 r1 unfolding yields_def by blast
      then show ?thesis by (simp add: on_start_def guarded_def)
    qed
    have latched: "latch \<noteq> []"
      using 1 r1 by (auto simp: writeDatabaseMigrationLatch_def open_latch_def os_call_def Let_def elim!: bnd_InrE split: if_splits)
    then have p: "p \<noteq> []" "p \<noteq> '':memory:''" using assms(6) by (auto simp: databaseMigrationLatchPath_def)
    obtain r2 w2 where 2: "or_record env latch ?lt (backupDatabaseBeforeMigration env p) w1 = (r2, w2)" by (metis surj_pair)
    show ?thesis
    proof (cases r2)
      case (Inl e)
      then obtain e' v where v: "backupDatabaseBeforeMigration env p w1 = (Inl e', v)" "recordDatabaseMigrationFailure env latch ?lt e' v = (r2, w2)"
        using or_record_cases [OF 2] by (metis sum.distinct(1))
      have kv: "on_start ?K v" by (rule backup_run(1) [OF v(1) assms(3,4) p assms(5) names k1])
      have "on_start ?K w2" by (rule maintainsD [OF keeps_recorded [where Q = ?K, OF up(2)] kv v(2)])
      moreover have "r = Inl e" "w' = w2" using assms(1,6) 1 r1 2 Inl by (auto simp: migrate_latched_def bnd_def Let_def)
      ultimately show ?thesis using fin by auto
    next
      case (Inr x)
      then have v: "backupDatabaseBeforeMigration env p w1 = (Inr x, w2)"
        using or_record_cases [OF 2] by (metis sum.disc(2))
      have k2: "on_start ?K w2" by (rule backup_run(1) [OF v assms(3,4) p assms(5) names k1])
      have b2: "on_start ?B w2"
        using k2 backup_run(2) [OF v assms(3,4) p assms(5) names k1 refl] by (simp add: on_start_def)
      obtain r3 w3 where 3: "or_record env latch ?lt (in_engine (ensureDatabaseSchemaWithChanges True)) w2 = (r3, w3)" by (metis surj_pair)
      have run: "bnd (or_record env latch ?lt (in_engine (ensureDatabaseSchemaWithChanges True))) (\<lambda>_. removeDatabaseMigrationLatch latch) w2 = (r, w')"
        using assms(1,6) 1 r1 2 Inr by (simp add: migrate_latched_def bnd_def [of "writeDatabaseMigrationLatch _ _ _"]
            bnd_def [of "or_record _ _ _ (backupDatabaseBeforeMigration _ _)"] Let_def)
      have engine_only: "disk v' = disk v" if "in_engine m v = (q, v')" for m :: "(sqlite, unit) act" and v q v'
        using that by (auto simp: in_engine_def split: prod.splits)
      have b3: "on_start ?B v'" if "in_engine m w2 = (q, v')" for m :: "(sqlite, unit) act" and q v'
        using b2 engine_only [OF that] by (simp add: on_start_def)
      show ?thesis
      proof (rule or_record_cases [OF 3])
        fix e v assume v: "in_engine (ensureDatabaseSchemaWithChanges True) w2 = (Inl e, v)"
          "recordDatabaseMigrationFailure env latch ?lt e v = (r3, w3)" "isl r3"
        have "on_start ?B w3" by (rule maintainsD [OF keeps_recorded [where Q = ?B, OF up(3)] b3 [OF v(1)] v(2)])
        moreover have "isl r" "w' = w3" using run 3 v(3) by (cases r3; auto simp: bnd_def)+
        ultimately show ?thesis using fin by auto
      next
        fix x assume v: "in_engine (ensureDatabaseSchemaWithChanges True) w2 = (r3, w3)" "r3 = Inr x"
        then obtain s where s: "ensureDatabaseSchemaWithChanges True (engine w2) = (Inr x, s)" "engine w3 = s"
          by (auto simp: in_engine_def split: prod.splits)
        have c: "current (db_file (engine w3))" using ensure_parts(1) [OF s(1) refl] s(2) by simp
        let ?C = "\<lambda>d' dk. current d' \<and> dk b = Some (Snapshot d) \<and>
            (\<forall>x. x \<notin> {latch, ?st} \<longrightarrow> disk w x \<noteq> None \<longrightarrow> dk x = disk w x)"
        have rm: "removeDatabaseMigrationLatch latch w3 = (r, w')" using run 3 v(2) by (simp add: bnd_def)
        have kc: "maintains (on_start ?C) (removeDatabaseMigrationLatch latch)"
          unfolding removeDatabaseMigrationLatch_def os_remove_def
          by (intro maintains_intros keeps_os_call) (use names in \<open>auto split: if_splits\<close>)
        have c3: "on_start ?C w3" using c b3 [OF v(1)] by (auto simp: on_start_def guarded_def)
        have "on_start ?C w'" by (rule maintainsD [OF kc c3 rm])
        then show ?thesis using assms(2) by (auto simp: on_start_def recoverable_def others_intact_def Let_def)
      qed
    qed
  qed
qed

lemma asked_file: "ask f s = (Inr x, s') \<Longrightarrow> x = f (db_file s) \<and> db_file s' = db_file s"
  using ask_run [of f s "Inr x" s'] by simp

lemma required_Inr:
  assumes "databaseMigrationRequired s = (Inr (q, v), s')"
  shows "v = user_version (db_file s)" "q \<longleftrightarrow> table_count (db_file s) \<noteq> 0 \<and> v < currentDatabaseVersion"
  using assms unfolding databaseMigrationRequired_def
  by (auto simp: map_err_Inr_iff elim!: bnd_InrE dest!: asked_file)


text \<open>A database of version 1 with a challenge and a build, and the surroundings of its startup.\<close>

definition ex_old_file :: database_file where
  "ex_old_file = \<lparr>user_version = 1, table_columns = filter (\<lambda>x. fst x \<notin> {''schemas'', ''networkOptions''}) currentDatabaseColumns,
     index_names = currentDatabaseIndexes, stored_rows = ex_tables\<rparr>"

definition ex_startup :: startup where
  "ex_startup = \<lparr>engine = \<lparr>db_file = ex_old_file, troubles = []\<rparr>, disk = (\<lambda>_. None), io_troubles = []\<rparr>"

definition ex_surroundings :: surroundings where
  "ex_surroundings = \<lparr>canonicalPath = Inr ''d'', startedAt = ''t'', failedAt = ''t'', stamp = ''s'', error_text = (\<lambda>_. []),
     regularDatabase = True, fkeysEnforced = True, busyTimeoutMS = 5000\<rparr>"


end
