(* ===== verification/Server.thy ===== *)
theory Server
  imports Schemas Solver
begin

text \<open>
  The HTTP service of \<open>cmd/cmgrd/main.go\<close>: the handlers of its six patterns, with the checks of the
  request, the operation of the manager each one calls and the response it makes of the outcome. The
  multiplexer of \<open>net/http\<close> is the choice of the handler for a clean path; its redirects, the
  connection and partial writes are left out. JSON text is read and written by parameters.
\<close>

section \<open>Requests and responses\<close>

record request =
  rq_Method :: string
  rq_Path :: string
  rq_tags :: "string list option"
  rq_Body :: string

text \<open>A content type that the program does not set is guessed by \<open>net/http\<close> from the body.\<close>

record response =
  rp_Status :: nat
  rp_Type :: "string option"
  rp_Body :: string

record ChallengeListElement =
  le_Id :: ChallengeId
  le_SourceChecksum :: "32 word"
  le_MetadataChecksum :: "32 word"
  le_SourceDigest :: string
  le_MetadataDigest :: string
  le_SolveScript :: bool

record BuildChallengeRequest =
  bq_FlagFormat :: string
  bq_Seeds :: "int list"

text \<open>The values that the handlers give to \<open>json.Marshal\<close>.\<close>

datatype answer =
    Listing "ChallengeListElement list"
  | OneChallenge ChallengeMetadata
  | ManyChallenges "ChallengeMetadata list"
  | OneBuild BuildMetadata
  | ManyBuilds "BuildMetadata list"
  | OneInstance InstanceMetadata
  | SchemaNames "string list"

text \<open>
  A decoder reads one value from the bytes it can get, is told whether an error instead of the end follows
  them, and leaves the rest. \<open>DecodeEmpty\<close> is the error, if any, of a further value without fields.
\<close>

type_synonym 'v decoder = "string \<Rightarrow> bool \<Rightarrow> err + 'v \<times> string"

record 'w server =
  sv_daemon :: "'w daemon"
  sv_site :: site
  sv_solver :: "'w solver_calls"
  Marshal :: "answer \<Rightarrow> err + string"
  DecodeBuild :: "BuildChallengeRequest decoder"
  DecodeSchema :: "Schema decoder"
  DecodeEmpty :: "string \<Rightarrow> bool \<Rightarrow> err option"
  ErrorText :: "err \<Rightarrow> string"

definition maxRequestBytes :: "'w server \<Rightarrow> int" where
  "maxRequestBytes sv = MaxRequestBytes_of (policy (st_mgr (sv_site sv)))"

definition json_space :: "char \<Rightarrow> bool" where
  "json_space c \<longleftrightarrow> c \<in> {CHR '' '', CHR 0x09, CHR 0x0A, CHR 0x0D}"

text \<open>\<open>MaxBytesReader\<close> gives at most the limit and an error in place of what is beyond.\<close>

definition decodeJSON :: "'w server \<Rightarrow> 'v decoder \<Rightarrow> string \<Rightarrow> err + 'v" where
  "decodeJSON sv decode body =
     (let limit = nat (maxRequestBytes sv); given = take limit body; cut = length body > limit in
      case decode given cut of
        Inl e \<Rightarrow> Inl e
      | Inr (v, rest) \<Rightarrow>
        (let more = dropWhile json_space rest in
         if more = [] then (if cut then Inl (Wrap ''invalid trailing JSON data'' (Plain ''http: request body too large'')) else Inr v)
         else case DecodeEmpty sv more cut of
           None \<Rightarrow> Inl (Plain ''request must contain exactly one JSON value'')
         | Some e \<Rightarrow> Inl (Wrap ''invalid trailing JSON data'' e)))"

definition bare :: "nat \<Rightarrow> response" where
  "bare code = \<lparr>rp_Status = code, rp_Type = None, rp_Body = []\<rparr>"

definition writeError :: "'w server \<Rightarrow> nat \<Rightarrow> err \<Rightarrow> response" where
  "writeError sv code e = \<lparr>rp_Status = code, rp_Type = Some ''text/plain; charset=utf-8'', rp_Body = ErrorText sv e @ [CHR 0x0A]\<rparr>"

definition writeJSON :: "'w server \<Rightarrow> nat \<Rightarrow> answer \<Rightarrow> response" where
  "writeJSON sv code value =
     (case Marshal sv value of
        Inl e \<Rightarrow> writeError sv 500 e
      | Inr body \<Rightarrow> \<lparr>rp_Status = code, rp_Type = Some ''application/json'', rp_Body = body\<rparr>)"

definition errorStatus :: "err \<Rightarrow> nat \<Rightarrow> nat" where
  "errorStatus e fallback =
     (if as_unknown e then 404 else if as_invalid e then 400 else if as_conflict e then 409 else fallback)"

text \<open>
  The end of most handlers: an error keeps a status that is one already, a body is JSON where the handler
  says so.
\<close>

definition respond :: "'w server \<Rightarrow> bool \<Rightarrow> nat \<Rightarrow> err + string \<Rightarrow> response" where
  "respond sv typed code r =
     (case r of
        Inl e \<Rightarrow> \<lparr>rp_Status = if code < 400 then errorStatus e 500 else code, rp_Type = None, rp_Body = ErrorText sv e\<rparr>
      | Inr body \<Rightarrow> \<lparr>rp_Status = code, rp_Type = if typed \<and> body \<noteq> [] \<and> code < 400 then Some ''application/json'' else None,
          rp_Body = body\<rparr>)"

definition answer_with :: "'w server \<Rightarrow> bool \<Rightarrow> nat \<Rightarrow> ('w world, string) act \<Rightarrow> 'w world \<Rightarrow> response \<times> 'w world" where
  "answer_with sv typed code m w = (case m w of (r, w') \<Rightarrow> (respond sv typed code r, w'))"

definition marshalled :: "'w server \<Rightarrow> ('a \<Rightarrow> answer) \<Rightarrow> ('w world, 'a) act \<Rightarrow> ('w world, string) act" where
  "marshalled sv f m = bnd m (\<lambda>x. lift_sum (Marshal sv (f x)))"

definition no_body :: "('w world, unit) act \<Rightarrow> ('w world, string) act" where
  "no_body m = bnd m (\<lambda>_. ret [])"

text \<open>A list of errors as one, \<open>errors.Join\<close>.\<close>

definition joined :: "('w world \<Rightarrow> err list \<times> 'w world) \<Rightarrow> ('w world, unit) act" where
  "joined m w = (case m w of (es, w') \<Rightarrow> (case join_errors es of None \<Rightarrow> Inr () | Some e \<Rightarrow> Inl e, w'))"

section \<open>The handlers\<close>

definition list_element :: "ChallengeMetadata \<Rightarrow> ChallengeListElement" where
  "list_element c = \<lparr>le_Id = ch_Id c, le_SourceChecksum = SourceChecksum c, le_MetadataChecksum = MetadataChecksum c,
     le_SourceDigest = SourceDigest c, le_MetadataDigest = MetadataDigest c, le_SolveScript = SolveScript c\<rparr>"

definition listHandler :: "'w server \<Rightarrow> request \<Rightarrow> 'w world \<Rightarrow> response \<times> 'w world" where
  "listHandler sv rq w =
     (if rq_Method rq \<noteq> ''GET'' then (bare 405, w)
      else case in_db (case rq_tags rq of None \<Rightarrow> listChallenges | Some ts \<Rightarrow> searchChallenges ts) w of
        (Inl e, w') \<Rightarrow> (writeError sv 500 e, w')
      | (Inr cs, w') \<Rightarrow> (writeJSON sv 200 (Listing (map list_element cs)), w'))"

text \<open>The components of a path after the last one that is \<open>challenges\<close>, found from the end, each with a slash.\<close>

fun after_challenges :: "string list \<Rightarrow> string \<Rightarrow> string option" where
  "after_challenges [] acc = None"
| "after_challenges (p # ps) acc =
     (if p = ''challenges'' then Some acc else after_challenges ps (p @ CHR ''/'' # acc))"

definition challengeHandler :: "'w server \<Rightarrow> request \<Rightarrow> 'w world \<Rightarrow> response \<times> 'w world" where
  "challengeHandler sv rq w =
     (let path = Split CHR ''/'' (rq_Path rq) in
      if length path < 2 then (bare 404, w)
      else case after_challenges (rev path) [] of
        None \<Rightarrow> (bare 404, w)
      | Some chalStr \<Rightarrow>
        if chalStr = [] then (bare 404, w)
        else
        (let challenge = butlast chalStr in
         if rq_Method rq = ''GET'' then
           answer_with sv True 200 (marshalled sv OneChallenge (in_db (find_challenge (sv_site sv) challenge))) w
         else if rq_Method rq = ''POST'' then
           (case decodeJSON sv (DecodeBuild sv) (rq_Body rq) of
              Inl e \<Rightarrow> (respond sv True 400 (Inl e), w)
            | Inr req \<Rightarrow> answer_with sv True 200 (marshalled sv ManyBuilds (Build (sv_daemon sv) (sv_site sv) challenge (bq_Seeds req)
                (if bq_FlagFormat req = [] then ''flag{%s}'' else bq_FlagFormat req))) w)
         else (bare 405, w)))"

text \<open>The file of a stored archive that has the given name.\<close>

definition file_in :: "tar_stream \<Rightarrow> string \<Rightarrow> string option" where
  "file_in ts name = map_option (\<lambda>(h, bytes). if Typeflag h = TypeDir then [] else take (nat (hd_Size h)) bytes)
     (find (\<lambda>(h, _). hd_Name h = name) (entries ts))"

definition send_artifacts :: "'w server \<Rightarrow> string \<Rightarrow> string \<Rightarrow> response" where
  "send_artifacts sv name bytes =
     (if name = ''artifacts.tar.gz'' then \<lparr>rp_Status = 200, rp_Type = Some ''application/gzip'', rp_Body = bytes\<rparr>
      else let ts = Untar (st_codec (sv_site sv)) bytes in
      if \<not> gzip_ok ts then respond sv False 500 (Inl (Plain ''gzip''))
      else case file_in ts name of
        Some content \<Rightarrow> \<lparr>rp_Status = 200, rp_Type = Some ''application/octet-stream'', rp_Body = content\<rparr>
      | None \<Rightarrow> if ends ts then bare 404 else respond sv False 500 (Inl (Plain ''tar'')))"

definition artifactsHandler :: "'w server \<Rightarrow> request \<Rightarrow> 'w world \<Rightarrow> response \<times> 'w world" where
  "artifactsHandler sv rq w =
     (let path = Split CHR ''/'' (rq_Path rq); n = length path in
      if rq_Method rq \<noteq> ''GET'' then (bare 405, w)
      else if n < 4 \<or> path ! (n - 3) \<noteq> ''builds'' then (bare 404, w)
      else case Atoi (path ! (n - 2)) of
        Inl e \<Rightarrow> (respond sv False 400 (Inl e), w)
      | Inr build \<Rightarrow>
        (case in_db (lookupBuildMetadata build) w of
           (Inl e, w1) \<Rightarrow> (writeError sv (errorStatus e 500) e, w1)
         | (Inr meta, w1) \<Rightarrow>
           if \<not> HasArtifacts meta then (bare 404, w1)
           else case host_call ''open'' w1 of
             (Inl e, w2) \<Rightarrow> (respond sv False 500 (Inl e), w2)
           | (Inr _, w2) \<Rightarrow>
             (case map_of (artifacts w2) (Itoa build @ ''.tar.gz'') of
                None \<Rightarrow> (respond sv False 500 (Inl (Plain ''no such file or directory'')), w2)
              | Some bytes \<Rightarrow> (send_artifacts sv (path ! (n - 1)) bytes, w2))))"

definition buildHandler :: "'w server \<Rightarrow> request \<Rightarrow> 'w world \<Rightarrow> response \<times> 'w world" where
  "buildHandler sv rq w =
     (let path = Split CHR ''/'' (rq_Path rq); n = length path in
      if n = 4 then artifactsHandler sv rq w
      else if n < 2 \<or> path ! (n - 2) \<noteq> ''builds'' then (bare 404, w)
      else case Atoi (path ! (n - 1)) of
        Inl e \<Rightarrow> (writeError sv 400 e, w)
      | Inr build \<Rightarrow>
        if rq_Method rq = ''GET'' then
          answer_with sv True 200 (marshalled sv OneBuild (in_db (lookupBuildMetadata build))) w
        else if rq_Method rq = ''POST'' then
          answer_with sv True 201 (marshalled sv OneInstance (bnd (Start (sv_daemon sv) (sv_site sv) build) (\<lambda>i.
            in_db (lookupInstanceMetadata i)))) w
        else if rq_Method rq = ''DELETE'' then
          answer_with sv True 204 (no_body (Destroy (sv_daemon sv) build)) w
        else (bare 405, w))"

definition instanceHandler :: "'w server \<Rightarrow> request \<Rightarrow> 'w world \<Rightarrow> response \<times> 'w world" where
  "instanceHandler sv rq w =
     (let path = Split CHR ''/'' (rq_Path rq); n = length path in
      if n < 2 \<or> path ! (n - 2) \<noteq> ''instances'' then (bare 404, w)
      else case Atoi (path ! (n - 1)) of
        Inl e \<Rightarrow> (respond sv False 400 (Inl e), w)
      | Inr i \<Rightarrow>
        if rq_Method rq = ''GET'' then
          answer_with sv False 200 (marshalled sv OneInstance (in_db (lookupInstanceMetadata i))) w
        else if rq_Method rq = ''POST'' then
          answer_with sv False 204 (no_body (CheckInstance (sv_daemon sv) (sv_site sv) (sv_solver sv) i)) w
        else if rq_Method rq = ''DELETE'' then
          answer_with sv False 204 (no_body (Stop (sv_daemon sv) i)) w
        else (bare 405, w))"

definition existingSchemaHandler :: "'w server \<Rightarrow> request \<Rightarrow> 'w world \<Rightarrow> response \<times> 'w world" where
  "existingSchemaHandler sv rq w =
     (let path = Split CHR ''/'' (rq_Path rq); n = length path in
      if n < 2 \<or> path ! (n - 2) \<noteq> ''schemas'' then (bare 404, w)
      else let schema = path ! (n - 1) in
      if rq_Method rq = ''GET'' then
        answer_with sv False 200 (marshalled sv ManyChallenges (in_db (GetSchemaState (sv_site sv) schema))) w
      else if rq_Method rq = ''POST'' then
        (case decodeJSON sv (DecodeSchema sv) (rq_Body rq) of
           Inl e \<Rightarrow> (respond sv False 400 (Inl e), w)
         | Inr s \<Rightarrow>
           if sm_Name s \<noteq> schema then (respond sv False 400 (Inl (Plain ''mismatch between endpoint and schema name'')), w)
           else answer_with sv False 204 (no_body (joined (UpdateSchema (sv_daemon sv) (sv_site sv) (Some s)))) w)
      else if rq_Method rq = ''DELETE'' then
        answer_with sv False 204 (no_body (DeleteSchema (sv_daemon sv) schema)) w
      else (bare 405, w))"

definition schemaHandler :: "'w server \<Rightarrow> request \<Rightarrow> 'w world \<Rightarrow> response \<times> 'w world" where
  "schemaHandler sv rq w =
     (if rq_Method rq = ''GET'' then
        answer_with sv False 200 (marshalled sv SchemaNames (in_db queryForSchemas)) w
      else if rq_Method rq = ''POST'' then
        (case decodeJSON sv (DecodeSchema sv) (rq_Body rq) of
           Inl e \<Rightarrow> (respond sv False 400 (Inl e), w)
         | Inr s \<Rightarrow>
           (case joined (CreateSchema (sv_daemon sv) (sv_site sv) (Some s)) w of
              (Inl e, w') \<Rightarrow> (respond sv False 200 (Inl e), w')
            | (Inr _, w') \<Rightarrow> (respond sv False 201 (Inr []), w')))
      else (bare 405, w))"

text \<open>The patterns of \<open>main\<close>; one that ends with a slash stands for every path below it.\<close>

definition serve :: "'w server \<Rightarrow> request \<Rightarrow> 'w world \<Rightarrow> response \<times> 'w world" where
  "serve sv rq w =
     (let p = rq_Path rq in
      if p = ''/challenges'' then listHandler sv rq w
      else if HasPrefix p ''/challenges/'' then challengeHandler sv rq w
      else if HasPrefix p ''/builds/'' then buildHandler sv rq w
      else if HasPrefix p ''/instances/'' then instanceHandler sv rq w
      else if p = ''/schemas'' then schemaHandler sv rq w
      else if HasPrefix p ''/schemas/'' then existingSchemaHandler sv rq w
      else (bare 404, w))"

section \<open>What a request can change\<close>

definition same_world :: "'w world \<Rightarrow> 'w world \<Rightarrow> bool" where
  "same_world w w' \<longleftrightarrow> tab (wdb w') = tab (wdb w) \<and> dock w' = dock w \<and> artifacts w' = artifacts w"

lemma same_refl [simp]: "same_world w w"
  by (simp add: same_world_def)

lemma same_db: "reads_only m \<Longrightarrow> in_db m w = (r, w') \<Longrightarrow> same_world w w'"
  by (auto simp: same_world_def in_db_run reads_only_def dest: spec [of _ "wdb w"])

lemma same_answer:
  "reads_only m \<Longrightarrow> answer_with sv typed code (marshalled sv f (in_db m)) w = (resp, w') \<Longrightarrow> same_world w w'"
  using same_db [of m w] by (fastforce simp: answer_with_def marshalled_def bnd_def lift_sum_def split: prod.splits sum.splits)

lemma reads_find_challenge [reads_intros]: "reads_only (find_challenge st c)"
  unfolding find_challenge_def lookupChallengeMetadata_def by (intro reads_intros)

lemma reads_collect [reads_intros]: "(\<And>x. reads_only (f x)) \<Longrightarrow> reads_only (collect f xs)"
  by (induction xs) (auto intro!: reads_intros)

lemma reads_lookupInstance [reads_intros]: "reads_only (lookupInstanceMetadata i)"
  unfolding lookupInstanceMetadata_def by (intro reads_intros)

lemma reads_group_builds [reads_intros]: "reads_only (group_builds st is cs open_one)"
proof (induction "is" arbitrary: cs open_one)
  case (Cons i "is")
  show ?case unfolding group_builds.simps full_build_def getBuildInstances_def by (intro reads_intros Cons.IH)
qed (simp add: reads_intros)

lemma reads_listings [reads_intros]: "reads_only listChallenges" "reads_only (searchChallenges wanted_tags)" "reads_only queryForSchemas"
    "reads_only (GetSchemaState st name)"
  unfolding searchChallenges_def GetSchemaState_def schemaExists_def getSchemaBuilds_def
  by (simp_all add: listChallenges_def queryForSchemas_def reads_intros)

text \<open>Reading requests.\<close>

lemma get_artifacts_reads:
  assumes "artifactsHandler sv rq w = (resp, w')"
  shows "same_world w w'"
proof -
  have host: "host_call what w1 = (r, w2) \<Longrightarrow> same_world w1 w2" for what r and w1 w2 :: "'a world"
    by (auto simp: host_call_def same_world_def Let_def split: if_splits)
  have db: "in_db (lookupBuildMetadata b) w = (r, w1) \<Longrightarrow> same_world w w1" for b r w1
    by (rule same_db [OF lookupBuildMetadata_reads])
  have trans: "same_world a b \<Longrightarrow> same_world b c \<Longrightarrow> same_world a c" for a b c :: "'a world"
    by (simp add: same_world_def)
  show ?thesis using assms
    by (auto simp: artifactsHandler_def Let_def split: if_splits sum.splits prod.splits option.splits
        intro: trans dest: host db)
qed

lemma get_reads:
  assumes "serve sv rq w = (resp, w')" "rq_Method rq = ''GET''"
  shows "same_world w w'"
proof -
  have listing: "listHandler sv rq w = (resp, w') \<Longrightarrow> same_world w w'"
    using same_db [OF reads_listings(1), of w] same_db [OF reads_listings(2), of _ w]
    by (auto simp: listHandler_def split: if_splits prod.splits sum.splits option.splits)
  show ?thesis using assms listing get_artifacts_reads [of sv rq w resp w']
      same_answer [OF reads_find_challenge] same_answer [OF lookupBuildMetadata_reads] same_answer [OF reads_lookupInstance]
      same_answer [OF reads_listings(3)] same_answer [OF reads_listings(4)]
    unfolding serve_def challengeHandler_def buildHandler_def instanceHandler_def schemaHandler_def existingSchemaHandler_def Let_def
    by (auto split: if_splits sum.splits option.splits)
qed

text \<open>Requests that are turned away.\<close>

lemma respond_405: "code \<noteq> 405 \<Longrightarrow> rp_Status (respond sv typed code r) \<noteq> 405"
  by (auto simp: respond_def errorStatus_def split: sum.splits)

lemma answer_405: "answer_with sv typed code m w = (resp, w') \<Longrightarrow> code \<noteq> 405 \<Longrightarrow> rp_Status resp \<noteq> 405"
  using respond_405 [of code sv typed] by (auto simp: answer_with_def split: prod.splits)

lemma respond_400 [simp]: "rp_Status (respond sv typed 400 (Inl e)) = 400"
  by (simp add: respond_def)

lemma bare_status [simp]: "rp_Status (bare code) = code"
  by (simp add: bare_def)

lemma artifacts_405:
  assumes "artifactsHandler sv rq w = (resp, w')" "rq_Method rq \<noteq> ''GET'' \<or> rp_Status resp = 405"
  shows "w' = w \<and> rp_Status resp \<in> {404, 405}"
proof (cases "rq_Method rq = ''GET''")
  case True
  have "rp_Status (send_artifacts sv name bytes) \<noteq> 405" for name bytes
    by (auto simp: send_artifacts_def Let_def respond_405 split: option.split)
  then have "rp_Status resp \<noteq> 405" using assms(1) True
    by (auto simp: artifactsHandler_def Let_def respond_405 writeError_def errorStatus_def
        split: if_splits sum.splits prod.splits option.splits)
  then show ?thesis using assms(2) True by simp
qed (use assms(1) in \<open>auto simp: artifactsHandler_def Let_def\<close>)

definition unheard :: "request \<Rightarrow> 'w world \<Rightarrow> response \<times> 'w world \<Rightarrow> bool" where
  "unheard rq w q \<longleftrightarrow> (rq_Method rq \<notin> {''GET'', ''POST'', ''DELETE''} \<longrightarrow> snd q = w \<and> rp_Status (fst q) \<in> {400, 404, 405}) \<and>
     (rp_Status (fst q) = 405 \<longrightarrow> snd q = w)"

lemma unheard_same: "code \<in> {400, 404, 405} \<Longrightarrow> rp_Status resp = code \<Longrightarrow> unheard rq w (resp, w)"
  by (auto simp: unheard_def)

lemma unheard_answer:
  "rq_Method rq \<in> {''GET'', ''POST'', ''DELETE''} \<Longrightarrow> code \<noteq> 405 \<Longrightarrow> unheard rq w (answer_with sv typed code m w)"
  using respond_405 [of code sv typed] by (auto simp: unheard_def answer_with_def split: prod.split)

lemma unheard_branches:
  "(P \<Longrightarrow> unheard rq w a) \<Longrightarrow> (\<not> P \<Longrightarrow> unheard rq w b) \<Longrightarrow> unheard rq w (if P then a else b)"
  "unheard rq w a \<Longrightarrow> (\<And>x. unheard rq w (f x)) \<Longrightarrow> unheard rq w (case x of None \<Rightarrow> a | Some x \<Rightarrow> f x)"
  "(\<And>e. unheard rq w (g e)) \<Longrightarrow> (\<And>x. unheard rq w (f' x)) \<Longrightarrow> unheard rq w (case y of Inl e \<Rightarrow> g e | Inr x \<Rightarrow> f' x)"
  by (simp_all split: option.split sum.split)

lemma unheard_handlers:
  "unheard rq w (listHandler sv rq w)" "unheard rq w (artifactsHandler sv rq w)" "unheard rq w (challengeHandler sv rq w)"
  "unheard rq w (buildHandler sv rq w)" "unheard rq w (instanceHandler sv rq w)" "unheard rq w (schemaHandler sv rq w)"
  "unheard rq w (existingSchemaHandler sv rq w)"
proof -
  have j: "rp_Status (writeJSON sv 200 v) \<noteq> 405" for v by (auto simp: writeJSON_def writeError_def split: sum.split)
  show "unheard rq w (listHandler sv rq w)"
    using j by (auto simp: unheard_def listHandler_def writeError_def split: prod.split sum.split)
  obtain resp w' where a: "artifactsHandler sv rq w = (resp, w')" by (metis surj_pair)
  show art: "unheard rq w (artifactsHandler sv rq w)"
    unfolding a using artifacts_405 [OF a] by (auto simp: unheard_def)
  show "unheard rq w (challengeHandler sv rq w)"
    unfolding challengeHandler_def Let_def by (intro unheard_branches unheard_answer unheard_same) simp_all
  show "unheard rq w (buildHandler sv rq w)"
    unfolding buildHandler_def Let_def by (intro unheard_branches unheard_answer unheard_same art) (simp_all add: writeError_def)
  show "unheard rq w (instanceHandler sv rq w)"
    unfolding instanceHandler_def Let_def by (intro unheard_branches unheard_answer unheard_same) simp_all
  show "unheard rq w (schemaHandler sv rq w)"
    by (auto simp: schemaHandler_def unheard_def answer_with_def respond_405 bare_def split: sum.split prod.split)
  show "unheard rq w (existingSchemaHandler sv rq w)"
    unfolding existingSchemaHandler_def Let_def by (intro unheard_branches unheard_answer unheard_same) simp_all
qed

lemma turned_away: "unheard rq w (serve sv rq w)"
  using unheard_same [of 404 "bare 404" rq w] by (auto simp: serve_def Let_def unheard_handlers)

lemma too_long:
  assumes "int (length body) > maxRequestBytes sv"
  shows "\<exists>e. decodeJSON sv decode body = Inl e"
proof -
  have "maxRequestBytes sv > 0" by (simp add: maxRequestBytes_def MaxRequestBytes_of_def)
  then have "length body > nat (maxRequestBytes sv)" using assms by linarith
  then show ?thesis by (auto simp: decodeJSON_def Let_def split: sum.split option.split)
qed

definition takes_body :: "string \<Rightarrow> bool" where
  "takes_body p \<longleftrightarrow> HasPrefix p ''/challenges/'' \<or> p = ''/schemas'' \<or> HasPrefix p ''/schemas/''"

lemma long_body_refused:
  assumes "serve sv rq w = (resp, w')" "rq_Method rq = ''POST''" "takes_body (rq_Path rq)"
    "int (length (rq_Body rq)) > maxRequestBytes sv"
  shows "w' = w \<and> rp_Status resp \<in> {400, 404}"
proof -
  obtain e1 e2 where e: "decodeJSON sv (DecodeBuild sv) (rq_Body rq) = Inl e1" "decodeJSON sv (DecodeSchema sv) (rq_Body rq) = Inl e2"
    using too_long [OF assms(4)] by metis
  have p: "rq_Path rq \<noteq> ''/challenges''" "\<not> HasPrefix (rq_Path rq) ''/builds/''" "\<not> HasPrefix (rq_Path rq) ''/instances/''"
    using assms(3) by (auto simp: takes_body_def HasPrefix_iff)
  show ?thesis using assms(1-3) p e
    unfolding serve_def challengeHandler_def schemaHandler_def existingSchemaHandler_def Let_def takes_body_def
    by (auto split: if_splits option.splits)
qed

text \<open>Removals that are reported as done.\<close>

lemma answer_204:
  assumes "answer_with sv typed 204 (no_body m) w = (resp, w')" "rp_Status resp = 204"
  shows "m w = (Inr (), w')"
proof -
  obtain r w1 where r: "m w = (r, w1)" by (metis surj_pair)
  show ?thesis using assms r
    by (cases r) (auto simp: answer_with_def no_body_def bnd_def ret_def respond_def errorStatus_def split: if_splits)
qed

lemma build_removed:
  assumes "removeBuildMetadata b d = (Inr u, d')"
  shows "b \<notin> set (map br_id (builds (tab d')))"
proof -
  obtain d1 d2 where d: "tab d' = tab d2"
      "bnd (map_err (Wrap ''could not delete build'')
        (affecting (\<lambda>t. (delete_build b t, length (filter (\<lambda>r. br_id r = b) (builds t)))))) (\<lambda>n.
      if n \<noteq> 1 then raise (unknownBuildIdError b) else ret ()) d1 = (Inr u, d2)"
    using assms unfolding removeBuildMetadata_def by (rule withTransaction_Inr)
  from d(2) obtain n d3 where a: "affecting (\<lambda>t. (delete_build b t, length (filter (\<lambda>r. br_id r = b) (builds t)))) d1 = (Inr n, d3)"
      and "(if n \<noteq> 1 then raise (unknownBuildIdError b) else ret ()) d3 = (Inr u, d2)"
    by (auto elim: bnd_InrE)
  then have "d2 = d3" by (auto simp: raise_def ret_def split: if_splits)
  moreover have "tab d3 = delete_build b (tab d1)" using affecting_Inr [OF a] by simp
  ultimately show ?thesis using d(1) by (auto simp: delete_build_def Let_def)
qed

lemma report_tab: "tab (snd (report x d)) = tab d"
  using reads_onlyD [OF reads_basic(4), of x d] .

lemma empty_schema_builds:
  assumes "deleteSchemaRecordIfEmpty s d = (Inr u, d')"
  shows "builds (tab d') = builds (tab d)"
proof -
  obtain d1 where 1: "update (\<lambda>t. if \<exists>b \<in> set (builds t). br_schema b = s then t
      else t\<lparr>schemas := filter (\<lambda>x. fst x \<noteq> s) (schemas t)\<rparr>) d = (Inr (), d1)" and 2: "report () d1 = (Inr u, d')"
    using assms unfolding deleteSchemaRecordIfEmpty_def by (auto elim: bnd_InrE)
  have "builds (tab d1) = builds (tab d)" using update_Inr [OF 1] by (auto split: if_splits)
  then show ?thesis using report_tab [of "()" d1] 2 by simp
qed

lemma Destroy_removes:
  assumes "Destroy dk b w = (Inr (), w')"
  shows "b \<notin> set (map br_id (builds (tab (wdb w'))))"
proof -
  obtain s w1 w2 where 1: "destroyImages dk b w1 = (Inr (), w2)" and 2: "in_db (deleteSchemaRecordIfEmpty s) w2 = (Inr (), w')"
    using assms unfolding Destroy_def by (fastforce elim!: bnd_InrE simp: raise_def split: if_splits)
  obtain w3 where "in_db (removeBuildMetadata b) w3 = (Inr (), w2)"
    using 1 unfolding destroyImages_def by (fastforce elim!: bnd_InrE simp: raise_def split: if_splits)
  then obtain d where "removeBuildMetadata b (wdb w3) = (Inr (), d)" "wdb w2 = d" by (auto simp: in_db_run)
  then have "b \<notin> set (map br_id (builds (tab (wdb w2))))" using build_removed by metis
  then show ?thesis using 2 empty_schema_builds by (fastforce simp: in_db_run)
qed

lemma stopContainers_id: "stopContainers dk (w, i) = (r, (w1, i1)) \<Longrightarrow> in_Id i1 = in_Id i"
  by (auto simp: stopContainers_def Let_def split: prod.splits sum.splits if_splits)

lemma Stop_removes:
  assumes "Stop dk i w = (Inr (), w')"
  shows "i \<notin> set (map nr_id (instances (tab (wdb w'))))"
proof -
  obtain x w1 w2 where 0: "in_db (lookupInstanceMetadata i) w = (Inr x, w1)" and 1: "stopInstance dk x w2 = (Inr (), w')"
    using assms unfolding Stop_def by (elim bnd_InrE) (auto simp: raise_def split: if_splits)
  have "in_Id x = i" using 0 lookupInstance_Inr(1) by (auto simp: in_db_run)
  then obtain w3 where "in_db (removeInstanceMetadata i) w3 = (Inr (), w')"
    using 1 stopContainers_id by (fastforce simp: stopInstance_def elim!: bnd_InrE split: prod.splits sum.splits)
  then show ?thesis
    by (auto simp: in_db_run removeInstanceMetadata_def delete_instance_def dest!: update_Inr)
qed

lemma DeleteSchema_removes:
  assumes "DeleteSchema dk s w = (Inr (), w')"
  shows "(s, False) \<notin> set (schemas (tab (wdb w'))) \<and> s \<notin> set (map br_schema (builds (tab (wdb w'))))"
proof -
  obtain w1 where 1: "in_db (deleteSchemaRecord s) w1 = (Inr (), w')"
    using assms unfolding DeleteSchema_def by (fastforce elim!: bnd_InrE simp: raise_def split: if_splits)
  then obtain d0 d' where d: "deleteSchemaRecord s d0 = (Inr (), d')" "wdb w' = d'" by (auto simp: in_db_run)
  obtain k d1 n d2 where q: "query (\<lambda>t. length (filter (\<lambda>b. br_schema b = s) (builds t))) d0 = (Inr k, d1)"
      and k: "k = 0" and a: "affecting (\<lambda>t. (t\<lparr>schemas := filter (\<lambda>x. x \<noteq> (s, False)) (schemas t)\<rparr>,
        length (filter (\<lambda>x. x = (s, False)) (schemas t)))) d1 = (Inr n, d2)" and e: "d' = d2"
    using d(1) unfolding deleteSchemaRecord_def by (fastforce elim!: bnd_InrE simp: raise_def ret_def split: if_splits)
  have "tab d1 = tab d0" "k = length (filter (\<lambda>b. br_schema b = s) (builds (tab d0)))" using query_Inr [OF q] by auto
  then show ?thesis using affecting_Inr [OF a] k e d(2) by (auto simp: filter_empty_conv)
qed

definition gone :: "string \<Rightarrow> tables \<Rightarrow> bool" where
  "gone p t \<longleftrightarrow>
     (\<forall>n. in_int64 n \<and> p = ''/builds/'' @ Itoa n \<longrightarrow> n \<notin> set (map br_id (builds t))) \<and>
     (\<forall>n. in_int64 n \<and> p = ''/instances/'' @ Itoa n \<longrightarrow> n \<notin> set (map nr_id (instances t))) \<and>
     (\<forall>s. CHR ''/'' \<notin> set s \<and> p = ''/schemas/'' @ s \<longrightarrow> (s, False) \<notin> set (schemas t) \<and> s \<notin> set (map br_schema (builds t)))"

lemma Itoa_no_slash: "CHR ''/'' \<notin> set (Itoa n)"
  using nat_dec_no_char [of "CHR ''/''"] by (simp add: Itoa_def)

lemma Split_resource:
  assumes "CHR ''/'' \<notin> set s"
  shows "Split CHR ''/'' (''/builds/'' @ s) = ['''', ''builds'', s]" "Split CHR ''/'' (''/instances/'' @ s) = ['''', ''instances'', s]"
    "Split CHR ''/'' (''/schemas/'' @ s) = ['''', ''schemas'', s]"
  using assms by simp_all

lemma deleted_is_gone:
  assumes run: "serve sv rq w = (resp, w')" and del: "rq_Method rq = ''DELETE''" and ok: "rp_Status resp = 204"
  shows "gone (rq_Path rq) (tab (wdb w'))"
proof -
  have ended: "m w = (Inr (), w')" if "answer_with sv typed 204 (no_body m) w = (resp, w')" for typed m
    using answer_204 [OF that ok] .
  have b: "n \<notin> set (map br_id (builds (tab (wdb w'))))" if "in_int64 n" "rq_Path rq = ''/builds/'' @ Itoa n" for n
    using run that del ended Destroy_removes [of "sv_daemon sv" n w w']
    by (auto simp: serve_def buildHandler_def Let_def Split_resource Itoa_no_slash)
  have i: "n \<notin> set (map nr_id (instances (tab (wdb w'))))" if "in_int64 n" "rq_Path rq = ''/instances/'' @ Itoa n" for n
    using run that del ended Stop_removes [of "sv_daemon sv" n w w']
    by (auto simp: serve_def instanceHandler_def Let_def Split_resource Itoa_no_slash)
  have s: "(s, False) \<notin> set (schemas (tab (wdb w'))) \<and> s \<notin> set (map br_schema (builds (tab (wdb w'))))"
    if "CHR ''/'' \<notin> set s" "rq_Path rq = ''/schemas/'' @ s" for s
    using run that del ended DeleteSchema_removes [of "sv_daemon sv" s w w']
    by (auto simp: serve_def existingSchemaHandler_def Let_def Split_resource)
  show ?thesis unfolding gone_def using b i s by blast
qed

text \<open>
  C27. The service changes only what a request may change. A GET, whatever its path and whatever fails,
  leaves the tables, the daemon and the artifact files as they are. A method other than the three that are
  served, a method that the resource does not have (405) and a body beyond the limit run nothing. A DELETE
  that is answered with 204 has removed the build, the instance or the schema that its path names.
\<close>

theorem requests_change_only_what_they_may:
  assumes "serve sv rq w = (resp, w')"
  shows "(rq_Method rq = ''GET'' \<longrightarrow> same_world w w') \<and>
    (rq_Method rq \<notin> {''GET'', ''POST'', ''DELETE''} \<longrightarrow> w' = w \<and> rp_Status resp \<in> {400, 404, 405}) \<and>
    (rp_Status resp = 405 \<longrightarrow> w' = w) \<and>
    (rq_Method rq = ''POST'' \<and> takes_body (rq_Path rq) \<and> int (length (rq_Body rq)) > maxRequestBytes sv \<longrightarrow>
       w' = w \<and> rp_Status resp \<in> {400, 404}) \<and>
    (rq_Method rq = ''DELETE'' \<and> rp_Status resp = 204 \<longrightarrow> gone (rq_Path rq) (tab (wdb w')))"
  using get_reads [OF assms] turned_away [of rq w sv] long_body_refused [OF assms] deleted_is_gone [OF assms]
  by (simp add: assms unheard_def)

text \<open>A server with one manual build, and the request that removes it.\<close>

definition ex_server :: "(string \<times> string) list server" where
  "ex_server = \<lparr>sv_daemon = ex_builder, sv_site = ex_site, sv_solver = ex_solver_calls, Marshal = (\<lambda>_. Inr ''{}''),
     DecodeBuild = (\<lambda>_ _. Inl (Plain ''EOF'')), DecodeSchema = (\<lambda>_ _. Inl (Plain ''EOF'')), DecodeEmpty = (\<lambda>_ _. None),
     ErrorText = (\<lambda>_. ''error'')\<rparr>"

definition ex_removal :: request where
  "ex_removal = \<lparr>rq_Method = ''DELETE'', rq_Path = ''/builds/1'', rq_tags = None, rq_Body = []\<rparr>"

definition ex_served_world :: "(string \<times> string) list world" where
  "ex_served_world = ex_image_world\<lparr>wdb := \<lparr>tab = empty_tables\<lparr>challenges := [ex_challenge], schemas := [(''manual-1'', True)],
     builds := [(ex_row 1 ''manual-1'' 1 (-1))\<lparr>br_flag := ''flag''\<rparr>]\<rparr>, faults = []\<rparr>\<rparr>"

theorem requests_change_only_what_they_may_witness:
  "rp_Status (fst (serve ex_server ex_removal ex_served_world)) = 204 \<and>
   1 \<notin> set (map br_id (builds (tab (wdb (snd (serve ex_server ex_removal ex_served_world))))))"
proof -
  let ?q = "serve ex_server ex_removal ex_served_world"
  have s: "rp_Status (fst ?q) = 204" by code_simp
  have "Itoa 1 = ''1''" by code_simp
  then have m: "rq_Method ex_removal = ''DELETE''" "rq_Path ex_removal = ''/builds/'' @ Itoa 1"
    by (simp_all add: ex_removal_def)
  have "gone (''/builds/'' @ Itoa 1) (tab (wdb (snd ?q)))"
    using requests_change_only_what_they_may [of ex_server ex_removal ex_served_world "fst ?q" "snd ?q"] s m by simp
  then have "1 \<notin> set (map br_id (builds (tab (wdb (snd ?q)))))" by (auto simp: gone_def in_int64_def)
  then show ?thesis using s by simp
qed

end
