(* ===== verification/Convert.thy ===== *)
theory Convert
  imports Regex Prelude BuildContext
begin

text \<open>
  \<open>convertToCustom\<close> of \<open>cmd/cmgr/challenges.go\<close>: a Markdown challenge becomes a custom one. The Dockerfile of
  its type and the changed description are written beside the challenge and put in place by renaming, with a
  rollback when one of the renames fails. The directory is a map from names to modes and contents; every
  call of the operating system may fail. Messages are left out, the exit code is kept.
\<close>

section \<open>A directory\<close>

text \<open>\<open>cd_suffixes\<close> are the random suffixes that \<open>os.CreateTemp\<close> tries.\<close>

record workdir =
  cd_files :: "string \<rightharpoonup> nat \<times> string"
  cd_faults :: "bool list"
  cd_suffixes :: "string list"

definition fails_next :: "workdir \<Rightarrow> bool" where
  "fails_next w \<longleftrightarrow> cd_faults w \<noteq> [] \<and> hd (cd_faults w)"

definition dir_call :: "string \<Rightarrow> ((string \<rightharpoonup> nat \<times> string) \<Rightarrow> ((string \<rightharpoonup> nat \<times> string) \<times> 'a) option) \<Rightarrow> (workdir, 'a) act" where
  "dir_call what f w =
     (let w' = w\<lparr>cd_faults := tl (cd_faults w)\<rparr> in
      if fails_next w then (Inl (Plain what), w')
      else case f (cd_files w) of None \<Rightarrow> (Inl (Plain what), w') | Some (fs, x) \<Rightarrow> (Inr x, w'\<lparr>cd_files := fs\<rparr>))"

definition read_named :: "string \<Rightarrow> (workdir, nat \<times> string) act" where
  "read_named name = dir_call ''read'' (\<lambda>fs. map_option (Pair fs) (fs name))"

definition flush :: "string \<Rightarrow> (workdir, unit) act" where
  "flush what = dir_call what (\<lambda>fs. Some (fs, ()))"

definition remove_named :: "string \<Rightarrow> (workdir, unit) act" where
  "remove_named name = dir_call ''remove'' (\<lambda>fs. if fs name = None then None else Some (fs(name := None), ()))"

definition rename :: "string \<Rightarrow> string \<Rightarrow> (workdir, unit) act" where
  "rename a b = dir_call ''rename'' (\<lambda>fs. case fs a of None \<Rightarrow> None | Some x \<Rightarrow> Some ((fs(a := None))(b \<mapsto> x), ()))"

definition CreateTemp :: "string \<Rightarrow> (workdir, string) act" where
  "CreateTemp pattern w =
     dir_call ''could not create temporary file'' (\<lambda>fs.
       case find (\<lambda>sfx. fs (pattern @ sfx) = None) (cd_suffixes w) of
         None \<Rightarrow> None
       | Some sfx \<Rightarrow> Some (fs(pattern @ sfx \<mapsto> (384, [])), pattern @ sfx)) w"

text \<open>A deferred removal: its error is dropped.\<close>

definition deferring :: "(workdir, unit) act \<Rightarrow> (workdir, 'a) act \<Rightarrow> (workdir, 'a) act" where
  "deferring cleanup body w = (case body w of (r, w1) \<Rightarrow> (r, snd (cleanup w1)))"

section \<open>The conversion\<close>

text \<open>\<open>\n(\s*-\s*type:)\s*(.*)\<close>\<close>

definition newline :: char where "newline = CHR 0x0A"

definition typeRe :: re where
  "typeRe = cats [lit [newline], Grp 1 (cats [blanks, lit ''-'', blanks, lit ''type:'']), blanks,
     Grp 2 (Star (Cls (\<lambda>c. c \<noteq> newline)))]"

definition challenge_type :: "string \<Rightarrow> string option" where
  "challenge_type md = map_option (\<lambda>f. group md f 2) (seek typeRe md 0)"

definition made_custom :: "string \<Rightarrow> string" where
  "made_custom md = ReplaceAllString typeRe md (newline # ''$1 custom'')"

text \<open>A write that fails leaves the file empty; the file is removed unless every step worked.\<close>

definition fill_temporary :: "string \<Rightarrow> nat \<Rightarrow> string \<Rightarrow> (workdir, unit) act" where
  "fill_temporary name md data =
     bnd (dir_call ''chmod'' (\<lambda>fs. Some (fs(name := map_option (\<lambda>(_, c). (md, c)) (fs name)), ()))) (\<lambda>_.
     bnd (dir_call ''write'' (\<lambda>fs. Some (fs(name := map_option (\<lambda>(m, _). (m, data)) (fs name)), ()))) (\<lambda>_.
     bnd (flush ''sync'') (\<lambda>_. flush ''close'')))"

definition writeTemporary :: "string \<Rightarrow> nat \<Rightarrow> string \<Rightarrow> (workdir, string) act" where
  "writeTemporary pattern md data =
     bnd (CreateTemp pattern) (\<lambda>name w.
     case fill_temporary name md data w of
       (Inl e, w1) \<Rightarrow> (Inl e, snd (remove_named name w1))
     | (Inr _, w1) \<Rightarrow> (Inr name, w1))"

definition problemMd :: string where "problemMd = ''problem.md''"

definition customDockerfile :: string where "customDockerfile = ''Dockerfile''"

definition rollbackProblem :: "string \<Rightarrow> (workdir, unit) act" where
  "rollbackProblem backup w = rename backup problemMd (snd (remove_named problemMd w))"

text \<open>The two renames that install the files, after the original has been put aside.\<close>

definition install_both :: "string \<Rightarrow> string \<Rightarrow> string \<Rightarrow> (workdir, unit) act" where
  "install_both dockerTemp problemTemp backup w =
     (case rename dockerTemp customDockerfile w of
        (Inl e, w1) \<Rightarrow> (Inl e, snd (rollbackProblem backup w1))
      | (Inr _, w1) \<Rightarrow>
        (case rename problemTemp problemMd w1 of
           (Inl e, w2) \<Rightarrow> (Inl e, snd (rollbackProblem backup (snd (remove_named customDockerfile w2))))
         | (Inr _, w2) \<Rightarrow> (Inr (), w2)))"

definition exchange :: "string \<Rightarrow> string \<Rightarrow> string \<Rightarrow> (workdir, unit) act" where
  "exchange dockerTemp problemTemp backup =
     bnd (rename problemMd backup) (\<lambda>_.
     bnd (install_both dockerTemp problemTemp backup) (\<lambda>_.
     remove_named backup))"

definition install :: "string \<Rightarrow> string \<Rightarrow> (workdir, unit) act" where
  "install dockerTemp problemTemp =
     bnd (CreateTemp ''.cmgr-problem-backup-'') (\<lambda>backup.
     bnd (flush ''close'') (\<lambda>_.
     bnd (remove_named backup) (\<lambda>_.
     deferring (remove_named backup) (exchange dockerTemp problemTemp backup))))"

definition convert_files :: "string \<Rightarrow> string \<Rightarrow> (workdir, unit) act" where
  "convert_files dockerfile md =
     bnd (read_named problemMd) (\<lambda>info.
     bnd (writeTemporary ''.cmgr-Dockerfile-'' 420 dockerfile) (\<lambda>dockerTemp.
     deferring (remove_named dockerTemp)
       (bnd (writeTemporary ''.cmgr-problem-'' (fst info) (made_custom md)) (\<lambda>problemTemp.
        deferring (remove_named problemTemp) (install dockerTemp problemTemp)))))"

text \<open>\<open>Lstat\<close> of the Dockerfile: it must not be there.\<close>

definition not_there :: "string \<Rightarrow> (workdir, unit) act" where
  "not_there name w =
     bnd (dir_call ''lstat'' (\<lambda>fs. Some (fs, fs name))) (\<lambda>x. if x = None then ret () else raise (Plain ''refusing to replace'')) w"

definition convert_steps :: "embedded \<Rightarrow> (workdir, unit) act" where
  "convert_steps dockerfiles =
     bnd (read_named problemMd) (\<lambda>file.
     case challenge_type (snd file) of
       None \<Rightarrow> raise (Plain ''could not find challenge type'')
     | Some cType \<Rightarrow>
       bnd (not_there customDockerfile) (\<lambda>_.
       case GetDockerfile dockerfiles cType of
         None \<Rightarrow> raise (Plain ''unknown challenge type'')
       | Some d \<Rightarrow> if d = [] then raise (Plain ''unknown challenge type'') else convert_files d (snd file)))"

definition convertToCustom :: "embedded \<Rightarrow> workdir \<Rightarrow> int \<times> workdir" where
  "convertToCustom dockerfiles w = (case convert_steps dockerfiles w of (Inl _, w') \<Rightarrow> (-1, w') | (Inr _, w') \<Rightarrow> (0, w'))"

section \<open>What is left of the directory\<close>

definition left :: "workdir \<Rightarrow> nat" where
  "left w = length (filter id (cd_faults w))"

text \<open>Two directories that differ at most in files with the prefix of temporary files.\<close>

definition looks :: "(string \<rightharpoonup> nat \<times> string) \<Rightarrow> (string \<rightharpoonup> nat \<times> string) \<Rightarrow> bool" where
  "looks F G \<longleftrightarrow> (\<forall>n. \<not> HasPrefix n ''.cmgr-'' \<longrightarrow> F n = G n)"

lemma looks_refl [simp]: "looks F F"
  by (simp add: looks_def)

lemma looks_trans: "looks F G \<Longrightarrow> looks G H \<Longrightarrow> looks F H"
  by (simp add: looks_def)

lemma looks_hidden: "HasPrefix p ''.cmgr-'' \<Longrightarrow> looks F (F(p := x))"
  by (auto simp: looks_def)

lemma dir_call_Inr:
  "dir_call what f w = (Inr x, w') \<Longrightarrow> f (cd_files w) = Some (cd_files w', x) \<and> left w' = left w"
  by (cases "cd_faults w") (auto simp: dir_call_def fails_next_def left_def Let_def split: if_splits option.splits)

lemma dir_call_Inl:
  "dir_call what f w = (Inl e, w') \<Longrightarrow> cd_files w' = cd_files w \<and> left w' \<le> left w \<and> (f (cd_files w) \<noteq> None \<longrightarrow> left w' < left w)"
  by (cases "cd_faults w") (auto simp: dir_call_def fails_next_def left_def Let_def split: if_splits option.splits)

lemma dir_call_calm: "left w = 0 \<Longrightarrow> f (cd_files w) = Some (fs, x) \<Longrightarrow> dir_call what f w = (Inr x, w\<lparr>cd_faults := tl (cd_faults w), cd_files := fs\<rparr>)"
  by (cases "cd_faults w") (auto simp: dir_call_def fails_next_def left_def Let_def)

lemma left_tl: "left w = 0 \<Longrightarrow> left (w\<lparr>cd_faults := tl (cd_faults w), cd_files := fs\<rparr>) = 0"
  by (cases "cd_faults w") (auto simp: left_def split: if_splits)

lemma put_Inr:
  assumes "dir_call what (\<lambda>fs. Some (g fs, y)) w = (Inr x, w')"
  shows "cd_files w' = g (cd_files w) \<and> left w' = left w"
  using dir_call_Inr [OF assms] by simp

lemma read_Inr:
  assumes "read_named p w = (Inr x, w')"
  shows "cd_files w p = Some x \<and> cd_files w' = cd_files w \<and> left w' = left w"
  using dir_call_Inr [OF assms [unfolded read_named_def]] by auto

lemma flush_Inr: "flush what w = (Inr u, w') \<Longrightarrow> cd_files w' = cd_files w \<and> left w' = left w"
  unfolding flush_def by (drule put_Inr) simp

lemma flush_Inl: "flush what w = (Inl e, w') \<Longrightarrow> cd_files w' = cd_files w \<and> left w' \<le> left w"
  unfolding flush_def by (drule dir_call_Inl) simp

lemma remove_Inr: "remove_named p w = (Inr u, w') \<Longrightarrow> cd_files w' = (cd_files w)(p := None) \<and> left w' = left w"
  unfolding remove_named_def by (drule dir_call_Inr) (simp split: if_splits)

lemma remove_Inl:
  "remove_named p w = (Inl e, w') \<Longrightarrow> cd_files w' = cd_files w \<and> left w' \<le> left w \<and> (cd_files w p \<noteq> None \<longrightarrow> left w' < left w)"
  unfolding remove_named_def by (drule dir_call_Inl) auto

lemma rename_Inr:
  assumes "rename a b w = (Inr u, w')" "cd_files w a = Some x"
  shows "cd_files w' = ((cd_files w)(a := None))(b \<mapsto> x) \<and> left w' = left w"
  using dir_call_Inr [OF assms(1) [unfolded rename_def]] assms(2) by simp

lemma rename_Inl:
  assumes "rename a b w = (Inl e, w')"
  shows "cd_files w' = cd_files w \<and> left w' \<le> left w \<and> (cd_files w a \<noteq> None \<longrightarrow> left w' < left w)"
  using dir_call_Inl [OF assms [unfolded rename_def]] by auto

lemma removed_hidden:
  assumes "HasPrefix p ''.cmgr-''"
  shows "looks (cd_files w) (cd_files (snd (remove_named p w)))"
proof -
  obtain r w1 where r: "remove_named p w = (r, w1)" by (metis surj_pair)
  then show ?thesis using remove_Inl remove_Inr looks_hidden [OF assms] by (cases r) fastforce+
qed

lemma removed_left: "left (snd (remove_named p w)) \<le> left w"
proof -
  obtain r w1 where r: "remove_named p w = (r, w1)" by (metis surj_pair)
  then show ?thesis using remove_Inl remove_Inr by (cases r) fastforce+
qed

lemma removed_absent: "cd_files w p = None \<Longrightarrow> cd_files (snd (remove_named p w)) = cd_files w"
  by (auto simp: remove_named_def dir_call_def Let_def)

lemma CreateTemp_Inr:
  assumes "CreateTemp pattern w = (Inr name, w')"
  shows "cd_files w name = None" "cd_files w' = (cd_files w)(name \<mapsto> (384, []))" "left w' = left w" "HasPrefix name pattern"
proof -
  obtain sfx where "find (\<lambda>sfx. cd_files w (pattern @ sfx) = None) (cd_suffixes w) = Some sfx" "name = pattern @ sfx"
    "cd_files w' = (cd_files w)(name \<mapsto> (384, []))" "left w' = left w"
    using dir_call_Inr [OF assms [unfolded CreateTemp_def]] by (auto split: option.splits)
  then show "cd_files w name = None" "cd_files w' = (cd_files w)(name \<mapsto> (384, []))" "left w' = left w" "HasPrefix name pattern"
    by (auto simp: find_Some_iff)
qed

lemma CreateTemp_Inl: "CreateTemp pattern w = (Inl e, w') \<Longrightarrow> cd_files w' = cd_files w \<and> left w' \<le> left w"
  unfolding CreateTemp_def by (drule dir_call_Inl) simp

lemma hidden_prefix: "HasPrefix name (''.cmgr-'' @ p) \<Longrightarrow> HasPrefix name ''.cmgr-''"
  by (auto simp: HasPrefix_iff)

lemma calm_rename:
  assumes "left w = 0" "cd_files w a = Some x"
  shows "cd_files (snd (rename a b w)) = ((cd_files w)(a := None))(b \<mapsto> x)"
proof -
  obtain r w1 where r: "rename a b w = (r, w1)" by (metis surj_pair)
  then show ?thesis using rename_Inl [of a b w _ w1] rename_Inr [of a b w _ w1 x] assms by (cases r) auto
qed

lemma calm_remove:
  assumes "left w = 0"
  shows "cd_files (snd (remove_named p w)) = (cd_files w)(p := None)"
proof (cases "cd_files w p")
  case None
  then show ?thesis by (simp add: removed_absent fun_upd_idem)
next
  case (Some x)
  obtain r w1 where r: "remove_named p w = (r, w1)" by (metis surj_pair)
  then show ?thesis using remove_Inl [of p w _ w1] remove_Inr [of p w _ w1] assms Some by (cases r) auto
qed

lemma calm_rollback:
  assumes "left w = 0" "cd_files w backup = Some x" "backup \<noteq> problemMd"
  shows "cd_files (snd (rollbackProblem backup w)) = (cd_files w)(backup := None, problemMd \<mapsto> x)"
proof -
  have "left (snd (remove_named problemMd w)) = 0" using removed_left [of problemMd w] assms(1) by simp
  from calm_rename [OF this, of backup x problemMd] show ?thesis
    using assms by (simp add: rollbackProblem_def calm_remove fun_upd_twist)
qed

lemma fill_Inr:
  assumes "fill_temporary name md data w = (Inr u, w')" "cd_files w name = Some x"
  shows "cd_files w' = (cd_files w)(name \<mapsto> (md, data)) \<and> left w' = left w"
  using assms unfolding fill_temporary_def
  by (elim bnd_InrE) (auto dest!: put_Inr flush_Inr split: prod.splits)

lemma fill_Inl:
  assumes "fill_temporary name md data w = (Inl e, w')" "HasPrefix name ''.cmgr-''"
  shows "looks (cd_files w) (cd_files w') \<and> left w' \<le> left w"
  using assms unfolding fill_temporary_def
  by (elim bnd_InlE) (auto dest!: dir_call_Inl put_Inr flush_Inr flush_Inl simp: looks_def)

lemma writeTemporary_Inr:
  assumes "writeTemporary pattern md data w = (Inr name, w')"
  shows "cd_files w name = None" "cd_files w' = (cd_files w)(name \<mapsto> (md, data))" "left w' = left w" "HasPrefix name pattern"
proof -
  obtain w1 where 1: "CreateTemp pattern w = (Inr name, w1)" and 2: "fill_temporary name md data w1 = (Inr (), w')"
    using assms unfolding writeTemporary_def by (fastforce elim!: bnd_InrE split: prod.splits sum.splits)
  note c = CreateTemp_Inr [OF 1]
  have "cd_files w1 name = Some (384, [])" using c(2) by simp
  then have "cd_files w' = (cd_files w1)(name \<mapsto> (md, data)) \<and> left w' = left w1" by (rule fill_Inr [OF 2])
  then show "cd_files w name = None" "cd_files w' = (cd_files w)(name \<mapsto> (md, data))" "left w' = left w" "HasPrefix name pattern"
    using c by simp_all
qed

lemma writeTemporary_Inl:
  assumes "writeTemporary (''.cmgr-'' @ p) md data w = (Inl e, w')"
  shows "looks (cd_files w) (cd_files w')" "left w' \<le> left w"
proof -
  have "looks (cd_files w) (cd_files w') \<and> left w' \<le> left w"
    using assms unfolding writeTemporary_def
  proof (cases rule: bnd_InlE)
    case first
    then show ?thesis using CreateTemp_Inl [OF first] by simp
  next
    case (second name w1)
    note c = CreateTemp_Inr [OF second(1)]
    have hid: "HasPrefix name ''.cmgr-''" using c(4) hidden_prefix by blast
    obtain r w2 where f: "fill_temporary name md data w1 = (r, w2)" by (metis surj_pair)
    then obtain e' where r: "r = Inl e'" "w' = snd (remove_named name w2)"
      using second(2) by (cases r) (auto split: prod.splits)
    have "looks (cd_files w1) (cd_files w2) \<and> left w2 \<le> left w1" using fill_Inl f r(1) hid by blast
    moreover have "looks (cd_files w) (cd_files w1)" using c(2) looks_hidden [OF hid] by simp
    ultimately show ?thesis using removed_hidden [OF hid, of w2] removed_left [of name w2] c(3) r(2)
      by (metis le_trans looks_trans)
  qed
  then show "looks (cd_files w) (cd_files w')" "left w' \<le> left w" by simp_all
qed

text \<open>The directory after the conversion.\<close>

definition both :: "nat \<times> string \<Rightarrow> nat \<times> string \<Rightarrow> (string \<rightharpoonup> nat \<times> string) \<Rightarrow> string \<rightharpoonup> nat \<times> string" where
  "both dx px F = F(customDockerfile \<mapsto> dx, problemMd \<mapsto> px)"

lemma visible [simp]:
  "\<not> HasPrefix problemMd ''.cmgr-''" "\<not> HasPrefix customDockerfile ''.cmgr-''" "customDockerfile \<noteq> problemMd"
  by (simp_all add: problemMd_def customDockerfile_def)

lemma install_both_runs:
  assumes "install_both dT pT backup w = (r, w')" "cd_files w dT = Some dx" "cd_files w pT = Some px" "cd_files w backup = Some orig"
    "cd_files w problemMd = None" "cd_files w customDockerfile = None" "dT \<noteq> pT" "dT \<noteq> backup" "pT \<noteq> backup"
    "HasPrefix dT ''.cmgr-''" "HasPrefix pT ''.cmgr-''" "HasPrefix backup ''.cmgr-''"
  shows "r = Inr () \<Longrightarrow> cd_files w' = both dx px ((cd_files w)(dT := None, pT := None)) \<and> left w' = left w"
    "r = Inl e \<Longrightarrow> left w \<le> 1 \<Longrightarrow> looks ((cd_files w)(problemMd \<mapsto> orig)) (cd_files w')"
proof -
  have names: "dT \<noteq> problemMd" "dT \<noteq> customDockerfile" "pT \<noteq> problemMd" "pT \<noteq> customDockerfile" "backup \<noteq> problemMd" "backup \<noteq> customDockerfile"
    using assms(10-12) visible by metis+
  obtain r1 w1 where 1: "rename dT customDockerfile w = (r1, w1)" by (metis surj_pair)
  obtain r2 w2 where 2: "rename pT problemMd w1 = (r2, w2)" by (metis surj_pair)
  show "cd_files w' = both dx px ((cd_files w)(dT := None, pT := None)) \<and> left w' = left w" if "r = Inr ()"
  proof -
    have "r1 = Inr ()" "r2 = Inr ()" "w' = w2" using assms(1) 1 2 that unfolding install_both_def by (auto split: sum.splits)
    then show ?thesis using rename_Inr [of dT customDockerfile w "()" w1 dx] rename_Inr [of pT problemMd w1 "()" w2 px] 1 2 assms(2,3,7) names
      by (simp add: both_def fun_upd_twist)
  qed
  show "looks ((cd_files w)(problemMd \<mapsto> orig)) (cd_files w')" if r: "r = Inl e" and l: "left w \<le> 1"
  proof (cases r1)
    case (Inl e1)
    have f: "cd_files w1 = cd_files w" "left w1 = 0"
      using rename_Inl [of dT customDockerfile w e1 w1] 1 Inl assms(2) l by auto
    have "w' = snd (rollbackProblem backup w1)" using assms(1) 1 Inl unfolding install_both_def by simp
    then show ?thesis using calm_rollback [OF f(2), of backup orig] f(1) assms(4,12) names by (auto simp: looks_def)
  next
    case (Inr u)
    have f1: "cd_files w1 = (cd_files w)(dT := None, customDockerfile \<mapsto> dx)" "left w1 = left w"
      using rename_Inr [of dT customDockerfile w u w1 dx] 1 Inr assms(2) by auto
    obtain e2 where r2: "r2 = Inl e2" "w' = snd (rollbackProblem backup (snd (remove_named customDockerfile w2)))"
      using assms(1) 1 2 Inr r unfolding install_both_def by (cases r2) auto
    have f2: "cd_files w2 = cd_files w1" "left w2 = 0"
      using rename_Inl [of pT problemMd w1 e2 w2] 2 r2(1) assms(3,7) names f1 l by auto
    let ?w3 = "snd (remove_named customDockerfile w2)"
    have f3: "cd_files ?w3 = (cd_files w2)(customDockerfile := None)" "left ?w3 = 0"
      using calm_remove [OF f2(2)] removed_left [of customDockerfile w2] f2(2) by auto
    have "cd_files ?w3 backup = Some orig" using f3(1) f2(1) f1(1) assms(4,8) names by simp
    from calm_rollback [OF f3(2) this] show ?thesis
      using r2(2) f3(1) f2(1) f1(1) assms(6,10,12) names by (auto simp: looks_def)
  qed
qed

lemma deferring_Inr: "deferring (remove_named p) body w = (Inr x, w') \<longleftrightarrow> (\<exists>w1. body w = (Inr x, w1) \<and> w' = snd (remove_named p w1))"
  by (auto simp: deferring_def split: prod.splits)

lemma deferring_Inl: "deferring (remove_named p) body w = (Inl e, w') \<longleftrightarrow> (\<exists>w1. body w = (Inl e, w1) \<and> w' = snd (remove_named p w1))"
  by (auto simp: deferring_def split: prod.splits)

lemma exchange_runs:
  assumes "exchange dT pT backup w = (r, w')" "cd_files w dT = Some dx" "cd_files w pT = Some px" "cd_files w problemMd = Some orig"
    "cd_files w customDockerfile = None" "cd_files w backup = None" "dT \<noteq> pT" "HasPrefix dT ''.cmgr-''" "HasPrefix pT ''.cmgr-''"
    "HasPrefix backup ''.cmgr-''"
  shows "r = Inr () \<Longrightarrow> cd_files w' = both dx px ((cd_files w)(dT := None, pT := None))"
    "r = Inl e \<Longrightarrow> left w \<le> 1 \<Longrightarrow> looks (cd_files w) (cd_files w') \<or> looks (both dx px (cd_files w)) (cd_files w')"
proof -
  have names: "backup \<noteq> dT" "backup \<noteq> pT" "backup \<noteq> problemMd" "backup \<noteq> customDockerfile" "dT \<noteq> problemMd" "pT \<noteq> problemMd"
    using assms(2,3,6,8-10) visible by auto
  have w1: "cd_files w1 = ((cd_files w)(problemMd := None))(backup \<mapsto> orig)" "left w1 = left w"
    if "rename problemMd backup w = (Inr u, w1)" for u w1
    using rename_Inr [OF that assms(4)] by simp_all
  have w2: "(q = Inr () \<longrightarrow> cd_files w2 = both dx px ((cd_files w1)(dT := None, pT := None)) \<and> left w2 = left w1) \<and>
      (\<forall>e. q = Inl e \<longrightarrow> left w1 \<le> 1 \<longrightarrow> looks ((cd_files w1)(problemMd \<mapsto> orig)) (cd_files w2))"
    if "rename problemMd backup w = (Inr u, w1)" "install_both dT pT backup w1 = (q, w2)" for u w1 w2 q
    using install_both_runs [OF that(2), of dx px orig] w1 [OF that(1)] assms(2,3,5,7-10) names by fastforce
  show "cd_files w' = both dx px ((cd_files w)(dT := None, pT := None))" if r: "r = Inr ()"
  proof -
    obtain w1 w2 where 1: "rename problemMd backup w = (Inr (), w1)" "install_both dT pT backup w1 = (Inr (), w2)"
        "remove_named backup w2 = (Inr (), w')"
      using assms(1) [unfolded r exchange_def] by (elim bnd_InrE) auto
    have "cd_files w' = (both dx px (((cd_files w)(problemMd := None, backup \<mapsto> orig))(dT := None, pT := None)))(backup := None)"
      using remove_Inr [OF 1(3)] w2 [OF 1(1,2)] w1(1) [OF 1(1)] by simp
    then show ?thesis using assms(6) names by (auto simp: both_def fun_eq_iff)
  qed
  show "looks (cd_files w) (cd_files w') \<or> looks (both dx px (cd_files w)) (cd_files w')" if r: "r = Inl e" "left w \<le> 1"
    using assms(1) [unfolded r(1) exchange_def]
  proof (cases rule: bnd_InlE)
    case first
    then show ?thesis using rename_Inl [OF first] by simp
  next
    case (second u w1)
    note f1 = w1 [OF second(1)] and b = w2 [OF second(1)]
    show ?thesis using second(2)
    proof (cases rule: bnd_InlE)
      case first
      then have "looks ((cd_files w1)(problemMd \<mapsto> orig)) (cd_files w')" using b [OF first] f1 r(2) by simp
      moreover have "looks (cd_files w) ((cd_files w1)(problemMd \<mapsto> orig))" using f1 assms(4,10) by (auto simp: looks_def)
      ultimately show ?thesis using looks_trans by blast
    next
      case (second v w2)
      then have "cd_files w' = both dx px ((cd_files w1)(dT := None, pT := None))" using remove_Inl [OF second(2)] b [OF second(1)] by simp
      moreover have "looks (both dx px (cd_files w)) (both dx px ((cd_files w1)(dT := None, pT := None)))"
        using f1 assms(8-10) by (auto simp: looks_def both_def)
      ultimately show ?thesis by simp
    qed
  qed
qed

lemma install_runs:
  assumes "install dT pT w = (r, w')" "cd_files w dT = Some dx" "cd_files w pT = Some px" "cd_files w problemMd = Some orig"
    "cd_files w customDockerfile = None" "dT \<noteq> pT" "HasPrefix dT ''.cmgr-''" "HasPrefix pT ''.cmgr-''"
  shows "r = Inr () \<Longrightarrow> cd_files w' = both dx px ((cd_files w)(dT := None, pT := None))"
    "r = Inl e \<Longrightarrow> left w \<le> 1 \<Longrightarrow> looks (cd_files w) (cd_files w') \<or> looks (both dx px (cd_files w)) (cd_files w')"
proof -
  let ?F = "cd_files w"
  have hid: "HasPrefix backup ''.cmgr-''" if "CreateTemp ''.cmgr-problem-backup-'' w = (Inr backup, w1)" for backup w1
    using hidden_prefix [of backup "''problem-backup-''"] CreateTemp_Inr(4) [OF that] by simp
  have aside: "cd_files w3 = ?F" "left w3 = left w" "?F backup = None"
    if "CreateTemp ''.cmgr-problem-backup-'' w = (Inr backup, w1)" "flush ''close'' w1 = (Inr u, w2)" "remove_named backup w2 = (Inr v, w3)"
    for backup w1 w2 w3 u v
    using CreateTemp_Inr [OF that(1)] flush_Inr [OF that(2)] remove_Inr [OF that(3)] by (simp_all add: fun_upd_idem)
  show "cd_files w' = both dx px (?F(dT := None, pT := None))" if r: "r = Inr ()"
  proof -
    obtain backup w1 w2 w3 w4 where 1: "CreateTemp ''.cmgr-problem-backup-'' w = (Inr backup, w1)" "flush ''close'' w1 = (Inr (), w2)"
        "remove_named backup w2 = (Inr (), w3)" and 2: "exchange dT pT backup w3 = (Inr (), w4)" "w' = snd (remove_named backup w4)"
      using assms(1) [unfolded r install_def] by (elim bnd_InrE) (auto simp: deferring_Inr)
    note a = aside [OF 1]
    have n: "backup \<noteq> problemMd" "backup \<noteq> customDockerfile" using hid [OF 1(1)] visible by metis+
    have "cd_files w4 = both dx px (?F(dT := None, pT := None))"
      using exchange_runs(1) [OF 2(1), of dx px orig] a assms(2-8) hid [OF 1(1)] by simp
    moreover then have "cd_files w4 backup = None" using a(3) n by (simp add: both_def)
    ultimately show ?thesis using 2(2) removed_absent by metis
  qed
  show "looks ?F (cd_files w') \<or> looks (both dx px ?F) (cd_files w')" if r: "r = Inl e" "left w \<le> 1"
    using assms(1) [unfolded r(1) install_def]
  proof (cases rule: bnd_InlE)
    case first
    then show ?thesis using CreateTemp_Inl [OF first] by simp
  next
    case (second backup w1)
    note 1 = second(1)
    have h: "looks ?F (cd_files w1)" using CreateTemp_Inr(2) [OF 1] looks_hidden [OF hid [OF 1]] by simp
    show ?thesis using second(2)
    proof (cases rule: bnd_InlE)
      case first
      then show ?thesis using flush_Inl [OF first] h by simp
    next
      case (second u w2)
      note 2 = second(1)
      show ?thesis using second(2)
      proof (cases rule: bnd_InlE)
        case first
        then show ?thesis using remove_Inl [OF first] flush_Inr [OF 2] h by simp
      next
        case (second v w3)
        obtain w4 where 4: "exchange dT pT backup w3 = (Inl e, w4)" "w' = snd (remove_named backup w4)"
          using second(2) by (auto simp: deferring_Inl)
        note a = aside [OF 1 2 second(1)]
        have "looks ?F (cd_files w4) \<or> looks (both dx px ?F) (cd_files w4)"
          using exchange_runs(2) [OF 4(1), of dx px orig] a assms(2-8) hid [OF 1] r(2) by simp
        then show ?thesis using removed_hidden [OF hid [OF 1], of w4] 4(2) looks_trans by metis
      qed
    qed
  qed
qed

lemma convert_files_runs:
  assumes "convert_files d md w = (r, w')" "cd_files w problemMd = Some (m, md)" "cd_files w customDockerfile = None"
  shows "r = Inr () \<Longrightarrow> cd_files w' = both (420, d) (m, made_custom md) (cd_files w)"
    "r = Inl e \<Longrightarrow> left w \<le> 1 \<Longrightarrow>
       looks (cd_files w) (cd_files w') \<or> looks (both (420, d) (m, made_custom md) (cd_files w)) (cd_files w')"
proof -
  let ?F = "cd_files w"
  let ?doc = "''.cmgr-Dockerfile-''" and ?prob = "''.cmgr-problem-''"
  let ?px = "(m, made_custom md)"
  have hid: "HasPrefix n ''.cmgr-''" if "HasPrefix n ?doc \<or> HasPrefix n ?prob" for n
    using that hidden_prefix [of n "''Dockerfile-''"] hidden_prefix [of n "''problem-''"] by auto
  have info: "info = (m, md) \<and> cd_files w1 = ?F \<and> left w1 = left w" if "read_named problemMd w = (Inr info, w1)" for info w1
    using read_Inr [OF that] assms(2) by simp
  have staged: "cd_files w3 = ?F(dT \<mapsto> (420, d), pT \<mapsto> ?px)" "left w3 = left w" "?F dT = None" "?F pT = None" "dT \<noteq> pT"
      "HasPrefix dT ''.cmgr-''" "HasPrefix pT ''.cmgr-''" "cd_files w3 problemMd = Some (m, md)" "cd_files w3 customDockerfile = None"
    if "read_named problemMd w = (Inr info, w1)" "writeTemporary ?doc 420 d w1 = (Inr dT, w2)"
      "writeTemporary ?prob (fst info) (made_custom md) w2 = (Inr pT, w3)" for info w1 dT w2 pT w3
  proof -
    note i = info [OF that(1)] and t1 = writeTemporary_Inr [OF that(2)] and t2 = writeTemporary_Inr [OF that(3)]
    show h: "HasPrefix dT ''.cmgr-''" "HasPrefix pT ''.cmgr-''" using t1(4) t2(4) hid by blast+
    show "cd_files w3 = ?F(dT \<mapsto> (420, d), pT \<mapsto> ?px)" "left w3 = left w" "?F dT = None" "dT \<noteq> pT" "?F pT = None"
      using i t1 t2 by (auto split: if_splits)
    then show "cd_files w3 problemMd = Some (m, md)" "cd_files w3 customDockerfile = None"
      using h visible assms(2,3) by auto
  qed
  show "cd_files w' = both (420, d) ?px ?F" if r: "r = Inr ()"
  proof -
    obtain info w1 dT w2 pT w3 w4 where 1: "read_named problemMd w = (Inr info, w1)" "writeTemporary ?doc 420 d w1 = (Inr dT, w2)"
        "writeTemporary ?prob (fst info) (made_custom md) w2 = (Inr pT, w3)"
      and 2: "install dT pT w3 = (Inr (), w4)" "w' = snd (remove_named dT (snd (remove_named pT w4)))"
      using assms(1) [unfolded r convert_files_def] by (elim bnd_InrE) (auto simp: deferring_Inr elim!: bnd_InrE)
    note s = staged [OF 1]
    have n: "dT \<noteq> problemMd" "dT \<noteq> customDockerfile" "pT \<noteq> problemMd" "pT \<noteq> customDockerfile" using s(6,7) visible by metis+
    have w4: "cd_files w4 = both (420, d) ?px ((cd_files w3)(dT := None, pT := None))"
      using install_runs(1) [OF 2(1), of "(420, d)" ?px "(m, md)"] s by simp
    then have "cd_files w4 = both (420, d) ?px ?F" using s(1,3,4,5) by (auto simp: fun_eq_iff both_def)
    moreover from this have "cd_files w4 dT = None" "cd_files w4 pT = None" using s(3,4) n by (simp_all add: both_def)
    ultimately show ?thesis using 2(2) by (simp add: removed_absent)
  qed
  show "looks ?F (cd_files w') \<or> looks (both (420, d) ?px ?F) (cd_files w')" if r: "r = Inl e" "left w \<le> 1"
    using assms(1) [unfolded r(1) convert_files_def]
  proof (cases rule: bnd_InlE)
    case first
    then show ?thesis using dir_call_Inl [OF first [unfolded read_named_def]] by simp
  next
    case (second info w1)
    note 1 = second(1) and i = info [OF second(1)]
    show ?thesis using second(2)
    proof (cases rule: bnd_InlE)
      case first
      then show ?thesis using writeTemporary_Inl(1) [of "''Dockerfile-''" 420 d w1 e w'] i by simp
    next
      case (second dT w2)
      note 2 = second(1) and t = writeTemporary_Inr [OF second(1)]
      have dT: "HasPrefix dT ''.cmgr-''" using t(4) hid by blast
      have w2: "looks ?F (cd_files w2)" using t(2) i looks_hidden [OF dT] by simp
      obtain w5 where 5: "bnd (writeTemporary ?prob (fst info) (made_custom md)) (\<lambda>pT. deferring (remove_named pT) (install dT pT)) w2 = (Inl e, w5)"
          "w' = snd (remove_named dT w5)"
        using second(2) by (auto simp: deferring_Inl)
      have "looks ?F (cd_files w5) \<or> looks (both (420, d) ?px ?F) (cd_files w5)"
        using 5(1)
      proof (cases rule: bnd_InlE)
        case first
        then show ?thesis using writeTemporary_Inl(1) [of "''problem-''"] w2 looks_trans by fastforce
      next
        case (second pT w3)
        obtain w4 where 4: "install dT pT w3 = (Inl e, w4)" "w5 = snd (remove_named pT w4)" using second(2) by (auto simp: deferring_Inl)
        note s = staged [OF 1 2 second(1)]
        have "looks (cd_files w3) (cd_files w4) \<or> looks (both (420, d) ?px (cd_files w3)) (cd_files w4)"
          using install_runs(2) [OF 4(1), of "(420, d)" ?px "(m, md)" e] s r(2) by simp
        moreover have "looks ?F (cd_files w3)" "looks (both (420, d) ?px ?F) (both (420, d) ?px (cd_files w3))"
          using s(1,6,7) by (auto simp: looks_def both_def)
        ultimately show ?thesis using removed_hidden [OF s(7), of w4] 4(2) looks_trans by metis
      qed
      then show ?thesis using removed_hidden [OF dT, of w5] 5(2) looks_trans by metis
    qed
  qed
qed

definition converted :: "embedded \<Rightarrow> (string \<rightharpoonup> nat \<times> string) \<Rightarrow> (string \<rightharpoonup> nat \<times> string) \<Rightarrow> bool" where
  "converted dockerfiles F G \<longleftrightarrow> (\<exists>m md t d. F problemMd = Some (m, md) \<and> challenge_type md = Some t \<and>
     GetDockerfile dockerfiles t = Some d \<and> F customDockerfile = None \<and> G = both (420, d) (m, made_custom md) F)"

text \<open>The checks before the files are touched: all of them pass, or nothing happens.\<close>

lemma convert_steps_start:
  assumes run: "convert_steps dockerfiles w = (r, w')"
  shows "(\<exists>m md t d w2. cd_files w problemMd = Some (m, md) \<and> challenge_type md = Some t \<and> GetDockerfile dockerfiles t = Some d \<and>
      cd_files w customDockerfile = None \<and> cd_files w2 = cd_files w \<and> left w2 \<le> left w \<and> convert_files d md w2 = (r, w')) \<or>
    r \<noteq> Inr () \<and> cd_files w' = cd_files w" (is "?starts \<or> _")
proof (cases ?starts)
  case False
  obtain r1 w1 where 1: "read_named problemMd w = (r1, w1)" by (metis surj_pair)
  have "r \<noteq> Inr () \<and> cd_files w' = cd_files w"
  proof (cases r1)
    case (Inl e)
    then show ?thesis using run 1 dir_call_Inl [of "''read''" _ w e w1] by (auto simp: convert_steps_def bnd_def read_named_def)
  next
    case (Inr f0)
    have f: "cd_files w problemMd = Some f0" "cd_files w1 = cd_files w" "left w1 = left w"
      using read_Inr [of problemMd w f0 w1] 1 Inr by simp_all
    obtain r2 w2 where 2: "dir_call ''lstat'' (\<lambda>fs. Some (fs, fs customDockerfile)) w1 = (r2, w2)" by (rule prod.exhaust)
    have w2: "cd_files w2 = cd_files w" "left w2 \<le> left w"
      using f put_Inr [of "''lstat''" "\<lambda>fs. fs" _ w1 _ w2] dir_call_Inl [of "''lstat''" "\<lambda>fs. Some (fs, fs customDockerfile)" w1 _ w2]
        dir_call_Inr [of "''lstat''" "\<lambda>fs. Some (fs, fs customDockerfile)" w1 _ w2] 2 by (cases r2; simp)+
    have x: "x = cd_files w customDockerfile" if "r2 = Inr x" for x
      using dir_call_Inr [OF 2 [unfolded that]] f(2) by auto
    show ?thesis
    proof (cases "\<exists>t d. challenge_type (snd f0) = Some t \<and> r2 = Inr None \<and> GetDockerfile dockerfiles t = Some d \<and> d \<noteq> []")
      case True
      then obtain t d where t: "challenge_type (snd f0) = Some t" "r2 = Inr None" "GetDockerfile dockerfiles t = Some d" "d \<noteq> []"
        by blast
      have "convert_files d (snd f0) w2 = (r, w')"
        using run 1 Inr 2 t by (simp add: convert_steps_def bnd_def not_there_def ret_def)
      then have "\<exists>m md t d w2. cd_files w problemMd = Some (m, md) \<and> challenge_type md = Some t \<and> GetDockerfile dockerfiles t = Some d \<and>
          cd_files w customDockerfile = None \<and> cd_files w2 = cd_files w \<and> left w2 \<le> left w \<and> convert_files d md w2 = (r, w')"
        using f(1) t w2 x [OF t(2)]
        by (intro exI [of _ "fst f0"] exI [of _ "snd f0"] exI [of _ t] exI [of _ d] exI [of _ w2]) simp
      then show ?thesis using False by blast
    next
      case none: False
      show ?thesis
      proof (cases "challenge_type (snd f0)")
        case None
        then show ?thesis using run 1 Inr f(2) by (auto simp: convert_steps_def bnd_def raise_def)
      next
        case (Some t)
        have there: "not_there customDockerfile w1 = (case r2 of Inl e \<Rightarrow> Inl e | Inr v \<Rightarrow> if v = None then Inr () else Inl (Plain ''refusing to replace''), w2)"
          using 2 by (simp add: not_there_def bnd_def ret_def raise_def split: sum.split)
        show ?thesis using run 1 Inr Some there w2(1) none
          by (cases r2) (auto simp: convert_steps_def bnd_def raise_def split: if_splits option.splits)
      qed
    qed
  qed
  then show ?thesis by simp
qed simp

text \<open>
  C11. A conversion is all or nothing as long as no second call fails. Exit code 0 means that the
  directory is as before but for the Dockerfile of the challenge's type and the description with the type
  replaced, in its old mode, with nothing left of the temporary files, whatever failed. With any other code and
  at most one failing call, every file but temporary ones is as before, or the conversion is complete (only the
  removal of the copy failed).
\<close>

theorem conversion_all_or_nothing:
  assumes "convertToCustom dockerfiles w = (code, w')"
  shows "(code = 0 \<longrightarrow> converted dockerfiles (cd_files w) (cd_files w')) \<and>
    (code \<noteq> 0 \<and> left w \<le> 1 \<longrightarrow>
       looks (cd_files w) (cd_files w') \<or> (\<exists>G. converted dockerfiles (cd_files w) G \<and> looks G (cd_files w')))"
proof -
  obtain r where run: "convert_steps dockerfiles w = (r, w')" and code: "code = 0 \<longleftrightarrow> r = Inr ()"
    using assms by (auto simp: convertToCustom_def split: prod.splits sum.splits)
  show ?thesis
    using convert_steps_start [OF run]
  proof (elim disjE exE conjE)
    fix m md t d w2
    assume t: "cd_files w problemMd = Some (m, md)" "challenge_type md = Some t" "GetDockerfile dockerfiles t = Some d"
      "cd_files w customDockerfile = None" "cd_files w2 = cd_files w" "left w2 \<le> left w" "convert_files d md w2 = (r, w')"
    note c = convert_files_runs [OF t(7), of m]
    have "converted dockerfiles (cd_files w) (both (420, d) (m, made_custom md) (cd_files w))" using t by (auto simp: converted_def)
    then show ?thesis using c t(1,4-6) code by (cases r) auto
  qed (use code in simp)
qed

text \<open>A Markdown challenge, with the rename of the Dockerfile failing.\<close>

definition ex_workdir :: "bool list \<Rightarrow> workdir" where
  "ex_workdir fs = \<lparr>cd_files = (\<lambda>n. if n = problemMd then Some (420, newline # ''- type: a'') else None), cd_faults = fs, cd_suffixes = [''0'']\<rparr>"

definition ex_dockerfiles :: embedded where
  "ex_dockerfiles = [(''a.Dockerfile'', ''FROM x'')]"

theorem conversion_all_or_nothing_witness:
  "fst (convertToCustom ex_dockerfiles (ex_workdir (replicate 17 False @ [True]))) = -1 \<and>
   cd_files (snd (convertToCustom ex_dockerfiles (ex_workdir (replicate 17 False @ [True])))) problemMd = Some (420, newline # ''- type: a'')"
proof -
  let ?w = "ex_workdir (replicate 17 False @ [True])"
  let ?q = "convertToCustom ex_dockerfiles ?w"
  have c: "fst ?q = -1" "cd_files (snd ?q) customDockerfile = None" by code_simp+
  have l: "left ?w \<le> 1" by (simp add: left_def ex_workdir_def)
  have q: "?q = (fst ?q, snd ?q)" by simp
  have "looks (cd_files ?w) (cd_files (snd ?q)) \<or> (\<exists>G. converted ex_dockerfiles (cd_files ?w) G \<and> looks G (cd_files (snd ?q)))"
    using conversion_all_or_nothing [OF q] c(1) l by simp
  moreover have "\<not> (converted ex_dockerfiles (cd_files ?w) G \<and> looks G (cd_files (snd ?q)))" for G
    using c(2) visible(2) unfolding converted_def looks_def both_def by (metis fun_upd_apply option.distinct(1) visible(3))
  ultimately have "looks (cd_files ?w) (cd_files (snd ?q))" by blast
  then have "cd_files (snd ?q) problemMd = cd_files ?w problemMd" by (simp add: looks_def)
  then show ?thesis using c(1) by (simp add: ex_workdir_def)
qed

text \<open>
  Two failing calls are enough to lose the description: when the rename of the Dockerfile fails and the
  rollback fails too, the deferred removal of the backup deletes the only file that still has it.
\<close>

lemma failed_rollback_loses_description:
  "list_all (\<lambda>n. cd_files (snd (convertToCustom ex_dockerfiles (ex_workdir (replicate 17 False @ [True, False, True])))) n = None)
     [problemMd, customDockerfile, ''.cmgr-problem-backup-0'', ''.cmgr-problem-0'', ''.cmgr-Dockerfile-0'']"
  by code_simp

end
