(* ===== verification/Flags.thy ===== *)
theory Flags
  imports GoText
begin

text \<open>
  Go's \<open>strconv.ParseInt\<close> with base 0, \<open>strconv.ParseBool\<close> and the parsing of command lines in Go's \<open>flag\<close>
  package, as the commands use them: a set of flags with their kinds, and a list of arguments that gives
  the values set and the positional arguments.
\<close>

section \<open>Numbers and truth values\<close>

text \<open>
  \<open>strconv.ParseInt(s, 0, 0)\<close>: the prefix gives the base, and underscores may separate digits. \<open>state\<close> is what
  \<open>underscoreOK\<close> saw last: nothing (0), a digit or the prefix (1), an underscore (2), something else (3).
\<close>

definition digit_of :: "char \<Rightarrow> nat option" where
  "digit_of c =
     (if is_digit c then Some (digit_val c)
      else let l = lower_char c in if is_lower l then Some ((of_char l :: nat) - 87) else None)"

fun underscores_ok :: "bool \<Rightarrow> nat \<Rightarrow> string \<Rightarrow> bool" where
  "underscores_ok hex state [] \<longleftrightarrow> state \<noteq> 2"
| "underscores_ok hex state (c # s) \<longleftrightarrow>
     (if is_digit c \<or> hex \<and> lower_char c \<in> set ''abcdef'' then underscores_ok hex 1 s
      else if c = CHR ''_'' then state = 1 \<and> underscores_ok hex 2 s
      else state \<noteq> 2 \<and> underscores_ok hex 3 s)"

definition base_of :: "string \<Rightarrow> nat \<times> string" where
  "base_of s =
     (case s of
        x # b # rest \<Rightarrow>
          if x = CHR ''0'' then
            (if rest \<noteq> [] \<and> lower_char b = CHR ''b'' then (2, rest)
             else if rest \<noteq> [] \<and> lower_char b = CHR ''o'' then (8, rest)
             else if rest \<noteq> [] \<and> lower_char b = CHR ''x'' then (16, rest)
             else (8, b # rest))
          else (10, s)
      | [x] \<Rightarrow> if x = CHR ''0'' then (8, []) else (10, s)
      | [] \<Rightarrow> (10, []))"

fun digits_value :: "nat \<Rightarrow> nat \<Rightarrow> string \<Rightarrow> nat option" where
  "digits_value base v [] = Some v"
| "digits_value base v (c # s) =
     (if c = CHR ''_'' then digits_value base v s
      else case digit_of c of None \<Rightarrow> None | Some d \<Rightarrow> if d \<ge> base then None else digits_value base (v * base + d) s)"

definition underscore_start :: "string \<Rightarrow> bool \<times> nat \<times> string" where
  "underscore_start s =
     (case s of
        x # b # rest \<Rightarrow>
          if x = CHR ''0'' \<and> lower_char b \<in> set ''box'' then (lower_char b = CHR ''x'', 1, rest) else (False, 0, s)
      | _ \<Rightarrow> (False, 0, s))"

definition ParseInt :: "string \<Rightarrow> int option" where
  "ParseInt s =
     (let neg = (s \<noteq> [] \<and> hd s = CHR ''-''); u = (if s \<noteq> [] \<and> (hd s = CHR ''-'' \<or> hd s = CHR ''+'') then tl s else s) in
      if u = [] then None
      else case base_of u of (base, ds) \<Rightarrow>
        (case digits_value base 0 ds of
           None \<Rightarrow> None
         | Some v \<Rightarrow>
           if CHR ''_'' \<in> set u \<and> \<not> (case underscore_start u of (hex, state, rest) \<Rightarrow> underscores_ok hex state rest) then None
           else let n = (if neg then - int v else int v) in if in_int64 n then Some n else None))"

definition ParseBool :: "string \<Rightarrow> bool option" where
  "ParseBool s =
     (if s \<in> set [''1'', ''t'', ''T'', ''TRUE'', ''true'', ''True''] then Some True
      else if s \<in> set [''0'', ''f'', ''F'', ''FALSE'', ''false'', ''False''] then Some False else None)"

section \<open>Flags\<close>

datatype flag_kind = BoolFlag | IntFlag | StringFlag

datatype flag_value = BoolValue bool | IntValue int | StringValue string

datatype flag_error = ErrHelp | FlagError err

type_synonym flag_set = "(string \<times> flag_kind) list"
type_synonym flag_values = "(string \<times> flag_value) list"

definition Set_flag :: "flag_kind \<Rightarrow> string \<Rightarrow> flag_value option" where
  "Set_flag k v =
     (case k of
        BoolFlag \<Rightarrow> map_option BoolValue (ParseBool v)
      | IntFlag \<Rightarrow> map_option IntValue (ParseInt v)
      | StringFlag \<Rightarrow> Some (StringValue v))"

text \<open>The name of a flag and the value after an equals sign, which is not the first character.\<close>

definition split_flag :: "string \<Rightarrow> string \<times> string option" where
  "split_flag name =
     (case name of
        [] \<Rightarrow> ([], None)
      | c # rest \<Rightarrow>
        (case IndexByte rest CHR ''='' of
           None \<Rightarrow> (name, None)
         | Some i \<Rightarrow> (c # take i rest, Some (drop (Suc i) rest))))"

text \<open>What an argument is: a positional one, the end of the flags, or the name of a flag.\<close>

datatype argument = Positional | EndOfFlags | Named string

definition argument_of :: "string \<Rightarrow> argument" where
  "argument_of s =
     (if length s < 2 \<or> hd s \<noteq> CHR ''-'' then Positional
      else if s = ''--'' then EndOfFlags
      else Named (if s ! 1 = CHR ''-'' then drop 2 s else drop 1 s))"

text \<open>A flag's own argument may be the next one: the second list is what is left.\<close>

definition flag_argument :: "flag_kind \<Rightarrow> string option \<Rightarrow> string list \<Rightarrow> (string \<times> string list) option" where
  "flag_argument k given rest =
     (case given of
        Some v \<Rightarrow> Some (v, rest)
      | None \<Rightarrow>
        if k = BoolFlag then Some (''true'', rest)
        else (case rest of [] \<Rightarrow> None | v # rest' \<Rightarrow> Some (v, rest')))"

lemma flag_argument_shorter: "flag_argument k g rest = Some (v, rest') \<Longrightarrow> length rest' \<le> length rest"
  by (auto simp: flag_argument_def split: option.splits if_splits list.splits)

function (sequential) Parse :: "flag_set \<Rightarrow> flag_values \<Rightarrow> string list \<Rightarrow> flag_error + flag_values \<times> string list" where
  "Parse fs vals [] = Inr (vals, [])"
| "Parse fs vals (s # rest) =
     (case argument_of s of
        Positional \<Rightarrow> Inr (vals, s # rest)
      | EndOfFlags \<Rightarrow> Inr (vals, rest)
      | Named n \<Rightarrow>
        if n = [] \<or> hd n = CHR ''-'' \<or> hd n = CHR ''='' then Inl (FlagError (Plain ''bad flag syntax''))
        else
        (case split_flag n of
           (name, given) \<Rightarrow>
           (case map_of fs name of
              None \<Rightarrow> Inl (if name = ''help'' \<or> name = ''h'' then ErrHelp else FlagError (Plain ''flag provided but not defined''))
            | Some k \<Rightarrow>
              (case flag_argument k given rest of
                 None \<Rightarrow> Inl (FlagError (Plain ''flag needs an argument''))
               | Some (v, rest') \<Rightarrow>
                 (case Set_flag k v of
                    None \<Rightarrow> Inl (FlagError (Plain ''invalid value''))
                  | Some x \<Rightarrow> Parse fs ((name, x) # vals) rest')))))"
  by pat_completeness auto
termination
  by (relation "measure (\<lambda>(_, _, as). length as)") (auto dest!: flag_argument_shorter)

definition bool_flag :: "flag_values \<Rightarrow> string \<Rightarrow> bool" where
  "bool_flag vals name = (case map_of vals name of Some (BoolValue b) \<Rightarrow> b | _ \<Rightarrow> False)"

definition int_flag :: "flag_values \<Rightarrow> string \<Rightarrow> int \<Rightarrow> int" where
  "int_flag vals name missing = (case map_of vals name of Some (IntValue n) \<Rightarrow> n | _ \<Rightarrow> missing)"

definition string_flag :: "flag_values \<Rightarrow> string \<Rightarrow> string \<Rightarrow> string" where
  "string_flag vals name missing = (case map_of vals name of Some (StringValue s) \<Rightarrow> s | _ \<Rightarrow> missing)"

section \<open>Facts about parsing\<close>

text \<open>Every value set is of the kind of its flag.\<close>

definition value_fits :: "flag_kind \<Rightarrow> flag_value \<Rightarrow> bool" where
  "value_fits k v \<longleftrightarrow> (case v of BoolValue _ \<Rightarrow> k = BoolFlag | IntValue _ \<Rightarrow> k = IntFlag | StringValue _ \<Rightarrow> k = StringFlag)"

lemma Set_flag_fits: "Set_flag k s = Some v \<Longrightarrow> value_fits k v"
  by (cases k) (auto simp: Set_flag_def value_fits_def)

lemma Parse_fits:
  assumes "Parse fs vals as = Inr (vals', rest)" "\<And>n v. (n, v) \<in> set vals \<Longrightarrow> \<exists>k. map_of fs n = Some k \<and> value_fits k v"
  shows "\<And>n v. (n, v) \<in> set vals' \<Longrightarrow> \<exists>k. map_of fs n = Some k \<and> value_fits k v"
  using assms
proof (induction fs vals as arbitrary: vals' rest rule: Parse.induct)
  case (2 fs vals s as)
  show ?case
  proof (cases "argument_of s")
    case (Named nm)
    obtain name given where nm: "split_flag nm = (name, given)" by (rule prod.exhaust)
    obtain k v as' x where steps: "map_of fs name = Some k" "flag_argument k given as = Some (v, as')"
        "Set_flag k v = Some x" "Parse fs ((name, x) # vals) as' = Inr (vals', rest)"
        "\<not> (nm = [] \<or> hd nm = CHR ''-'' \<or> hd nm = CHR ''='')"
      using 2(3) Named nm by (auto split: if_splits option.splits)
    show ?thesis
      by (rule 2(1) [OF Named steps(5) nm [symmetric] steps(1,2) refl steps(3) 2(2) steps(4)])
        (use 2(4) steps Set_flag_fits in auto)
  qed (use 2 in auto)
qed simp

end
