(* ===== verification/Cli.thy ===== *)
theory Cli
  imports Server Flags
begin

text \<open>
  The subcommands of \<open>cmd/cmgr\<close> that drive the manager: each is a function of its parsed options and
  positional arguments that gives an exit code and what it prints. Usage texts and messages on standard error
  are left out, the parsing of options is that of Go's \<open>flag\<close> package. \<open>convert-to-custom\<close> and the
  portal of \<open>playtest\<close> have their own theories.
\<close>

section \<open>Start-up\<close>

definition log_level :: "string option \<Rightarrow> LogLevel" where
  "log_level v =
     (if v = Some ''debug'' then DEBUG else if v = Some ''info'' then INFO else if v = Some ''warn'' then WARN
      else if v = Some ''error'' then ERROR else if v = Some ''disabled'' then DISABLED else WARN)"

text \<open>The usage text says that the level defaults to \<open>disabled\<close>; without the variable warnings are logged.\<close>

lemma unset_level_is_warn: "log_level None = WARN"
  by (simp add: log_level_def)

section \<open>Output\<close>

record 'w cli =
  cl_daemon :: "'w daemon"
  cl_site :: site
  cl_solver :: "'w solver_calls"
  cl_text :: "err \<Rightarrow> string"
  cl_json :: "ChallengeMetadata list \<Rightarrow> err + string"
  cl_schema_json :: "string \<Rightarrow> err + Schema option"
  cl_schema_yaml :: "string \<Rightarrow> err + Schema option"
  cl_ReadFile :: "string \<Rightarrow> err + string"
  cl_DIR :: "string option"
  cl_ARTIFACT_DIR :: "string option"

type_synonym 'w command = "'w world \<Rightarrow> (int \<times> string) \<times> 'w world"

definition USAGE_ERROR :: int where "USAGE_ERROR = -2"
definition RUNTIME_ERROR :: int where "RUNTIME_ERROR = -1"
definition NO_ERROR :: int where "NO_ERROR = 0"

definition usage :: "'w command" where
  "usage w = ((USAGE_ERROR, []), w)"

definition println :: "string \<Rightarrow> string" where
  "println s = s @ [CHR 0x0A]"

definition error_line :: "'w cli \<Rightarrow> string \<Rightarrow> err \<Rightarrow> string" where
  "error_line cl what e = println (what @ '': '' @ cl_text cl e)"

text \<open>An operation whose error is printed, and one whose result is.\<close>

definition report_error :: "'w cli \<Rightarrow> string \<Rightarrow> ('a \<Rightarrow> string) \<Rightarrow> ('w world, 'a) act \<Rightarrow> 'w command" where
  "report_error cl what shown m w =
     (case m w of
        (Inl e, w') \<Rightarrow> ((RUNTIME_ERROR, error_line cl what e), w')
      | (Inr x, w') \<Rightarrow> ((NO_ERROR, shown x), w'))"

fun numbered :: "'w cli \<Rightarrow> nat \<Rightarrow> err list \<Rightarrow> string" where
  "numbered cl n [] = []"
| "numbered cl n (e # es) = println (''    '' @ nat_dec n @ '') '' @ cl_text cl e) @ numbered cl (Suc n) es"

section \<open>Challenges\<close>

definition challenge_line :: "bool \<Rightarrow> ChallengeMetadata \<Rightarrow> string" where
  "challenge_line verbose c = println (if verbose then ch_Id c @ '': '' @ in_dq (ch_Name c) else ch_Id c)"

definition printChallenges :: "bool \<Rightarrow> ChallengeMetadata list \<Rightarrow> string" where
  "printChallenges verbose cs = concat (map (challenge_line verbose) cs)"

definition id_list :: "string \<Rightarrow> ChallengeMetadata list \<Rightarrow> string" where
  "id_list heading cs =
     (if cs = [] then [] else println (heading @ '':'') @ concat (map (\<lambda>c. println (''    '' @ ch_Id c)) cs))"

definition printChanges :: "'w cli \<Rightarrow> ChallengeUpdates \<Rightarrow> bool \<Rightarrow> string" where
  "printChanges cl cu verbose =
     (if verbose then id_list ''Unmodified'' (Unmodified cu) else []) @ id_list ''Added'' (Added cu) @
     id_list ''Refreshed'' (Refreshed cu) @ id_list ''Updated'' (Updated cu) @ id_list ''Removed'' (Removed cu) @
     (if cu_Errors cu = [] then [] else println ''Errors:'' @ numbered cl 1 (cu_Errors cu))"

text \<open>\<open>ListChallenges\<close> and \<open>SearchChallenges\<close> drop the error.\<close>

definition or_nothing :: "('w world, 'a list) act \<Rightarrow> 'w world \<Rightarrow> 'a list \<times> 'w world" where
  "or_nothing m w = (case m w of (Inl _, w') \<Rightarrow> ([], w') | (Inr xs, w') \<Rightarrow> (xs, w'))"

definition listChallenges_cmd :: "bool \<Rightarrow> 'w command" where
  "listChallenges_cmd verbose w = (case or_nothing (in_db listChallenges) w of (cs, w') \<Rightarrow> ((NO_ERROR, printChallenges verbose cs), w'))"

definition searchChallenges_cmd :: "bool \<Rightarrow> string list \<Rightarrow> 'w command" where
  "searchChallenges_cmd verbose ts w =
     (case or_nothing (in_db (searchChallenges ts)) w of (cs, w') \<Rightarrow> ((NO_ERROR, printChallenges verbose cs), w'))"

text \<open>The loop over the unmodified challenges: the full metadata where it can be read, the errors beside it.\<close>

fun full_metadata :: "site \<Rightarrow> ChallengeMetadata list \<Rightarrow> 'w world \<Rightarrow> (ChallengeMetadata list \<times> err list) \<times> 'w world" where
  "full_metadata st [] w = (([], []), w)"
| "full_metadata st (c # cs) w =
     (case in_db (find_challenge st (ch_Id c)) w of
        (Inl e, w1) \<Rightarrow> (case full_metadata st cs w1 of ((ms, es), w2) \<Rightarrow> ((c # ms, e # es), w2))
      | (Inr m, w1) \<Rightarrow> (case full_metadata st cs w1 of ((ms, es), w2) \<Rightarrow> ((m # ms, es), w2)))"

definition getMetaByDir :: "'w cli \<Rightarrow> string \<Rightarrow> 'w world \<Rightarrow> (ChallengeMetadata list \<times> string) \<times> 'w world" where
  "getMetaByDir cl dir w =
     (case DetectChanges (cl_site cl) dir (wdb w) of (cu, d) \<Rightarrow>
      case full_metadata (cl_site cl) (Unmodified cu) (w\<lparr>wdb := d\<rparr>) of ((ms, es), w') \<Rightarrow>
      let cu' = cu\<lparr>Unmodified := ms, cu_Errors := cu_Errors cu @ es\<rparr> in
      if cu_Errors cu' \<noteq> [] then (([], println ''error: errors occurred during execution:'' @ numbered cl 1 (cu_Errors cu')), w')
      else if length (Added cu') + length (Updated cu') + length (Refreshed cu') + length (Removed cu') > 0
      then (([], println (''error: database out of sync with filesystem, run '' @ [CHR 0x27] @ ''update'' @ [CHR 0x27]) @ printChanges cl cu' False), w')
      else ((Unmodified cu', []), w'))"

definition challenge_info :: "bool \<Rightarrow> ChallengeMetadata \<Rightarrow> string" where
  "challenge_info verbose c =
     println (ch_Id c) @ println (''    Name: '' @ ch_Name c) @ println (''    Challenge Type: '' @ ChallengeType c) @
     println (''    Category: '' @ Category c) @ println (''    Points: '' @ Itoa (Points c)) @
     (if \<not> verbose then []
      else println ([CHR 0x0A] @ ''    Description:'') @ println (''        '' @ Description c) @
        println ([CHR 0x0A] @ ''    Details:'') @ println (''        '' @ Details c) @
        (if Hints c = [] then []
         else println ([CHR 0x0A] @ ''    Hints'') @ concat (map (\<lambda>h. println (''        - '' @ h)) (Hints c))))"

definition displayChallengeInfo :: "'w cli \<Rightarrow> bool \<Rightarrow> string list \<Rightarrow> 'w command" where
  "displayChallengeInfo cl verbose args w =
     (if length args > 1 then usage w
      else case getMetaByDir cl (case args of [] \<Rightarrow> ''.'' | p # _ \<Rightarrow> p) w of
        ((ms, out), w') \<Rightarrow> ((NO_ERROR, out @ concat (map (challenge_info verbose) ms)), w'))"

definition updateChallengeInfo :: "'w cli \<Rightarrow> bool \<Rightarrow> bool \<Rightarrow> string list \<Rightarrow> 'w command" where
  "updateChallengeInfo cl verbose dryRun args w =
     (if length args > 1 then usage w
      else
      let path = (case args of p # _ \<Rightarrow> p | [] \<Rightarrow> (case cl_DIR cl of None \<Rightarrow> ''.'' | Some d \<Rightarrow> d)) in
      case (if dryRun then (case DetectChanges (cl_site cl) path (wdb w) of (cu, d) \<Rightarrow> (cu, w\<lparr>wdb := d\<rparr>))
            else Update (cl_daemon cl) (cl_site cl) path w) of
        (cu, w') \<Rightarrow> ((if cu_Errors cu \<noteq> [] then RUNTIME_ERROR else NO_ERROR, printChanges cl cu verbose), w'))"

definition freezeChallenge :: "'w cli \<Rightarrow> bool \<Rightarrow> string list \<Rightarrow> 'w command" where
  "freezeChallenge cl force args w =
     (case args of
        [c] \<Rightarrow> (case Freeze (cl_daemon cl) (cl_site cl) c force w of
            (Inl _, w') \<Rightarrow> ((RUNTIME_ERROR, []), w') | (Inr _, w') \<Rightarrow> ((NO_ERROR, []), w'))
      | _ \<Rightarrow> usage w)"

text \<open>The Dockerfile of a type, on standard output or in a file, which is then the last component.\<close>

definition dockerfile :: "'w cli \<Rightarrow> string \<Rightarrow> string list \<Rightarrow> 'w world \<Rightarrow> ((int \<times> string) \<times> (string \<times> string) option) \<times> 'w world" where
  "dockerfile cl outfile args w =
     (case args of
        [t] \<Rightarrow>
          (let d = (case GetDockerfile (ld_files (st_loaders (cl_site cl))) t of None \<Rightarrow> [] | Some d \<Rightarrow> d) in
           if d = [] then (((RUNTIME_ERROR, []), None), w)
           else if outfile = [] then (((NO_ERROR, println d), None), w)
           else case bnd (host_call ''create'') (\<lambda>_. host_call ''write'') w of
             (Inl _, w') \<Rightarrow> (((RUNTIME_ERROR, []), None), w')
           | (Inr _, w') \<Rightarrow> (((NO_ERROR, []), Some (outfile, d)), w'))
      | _ \<Rightarrow> (((USAGE_ERROR, []), None), w))"

section \<open>Builds and instances\<close>

fun all_parsed :: "('a \<Rightarrow> 'b option) \<Rightarrow> 'a list \<Rightarrow> 'b list option" where
  "all_parsed f [] = Some []"
| "all_parsed f (x # xs) = (case f x of None \<Rightarrow> None | Some y \<Rightarrow> map_option ((#) y) (all_parsed f xs))"

definition doBuild :: "'w cli \<Rightarrow> string \<Rightarrow> string list \<Rightarrow> 'w command" where
  "doBuild cl flagFormat args w =
     (case args of
        challenge # seeds \<Rightarrow>
          if seeds = [] then usage w
          else (case all_parsed ParseInt seeds of
            None \<Rightarrow> usage w
          | Some ns \<Rightarrow> report_error cl ''error''
              (\<lambda>bs. println ''Build IDs:'' @ concat (map (\<lambda>b. println (''    '' @ Itoa (bd_Id b))) bs))
              (Build (cl_daemon cl) (cl_site cl) challenge ns flagFormat) w)
      | [] \<Rightarrow> usage w)"

text \<open>A loop over arguments that goes on after an error.\<close>

fun run_each :: "('a \<Rightarrow> 'w command) \<Rightarrow> 'a list \<Rightarrow> 'w command" where
  "run_each f [] w = ((NO_ERROR, []), w)"
| "run_each f (x # xs) w =
     (case f x w of ((c1, o1), w1) \<Rightarrow>
      case run_each f xs w1 of ((c2, o2), w2) \<Rightarrow> ((if c1 = NO_ERROR then c2 else c1, o1 @ o2), w2))"

text \<open>
  An identifier that is no number is reported, and then the number that \<open>Atoi\<close> gives beside its error is
  destroyed all the same: 0, or the closest integer of 64 bits when the number is out of range.
\<close>

definition Atoi_rest :: "string \<Rightarrow> err \<Rightarrow> int" where
  "Atoi_rest arg e =
     (if e \<noteq> Plain ''value out of range'' then 0 else if hd arg = CHR ''-'' then - (2 ^ 63) else 2 ^ 63 - 1)"

definition destroy_arg :: "'w cli \<Rightarrow> string \<Rightarrow> 'w command" where
  "destroy_arg cl arg w =
     (case (case Atoi arg of
        Inl e \<Rightarrow> (RUNTIME_ERROR, error_line cl ''error: could not interpret build id'' e, Atoi_rest arg e)
      | Inr n \<Rightarrow> (NO_ERROR, [], n)) of (c0, o0, build) \<Rightarrow>
      case report_error cl ''error: could not destroy build'' (\<lambda>_. []) (Destroy (cl_daemon cl) build) w of
        ((c, out), w') \<Rightarrow> ((if c = NO_ERROR then c0 else c, o0 @ out), w'))"

definition destroyBuilds :: "'w cli \<Rightarrow> string list \<Rightarrow> 'w command" where
  "destroyBuilds cl args w =
     (if args = [] then ((USAGE_ERROR, println ''error: expected at least one build id''), w) else run_each (destroy_arg cl) args w)"

definition startInstance_cmd :: "'w cli \<Rightarrow> string list \<Rightarrow> 'w command" where
  "startInstance_cmd cl args w =
     (case args of
        [arg] \<Rightarrow> (case Atoi arg of
            Inl _ \<Rightarrow> usage w
          | Inr build \<Rightarrow> report_error cl ''error: could not start instance'' (\<lambda>i. println (''Instance ID: '' @ Itoa i))
              (Start (cl_daemon cl) (cl_site cl) build) w)
      | _ \<Rightarrow> usage w)"

definition check_one :: "'w cli \<Rightarrow> InstanceId \<Rightarrow> 'w command" where
  "check_one cl i = report_error cl (''check of instance '' @ Itoa i @ '' failed with'') (\<lambda>_. [])
     (CheckInstance (cl_daemon cl) (cl_site cl) (cl_solver cl) i)"

definition checkInstances :: "'w cli \<Rightarrow> string list \<Rightarrow> 'w command" where
  "checkInstances cl args w =
     (if args = [] then usage w
      else case all_parsed (\<lambda>a. case Atoi a of Inl _ \<Rightarrow> None | Inr n \<Rightarrow> Some n) args of
        None \<Rightarrow> usage w
      | Some is \<Rightarrow> run_each (check_one cl) is w)"

definition stopInstance_cmd :: "'w cli \<Rightarrow> string list \<Rightarrow> 'w command" where
  "stopInstance_cmd cl args w =
     (case args of
        [arg] \<Rightarrow> (case Atoi arg of
            Inl _ \<Rightarrow> usage w
          | Inr i \<Rightarrow> report_error cl ''error: could not stop instance'' (\<lambda>_. []) (Stop (cl_daemon cl) i) w)
      | _ \<Rightarrow> usage w)"

section \<open>The whole system\<close>

definition triple :: "ChallengeMetadata \<Rightarrow> BuildMetadata \<Rightarrow> InstanceMetadata \<Rightarrow> string" where
  "triple c b i = ch_Id c @ ''|'' @ Itoa (bd_Id b) @ ''|'' @ Itoa (in_Id i)"

text \<open>What is announced is printed before the operation runs.\<close>

definition announced :: "bool \<Rightarrow> string \<Rightarrow> 'w command \<Rightarrow> 'w command" where
  "announced verbose what f w = (case f w of ((c, out), w') \<Rightarrow> ((c, (if verbose then println (what @ ''...'') else []) @ out), w'))"

definition reset_instance :: "'w cli \<Rightarrow> bool \<Rightarrow> ChallengeMetadata \<Rightarrow> BuildMetadata \<Rightarrow> InstanceMetadata \<Rightarrow> 'w command" where
  "reset_instance cl verbose c b i = announced verbose (''Stopping '' @ triple c b i)
     (report_error cl (''error stopping '' @ triple c b i) (\<lambda>_. []) (Stop (cl_daemon cl) (in_Id i)))"

definition both_commands :: "'w command \<Rightarrow> 'w command \<Rightarrow> 'w command" where
  "both_commands f g w =
     (case f w of ((c1, o1), w1) \<Rightarrow> case g w1 of ((c2, o2), w2) \<Rightarrow> ((if c1 = NO_ERROR then c2 else c1, o1 @ o2), w2))"

definition reset_build :: "'w cli \<Rightarrow> bool \<Rightarrow> ChallengeMetadata \<Rightarrow> BuildMetadata \<Rightarrow> 'w command" where
  "reset_build cl verbose c b =
     both_commands (run_each (reset_instance cl verbose c b) (Instances b))
       (announced verbose (''Destroying '' @ ch_Id c @ ''|'' @ Itoa (bd_Id b))
         (report_error cl (''error destroying '' @ ch_Id c @ ''|'' @ Itoa (bd_Id b)) (\<lambda>_. []) (Destroy (cl_daemon cl) (bd_Id b))))"

definition resetSystemState :: "'w cli \<Rightarrow> bool \<Rightarrow> string list \<Rightarrow> 'w command" where
  "resetSystemState cl verbose args w =
     (if args \<noteq> [] then usage w
      else case in_db (DumpState (cl_site cl) []) w of
        (Inl e, w') \<Rightarrow> ((RUNTIME_ERROR, error_line cl ''error'' e), w')
      | (Inr state, w') \<Rightarrow> run_each (\<lambda>c. run_each (reset_build cl verbose c) (ch_Builds c)) state w')"

definition dump_summary :: "ChallengeMetadata \<Rightarrow> string" where
  "dump_summary c =
     (if ch_Builds c = [] then []
      else println (ch_Id c @ '': '' @ nat_dec (length (ch_Builds c)) @ '' builds ('' @
        nat_dec (sum_list (map (\<lambda>b. length (Instances b)) (ch_Builds c))) @ '' instances)''))"

definition dump_plain :: "ChallengeMetadata \<Rightarrow> string" where
  "dump_plain c =
     println (ch_Id c @ '':'') @ concat (map (\<lambda>b. println (''    Build ID: '' @ Itoa (bd_Id b)) @
       concat (map (\<lambda>i. println (''        '' @ Itoa (in_Id i))) (Instances b))) (ch_Builds c))"

definition dumpSystemState :: "'w cli \<Rightarrow> bool \<Rightarrow> bool \<Rightarrow> string list \<Rightarrow> 'w command" where
  "dumpSystemState cl summarized jsonout args w =
     (if summarized \<and> jsonout then usage w
      else case in_db (DumpState (cl_site cl) args) w of
        (Inl e, w') \<Rightarrow> ((RUNTIME_ERROR, error_line cl ''error'' e), w')
      | (Inr state, w') \<Rightarrow>
        (if summarized then (NO_ERROR, concat (map dump_summary state))
         else if jsonout then (case cl_json cl state of
             Inl e \<Rightarrow> (RUNTIME_ERROR, ''error: JSON encoding failed: '' @ cl_text cl e) | Inr t \<Rightarrow> (NO_ERROR, println t))
         else (NO_ERROR, concat (map dump_plain state)), w'))"

section \<open>Tests\<close>

definition or_dot :: "string option \<Rightarrow> string" where
  "or_dot x = (case x of None \<Rightarrow> ''.'' | Some s \<Rightarrow> s)"

text \<open>What a test without a solver shows. A lookup ends with a backspace, not with a line feed.\<close>

definition test_report :: "'w cli \<Rightarrow> ChallengeMetadata \<Rightarrow> BuildMetadata \<Rightarrow> InstanceMetadata \<Rightarrow> string" where
  "test_report cl c b i =
     println (triple c b i) @ println (''    flag: '' @ Flag b) @
     (if LookupData b = [] then []
      else println ''    lookup data:'' @ concat (map (\<lambda>(k, v). ''        '' @ k @ '': '' @ v @ [CHR 0x08]) (LookupData b))) @
     (if \<not> HasArtifacts b then []
      else println (''    artifacts file: '' @ Join_path (or_dot (cl_ARTIFACT_DIR cl)) (Itoa (bd_Id b)) @ ''.tar.gz'')) @
     (if in_Ports i = [] then []
      else println ''    ports:'' @ concat (map (\<lambda>(n, p). println (''        '' @ n @ '': '' @ Itoa p)) (in_Ports i)))"

definition test_error :: "'w cli \<Rightarrow> ChallengeMetadata \<Rightarrow> string \<Rightarrow> err \<Rightarrow> string" where
  "test_error cl c what e = error_line cl (''error ('' @ ch_Id c @ ''): '' @ what) e"

definition test_instance :: "'w cli \<Rightarrow> ChallengeMetadata \<Rightarrow> BuildMetadata \<Rightarrow> bool \<Rightarrow> bool \<Rightarrow> InstanceId \<Rightarrow> 'w world \<Rightarrow>
    (bool \<times> string) \<times> 'w world" where
  "test_instance cl c b solve required i w =
     (if solve \<and> SolveScript c then
        (case CheckInstance (cl_daemon cl) (cl_site cl) (cl_solver cl) i w of
           (Inl e, w') \<Rightarrow> ((False, test_error cl c ''solver failed'' e), w')
         | (Inr _, w') \<Rightarrow> ((True, []), w'))
      else if solve \<and> required then ((False, println (''error ('' @ ch_Id c @ ''): no solver found'')), w)
      else if \<not> solve then
        (case in_db (lookupInstanceMetadata i) w of
           (Inl e, w') \<Rightarrow> ((False, test_error cl c ''could not get instance metadata'' e), w')
         | (Inr im, w') \<Rightarrow> ((True, test_report cl c b (im\<lparr>in_Id := i\<rparr>)), w'))
      else ((True, []), w))"

text \<open>The deferred \<open>Stop\<close> and \<open>Destroy\<close> run in this order, and their errors are dropped.\<close>

definition after_test :: "bool \<Rightarrow> ('w world, unit) act \<Rightarrow> 'b \<times> 'w world \<Rightarrow> 'b \<times> 'w world" where
  "after_test solve cleanup q = (fst q, if solve then snd (cleanup (snd q)) else snd q)"

definition runTest :: "'w cli \<Rightarrow> ChallengeMetadata \<Rightarrow> string \<Rightarrow> int \<Rightarrow> bool \<Rightarrow> bool \<Rightarrow> 'w world \<Rightarrow> (bool \<times> string) \<times> 'w world" where
  "runTest cl c flagFormat seed solve required w =
     (case Build (cl_daemon cl) (cl_site cl) (ch_Id c) [seed] flagFormat w of
        (Inl e, w1) \<Rightarrow> ((False, test_error cl c ''could not build'' e), w1)
      | (Inr bs, w1) \<Rightarrow>
        let b = hd bs in
        after_test solve (Destroy (cl_daemon cl) (bd_Id b))
          (case Start (cl_daemon cl) (cl_site cl) (bd_Id b) w1 of
             (Inl e, w2) \<Rightarrow> ((False, test_error cl c ''could not start instance'' e), w2)
           | (Inr i, w2) \<Rightarrow> after_test solve (Stop (cl_daemon cl) i) (test_instance cl c b solve required i w2)))"

definition test_command :: "'w cli \<Rightarrow> string \<Rightarrow> int \<Rightarrow> bool \<Rightarrow> bool \<Rightarrow> ChallengeMetadata \<Rightarrow> 'w command" where
  "test_command cl flagFormat seed solve required c w =
     (case runTest cl c flagFormat seed solve required w of ((ok, out), w') \<Rightarrow> ((if ok then NO_ERROR else RUNTIME_ERROR, out), w'))"

definition testChallenges :: "'w cli \<Rightarrow> bool \<Rightarrow> bool \<Rightarrow> int \<Rightarrow> string \<Rightarrow> string list \<Rightarrow> 'w command" where
  "testChallenges cl noSolve required seed flagFormat args w =
     (if noSolve \<and> required \<or> length args > 1 then usage w
      else
      let path = (case args of [] \<Rightarrow> ''.'' | p # _ \<Rightarrow> p) in
      case Update (cl_daemon cl) (cl_site cl) path w of (cu, w1) \<Rightarrow>
      if cu_Errors cu \<noteq> [] then ((RUNTIME_ERROR, printChanges cl cu False), w1)
      else case getMetaByDir cl path w1 of ((ms, out), w2) \<Rightarrow>
      case run_each (test_command cl flagFormat seed (\<not> noSolve) required) ms w2 of
        ((code, out'), w3) \<Rightarrow> ((code, printChanges cl cu False @ out @ out'), w3))"

text \<open>A directory whose challenges cannot be read after the update is not tested, and the exit code is that of success.\<close>

lemma untested_is_success:
  assumes "Update (cl_daemon cl) (cl_site cl) path w = (cu, w1)" "cu_Errors cu = []" "getMetaByDir cl path w1 = (([], out), w2)"
  shows "testChallenges cl False True seed flagFormat [path] w = ((NO_ERROR, printChanges cl cu False @ out), w2)"
  using assms by (simp add: testChallenges_def)

text \<open>\<open>playtest\<close>: a build and an instance for as long as the portal runs; both are removed afterwards.\<close>

definition playtestChallenge :: "'w cli \<Rightarrow> (BuildId \<Rightarrow> InstanceId \<Rightarrow> 'w command) \<Rightarrow> string \<Rightarrow> int \<Rightarrow> int \<Rightarrow> string \<Rightarrow> string list \<Rightarrow> 'w command" where
  "playtestChallenge cl portal iface port seed flagFormat args w =
     (case args of
        [cid] \<Rightarrow>
          (case Build (cl_daemon cl) (cl_site cl) cid [seed] flagFormat w of
             (Inl e, w1) \<Rightarrow> ((RUNTIME_ERROR, error_line cl ''error creating build'' e), w1)
           | (Inr bs, w1) \<Rightarrow>
             let bid = bd_Id (hd bs) in
             after_test True (Destroy (cl_daemon cl) bid)
               (case Start (cl_daemon cl) (cl_site cl) bid w1 of
                  (Inl e, w2) \<Rightarrow> ((RUNTIME_ERROR, error_line cl ''error creating instance'' e), w2)
                | (Inr iid, w2) \<Rightarrow> after_test True (Stop (cl_daemon cl) iid)
                    (case portal bid iid w2 of ((code, out), w3) \<Rightarrow>
                       ((code, println (''challenge information available at: http://'' @
                          (if iface = ''0.0.0.0'' then ''localhost'' else iface) @ '':'' @ Itoa port @ ''/'') @ out), w3))))
      | _ \<Rightarrow> usage w)"

section \<open>Schemas\<close>

definition loadSchema :: "'w cli \<Rightarrow> string \<Rightarrow> Schema option \<times> int \<times> string" where
  "loadSchema cl fname =
     (case cl_ReadFile cl fname of
        Inl e \<Rightarrow> (None, RUNTIME_ERROR, error_line cl ''error'' e)
      | Inr data \<Rightarrow>
        if Ext fname = ''.json'' \<or> Ext fname = ''.yaml'' then
          (case (if Ext fname = ''.json'' then cl_schema_json cl data else cl_schema_yaml cl data) of
             Inl e \<Rightarrow> (None, RUNTIME_ERROR, error_line cl ''error'' e)
           | Inr s \<Rightarrow> (s, NO_ERROR, []))
        else (None, USAGE_ERROR, println (''error: unrecognized file extension of '' @ [CHR 0x27] @ Ext fname @ [CHR 0x27] @ ''; expected '' @
          [CHR 0x27] @ ''yaml'' @ [CHR 0x27] @ '' or '' @ [CHR 0x27] @ ''json'' @ [CHR 0x27])))"

definition with_schema :: "'w cli \<Rightarrow> (Schema option \<Rightarrow> 'w world \<Rightarrow> err list \<times> 'w world) \<Rightarrow> string list \<Rightarrow> 'w command" where
  "with_schema cl apply_one args w =
     (case args of
        [fname] \<Rightarrow>
          (case loadSchema cl fname of (schema, code, out) \<Rightarrow>
             if code \<noteq> NO_ERROR then ((code, out), w)
             else case apply_one schema w of
               (es, w') \<Rightarrow> ((if es = [] then NO_ERROR else RUNTIME_ERROR, concat (map (error_line cl ''error'') es)), w'))
      | _ \<Rightarrow> usage w)"

definition addSchema :: "'w cli \<Rightarrow> string list \<Rightarrow> 'w command" where
  "addSchema cl = with_schema cl (CreateSchema (cl_daemon cl) (cl_site cl))"

definition updateSchema :: "'w cli \<Rightarrow> string list \<Rightarrow> 'w command" where
  "updateSchema cl = with_schema cl (UpdateSchema (cl_daemon cl) (cl_site cl))"

definition removeSchema :: "'w cli \<Rightarrow> string list \<Rightarrow> 'w command" where
  "removeSchema cl args w =
     (case args of [name] \<Rightarrow> report_error cl ''error'' (\<lambda>_. []) (DeleteSchema (cl_daemon cl) name) w | _ \<Rightarrow> usage w)"

definition listSchemas :: "'w cli \<Rightarrow> string list \<Rightarrow> 'w command" where
  "listSchemas cl args w =
     (if args \<noteq> [] then usage w else report_error cl ''error'' (\<lambda>ns. concat (map println ns)) (in_db queryForSchemas) w)"

definition showSchema :: "'w cli \<Rightarrow> string list \<Rightarrow> 'w command" where
  "showSchema cl args w =
     (case args of
        [name] \<Rightarrow> report_error cl ''error'' println
          (bnd (in_db (GetSchemaState (cl_site cl) name)) (\<lambda>state. lift_sum (cl_json cl state))) w
      | _ \<Rightarrow> usage w)"

section \<open>A reset that succeeds\<close>

text \<open>The constraints of the tables hold after every statement, so every operation keeps them.\<close>

lemma maintains_outcomes:
  assumes "\<And>s x s'. P s \<Longrightarrow> m s = (Inr x, s') \<Longrightarrow> P s'" "\<And>s e s'. P s \<Longrightarrow> m s = (Inl e, s') \<Longrightarrow> P s'"
  shows "maintains P m"
  unfolding maintains_def
proof (intro allI impI)
  fix s
  assume s: "P s"
  obtain r s' where r: "m s = (r, s')" by (rule prod.exhaust)
  then show "P (snd (m s))" using assms [OF s] by (cases r) simp_all
qed

lemma constraints_statements:
  "maintains (in_tables constraints) (update f)" "maintains (in_tables constraints) (exec g)"
  "maintains (in_tables constraints) (affecting h)"
proof -
  show e: "maintains (in_tables constraints) (exec g)" for g :: "tables \<Rightarrow> tables \<times> 'c"
    by (rule maintains_outcomes) (auto simp: in_tables_def dest: exec_Inr exec_Inl)
  show "maintains (in_tables constraints) (update f)"
    by (rule maintains_outcomes) (auto simp: in_tables_def dest: update_Inr update_Inl)
  show "maintains (in_tables constraints) (affecting h)"
    unfolding affecting_def by (intro maintains_intros e)
qed

lemma withstands_constraints: "withstands constraints UNIV"
  unfolding withstands_def openInstance_def finalizeInstance_def replaceInstanceRuntimeMetadata_def removeContainerMetadata_def
    removeInstancePorts_def retireContainer_def forgetRetiredContainer_def retireNetwork_def forgetRetiredNetwork_def
    removeInstanceMetadata_def track_container_def
  by (intro conjI allI ballI impI maintains_intros constraints_statements UNIV_I)

definition lacks :: "BuildId \<Rightarrow> tables \<Rightarrow> bool" where
  "lacks b t \<longleftrightarrow> b \<notin> set (map br_id (builds t))"

lemma lacks_core: "of_core (lacks b)"
  by (simp add: of_core_def core_def lacks_def)

lemma stop_keeps:
  assumes "withstands Q UNIV"
  shows "maintains (holds Q) (Stop dk i)"
  unfolding Stop_def by (intro maintains_intros holds_stop_instance [OF assms] UNIV_I)

lemma destroy_keeps:
  assumes "maintains (in_tables Q) (removeBuildMetadata b)" "\<And>s. maintains (in_tables Q) (deleteSchemaRecordIfEmpty s)"
  shows "maintains (holds Q) (Destroy dk b)"
  unfolding Destroy_def destroyImages_def schemaIsManual_def
  by (intro maintains_intros assms)

lemma constraints_builds:
  "maintains (in_tables constraints) (removeBuildMetadata b)" "maintains (in_tables constraints) (deleteSchemaRecordIfEmpty s)"
  unfolding removeBuildMetadata_def deleteSchemaRecordIfEmpty_def
  by (intro maintains_intros constraints_statements)+

lemma lacks_builds:
  "maintains (in_tables (lacks b)) (removeBuildMetadata b')" "maintains (in_tables (lacks b)) (deleteSchemaRecordIfEmpty s)"
  unfolding removeBuildMetadata_def deleteSchemaRecordIfEmpty_def
  by (intro maintains_intros in_tables_update in_tables_affecting; auto simp: lacks_def delete_build_def delete_images_def Let_def)+

text \<open>Commands that keep a predicate of the tables, and loops over them.\<close>

lemma keeps_report_error: "maintains (holds Q) m \<Longrightarrow> maintains (holds Q) (report_error cl what shown m)"
  by (rule maintains_runI) (use leaves in \<open>fastforce simp: report_error_def split: prod.splits sum.splits\<close>)

lemma keeps_announced: "maintains P f \<Longrightarrow> maintains P (announced verbose what f)"
  by (rule maintains_runI) (use leaves in \<open>fastforce simp: announced_def split: prod.splits\<close>)

lemma keeps_run_each: "(\<And>x. maintains P (f x)) \<Longrightarrow> maintains P (run_each f xs)"
proof (rule maintains_runI)
  show "P s \<Longrightarrow> P (snd (run_each f xs s))" if "\<And>x. maintains P (f x)" for s
  proof (induction xs arbitrary: s)
    case (Cons x xs)
    obtain c1 o1 w1 where 1: "f x s = ((c1, o1), w1)" by (metis surj_pair)
    obtain c2 o2 w2 where 2: "run_each f xs w1 = ((c2, o2), w2)" by (metis surj_pair)
    have "P w1" using leaves [OF that Cons.prems, of x] 1 by simp
    from Cons.IH [OF this] show ?case using 1 2 by simp
  qed simp
qed

lemma keeps_both: "maintains P f \<Longrightarrow> maintains P g \<Longrightarrow> maintains P (both_commands f g)"
proof (rule maintains_runI)
  fix s
  assume f: "maintains P f" and g: "maintains P g" and s: "P s"
  obtain q1 w1 where 1: "f s = (q1, w1)" by (rule prod.exhaust)
  obtain q2 w2 where 2: "g w1 = (q2, w2)" by (rule prod.exhaust)
  have "P w2" using maintainsD [OF g maintainsD [OF f s 1] 2] .
  then show "P (snd (both_commands f g s))" using 1 2 by (cases q1; cases q2) (simp add: both_commands_def)
qed

lemma keeps_reset:
  assumes "withstands Q UNIV" "\<And>b. maintains (in_tables Q) (removeBuildMetadata b)" "\<And>s. maintains (in_tables Q) (deleteSchemaRecordIfEmpty s)"
  shows "maintains (holds Q) (reset_build cl verbose c b)"
  unfolding reset_build_def reset_instance_def
  by (intro keeps_both keeps_run_each keeps_announced keeps_report_error stop_keeps destroy_keeps assms)

text \<open>When a loop succeeds, each turn did, and what it reached is kept by the others.\<close>

lemma run_each_reaches:
  assumes "run_each f xs w = ((NO_ERROR, out), w')"
    "\<And>x w out w'. x \<in> set xs \<Longrightarrow> f x w = ((NO_ERROR, out), w') \<Longrightarrow> R x w'" "\<And>x y. maintains (R y) (f x)"
  shows "\<forall>x \<in> set xs. R x w'"
  using assms(1,2)
proof (induction xs arbitrary: w out)
  case (Cons x xs)
  obtain c1 o1 w1 c2 o2 w2 where 1: "f x w = ((c1, o1), w1)" "run_each f xs w1 = ((c2, o2), w2)" by (metis surj_pair)
  then have c: "c1 = NO_ERROR" "c2 = NO_ERROR" "w2 = w'" using Cons.prems(1) by (auto split: if_splits)
  have "R x w1" using Cons.prems(2) [of x w o1 w1] 1(1) c(1) by simp
  then have "R x w'" using leaves [OF keeps_run_each [of "R x" f xs] , of w1] assms(3) 1(2) c(3) by simp
  moreover have "\<forall>x \<in> set xs. R x w'"
    using Cons.IH [of w1 o2] Cons.prems(2) 1(2) c by simp
  ultimately show ?case by simp
qed simp

lemma reset_build_reaches:
  assumes "reset_build cl verbose c b w = ((NO_ERROR, out), w')"
  shows "holds (lacks (bd_Id b)) w'"
proof -
  obtain q1 w1 where 1: "run_each (reset_instance cl verbose c b) (Instances b) w = (q1, w1)" by (rule prod.exhaust)
  obtain r w2 where 2: "Destroy (cl_daemon cl) (bd_Id b) w1 = (r, w2)" by (rule prod.exhaust)
  have "r = Inr () \<and> w' = w2" using assms 1 2
    by (cases r) (auto simp: reset_build_def both_commands_def announced_def report_error_def NO_ERROR_def RUNTIME_ERROR_def
        split: prod.splits if_splits)
  then show ?thesis using Destroy_removes [of "cl_daemon cl" "bd_Id b" w1 w2] 2 by (simp add: holds_def lacks_def)
qed

lemma collect_reads:
  assumes "collect f xs d = (Inr ys, d')" "\<And>x. reads_only (f x)"
  shows "\<forall>x \<in> set xs. \<exists>y \<in> set ys. \<exists>d1 d2. tab d1 = tab d \<and> f x d1 = (Inr y, d2)"
  using assms(1)
proof (induction xs arbitrary: ys d)
  case (Cons x xs)
  then obtain y d1 ys' where 1: "f x d = (Inr y, d1)" "collect f xs d1 = (Inr ys', d')" "ys = y # ys'"
    by (auto simp: ret_def elim!: bnd_InrE)
  have "tab d1 = tab d" using reads_onlyD [OF assms(2), of x d] 1(1) by simp
  then show ?case using Cons.IH [OF 1(2)] 1(1,3) by fastforce
qed simp

lemma reads_dumpState: "reads_only (dumpState hash parse)"
  unfolding dumpState_def lookupChallengeMetadata_def by (intro reads_intros)

lemma dump_covers:
  assumes "dumpState hash parse d = (Inr cs, d')" "b \<in> set (builds (tab d))" "br_challenge b \<in> set (map cr_id (challenges (tab d)))"
  shows "\<exists>c \<in> set cs. \<exists>m \<in> set (ch_Builds c). bd_Id m = br_id b"
proof -
  let ?build = "\<lambda>b. bnd (lookupBuildMetadata b) (\<lambda>bMeta.
         bnd (query (\<lambda>t. map nr_id (filter (\<lambda>i. nr_build i = bd_Id bMeta) (instances t)))) (\<lambda>ns.
         bnd (collect lookupInstanceMetadata ns) (\<lambda>iMetas.
         ret (bMeta\<lparr>Instances := iMetas\<rparr>))))"
  let ?one = "\<lambda>c. bnd (lookupChallengeMetadata hash parse (ch_Id c)) (\<lambda>meta.
       bnd (query (\<lambda>t. map br_id (filter (\<lambda>b. br_challenge b = ch_Id c) (builds t)))) (\<lambda>bs.
       bnd (collect ?build bs) (\<lambda>bMetas.
       ret (meta\<lparr>ch_Builds := bMetas\<rparr>))))"
  have rb: "reads_only (?build i)" for i by (intro reads_intros)
  have lc: "reads_only (lookupChallengeMetadata hash parse x)" for x
    unfolding lookupChallengeMetadata_def by (intro reads_intros)
  have r1: "reads_only (?one c)" for c by (intro reads_intros lc)
  obtain listed d1 where l: "listChallenges d = (Inr listed, d1)" "collect ?one listed d1 = (Inr cs, d')"
    using assms(1) unfolding dumpState_def by (rule bnd_InrE)
  have "listed = map summary (sort_key cr_id (challenges (tab d)))" and t1: "tab d1 = tab d"
    using query_Inr [OF l(1) [unfolded listChallenges_def]] by simp_all
  moreover have "ch_Id (summary r) = cr_id r" for r by (simp add: summary_def row_meta_def)
  ultimately have "br_challenge b \<in> ch_Id ` set listed" using assms(3) by (simp add: image_image)
  then obtain x where x: "x \<in> set listed" "ch_Id x = br_challenge b" by auto
  obtain c d2 d3 where c: "c \<in> set cs" "tab d2 = tab d" "?one x d2 = (Inr c, d3)"
    using bspec [OF collect_reads [OF l(2) r1] x(1)] t1 by auto
  obtain meta d4 bs d5 ms d6 where 3: "lookupChallengeMetadata hash parse (ch_Id x) d2 = (Inr meta, d4)"
      "query (\<lambda>t. map br_id (filter (\<lambda>b. br_challenge b = ch_Id x) (builds t))) d4 = (Inr bs, d5)"
      "collect ?build bs d5 = (Inr ms, d6)" "c = meta\<lparr>ch_Builds := ms\<rparr>"
    using c(3) by (elim bnd_InrE) (simp add: ret_def)
  have "tab d4 = tab d" using reads_onlyD [OF lc, of "ch_Id x" d2] 3(1) c(2) by simp
  then have "br_id b \<in> set bs" "tab d5 = tab d" using query_Inr [OF 3(2)] assms(2) x(2) by auto
  then obtain m d7 d8 where m: "m \<in> set ms" "?build (br_id b) d7 = (Inr m, d8)"
    using bspec [OF collect_reads [OF 3(3) rb], of "br_id b"] by blast
  obtain bm d9 where "lookupBuildMetadata (br_id b) d7 = (Inr bm, d9)" "bd_Id m = bd_Id bm"
    using m(2) by (elim bnd_InrE) (auto simp: ret_def)
  then have "bd_Id m = br_id b" using found_build(1) by metis
  moreover have "m \<in> set (ch_Builds c)" using m(1) 3(4) by simp
  ultimately show ?thesis using c(1) by (intro bexI [of _ c] bexI [of _ m])
qed

lemmas lack_kept = keeps_reset [OF withstands_core [OF lacks_core] lacks_builds]

text \<open>A run over all builds that reports no error has destroyed each of them.\<close>

lemma reset_all_reaches:
  fixes w' :: "'w world"
  assumes run: "run_each (\<lambda>c. run_each (reset_build cl verbose c) (ch_Builds c)) state w1 = ((NO_ERROR, out), w')"
  shows "\<forall>c \<in> set state. \<forall>m \<in> set (ch_Builds c). holds (lacks (bd_Id m)) w'"
proof (rule run_each_reaches [OF run, where R = "\<lambda>c w. \<forall>m \<in> set (ch_Builds c). holds (lacks (bd_Id m)) w"])
  fix c w2 o2 w3
  assume "run_each (reset_build cl verbose c) (ch_Builds c) w2 = ((NO_ERROR, o2), w3)"
  then show "\<forall>m \<in> set (ch_Builds c). holds (lacks (bd_Id m)) w3"
    by (rule run_each_reaches) (use reset_build_reaches lack_kept in blast)+
next
  fix x y
  show "maintains (\<lambda>w :: 'w world. \<forall>m \<in> set (ch_Builds y). holds (lacks (bd_Id m)) w) (run_each (reset_build cl verbose x) (ch_Builds x))"
    unfolding maintains_def
  proof (intro allI impI ballI)
    fix s :: "'w world" and m
    assume "\<forall>m \<in> set (ch_Builds y). holds (lacks (bd_Id m)) s" "m \<in> set (ch_Builds y)"
    then show "holds (lacks (bd_Id m)) (snd (run_each (reset_build cl verbose x) (ch_Builds x) s))"
      using leaves [OF keeps_run_each [of "holds (lacks (bd_Id m))" "reset_build cl verbose x"]] lack_kept by blast
  qed
qed

text \<open>
  C10. \<open>cmgr reset\<close> tells the truth. When the command ends with exit code 0, no build and no instance is
  left in the database: the dump it works from covers every build, each one was destroyed, which needs its
  instances to be gone, and nothing that the command does adds one.
\<close>

theorem reset_leaves_nothing:
  assumes "resetSystemState cl verbose args w = ((NO_ERROR, out), w')" "constraints (tab (wdb w))"
  shows "builds (tab (wdb w')) = [] \<and> instances (tab (wdb w')) = []"
proof -
  obtain state w1 where 1: "in_db (DumpState (cl_site cl) []) w = (Inr state, w1)"
      and run: "run_each (\<lambda>c. run_each (reset_build cl verbose c) (ch_Builds c)) state w1 = ((NO_ERROR, out), w')"
    using assms(1) by (auto simp: resetSystemState_def usage_def NO_ERROR_def USAGE_ERROR_def RUNTIME_ERROR_def split: if_splits prod.splits sum.splits)
  obtain d1 where d: "dumpState (sha256 (st_mgr (cl_site cl))) (parseProfile (st_mgr (cl_site cl))) (wdb w) = (Inr state, d1)" "wdb w1 = d1"
    using 1 by (auto simp: in_db_run DumpState_def split: prod.splits)
  have t1: "tab d1 = tab (wdb w)"
    using reads_onlyD [OF reads_dumpState] d(1) by (metis snd_conv)
  have keeps: "maintains (holds Q) (run_each (\<lambda>c. run_each (reset_build cl verbose c) (ch_Builds c)) state)"
    if "\<And>c b. maintains (holds Q) (reset_build cl verbose c b)" for Q
    by (intro keeps_run_each that)
  have "lacks i (tab (wdb w'))" for i
  proof (cases "lacks i (tab (wdb w))")
    case True
    then have "holds (lacks i) w1" using d t1 by (simp add: holds_def)
    from maintainsD [OF keeps [OF lack_kept] this run] show ?thesis by (simp add: holds_def)
  next
    case False
    then obtain b where b: "b \<in> set (builds (tab (wdb w)))" "br_id b = i" by (auto simp: lacks_def)
    have "br_challenge b \<in> set (map cr_id (challenges (tab (wdb w))))"
      using assms(2) b(1) by (auto simp: constraint_defs list_all_iff)
    from dump_covers [OF d(1) b(1) this] obtain c m where "c \<in> set state" "m \<in> set (ch_Builds c)" "bd_Id m = i" using b(2) by blast
    then show ?thesis using reset_all_reaches [OF run] unfolding holds_def by metis
  qed
  then have none: "builds (tab (wdb w')) = []" by (cases "builds (tab (wdb w'))") (auto simp: lacks_def)
  have "holds constraints w1" using assms(2) d t1 by (simp add: holds_def)
  from maintainsD [OF keeps [OF keeps_reset [OF withstands_constraints constraints_builds]] this run]
  have "constraints (tab (wdb w'))" by (simp add: holds_def)
  then have "instances (tab (wdb w')) = []" using none by (cases "instances (tab (wdb w'))") (auto simp: constraint_defs)
  with none show ?thesis by simp
qed

text \<open>The served build of the HTTP service's example, reset from the command line.\<close>

definition ex_cli :: "(string \<times> string) list cli" where
  "ex_cli = \<lparr>cl_daemon = ex_builder, cl_site = ex_site, cl_solver = ex_solver_calls, cl_text = (\<lambda>_. ''error''), cl_json = (\<lambda>_. Inr ''[]''),
     cl_schema_json = (\<lambda>_. Inr None), cl_schema_yaml = (\<lambda>_. Inr None), cl_ReadFile = (\<lambda>_. Inr []), cl_DIR = None, cl_ARTIFACT_DIR = None\<rparr>"

theorem reset_leaves_nothing_witness:
  "\<exists>w'. resetSystemState ex_cli True [] ex_served_world = ((NO_ERROR, println ''Destroying c|1...''), w') \<and> builds (tab (wdb w')) = []"
proof -
  let ?q = "resetSystemState ex_cli True [] ex_served_world"
  have "fst ?q = (NO_ERROR, println ''Destroying c|1...'')" by code_simp
  then have q: "?q = ((NO_ERROR, println ''Destroying c|1...''), snd ?q)" by (metis prod.collapse)
  have "constraints (tab (wdb ex_served_world))" by code_simp
  from reset_leaves_nothing [OF q this] q show ?thesis by blast
qed

end
