(* ===== verification/Playtest.thy ===== *)
theory Playtest
  imports Cli
begin

text \<open>
  The portal of \<open>cmgr playtest\<close>, \<open>cmd/cmgr/playtest.go\<close>: the texts of a challenge with their templates
  filled in, and the three pages. The sanitizer of HTML, the page template and the table of MIME types are
  parameters. The expressions are those of the loader. A loop that replaces templates until none is left may
  go on for ever, so it is a partial function.
\<close>

section \<open>Filling in a text\<close>

partial_function (option) expand_all :: "(string \<Rightarrow> string) \<Rightarrow> re \<Rightarrow> string \<Rightarrow> string option" where
  "expand_all val r s =
     (case seek r s 0 of
        None \<Rightarrow> Some s
      | Some f \<Rightarrow> expand_all val r (ReplaceAll s (group s f 0) (val (group s f 1))))"

definition port_text :: "InstanceMetadata \<Rightarrow> string \<Rightarrow> string" where
  "port_text i name = (case map_of (in_Ports i) name of None \<Rightarrow> [] | Some p \<Rightarrow> Itoa p)"

definition lookup_text :: "BuildMetadata \<Rightarrow> string \<Rightarrow> string" where
  "lookup_text b key = (case map_of (LookupData b) key of None \<Rightarrow> [] | Some v \<Rightarrow> v)"

definition expandPlaytestText :: "(string \<Rightarrow> string) \<Rightarrow> string \<Rightarrow> string \<Rightarrow> int \<Rightarrow> BuildMetadata \<Rightarrow> InstanceMetadata \<Rightarrow> string option" where
  "expandPlaytestText sanitize value iface port b i =
     (let s1 = ReplaceAllString urlRe value (''http://'' @ iface @ '':'' @ Itoa port @ ''/artifact/$1'');
          s2 = ReplaceAllString serverRe s1 iface;
          s3 = ReplaceAllString httpBaseRe s2 (''http://'' @ iface) in
      case expand_all (port_text i) portRe s3 of
        None \<Rightarrow> None
      | Some s4 \<Rightarrow> map_option sanitize (expand_all (lookup_text b) lookupRe s4))"

section \<open>The pages\<close>

record playtestPage =
  pg_Name :: string
  pg_Description :: string
  pg_Details :: string
  pg_Hints :: "string list"

record 'w portal =
  po_site :: site
  po_iface :: string
  po_port :: int
  po_challenge :: ChallengeId
  po_build :: BuildId
  po_instance :: InstanceId
  Sanitize :: "string \<Rightarrow> string"
  Execute :: "playtestPage \<Rightarrow> err + string"
  TypeByExtension :: "string \<Rightarrow> string"
  po_text :: "err \<Rightarrow> string"

definition page_of :: "'w portal \<Rightarrow> ChallengeMetadata \<Rightarrow> BuildMetadata \<Rightarrow> InstanceMetadata \<Rightarrow> playtestPage option" where
  "page_of po c b i =
     (let expand1 = (\<lambda>t. expandPlaytestText (Sanitize po) t (po_iface po) (po_port po) b i) in
      case (expand1 (Description c), expand1 (Details c), all_parsed expand1 (Hints c)) of
        (Some d, Some e, Some hs) \<Rightarrow> Some \<lparr>pg_Name = ch_Name c, pg_Description = d, pg_Details = e, pg_Hints = hs\<rparr>
      | _ \<Rightarrow> None)"

text \<open>The front page; no response means that the handler never returns.\<close>

definition indexHandler :: "'w portal \<Rightarrow> request \<Rightarrow> 'w world \<Rightarrow> response option \<times> 'w world" where
  "indexHandler po rq w =
     (if rq_Path rq \<noteq> ''/'' then (Some (bare 404), w)
      else case bnd (in_db (find_challenge (po_site po) (po_challenge po))) (\<lambda>c.
          bnd (in_db (lookupBuildMetadata (po_build po))) (\<lambda>b.
          bnd (in_db (lookupInstanceMetadata (po_instance po))) (\<lambda>i. ret (c, b, i)))) w of
        (Inl _, w') \<Rightarrow> (Some (bare 500), w')
      | (Inr (c, b, i), w') \<Rightarrow>
        (map_option (\<lambda>page. case Execute po page of
             Inl e \<Rightarrow> \<lparr>rp_Status = 500, rp_Type = Some ''text/plain; charset=utf-8'', rp_Body = po_text po e @ [CHR 0x0A]\<rparr>
           | Inr html \<Rightarrow> \<lparr>rp_Status = 200, rp_Type = Some ''text/html; charset=utf-8'', rp_Body = html\<rparr>) (page_of po c b i), w'))"

definition artifactHandler :: "'w portal \<Rightarrow> request \<Rightarrow> 'w world \<Rightarrow> response \<times> 'w world" where
  "artifactHandler po rq w =
     (if rq_Method rq \<noteq> ''GET'' then (bare 405, w)
      else
      let filename = TrimPrefix (rq_Path rq) ''/artifact/'' in
      if filename = [] \<or> CHR ''/'' \<in> set filename \<or> \<not> MatchString (cats [Begin, filenamePattern, End]) filename then (bare 404, w)
      else case host_call ''open'' w of
        (Inl _, w') \<Rightarrow> (bare 500, w')
      | (Inr _, w') \<Rightarrow>
        (case map_of (artifacts w') (Itoa (po_build po) @ ''.tar.gz'') of
           None \<Rightarrow> (bare 500, w')
         | Some bytes \<Rightarrow>
           let ts = Untar (st_codec (po_site po)) bytes in
           if \<not> gzip_ok ts then (bare 500, w')
           else case file_in ts filename of
             None \<Rightarrow> (bare 404, w')
           | Some content \<Rightarrow>
             let mime = TypeByExtension po (Ext filename) in
             (\<lparr>rp_Status = 200, rp_Type = Some (if mime = [] then ''application/octet-stream'' else mime), rp_Body = content\<rparr>, w')))"

text \<open>\<open>flag\<close> is the first value of the query parameter of that name, empty without one.\<close>

definition submitHandler :: "'w portal \<Rightarrow> string \<Rightarrow> request \<Rightarrow> 'w world \<Rightarrow> response \<times> 'w world" where
  "submitHandler po flag rq w =
     (if rq_Method rq \<noteq> ''GET'' then (bare 405, w)
      else if TrimSpace flag = [] then
        (\<lparr>rp_Status = 400, rp_Type = Some ''text/plain; charset=utf-8'', rp_Body = ''missing flag'' @ [CHR 0x0A]\<rparr>, w)
      else case in_db (lookupBuildMetadata (po_build po)) w of
        (Inl _, w') \<Rightarrow> (bare 500, w')
      | (Inr b, w') \<Rightarrow>
        (\<lparr>rp_Status = 200, rp_Type = None, rp_Body = if TrimSpace flag = Flag b then ''Correct'' else ''That is not the correct flag''\<rparr>, w'))"

text \<open>
  The flag of a build is kept as the build wrote it, and what is submitted is trimmed: a flag with white space
  around it is never answered with \<open>Correct\<close>, nor accepted from a solver.
\<close>

lemma TrimSpace_idem: "TrimSpace (TrimSpace s) = TrimSpace s"
proof -
  let ?u = "dropWhile is_space s" and ?v = "TrimSpace s"
  have u: "?u = ?v @ rev (takeWhile is_space (rev ?u))"
    by (simp only: TrimSpace_def rev_append [symmetric] takeWhile_dropWhile_id rev_rev_ident)
  have "dropWhile is_space ?v = ?v"
  proof (cases ?v)
    case (Cons c t)
    then have "hd ?u = c" by (subst u) simp
    moreover have "?u \<noteq> []" by (subst u) (simp add: Cons)
    ultimately have "\<not> is_space c" using hd_dropWhile [of is_space s] by simp
    then show ?thesis using Cons by simp
  qed simp
  then show ?thesis by (simp add: TrimSpace_def)
qed

lemma padded_flag_refused: "TrimSpace (Flag b) \<noteq> Flag b \<Longrightarrow> TrimSpace flag \<noteq> Flag b"
  using TrimSpace_idem [of flag] by auto

section \<open>When the texts can be filled in\<close>

definition braces :: "string \<Rightarrow> nat" where
  "braces s = length (filter (\<lambda>c. c = CHR ''{'') s)"

lemma braces_append [simp]: "braces (s @ t) = braces s + braces t"
  by (simp add: braces_def)

lemma braces_drop: "HasPrefix s old \<Longrightarrow> braces s = braces old + braces (drop (length old) s)"
  by (auto simp: HasPrefix_iff)

lemma replace_all_braces: "braces new = 0 \<Longrightarrow> braces (replace_all n old new s) \<le> braces s"
proof (induction n old new s rule: replace_all.induct)
  case (3 n old new c s)
  show ?case
  proof (cases "HasPrefix (c # s) old")
    case True
    then show ?thesis using 3 braces_drop [OF True] by simp
  next
    case False
    then show ?thesis using 3 by (simp add: braces_def)
  qed
qed (simp_all add: braces_def)

lemma replace_all_fewer:
  assumes "braces new = 0" "0 < braces old"
  shows "length (p @ old @ q) \<le> n \<Longrightarrow> braces (replace_all n old new (p @ old @ q)) < braces (p @ old @ q)"
proof (induction n arbitrary: p)
  case 0
  then show ?case using assms(2) by (simp add: braces_def)
next
  case (Suc n)
  obtain c s where s: "p @ old @ q = c # s" using assms(2) by (cases "p @ old @ q") (auto simp: braces_def)
  show ?case
  proof (cases "HasPrefix (c # s) old")
    case True
    then have "braces (replace_all (Suc n) old new (c # s)) \<le> braces (drop (length old) (c # s))"
      using replace_all_braces [OF assms(1), of n old "drop (length old) (c # s)"] assms(1) by simp
    then show ?thesis unfolding s using braces_drop [OF True] assms(2) by simp
  next
    case False
    have "p \<noteq> []"
    proof
      assume "p = []"
      then show False using False s by (metis HasPrefix_iff append_Nil)
    qed
    then obtain p' where p: "p = c # p'" using s by (cases p) auto
    then have q: "s = p' @ old @ q" using s by simp
    have "braces (replace_all n old new s) < braces s" using Suc q p by simp
    then show ?thesis unfolding s using False by (simp add: braces_def)
  qed
qed

lemma seek_splits:
  assumes "seek r s 0 = Some f"
  obtains p q where "s = p @ group s f 0 @ q"
proof -
  obtain a b c where f: "f = (a, b, c)" by (cases f)
  have "s = take a s @ take (b - a) (drop a s) @ drop (b - a) (drop a s)" by (simp only: append_take_drop_id)
  then show ?thesis using that by (simp add: f group_def submatch_def)
qed

text \<open>A template starts with a brace.\<close>

lemma matches_call_brace: "matches (call_of name args) s i j \<Longrightarrow> i \<le> length s \<Longrightarrow> i < length s \<and> s ! i = CHR ''{'' \<and> i < j"
  using matches_bounds [of "call_of name args" s i j]
  by (fastforce simp: call_of_def open_tag_def dest: matches_bounds)

lemma found_call_brace:
  assumes "seek (call_of name args) s 0 = Some f"
  shows "0 < braces (group s f 0)"
proof -
  obtain a b c where f: "f = (a, b, c)" by (cases f)
  note sk = seek_bounds [OF assms [unfolded f]]
  have "matches (call_of name args) s a b" using sk(4) by (metis list.set_intros(1) ways_sound)
  then have m: "a < length s" "s ! a = CHR ''{''" "a < b" using matches_call_brace sk(2,3) by fastforce+
  then have "take (b - a) (drop a s) = CHR ''{'' # take (b - a - 1) (drop (Suc a) s)"
    by (cases "b - a") (auto simp: Cons_nth_drop_Suc [symmetric])
  then show ?thesis by (simp add: f group_def submatch_def braces_def)
qed

lemma expand_all_returns:
  assumes "\<And>key. braces (val key) = 0"
  shows "\<exists>t. expand_all val (call_of name args) s = Some t \<and> \<not> MatchString (call_of name args) t"
proof (induction "braces s" arbitrary: s rule: less_induct)
  case less
  show ?case
  proof (cases "seek (call_of name args) s 0")
    case None
    then show ?thesis by (simp add: expand_all.simps MatchString_def)
  next
    case (Some f)
    obtain p q where s: "s = p @ group s f 0 @ q" using seek_splits [OF Some] by blast
    have "braces (ReplaceAll s (group s f 0) (val (group s f 1))) < braces s"
      unfolding ReplaceAll_def
      using replace_all_fewer [OF assms found_call_brace [OF Some], of p q "length s"] s by (metis order_refl)
    then show ?thesis using less Some by (simp add: expand_all.simps [of _ _ s])
  qed
qed

text \<open>A value that is the template it stands for keeps the loop going for ever.\<close>

lemma ReplaceAll_self: "s \<noteq> [] \<Longrightarrow> ReplaceAll s s s = s"
proof (cases s)
  case (Cons c t)
  have "replace_all n s s [] = []" for n by (cases n) simp_all
  then show ?thesis by (simp add: ReplaceAll_def Cons HasPrefix_iff)
qed simp

lemma expand_all_diverges:
  assumes "seek r s 0 = Some f" "ReplaceAll s (group s f 0) (val (group s f 1)) = s"
  shows "expand_all val r s = None"
proof -
  have "\<not> (v = val \<and> r' = r \<and> t = s)" if run: "expand_all v r' t = Some y" for v r' t y
  proof (rule expand_all.raw_induct [OF _ run, where P = "\<lambda>v' r2 t' _. \<not> (v' = val \<and> r2 = r \<and> t' = s)"], goal_cases)
    case (1 g v' r2 t' y')
    show ?case
    proof
      assume eq: "v' = val \<and> r2 = r \<and> t' = s"
      then have "g val r s = Some y'" using 1(2) assms by simp
      from 1(1) [OF this] show False by simp
    qed
  qed
  then show ?thesis by (cases "expand_all val r s") auto
qed

lemma braces_none: "braces s = 0 \<longleftrightarrow> CHR ''{'' \<notin> set s"
  by (auto simp: braces_def filter_empty_conv)

lemma braces_Itoa [simp]: "braces (Itoa n) = 0"
  by (auto simp: braces_none Itoa_def is_digit_def dest: nat_dec_no_char [THEN notE, rotated])

lemma braces_port_text: "braces (port_text i name) = 0"
  by (auto simp: port_text_def braces_def [of "[]"] split: option.splits)

lemma braces_lookup_text:
  assumes "\<And>key v. (key, v) \<in> set (LookupData b) \<Longrightarrow> CHR ''{'' \<notin> set v"
  shows "braces (lookup_text b key) = 0"
proof (cases "map_of (LookupData b) key")
  case (Some v)
  then show ?thesis using assms [OF map_of_SomeD [OF Some]] by (simp add: lookup_text_def braces_none)
qed (simp add: lookup_text_def braces_none)

text \<open>
  C19. The page of a playtest is filled in, whatever the description says, when no looked-up value holds an
  opening brace: both loops of \<open>expandPlaytestText\<close> end, and no lookup is left in the text that goes
  to the sanitizer. (\<open>self_lookup_never_ends\<close> shows that the condition is needed.)
\<close>

theorem playtest_texts_return:
  assumes "\<And>key v. (key, v) \<in> set (LookupData b) \<Longrightarrow> CHR ''{'' \<notin> set v"
  shows "\<exists>t. expandPlaytestText sanitize value iface port b i = Some (sanitize t) \<and> \<not> MatchString lookupRe t"
proof -
  let ?s = "ReplaceAllString httpBaseRe (ReplaceAllString serverRe (ReplaceAllString urlRe value
      (''http://'' @ iface @ '':'' @ Itoa port @ ''/artifact/$1'')) iface) (''http://'' @ iface)"
  obtain t where 1: "expand_all (port_text i) portRe ?s = Some t"
    using expand_all_returns [of "port_text i", OF braces_port_text] unfolding portRe_def by blast
  have "braces (lookup_text b key) = 0" for key by (rule braces_lookup_text) (rule assms)
  then obtain t' where 2: "expand_all (lookup_text b) lookupRe t = Some t'" "\<not> MatchString lookupRe t'"
    using expand_all_returns [of "lookup_text b"] unfolding lookupRe_def by blast
  show ?thesis by (rule exI [of _ t']) (simp add: expandPlaytestText_def Let_def 1 [simplified] 2)
qed

definition ex_lookup :: string where "ex_lookup = ''{{lookup('' @ [CHR 0x22, CHR ''k'', CHR 0x22] @ '')}}''"

theorem playtest_texts_return_witness:
  "\<exists>t. expandPlaytestText id ex_lookup ''h'' 80 ex_build (\<lparr>in_Id = 1, in_Ports = [], Containers = [], in_LastSolved = 0, in_Build = 1\<rparr>) = Some t \<and> \<not> MatchString lookupRe t"
  using playtest_texts_return [of ex_build id ex_lookup "''h''" 80] by (simp add: ex_build_def)

text \<open>A build whose lookup value is that very lookup keeps the handler of the front page busy for ever.\<close>

lemma self_lookup_never_ends:
  "expandPlaytestText sanitize ex_lookup ''h'' 80 (ex_build\<lparr>LookupData := [(''k'', ex_lookup)]\<rparr>) i = None"
proof -
  have s: "ReplaceAllString httpBaseRe (ReplaceAllString serverRe (ReplaceAllString urlRe ex_lookup
      (''http://'' @ ''h'' @ '':'' @ Itoa 80 @ ''/artifact/$1'')) ''h'') (''http://'' @ ''h'') = ex_lookup"
    by code_simp
  have p: "seek portRe ex_lookup 0 = None" by code_simp
  have l: "seek lookupRe ex_lookup 0 = Some (0, length ex_lookup, [(1, 10, 11)])" by code_simp
  have g: "group ex_lookup (0, length ex_lookup, [(1, 10, 11)]) 0 = ex_lookup"
      "group ex_lookup (0, length ex_lookup, [(1, 10, 11)]) 1 = ''k''"
    by (simp_all add: group_def submatch_def ex_lookup_def)
  have "ReplaceAll ex_lookup ex_lookup ex_lookup = ex_lookup" by (rule ReplaceAll_self) (simp add: ex_lookup_def)
  then have "expand_all (lookup_text (ex_build\<lparr>LookupData := [(''k'', ex_lookup)]\<rparr>)) lookupRe ex_lookup = None"
    by (intro expand_all_diverges [OF l]) (simp only: g, simp add: lookup_text_def)
  then show ?thesis
    unfolding expandPlaytestText_def Let_def s by (simp add: expand_all.simps [of _ portRe] p)
qed

end
