(* ===== verification/Host.thy ===== *)
theory Host
  imports Register Filesystem Flags
begin

text \<open>
  What \<open>register.go\<close> asks the host before it trusts it: the resolution of the two executables, their
  kind, the ownership of a path and of everything above it, the commands run on \<open>dockerd\<close> and
  \<open>systemctl\<close>, and the wait for Docker to adopt the registration. \<open>host\<close> says what the system answers;
  \<open>host_env\<close> makes of it the environment of the register command.
\<close>

section \<open>The host\<close>

record host_file =
  hf_Regular :: bool
  hf_Dir :: bool
  hf_Symlink :: bool
  hf_Perm :: "32 word"
  hf_Uid :: "nat option"

text \<open>
  \<open>h_run n\<close> is what the \<open>n\<close>-th run of a command gives, its output and its error; \<open>h_polls k\<close> is the answer of
  the \<open>k\<close>-th \<open>Info\<close> and the time, in milliseconds, when it has come.
\<close>

record host =
  h_linux :: bool
  h_euid :: nat
  h_stat :: "string \<Rightarrow> err + host_file"
  h_lstat :: "string \<Rightarrow> err + host_file"
  h_executable :: "err + string"
  h_LookPath :: "string \<Rightarrow> err + string"
  h_EvalSymlinks :: "string \<Rightarrow> err + string"
  h_cwd :: "err + string"
  h_run :: "nat \<Rightarrow> string list \<Rightarrow> string \<times> err option"
  h_client :: "err option"
  h_start :: nat
  h_polls :: "nat \<Rightarrow> (err + (string \<times> string \<times> string list) list) \<times> nat"

definition Abs :: "host \<Rightarrow> string \<Rightarrow> err + string" where
  "Abs h p = (if IsAbs p then Inr (Clean p) else case h_cwd h of Inl e \<Rightarrow> Inl e | Inr wd \<Rightarrow> Inr (Join_path wd p))"

section \<open>Executables\<close>

definition validateExecutable :: "host \<Rightarrow> string \<Rightarrow> err option" where
  "validateExecutable h path =
     (case h_stat h path of
        Inl e \<Rightarrow> Some (Wrap ''could not inspect runtime executable'' e)
      | Inr f \<Rightarrow>
        if \<not> hf_Regular f then Some (Plain ''not a regular file'')
        else if hf_Perm f AND 0x49 = 0 then Some (Plain ''not executable'')
        else None)"

text \<open>The end both resolutions share: links, the absolute path, the checks.\<close>

definition resolved :: "host \<Rightarrow> string \<Rightarrow> err + string" where
  "resolved h path =
     (case h_EvalSymlinks h path of
        Inl e \<Rightarrow> Inl e
      | Inr target \<Rightarrow>
        (case Abs h target of
           Inl e \<Rightarrow> Inl e
         | Inr p \<Rightarrow>
           (case validateExecutable h p of
              Some e \<Rightarrow> Inl e
            | None \<Rightarrow> if \<not> shellSafePath p then Inl (Plain ''runtime path contains unsupported characters'') else Inr p)))"

definition resolveInterceptorExecutable :: "host \<Rightarrow> string \<Rightarrow> err + string" where
  "resolveInterceptorExecutable h explicitPath =
     (if explicitPath \<noteq> [] then
        (if \<not> IsAbs explicitPath then Inl (Plain ''runtime path must be absolute'') else resolved h explicitPath)
      else case h_executable h of
        Inl e \<Rightarrow> Inl (Wrap ''could not resolve invoked executable'' e)
      | Inr p \<Rightarrow> resolved h p)"

definition resolveRuntimeExecutable :: "host \<Rightarrow> string \<Rightarrow> err + string" where
  "resolveRuntimeExecutable h path =
     (if IsAbs path then resolved h path
      else case h_LookPath h path of Inl e \<Rightarrow> Inl e | Inr p \<Rightarrow> resolved h p)"

section \<open>Trust\<close>

definition validateRootOwnedPath :: "host \<Rightarrow> string \<Rightarrow> bool \<Rightarrow> err option" where
  "validateRootOwnedPath h path directory =
     (case h_lstat h path of
        Inl e \<Rightarrow> Some e
      | Inr f \<Rightarrow>
        if hf_Symlink f then Some (Plain (path @ '' is a symbolic link''))
        else if directory \<and> \<not> hf_Dir f then Some (Plain (path @ '' is not a directory''))
        else case hf_Uid f of
          None \<Rightarrow> Some (Plain (''could not determine ownership of '' @ path))
        | Some uid \<Rightarrow>
          if uid \<noteq> 0 then Some (Plain (path @ '' is not owned by root''))
          else if hf_Perm f AND 0x12 \<noteq> 0 then Some (Plain (path @ '' is group- or world-writable''))
          else None)"

text \<open>The loop over the directories above a path; it goes on until the root directory.\<close>

partial_function (option) directories_above :: "host \<Rightarrow> string \<Rightarrow> err option option" where
  "directories_above h directory =
     (case validateRootOwnedPath h directory True of
        Some e \<Rightarrow> Some (Some e)
      | None \<Rightarrow> if directory = ''/'' then Some None else directories_above h (Dir directory))"

definition validateTrustedExecutable :: "host \<Rightarrow> string \<Rightarrow> err option option" where
  "validateTrustedExecutable h path =
     (case validateExecutable h path of
        Some e \<Rightarrow> Some (Some e)
      | None \<Rightarrow>
        (case validateRootOwnedPath h path False of
           Some e \<Rightarrow> Some (Some e)
         | None \<Rightarrow> directories_above h (Dir path)))"

section \<open>Commands\<close>

definition first_executable :: "host \<Rightarrow> string list \<Rightarrow> string option" where
  "first_executable h candidates = find (\<lambda>c. validateExecutable h c = None) candidates"

definition reloadDocker :: "host \<Rightarrow> nat \<Rightarrow> bool \<Rightarrow> string \<times> err option" where
  "reloadDocker h n requireTrustedPath =
     (case first_executable h [''/usr/bin/systemctl'', ''/bin/systemctl''] of
        None \<Rightarrow> ([], Some (Plain ''could not find systemctl at a trusted absolute path''))
      | Some systemctl \<Rightarrow>
        (case (if requireTrustedPath then validateTrustedExecutable h systemctl else Some None) of
           Some (Some e) \<Rightarrow> ([], Some e)
         | _ \<Rightarrow> h_run h n [systemctl, ''reload'', ''docker'']))"

text \<open>The output, whether the version can validate, and the error.\<close>

definition validateDockerConfiguration :: "host \<Rightarrow> string \<Rightarrow> bool \<Rightarrow> string \<times> bool \<times> err option" where
  "validateDockerConfiguration h configPath requireTrustedPath =
     (case first_executable h [''/usr/bin/dockerd'', ''/usr/sbin/dockerd'', ''/bin/dockerd'', ''/sbin/dockerd''] of
        None \<Rightarrow> ([], False, None)
      | Some dockerd \<Rightarrow>
        (case (if requireTrustedPath then validateTrustedExecutable h dockerd else Some None) of
           Some (Some e) \<Rightarrow> ([], True, Some e)
         | _ \<Rightarrow>
           (case h_run h 0 [dockerd, ''--help''] of
              (help, Some e) \<Rightarrow> (help, True, Some (Wrap ''could not inspect dockerd validation support'' e))
            | (help, None) \<Rightarrow>
              if \<not> Contains help ''--validate'' then ([], False, None)
              else case h_run h 0 [dockerd, ''--validate'', ''--config-file='' @ configPath] of
                (out, e) \<Rightarrow> (out, True, e))))"

text \<open>\<open>waitForRuntimeRegistration\<close> from its \<open>k\<close>-th turn.\<close>

partial_function (option) poll_registration :: "host \<Rightarrow> string \<Rightarrow> string list \<Rightarrow> nat \<Rightarrow> nat \<Rightarrow> err option option" where
  "poll_registration h path arguments deadline k =
     (case h_polls h k of
        (answer, now) \<Rightarrow>
        (case (case answer of
             Inl e \<Rightarrow> Some e
           | Inr runtimes \<Rightarrow>
             if runtimeRegistrationMatches runtimes path arguments then None
             else Some (Plain ''Docker reports a different or incomplete runtime entry'')) of
           None \<Rightarrow> Some None
         | Some e \<Rightarrow> if now > deadline then Some (Some e) else poll_registration h path arguments deadline (Suc k)))"

declare directories_above.simps [code] poll_registration.simps [code]

definition waitForRuntimeRegistration :: "host \<Rightarrow> string \<Rightarrow> string list \<Rightarrow> nat \<Rightarrow> err option option" where
  "waitForRuntimeRegistration h path arguments timeout =
     (case h_client h of
        Some e \<Rightarrow> Some (Some e)
      | None \<Rightarrow> poll_registration h path arguments (h_start h + timeout) 0)"

section \<open>The whole command\<close>

record register_options =
  ro_config :: string
  ro_runtime_path :: string
  ro_runc_path :: string
  ro_force :: bool
  ro_noReload :: bool

definition value_of :: "err + string \<Rightarrow> string" where
  "value_of r = (case r of Inl _ \<Rightarrow> [] | Inr p \<Rightarrow> p)"

definition host_env :: "host \<Rightarrow> register_options \<Rightarrow> register_env" where
  "host_env h opts =
     (let privileged = (Clean (ro_config opts) = defaultDockerConfigPath);
          interceptor = resolveInterceptorExecutable h (ro_runtime_path opts);
          runc = resolveRuntimeExecutable h (ro_runc_path opts) in
      \<lparr>g_linux = h_linux h, g_root = (h_euid h = 0), g_interceptor = interceptor, g_runc = runc,
       g_executable = (\<lambda>p. validateExecutable h p = None),
       g_trusted = (\<lambda>p. validateTrustedExecutable h p = Some None),
       g_directory_trusted = (validateRootOwnedPath h (Dir (ro_config opts)) True = None),
       g_config_trusted = (validateRootOwnedPath h (ro_config opts) False = None),
       g_validation = (case validateDockerConfiguration h (ro_config opts) privileged of (_, supported, e) \<Rightarrow> (supported, e = None)),
       g_reload = (snd (reloadDocker h 0 privileged) = None),
       g_reload_again = (snd (reloadDocker h 1 privileged) = None),
       g_adopted = (waitForRuntimeRegistration h (value_of interceptor) (runtimeArguments (value_of runc)) 5000 = Some None)\<rparr>)"

definition register_command :: "host \<Rightarrow> (json \<Rightarrow> int) \<Rightarrow> register_options \<Rightarrow> reg_state \<Rightarrow> nat \<times> reg_state" where
  "register_command h len opts s =
     RunRegisterCommand (host_env h opts) len (ro_config opts) (ro_force opts) (ro_noReload opts) s"

definition register_flags :: flag_set where
  "register_flags = [(''config'', StringFlag), (''runtime-path'', StringFlag), (''runc-path'', StringFlag),
     (''force'', BoolFlag), (''no-reload'', BoolFlag)]"

definition register_main :: "host \<Rightarrow> (json \<Rightarrow> int) \<Rightarrow> string list \<Rightarrow> reg_state \<Rightarrow> nat \<times> reg_state" where
  "register_main h len arguments s =
     (case Parse register_flags [] arguments of
        Inl ErrHelp \<Rightarrow> (0, s)
      | Inl (FlagError _) \<Rightarrow> (2, s)
      | Inr (vals, positional) \<Rightarrow>
        if positional \<noteq> [] then (2, s)
        else register_command h len
          \<lparr>ro_config = string_flag vals ''config'' defaultDockerConfigPath, ro_runtime_path = string_flag vals ''runtime-path'' [],
           ro_runc_path = string_flag vals ''runc-path'' ''runc'', ro_force = bool_flag vals ''force'',
           ro_noReload = bool_flag vals ''no-reload''\<rparr> s)"

section \<open>The loops end\<close>

definition weight :: "string list \<Rightarrow> nat" where
  "weight cs = sum_list (map (\<lambda>c. Suc (length c)) cs)"

lemma weight_simps [simp]: "weight [] = 0" "weight (c # cs) = Suc (length c) + weight cs"
    "weight (cs @ ds) = weight cs + weight ds" "weight (rev cs) = weight cs"
  by (simp_all add: weight_def rev_map [symmetric])

lemma length_Join: "length (Join_with ''/'' cs) = weight cs - 1"
proof (induction cs)
  case (Cons c cs)
  then show ?case by (cases cs) auto
qed simp

lemma weight_Split: "weight (Split c s) = Suc (length s)"
proof (induction s)
  case (Cons x s)
  then show ?case by (cases "Split c s") auto
qed simp

lemma weight_clean:
  "dotdot \<notin> set st \<Longrightarrow> weight (clean_components True cs st) + length (filter (\<lambda>c. c = []) cs) \<le> weight cs + weight st"
proof (induction cs arbitrary: st)
  case (Cons c cs)
  show ?case
  proof (cases "c = [] \<or> c = dot")
    case True
    then show ?thesis using Cons.IH [OF Cons.prems] by auto
  next
    case False
    show ?thesis
    proof (cases "c = dotdot")
      case True
      then show ?thesis using Cons.IH [of "tl st"] Cons.prems False by (cases st) auto
    next
      case c: False
      then show ?thesis using Cons.IH [of "c # st"] Cons.prems False by auto
    qed
  qed
qed simp

lemma Split_trailing: "Split c (s @ [c]) = Split c s @ [[]]"
  by (induction s) (auto split: list.splits)

lemma Clean_shorter:
  assumes "IsAbs p" "p \<noteq> ''/''" "last p = CHR ''/''"
  shows "length (Clean p) < length p"
proof -
  obtain q where p: "p = CHR ''/'' # q @ ''/''"
    using assms by (cases p rule: rev_cases; cases "butlast p") (auto simp: IsAbs_def HasPrefix_iff)
  have "Split CHR ''/'' p = [] # Split CHR ''/'' q @ [[]]"
    unfolding p using Split_trailing [of "CHR ''/''" q] by simp
  then have "2 \<le> length (filter (\<lambda>c. c = []) (Split CHR ''/'' p))" by simp
  moreover have "weight (path_components p) + length (filter (\<lambda>c. c = []) (Split CHR ''/'' p)) \<le> Suc (length p)"
    using weight_clean [of "[]" "Split CHR ''/'' p"] assms(1) by (simp add: path_components_def weight_Split)
  ultimately show ?thesis
    using assms(1) p by (simp add: Clean_def Let_def length_Join)
qed

lemma LastIndexByte_Some:
  assumes "LastIndexByte s d = Some i"
  shows "i < length s" "s ! i = d"
proof -
  obtain k where k: "IndexByte (rev s) d = Some k" "i = length s - 1 - k" using assms by (auto simp: LastIndexByte_def)
  then have "k < length s" "rev s ! k = d" using IndexByte_Some [OF k(1)] by auto
  then show "i < length s" "s ! i = d" using k(2) by (auto simp: rev_nth)
qed

lemma Dir_shorter:
  assumes "IsAbs p" "p \<noteq> ''/''"
  shows "IsAbs (Dir p)" "length (Dir p) < length p"
proof -
  obtain i where i: "LastIndexByte p CHR ''/'' = Some i" "i < length p" "p ! i = CHR ''/''"
  proof (cases "LastIndexByte p CHR ''/''")
    case None
    then show ?thesis using assms(1) by (auto simp: LastIndexByte_None_iff IsAbs_def HasPrefix_iff)
  next
    case (Some i)
    then show ?thesis using that LastIndexByte_Some [OF Some] by simp
  qed
  let ?q = "take (Suc i) p"
  have q: "Dir p = Clean ?q" "length ?q \<le> length p" "last ?q = CHR ''/''"
    using i by (simp_all add: Dir_def take_Suc_conv_app_nth)
  have a: "IsAbs ?q" using assms(1) by (auto simp: IsAbs_def HasPrefix_iff)
  then show "IsAbs (Dir p)" by (simp add: q(1) Clean_def Let_def IsAbs_def HasPrefix_iff)
  show "length (Dir p) < length p"
  proof (cases "?q = ''/''")
    case True
    then have "length p \<noteq> 1" using assms(2) i by (cases p) auto
    moreover have "Clean ''/'' = ''/''" by code_simp
    ultimately show ?thesis using True q(1) i(2) by simp
  next
    case False
    then show ?thesis using Clean_shorter [OF a False q(3)] q(1,2) by simp
  qed
qed

lemma Dir_root: "Dir ''/'' = ''/''"
  by code_simp

lemma directories_above_returns: "IsAbs d \<Longrightarrow> \<exists>r. directories_above h d = Some r"
proof (induction "length d" arbitrary: d rule: less_induct)
  case less
  show ?case
  proof (cases "d = ''/''")
    case True
    then show ?thesis by (subst directories_above.simps) (auto split: option.splits)
  next
    case False
    then have "\<exists>r. directories_above h (Dir d) = Some r" using less Dir_shorter [OF less.prems False] by blast
    then show ?thesis using False by (subst directories_above.simps) (auto split: option.splits)
  qed
qed

lemma trusted_returns:
  assumes "IsAbs p"
  shows "\<exists>r. validateTrustedExecutable h p = Some r"
proof -
  have "IsAbs (Dir p)"
  proof (cases "p = ''/''")
    case True
    then show ?thesis by (simp add: Dir_root IsAbs_def)
  qed (use assms Dir_shorter in blast)
  then show ?thesis using directories_above_returns by (auto simp: validateTrustedExecutable_def split: option.splits)
qed

lemma Clean_absolute: "IsAbs p \<Longrightarrow> IsAbs (Clean p)"
  by (simp add: Clean_def Let_def IsAbs_def HasPrefix_iff)

lemma Abs_absolute:
  assumes "Abs h p = Inr q" "\<And>wd. h_cwd h = Inr wd \<Longrightarrow> IsAbs wd"
  shows "IsAbs q"
proof (cases "IsAbs p")
  case True
  then show ?thesis using assms(1) Clean_absolute by (auto simp: Abs_def)
next
  case False
  then obtain wd where wd: "h_cwd h = Inr wd" "q = Join_path wd p" using assms(1) by (auto simp: Abs_def split: sum.splits)
  have "IsAbs wd" by (rule assms(2) [OF wd(1)])
  then show ?thesis using wd(2) Clean_absolute [of wd] Clean_absolute [of "wd @ ''/'' @ p"]
    by (auto simp: Join_path_def IsAbs_def HasPrefix_iff)
qed

lemma resolved_checked:
  assumes "resolved h p = Inr q" "\<And>wd. h_cwd h = Inr wd \<Longrightarrow> IsAbs wd"
  shows "IsAbs q \<and> shellSafePath q \<and> validateExecutable h q = None"
  using assms(1) Abs_absolute [OF _ assms(2)] by (auto simp: resolved_def split: sum.splits option.splits if_splits)

text \<open>
  The wait ends: between two answers lie at least the 100 milliseconds of the sleep, so that after 51 of
  them the five seconds are over.
\<close>

lemma poll_registration_returns:
  assumes "\<And>k. snd (h_polls h k) + 100 \<le> snd (h_polls h (Suc k))" "deadline < snd (h_polls h n)" "k \<le> n"
  shows "\<exists>r. poll_registration h path arguments deadline k = Some r"
  using assms(3)
proof (induction rule: inc_induct)
  case base
  then show ?case using assms(2) by (subst poll_registration.simps) (auto split: sum.splits prod.splits)
next
  case (step k)
  then show ?case by (subst poll_registration.simps) (auto split: sum.splits prod.splits)
qed

lemma clock_advances:
  assumes "\<And>k. snd (h_polls h k) + 100 \<le> snd (h_polls h (Suc k))"
  shows "snd (h_polls h 0) + 100 * n \<le> snd (h_polls h n)"
proof (induction n)
  case (Suc n)
  then show ?case using assms [of n] by simp
qed simp

lemma registration_wait_ends:
  assumes "\<And>k. snd (h_polls h k) + 100 \<le> snd (h_polls h (Suc k))" "h_start h \<le> snd (h_polls h 0)"
  shows "\<exists>r. waitForRuntimeRegistration h path arguments 5000 = Some r"
proof -
  have "h_start h + 5000 < snd (h_polls h 51)" using clock_advances [OF assms(1), of 51] assms(2) by simp
  then show ?thesis
    using poll_registration_returns [OF assms(1), of _ 51 0] by (auto simp: waitForRuntimeRegistration_def split: option.splits)
qed

section \<open>What a registration trusts\<close>

lemma Dirs_root: "(Dir ^^ n) ''/'' = ''/''"
  by (induction n) (simp_all add: Dir_root)

lemma directories_above_None:
  "IsAbs d \<Longrightarrow> directories_above h d = Some None \<Longrightarrow> validateRootOwnedPath h ((Dir ^^ n) d) True = None"
proof (induction "length d" arbitrary: d n rule: less_induct)
  case less
  note step = less.prems(2) [unfolded directories_above.simps [of h d]]
  have own: "validateRootOwnedPath h d True = None" using step by (cases "validateRootOwnedPath h d True") auto
  show ?case
  proof (cases "d = ''/'' \<or> n = 0")
    case True
    then show ?thesis using own Dirs_root by auto
  next
    case False
    then have up: "directories_above h (Dir d) = Some None" using step own by simp
    obtain m where m: "n = Suc m" using False by (cases n) auto
    have "d \<noteq> ''/''" using False by simp
    note d = Dir_shorter [OF less.prems(1) this]
    show ?thesis using less.hyps [OF d(2,1) up, of m] by (simp add: m funpow_Suc_right del: funpow.simps)
  qed
qed

text \<open>Nobody but root can replace the file, or any directory above it.\<close>

definition only_root_changes :: "host \<Rightarrow> string \<Rightarrow> bool \<Rightarrow> bool" where
  "only_root_changes h p directory \<longleftrightarrow>
     (\<exists>f. h_lstat h p = Inr f \<and> \<not> hf_Symlink f \<and> (directory \<longrightarrow> hf_Dir f) \<and> hf_Uid f = Some 0 \<and> hf_Perm f AND 0x12 = 0)"

lemma root_owned_iff: "validateRootOwnedPath h p directory = None \<longleftrightarrow> only_root_changes h p directory"
  by (auto simp: validateRootOwnedPath_def only_root_changes_def split: sum.splits option.splits)

lemma trusted_path:
  assumes "validateTrustedExecutable h p = Some None" "IsAbs p"
  shows "only_root_changes h p False" "only_root_changes h ((Dir ^^ Suc n) p) True"
proof -
  have up: "validateRootOwnedPath h p False = None" "directories_above h (Dir p) = Some None"
    using assms(1) by (auto simp: validateTrustedExecutable_def split: option.splits)
  then show "only_root_changes h p False" by (simp add: root_owned_iff)
  have "IsAbs (Dir p)" using Dir_shorter [OF assms(2)] Dir_root assms(2) by (cases "p = ''/''") auto
  from directories_above_None [OF this up(2), of n]
  show "only_root_changes h ((Dir ^^ Suc n) p) True" by (simp add: root_owned_iff funpow_swap1)
qed

lemma register_0_checks:
  assumes "RunRegisterCommand env len cfg force noReload s = (0, s')" "g_interceptor env = Inr i" "g_runc env = Inr r"
    "Clean cfg = defaultDockerConfigPath"
  shows "g_root env" "g_trusted env i" "g_trusted env r" "g_directory_trusted env"
  using assms by (auto simp: RunRegisterCommand_def Let_def split: if_splits prod.splits sum.splits)

lemma resolutions_checked:
  assumes "resolveInterceptorExecutable h a = Inr i" "resolveRuntimeExecutable h b = Inr r" "\<And>wd. h_cwd h = Inr wd \<Longrightarrow> IsAbs wd"
    "p \<in> {i, r}"
  shows "IsAbs p \<and> shellSafePath p \<and> validateExecutable h p = None"
proof -
  have "\<exists>q. resolved h q = Inr p"
    using assms(1,2,4) by (auto simp: resolveInterceptorExecutable_def resolveRuntimeExecutable_def split: if_splits sum.splits)
  then show ?thesis using resolved_checked [OF _ assms(3)] by blast
qed

text \<open>
  C22. A registration in Docker's own configuration trusts nothing that anyone but root can change: when the
  command exits with 0 it ran as root, Docker's configuration names exactly the two executables it resolved,
  and each of them is an absolute path of safe characters to an executable regular file which, like every
  directory above it up to the root, is no symbolic link, belongs to root and is not writable for the group
  or for others.
\<close>

theorem registration_trusts_only_root:
  assumes "register_command h len opts s = (0, s')" "Clean (ro_config opts) = defaultDockerConfigPath"
    "\<And>wd. h_cwd h = Inr wd \<Longrightarrow> IsAbs wd"
  shows "h_euid h = 0 \<and> (\<exists>i r. has_runtime i r (file_document (rs_file s')) \<and>
    (\<forall>p \<in> {i, r}. IsAbs p \<and> shellSafePath p \<and> validateExecutable h p = None \<and>
       only_root_changes h p False \<and> (\<forall>n. only_root_changes h ((Dir ^^ Suc n) p) True)))"
proof -
  note run = assms(1) [unfolded register_command_def]
  obtain i r s3 ch where res: "g_interceptor (host_env h opts) = Inr i" "g_runc (host_env h opts) = Inr r"
      and reg: "RegisterRuntime (g_executable (host_env h opts)) len (ro_config opts) i r (ro_force opts) s3 = (Inr ch, s')"
    by (rule command_0 [OF run])
  note c = register_0_checks [OF run res assms(2)]
  have ok: "IsAbs p \<and> shellSafePath p \<and> validateExecutable h p = None" if "p \<in> {i, r}" for p
    using resolutions_checked [OF _ _ assms(3) that] res by (simp add: host_env_def Let_def)
  have "validateTrustedExecutable h p = Some None" if "p \<in> {i, r}" for p
    using c that by (auto simp: host_env_def Let_def)
  then have "only_root_changes h p False \<and> only_root_changes h ((Dir ^^ Suc n) p) True" if "p \<in> {i, r}" for p n
    using trusted_path ok that by blast
  moreover have "h_euid h = 0" using c(1) by (simp add: host_env_def Let_def)
  moreover have "has_runtime i r (file_document (rs_file s'))" by (rule RegisterRuntime_Inr(2) [OF reg])
  ultimately show ?thesis using ok by (intro conjI exI [of _ i] exI [of _ r] ballI allI) simp_all
qed

definition ex_host :: host where
  "ex_host = \<lparr>h_linux = True, h_euid = 0,
     h_stat = (\<lambda>_. Inr \<lparr>hf_Regular = True, hf_Dir = True, hf_Symlink = False, hf_Perm = 0x1ED, hf_Uid = Some 0\<rparr>),
     h_lstat = (\<lambda>_. Inr \<lparr>hf_Regular = True, hf_Dir = True, hf_Symlink = False, hf_Perm = 0x1ED, hf_Uid = Some 0\<rparr>),
     h_executable = Inr ''/usr/bin/cmgr-oci-interceptor'', h_LookPath = (\<lambda>p. Inr (''/usr/bin/'' @ p)),
     h_EvalSymlinks = Inr, h_cwd = Inr ''/root'', h_run = (\<lambda>_ _. ([], None)), h_client = None, h_start = 0,
     h_polls = (\<lambda>k. (Inr [(RuntimeName, ''/usr/bin/cmgr-oci-interceptor'', runtimeArguments ''/usr/bin/runc'')], 100 * k))\<rparr>"

definition ex_register :: register_options where
  "ex_register = \<lparr>ro_config = defaultDockerConfigPath, ro_runtime_path = [], ro_runc_path = ''runc'', ro_force = False, ro_noReload = False\<rparr>"

theorem registration_trusts_only_root_witness:
  "\<exists>s'. register_command ex_host (\<lambda>_. 100) ex_register \<lparr>rs_file = None, rs_io = []\<rparr> = (0, s') \<and>
     (\<exists>i r. has_runtime i r (file_document (rs_file s')) \<and> only_root_changes ex_host (Dir i) True)"
proof -
  let ?run = "register_command ex_host (\<lambda>_. 100) ex_register \<lparr>rs_file = None, rs_io = []\<rparr>"
  have "fst ?run = 0" by code_simp
  then have run: "?run = (0, snd ?run)" by (metis prod.collapse)
  have cfg: "Clean (ro_config ex_register) = defaultDockerConfigPath" by code_simp
  have wd: "h_cwd ex_host = Inr wd \<Longrightarrow> IsAbs wd" for wd by (auto simp: ex_host_def IsAbs_def HasPrefix_iff)
  from registration_trusts_only_root [OF run cfg wd]
  obtain i r where ir: "has_runtime i r (file_document (rs_file (snd ?run)))" "\<And>n. only_root_changes ex_host ((Dir ^^ Suc n) i) True"
    by blast
  from ir(2) [of 0] have "only_root_changes ex_host (Dir i) True" by simp
  then show ?thesis using run ir(1) by blast
qed

end
