(* ===== verification/Commands.thy ===== *)
theory Commands
  imports Playtest Host
begin

text \<open>
  The three programs from their arguments on: \<open>cmd/cmgr/main.go\<close> with the flags of every subcommand,
  \<open>cmd/cmgrd/main.go\<close> up to its listener, \<open>cmd/cmgr-oci-interceptor/main.go\<close>, and the portal of
  \<open>playtest\<close> with the requests it serves until it is stopped. \<open>convert-to-custom\<close> works on the
  directory of a challenge alone (theory \<open>Convert\<close>), so it is an argument here.
\<close>

section \<open>The portal\<close>

definition portal_request :: "'w portal \<Rightarrow> request \<Rightarrow> string \<Rightarrow> 'w world \<Rightarrow> response option \<times> 'w world" where
  "portal_request po rq flag w =
     (if HasPrefix (rq_Path rq) ''/artifact/'' then map_prod Some id (artifactHandler po rq w)
      else if rq_Path rq = ''/submit'' then map_prod Some id (submitHandler po flag rq w)
      else indexHandler po rq w)"

fun portal_requests :: "'w portal \<Rightarrow> (request \<times> string) list \<Rightarrow> 'w world \<Rightarrow> 'w world" where
  "portal_requests po [] w = w"
| "portal_requests po ((rq, flag) # rqs) w = portal_requests po rqs (snd (portal_request po rq flag w))"

text \<open>A signal, with what \<open>Shutdown\<close> gives; or the end of the listener, \<open>None\<close> for \<open>ErrServerClosed\<close>.\<close>

datatype portal_end = Signalled "err option" | Ended "err option"

definition launchPortal :: "'w cli \<Rightarrow> 'w portal \<Rightarrow> (request \<times> string) list \<Rightarrow> portal_end \<Rightarrow> err option \<Rightarrow> 'w command" where
  "launchPortal cl po rqs ending closing w =
     (case ending of
        Signalled (Some e) \<Rightarrow> (RUNTIME_ERROR, error_line cl ''error shutting down playtest portal'' e)
      | Ended (Some e) \<Rightarrow> (RUNTIME_ERROR, error_line cl ''error serving playtest portal'' e)
      | _ \<Rightarrow> (if closing \<noteq> None then RUNTIME_ERROR else NO_ERROR, []), portal_requests po rqs w)"

section \<open>cmgr\<close>

text \<open>
  \<open>mn_portal\<close> makes the portal of a build and an instance, \<open>mn_requests\<close>, \<open>mn_ending\<close> and \<open>mn_closing\<close> are what
  happens while it runs.
\<close>

record 'w main_env =
  mn_cli :: "'w cli"
  mn_manager :: bool
  mn_Version :: string
  mn_Nanosecond :: int
  mn_IFACE :: "string option"
  mn_portal :: "string \<Rightarrow> int \<Rightarrow> ChallengeId \<Rightarrow> BuildId \<Rightarrow> InstanceId \<Rightarrow> 'w portal"
  mn_requests :: "(request \<times> string) list"
  mn_ending :: portal_end
  mn_closing :: "err option"
  mn_convert :: "string list \<Rightarrow> 'w command"

text \<open>A subcommand with its flags: the \<open>flag\<close> package ends the program with 0 after help and with 2 after an error.\<close>

definition with_flags :: "flag_set \<Rightarrow> (flag_values \<Rightarrow> string list \<Rightarrow> 'w command) \<Rightarrow> string list \<Rightarrow> 'w command" where
  "with_flags fs body args w =
     (case Parse fs [] args of
        Inl ErrHelp \<Rightarrow> ((0, []), w)
      | Inl (FlagError _) \<Rightarrow> ((2, []), w)
      | Inr (vals, positional) \<Rightarrow> body vals positional w)"

definition default_format :: string where "default_format = ''flag{%s}''"

definition playtest_iface :: "string option \<Rightarrow> string" where
  "playtest_iface v = (case v of None \<Rightarrow> ''localhost'' | Some i \<Rightarrow> if i = ''0.0.0.0'' then ''localhost'' else i)"

definition playtest_command :: "'w main_env \<Rightarrow> flag_values \<Rightarrow> string list \<Rightarrow> 'w command" where
  "playtest_command mn vals args =
     (let iface = playtest_iface (mn_IFACE mn); port = int_flag vals ''port'' 4242 in
      playtestChallenge (mn_cli mn)
        (\<lambda>b i. launchPortal (mn_cli mn) (mn_portal mn iface port (hd args) b i) (mn_requests mn) (mn_ending mn) (mn_closing mn))
        iface port (int_flag vals ''seed'' (mn_Nanosecond mn)) (string_flag vals ''flag-format'' default_format) args)"

text \<open>\<open>dockerfile\<close> with an output file: the file is left out of the result.\<close>

definition dockerfile_command :: "'w main_env \<Rightarrow> flag_values \<Rightarrow> string list \<Rightarrow> 'w command" where
  "dockerfile_command mn vals args w =
     (case dockerfile (mn_cli mn) (string_flag vals ''output'' []) args w of ((result, _), w') \<Rightarrow> (result, w'))"

definition subcommands :: "'w main_env \<Rightarrow> (string \<times> (string list \<Rightarrow> 'w command)) list" where
  "subcommands mn =
     (let cl = mn_cli mn; v = (''verbose'', BoolFlag); format = (''flag-format'', StringFlag); seed = (''seed'', IntFlag) in
      [(''list'', with_flags [v] (\<lambda>vals _. listChallenges_cmd (bool_flag vals ''verbose''))),
       (''search'', with_flags [v] (\<lambda>vals. searchChallenges_cmd (bool_flag vals ''verbose''))),
       (''info'', with_flags [v] (\<lambda>vals. displayChallengeInfo cl (bool_flag vals ''verbose''))),
       (''update'', with_flags [v, (''dry-run'', BoolFlag)]
          (\<lambda>vals. updateChallengeInfo cl (bool_flag vals ''verbose'') (bool_flag vals ''dry-run''))),
       (''freeze'', with_flags [(''force'', BoolFlag)] (\<lambda>vals. freezeChallenge cl (bool_flag vals ''force''))),
       (''build'', with_flags [format] (\<lambda>vals. doBuild cl (string_flag vals ''flag-format'' default_format))),
       (''start'', with_flags [] (\<lambda>_. startInstance_cmd cl)),
       (''check'', with_flags [] (\<lambda>_. checkInstances cl)),
       (''stop'', with_flags [] (\<lambda>_. stopInstance_cmd cl)),
       (''destroy'', with_flags [] (\<lambda>_. destroyBuilds cl)),
       (''reset'', with_flags [v] (\<lambda>vals. resetSystemState cl (bool_flag vals ''verbose''))),
       (''test'', with_flags [(''no-solve'', BoolFlag), (''require-solve'', BoolFlag), seed, format]
          (\<lambda>vals. testChallenges cl (bool_flag vals ''no-solve'') (bool_flag vals ''require-solve'')
             (int_flag vals ''seed'' (mn_Nanosecond mn)) (string_flag vals ''flag-format'' default_format))),
       (''dockerfile'', with_flags [(''output'', StringFlag)] (dockerfile_command mn)),
       (''convert-to-custom'', with_flags [] (\<lambda>_. mn_convert mn)),
       (''system-dump'', with_flags [(''summary'', BoolFlag), (''json'', BoolFlag)]
          (\<lambda>vals. dumpSystemState cl (bool_flag vals ''summary'') (bool_flag vals ''json''))),
       (''list-schemas'', with_flags [] (\<lambda>_. listSchemas cl)),
       (''add-schema'', with_flags [] (\<lambda>_. addSchema cl)),
       (''update-schema'', with_flags [] (\<lambda>_. updateSchema cl)),
       (''remove-schema'', with_flags [] (\<lambda>_. removeSchema cl)),
       (''show-schema'', with_flags [] (\<lambda>_. showSchema cl)),
       (''playtest'', with_flags [(''port'', IntFlag), seed, format] (playtest_command mn))])"

text \<open>The arguments without the name of the program; the usage text is left out of the output.\<close>

definition cmgr_main :: "'w main_env \<Rightarrow> string list \<Rightarrow> 'w command" where
  "cmgr_main mn args w =
     (case args of
        [] \<Rightarrow> ((NO_ERROR, []), w)
      | name # rest \<Rightarrow>
        if name = ''help'' then ((NO_ERROR, []), w)
        else if name = ''version'' then ((NO_ERROR, println (mn_Version mn)), w)
        else if \<not> mn_manager mn then ((RUNTIME_ERROR, []), w)
        else (case map_of (subcommands mn) name of
            None \<Rightarrow> ((USAGE_ERROR, println ''error: unrecognized command''), w)
          | Some body \<Rightarrow> body rest w))"

section \<open>cmgrd and the wrapper\<close>

text \<open>The exit code and what is printed, or the address on which the server listens.\<close>

definition cmgrd_main :: "string \<Rightarrow> bool \<Rightarrow> string list \<Rightarrow> (int \<times> string) + string" where
  "cmgrd_main version manager args =
     (case Parse [(''port'', IntFlag), (''address'', StringFlag), (''help'', BoolFlag), (''version'', BoolFlag)] [] args of
        Inl ErrHelp \<Rightarrow> Inl (0, [])
      | Inl (FlagError _) \<Rightarrow> Inl (2, [])
      | Inr (vals, _) \<Rightarrow>
        if bool_flag vals ''version'' then Inl (0, println (''Version: '' @ version))
        else if bool_flag vals ''help'' then Inl (0, [])
        else if \<not> manager then Inl (1, [])
        else Inr (string_flag vals ''address'' [] @ '':'' @ Itoa (int_flag vals ''port'' 4200)))"

definition interceptor_main :: "host \<Rightarrow> (json \<Rightarrow> int) \<Rightarrow> (string \<Rightarrow> string list \<Rightarrow> bundles \<Rightarrow> int option) \<Rightarrow> string list \<Rightarrow>
    reg_state \<times> bundles \<Rightarrow> int \<times> reg_state \<times> bundles" where
  "interceptor_main h len runc args s =
     (case args of
        sub # rest \<Rightarrow>
          if sub = ''register'' then (case register_main h len rest (fst s) of (code, r) \<Rightarrow> (int code, r, snd s))
          else (case RunRuntime runc args (snd s) of (code, _, fs) \<Rightarrow> (code, fst s, fs))
      | [] \<Rightarrow> (case RunRuntime runc args (snd s) of (code, _, fs) \<Rightarrow> (code, fst s, fs)))"

section \<open>What the programs leave alone\<close>

text \<open>A command line that is refused changes nothing: no manager, an unknown name, or flags that do not parse.\<close>

lemma refused_changes_nothing:
  assumes "\<not> mn_manager mn \<or> args = [] \<or> map_of (subcommands mn) (hd args) = None"
  shows "snd (cmgr_main mn args w) = w"
  using assms by (auto simp: cmgr_main_def split: list.splits)

lemma bad_flags_change_nothing: "Parse fs [] args = Inl e \<Longrightarrow> snd (with_flags fs body args w) = w"
  by (cases e) (auto simp: with_flags_def)

text \<open>A start of the runtime never touches Docker's configuration, and a registration never touches a bundle.\<close>

lemma wrapper_separates:
  assumes "interceptor_main h len runc args s = (code, r, fs)"
  shows "if args \<noteq> [] \<and> hd args = ''register'' then fs = snd s else r = fst s"
  using assms by (auto simp: interceptor_main_def split: list.splits if_splits prod.splits)

text \<open>Whatever is asked of the portal, no table, container or archive changes.\<close>

lemma same_trans: "same_world a b \<Longrightarrow> same_world b c \<Longrightarrow> same_world a c"
  by (simp add: same_world_def)

lemma host_call_same: "host_call what w = (r, w') \<Longrightarrow> same_world w w'"
  by (auto simp: host_call_def same_world_def Let_def split: if_splits)

lemma artifact_same: "same_world w (snd (artifactHandler po rq w))"
  using host_call_same by (fastforce simp: artifactHandler_def Let_def split: sum.splits option.splits prod.splits)

lemma submit_same: "same_world w (snd (submitHandler po flag rq w))"
  using same_db [OF lookupBuildMetadata_reads] by (fastforce simp: submitHandler_def split: sum.splits prod.splits)

lemma same_bnd:
  assumes "\<And>w. same_world w (snd (m w))" "\<And>x w. same_world w (snd (f x w))"
  shows "same_world w (snd (bnd m f w))"
proof -
  obtain r w1 where r: "m w = (r, w1)" by (rule prod.exhaust)
  have "same_world w w1" using assms(1) [of w] r by simp
  then show ?thesis using r same_trans [OF _ assms(2)] by (cases r) (simp_all add: bnd_def)
qed

lemma same_in_db: "reads_only m \<Longrightarrow> same_world w (snd (in_db m w))"
  by (rule same_db [of m _ "fst (in_db m w)"]) (simp_all only: prod.collapse)

lemma index_same: "same_world w (snd (indexHandler po rq w))"
proof -
  let ?all = "bnd (in_db (find_challenge (po_site po) (po_challenge po))) (\<lambda>c. bnd (in_db (lookupBuildMetadata (po_build po))) (\<lambda>b.
      bnd (in_db (lookupInstanceMetadata (po_instance po))) (\<lambda>i. ret (c, b, i))))"
  have "same_world w (snd (?all w))"
    by (intro same_bnd same_in_db reads_find_challenge lookupBuildMetadata_reads reads_lookupInstance) simp
  then show ?thesis by (auto simp: indexHandler_def split: prod.splits sum.splits)
qed

lemma portal_only_reads: "same_world w (portal_requests po rqs w)"
proof (induction po rqs w rule: portal_requests.induct)
  case (2 po rq flag rqs w)
  have "same_world w (snd (portal_request po rq flag w))"
    using artifact_same [of w po rq] submit_same [of w po flag rq] index_same [of w po rq] by (simp add: portal_request_def)
  then show ?case using 2 same_trans by simp
qed simp

end
