(* ===== verification/Startup.thy ===== *)
theory Startup
  imports Loading Migration Ports Policy OperationLock
begin

text \<open>
  The start of a manager: \<open>NewManager\<close> (\<open>cmgr/api.go\<close>), the paths of the operation locks
  (\<open>cmgr/operation_lock.go\<close>) and \<open>initDocker\<close> (\<open>cmgr/docker.go\<close>). What Docker and the lock files answer are
  arguments; the database of the start-up is that of \<open>Migration\<close>.
\<close>

section \<open>The locks beside the database\<close>

definition configuredDatabasePath :: "env \<Rightarrow> string" where
  "configuredDatabasePath e = (case e ''CMGR_DB'' of None \<Rightarrow> ''cmgr.db'' | Some p \<Rightarrow> p)"

text \<open>\<open>EvalSymlinks\<close> on a path: what it leads to, that it does not exist, or another error.\<close>

datatype link_result = Leads string | Missing | Broken err

definition canonicalDatabasePath :: "(string \<Rightarrow> link_result) \<Rightarrow> err + string \<Rightarrow> string \<Rightarrow> err + string" where
  "canonicalDatabasePath eval cwd databasePath =
     (if databasePath = [] \<or> databasePath = '':memory:'' then Inr []
      else case (if IsAbs databasePath then Inr [] else cwd) of
        Inl e \<Rightarrow> Inl (Wrap ''could not resolve database path'' e)
      | Inr wd \<Rightarrow>
        let absolute = Abs_path wd databasePath in
        (case eval absolute of
           Leads p \<Rightarrow> Inr p
         | Broken e \<Rightarrow> Inl (Wrap ''could not resolve database path'' e)
         | Missing \<Rightarrow>
           (case eval (Dir absolute) of
              Leads parent \<Rightarrow> Inr (Join_path parent (Base absolute))
            | Broken e \<Rightarrow> Inl (Wrap ''could not resolve database directory'' e)
            | Missing \<Rightarrow> Inl (Wrap ''could not resolve database directory'' (Plain ''file does not exist'')))))"

definition databaseOperationLockPath :: "(string \<Rightarrow> link_result) \<Rightarrow> err + string \<Rightarrow> string \<Rightarrow> err + string" where
  "databaseOperationLockPath eval cwd databasePath =
     (case canonicalDatabasePath eval cwd databasePath of
        Inl e \<Rightarrow> Inl e
      | Inr p \<Rightarrow> Inr (if p = [] then [] else p @ ''.cmgr.lock''))"

record lock_paths =
  operationLockPath :: string
  lp_gate :: string
  lp_port :: string

definition initOperationLock :: "(string \<Rightarrow> link_result) \<Rightarrow> err + string \<Rightarrow> env \<Rightarrow> err + lock_paths" where
  "initOperationLock eval cwd e =
     (case databaseOperationLockPath eval cwd (configuredDatabasePath e) of
        Inl err \<Rightarrow> Inl err
      | Inr p \<Rightarrow> Inr (if p = [] then \<lparr>operationLockPath = [], lp_gate = [], lp_port = []\<rparr>
          else \<lparr>operationLockPath = p, lp_gate = p @ ''.gate'', lp_port = p @ ''.ports''\<rparr>))"

definition operationGatePath :: "lock_paths \<Rightarrow> string" where
  "operationGatePath m =
     (if lp_gate m \<noteq> [] then lp_gate m else if operationLockPath m = [] then [] else operationLockPath m @ ''.gate'')"

definition portAllocationLockPath :: "lock_paths \<Rightarrow> string" where
  "portAllocationLockPath m =
     (if lp_port m \<noteq> [] then lp_port m else if operationLockPath m = [] then [] else operationLockPath m @ ''.ports'')"

section \<open>Docker\<close>

record docker_info =
  di_host :: host_info
  di_Driver :: string
  di_DriverStatus :: "string list list"

definition EqualFold :: "string \<Rightarrow> string \<Rightarrow> bool" where
  "EqualFold a b \<longleftrightarrow> ToLower a = ToLower b"

definition quotas_supported :: "docker_info \<Rightarrow> bool" where
  "quotas_supported info \<longleftrightarrow>
     di_Driver info = ''zfs'' \<or>
     di_Driver info = ''overlay2'' \<and>
       list_ex (\<lambda>status. length status \<ge> 2 \<and> EqualFold (status ! 0) ''Backing Filesystem'' \<and> EqualFold (status ! 1) ''xfs'')
         (di_DriverStatus info)"

record docker_setup =
  ds_quotas :: bool
  ds_interface :: string
  ds_registry :: string
  ds_auth :: string
  ds_ports :: "int \<times> int"

text \<open>\<open>client\<close> and \<open>ping\<close> are the errors of the two calls, \<open>encode\<close> encodes user, token and server address.\<close>

definition initDocker :: "(string \<times> string \<times> string \<Rightarrow> err + string) \<Rightarrow> err option \<Rightarrow> err option \<Rightarrow> err + docker_info \<Rightarrow> env \<Rightarrow>
    err + docker_setup" where
  "initDocker encode client ping answer e =
     (case client of Some err \<Rightarrow> Inl err
      | None \<Rightarrow>
      case ping of Some err \<Rightarrow> Inl err
      | None \<Rightarrow>
      let quotas = (e ''CMGR_ENABLE_DISK_QUOTAS'' \<noteq> None \<and> (case answer of Inl _ \<Rightarrow> False | Inr info \<Rightarrow> quotas_supported info));
          iface = (case e ''CMGR_INTERFACE'' of None \<Rightarrow> ''0.0.0.0'' | Some i \<Rightarrow> i);
          registry = (case e ''CMGR_REGISTRY'' of None \<Rightarrow> [] | Some r \<Rightarrow> r);
          value = (\<lambda>name. case e name of None \<Rightarrow> [] | Some v \<Rightarrow> v) in
      case (if e ''CMGR_REGISTRY'' = None then Inr []
            else encode (value ''CMGR_REGISTRY_USER'', value ''CMGR_REGISTRY_TOKEN'', takeWhile (\<lambda>c. c \<noteq> CHR ''/'') registry)) of
        Inl err \<Rightarrow> Inl (Wrap ''could not encode registry authentication'' err)
      | Inr auth \<Rightarrow>
        (case getPortRange e of
           Inl err \<Rightarrow> Inl err
         | Inr ports \<Rightarrow> Inr \<lparr>ds_quotas = quotas, ds_interface = iface, ds_registry = registry, ds_auth = auth, ds_ports = ports\<rparr>))"

section \<open>The manager\<close>

text \<open>
  What the environment of the process answers: directories, parsers of numbers and durations, Docker, the
  resolution of links, and the two attempts at the operation lock.
\<close>

record process =
  p_env :: env
  p_cwd :: string
  p_kind :: "string \<Rightarrow> file_kind option"
  p_rat :: "string \<Rightarrow> rat option"
  p_ram :: "string \<Rightarrow> int option"
  p_duration :: "string \<Rightarrow> int option"
  p_encode :: "string \<times> string \<times> string \<Rightarrow> err + string"
  p_client :: "err option"
  p_ping :: "err option"
  p_info :: "err + docker_info"
  p_eval :: "string \<Rightarrow> link_result"
  p_try_exclusive :: "err + bool"
  p_shared :: "err + bool"

record manager_setup =
  ms_directories :: "string \<times> string"
  ms_policy :: "ContainerOptions \<times> managerPolicy"
  ms_docker :: docker_setup
  ms_locks :: lock_paths
  ms_cleanup :: bool

text \<open>\<open>None\<close> is the nil manager; \<open>ms_cleanup\<close> says that the deferred clean-up is run, whose error is only logged.\<close>

definition NewManager :: "process \<Rightarrow> surroundings \<Rightarrow> startup \<Rightarrow> manager_setup option \<times> startup" where
  "NewManager p env s =
     (case sbind (setDirectories (p_kind p) (p_cwd p) (p_env p)) (\<lambda>dirs.
           sbind (initPolicy (p_rat p) (p_ram p) (p_duration p) (p_env p)) (\<lambda>pol.
           sbind (initDocker (p_encode p) (p_client p) (p_ping p) (p_info p) (p_env p)) (\<lambda>docker.
           sbind (initOperationLock (p_eval p) (Inr (p_cwd p)) (p_env p)) (\<lambda>locks.
           sbind (acquireStartupOperationLock (p_try_exclusive p) (p_shared p)) (\<lambda>exclusive.
           Inr \<lparr>ms_directories = dirs, ms_policy = pol, ms_docker = docker, ms_locks = locks, ms_cleanup = exclusive\<rparr>))))) of
        Inl _ \<Rightarrow> (None, s)
      | Inr setup \<Rightarrow>
        (case initDatabaseWithSchemaChanges
            (env\<lparr>canonicalPath := canonicalDatabasePath (p_eval p) (Inr (p_cwd p)) (configuredDatabasePath (p_env p))\<rparr>)
            (ms_cleanup setup) s of
           (Inl _, s') \<Rightarrow> (None, s')
         | (Inr _, s') \<Rightarrow> (Some setup, s')))"

section \<open>Facts about the start\<close>

lemma lock_paths_differ:
  assumes "initOperationLock eval cwd e = Inr m" "operationLockPath m \<noteq> []"
  shows "distinct [operationLockPath m, operationGatePath m, portAllocationLockPath m]"
  using assms by (auto simp: initOperationLock_def operationGatePath_def portAllocationLockPath_def split: sum.splits if_splits)

text \<open>Two processes that reach the same file, from wherever they were started, wait for the same locks.\<close>

lemma same_database_same_locks:
  assumes "canonicalDatabasePath eval cwd (configuredDatabasePath e) = canonicalDatabasePath eval' cwd' (configuredDatabasePath e')"
  shows "initOperationLock eval cwd e = initOperationLock eval' cwd' e'"
  using assms by (simp add: initOperationLock_def databaseOperationLockPath_def)

lemma docker_setup_ok:
  assumes "initDocker encode client ping answer e = Inr ds"
  shows "getPortRange e = Inr (ds_ports ds)" "ds_quotas ds \<Longrightarrow> e ''CMGR_ENABLE_DISK_QUOTAS'' \<noteq> None \<and> (\<exists>i. answer = Inr i \<and> quotas_supported i)"
  using assms by (auto simp: initDocker_def Let_def split: option.splits sum.splits if_splits)

text \<open>A manager that comes up has a valid range of ports and two directories, and its lock follows its database.\<close>

lemma started_manager:
  assumes "NewManager p env s = (Some ms, s')"
  shows "setDirectories (p_kind p) (p_cwd p) (p_env p) = Inr (ms_directories ms)"
    "getPortRange (p_env p) = Inr (ds_ports (ms_docker ms))"
    "initOperationLock (p_eval p) (Inr (p_cwd p)) (p_env p) = Inr (ms_locks ms)"
    "\<exists>env'. initDatabaseWithSchemaChanges env' (ms_cleanup ms) s = (Inr (), s')"
  using assms docker_setup_ok(1)
  by (auto simp: NewManager_def sbind_Inr_iff split: sum.splits prod.splits)

end
