(* ===== verification/Spec2Isabelle.thy ===== *)
theory Spec2Isabelle
  imports Prelude GoText OperationLock Types KeyedMutex Policy BuildStore InstanceStore Interceptor Register Seccomp ChallengeStore Ports Starting Convergence Solver Migration Server Convert Commands Startup
begin

text \<open>
  A verification development for cmgr, the challenge manager written in Go under \<open>src/\<close>.

  \<^bold>\<open>The program.\<close> cmgr keeps security challenges: it reads their descriptions from a directory
  (\<open>loader*.go\<close>, \<open>filesystem.go\<close>), records them in SQLite (\<open>database*.go\<close>), makes Docker images and artifact
  archives of them for a flag and a seed (\<open>docker.go\<close>, \<open>artifacts.go\<close>), starts and stops containers on host
  ports (\<open>docker.go\<close>), checks them with a solver (\<open>solver_framework.go\<close>), updates them in place with a rollback
  (\<open>api.go\<close>, \<open>database_challenges.go\<close>), and keeps declared sets of builds and instances converged (schemas,
  \<open>api.go\<close>). A barrier of locks (\<open>operation_lock.go\<close>) lets processes share one database. Two programs drive the
  library, the command line (\<open>cmd/cmgr\<close>) and an HTTP service (\<open>cmd/cmgrd\<close>); a third wraps the OCI runtime of
  Docker to apply seccomp tweaks (\<open>internal/ociinterceptor\<close>, \<open>cmd/cmgr-oci-interceptor\<close>) and registers itself
  with Docker. Source files below are those of \<open>src/cmgr\<close> unless a directory is named.

  \<^bold>\<open>Shared ground.\<close>
  \<^item> \<open>Prelude\<close>: Go's errors, and operations on a state that return an error or a value beside the new state
    (\<open>act\<close>), with their sequencing and the loops over lists; the collections of lemmas. An operation that fails
    keeps the state it has reached, as in Go.
  \<^item> \<open>GoText\<close>, \<open>Regex\<close>, \<open>Json\<close>, \<open>Flags\<close>: the part of Go's \<open>strings\<close>, \<open>strconv\<close>, \<open>filepath\<close>, \<open>regexp\<close>,
    \<open>encoding/json\<close> (on values) and \<open>flag\<close> that the program uses, with their round trips and bounds.
  \<^item> \<open>Types\<close>: \<open>types.go\<close>, \<open>errors.go\<close>, \<open>logging.go\<close>. \<open>Policy\<close>: \<open>policy.go\<close>, \<open>cpu.go\<close>.

  \<^bold>\<open>Locks.\<close> \<open>OperationLock\<close> (\<open>operation_lock.go\<close>) and \<open>KeyedMutex\<close> (build locks of \<open>docker.go\<close>, port locks) are
  interleaving step relations over any number of threads and processes, with mutual exclusion, no bypass,
  absence of deadlock and the return of attempts. The other theories are about one operation at a time, the one
  that holds the lock.

  \<^bold>\<open>The database.\<close> \<open>Database\<close> has the tables and the constraints of \<open>schemaQuery\<close>, transactions, and a list of
  faults that says which statements fail; \<open>BuildStore\<close>, \<open>InstanceStore\<close> and \<open>ChallengeStore\<close> are the statements of
  \<open>database_builds.go\<close>, \<open>database_instances.go\<close> and \<open>database_challenges.go\<close>. The locale \<open>db_operation\<close> states
  what a transaction owes (nothing changes on failure, the constraints hold after success) and is interpreted on
  them. \<open>Migration\<close> is the start of \<open>database.go\<close>: initialisation, migrations, the copy made before them, and the
  latch of an unfinished one, over an SQLite file and a disk whose calls may fail.

  \<^bold>\<open>Challenges on disk.\<close> \<open>Filesystem\<close> (walk, digests, names), \<open>BuildContext\<close> (the tar stream for the daemon and the
  built-in Dockerfiles), \<open>Templates\<close> (the templates in texts, validation of metadata and of builds), \<open>Dockerfile\<close>
  (stages and directives), \<open>Markdown\<close>, \<open>Loading\<close> and \<open>Changes\<close> (\<open>DetectChanges\<close>). The tree of a challenge does not
  change during one operation.

  \<^bold>\<open>Docker.\<close> \<open>Daemon\<close> is the interface of the program with the daemon and the host: a state of unknown type, one
  function per request, and calls of the host that may fail. \<open>Ports\<close>, \<open>Containers\<close>, \<open>Instances\<close>, \<open>BuildNames\<close>,
  \<open>Artifacts\<close>, \<open>Images\<close>, \<open>Builds\<close> and \<open>Solver\<close> are \<open>docker.go\<close>, \<open>artifacts.go\<close> and \<open>solver_framework.go\<close> on top of
  it. \<open>Tracking\<close> states the contract of an operation on containers as the locale \<open>container_operation\<close> (no
  container is left that the database does not know) and interprets it on every such operation; \<open>Starting\<close> is about
  the limits that reach a container; \<open>Frames\<close> about what each operation leaves alone.

  \<^bold>\<open>Operations on everything.\<close> \<open>Updating\<close> (\<open>Update\<close>, \<open>updateChallengesInternal\<close>), \<open>Schemas\<close> (\<open>Build\<close>, \<open>Start\<close>,
  \<open>Stop\<close>, \<open>Destroy\<close>, \<open>Freeze\<close>, the schemas of \<open>api.go\<close>) and \<open>Convergence\<close> (what a convergence that fails leaves alone).
  \<open>Startup\<close> is \<open>NewManager\<close> with \<open>initDocker\<close> and the paths of the locks.

  \<^bold>\<open>The wrapper.\<close> \<open>Interceptor\<close> (\<open>interceptor.go\<close>, \<open>runtime.go\<close>), \<open>Register\<close> and \<open>Host\<close> (\<open>register.go\<close>: the change of
  \<open>daemon.json\<close> with its rollback, and what the command asks of the host before it trusts it), \<open>Seccomp\<close>
  (\<open>seccomp.go\<close>: the policies that ask for the wrapper).

  \<^bold>\<open>The programs.\<close> \<open>Server\<close> (\<open>cmd/cmgrd/main.go\<close>, the handlers), \<open>Cli\<close> (the subcommands of \<open>cmd/cmgr\<close>), \<open>Convert\<close>
  (\<open>convert-to-custom\<close>), \<open>Playtest\<close> (the portal of \<open>playtest\<close>), \<open>Commands\<close> (flags, dispatch, the three \<open>main\<close>
  functions).

  \<^bold>\<open>What is shown.\<close> The properties carry the identifiers C1 to C40 in the text before them. Locks: C1 to C4, C6.
  Policy and confinement: C5, C14, C18, C22, C26. Database: C7 to C9, C12, C13, C17, C20, C21. Registration: C15,
  C16, C22. Ports and containers: C23 to C25. Artifacts, images and builds: C28 to C31, C37. Challenges on disk:
  C32 to C36. Update, schemas and solver: C38 to C40. The programs: C10, C11, C19, C27. Each theory also has the
  lemmas about its own operations, and lemmas that show where the code does not do what it means to; these are
  named in the manifest.

  \<^bold>\<open>Bounds and fuel.\<close> Recursions that are not structural have a termination proof (\<open>migrateDatabase\<close>: the
  versions that are left; \<open>Parse\<close>: the arguments that are left). The fuel of \<open>star\<close> in \<open>Regex\<close>, of the searches
  and of \<open>replace_all\<close> is the length of the text, every turn moves on by a character, and \<open>star_enough\<close>
  shows that more changes nothing. The ten inspections of a starting container are the code's own bound. Loops
  without a bound are \<open>partial_function\<close>s: \<open>expand_all\<close> in \<open>Playtest\<close> returns when no value holds a brace
  (C19) and does not for a value that is its own template; \<open>directories_above\<close> and \<open>poll_registration\<close> in \<open>Host\<close>
  return for absolute paths and for a clock that advances with the sleep.

  \<^bold>\<open>Conventions.\<close> A string is a list of bytes, and functions of characters are those of ASCII. Go maps that a loop
  ranges over are association lists in the order of the loop. Integers are \<open>int\<close> with the range checks of the
  parsers written out; words are used where the code works on bits. Faults are lists of truth values, so that
  every statement about failure covers any combination of failing calls. Messages are reduced to what the
  program distinguishes. Removing temporary files and the deferred closing of files are left out where nothing
  reads them afterwards.

  \<^bold>\<open>Parameters.\<close> The Docker daemon, the JSON, YAML and Markdown texts, gzip and tar encodings, SHA-256, random
  numbers and the clock, number parsing of quantities, the HTML sanitizer and templates, and the resolution of
  symbolic links are arguments of the definitions that use them; laws that a property needs of them are
  hypotheses of that property, each met by a concrete function in its witness.

  \<^bold>\<open>Not modelled.\<close> The texts of usage and log messages; the HTTP listeners, their timeouts and the redirects of the
  multiplexer; partial writes to a client; the embedded default seccomp profile and the decoder of custom
  profiles (arguments of \<open>Seccomp\<close>); the temporary file inside \<open>replaceFile\<close> of the wrapper (one step that may
  fail); the semaphore that bounds concurrent builds; changes of the challenge directory during an operation.
\<close>

end
